(* ===== verification/Prelude.thy ===== *)
theory Prelude
  imports Main "HOL-Library.AList" "HOL-Library.Word" "HOL-Library.List_Lexorder"
    "HOL-Library.Char_ord" "HOL-Library.Multiset" "HOL-Library.Product_Lexorder"
begin

text \<open>
  Shared vocabulary of the development.

  \<^item> Go strings and byte slices are both sequences of 8-bit values; a \<^typ>\<open>char\<close> is such a
    value, so both are \<open>bytes\<close> and the conversion \<open>[]byte(s)\<close> is the identity.
  \<^item> A Go \<open>map\<close> is an association list; \<open>mget\<close>, \<open>mput\<close>, \<open>mdel\<close> read, store and delete
    a key. A range loop that deletes the entries it selects is \<open>mkeep\<close>. Iteration order
    is unspecified in Go: statements about such loops speak of \<open>mget\<close> and of key sets.
  \<^item> \<open>time.Time\<close> and \<open>time.Duration\<close> are integers counting nanoseconds; \<open>i64\<close> is the
    two's-complement wrap-around of \<open>int64\<close> arithmetic.
  \<^item> The locale \<open>prefix_code\<close> is the contract of an encoding that can be peeled off the
    front of a byte string; \<open>expiry\<close> is the contract of a time-limited entry. Component
    theories interpret both on the code's own definitions.
\<close>

section \<open>Types\<close>

type_synonym byte = char
type_synonym bytes = "byte list"
type_synonym go_time = int
type_synonym duration = int
type_synonym ('k, 'v) gomap = "('k \<times> 'v) list"

named_theorems go_map "how the map operations act on lookups and keys"
named_theorems wire "unfolding of canonical byte layouts into concatenations of fields"

section \<open>Fixed-width integers\<close>

definition i64 :: "int \<Rightarrow> int" where
  "i64 x = (x + 2 ^ 63) mod 2 ^ 64 - 2 ^ 63"

definition second :: duration where "second = 1000000000"
definition minute :: duration where "minute = 60 * second"
definition hour :: duration where "hour = 60 * minute"

text \<open>\<open>int(d.Seconds())\<close>: whole seconds, truncated towards zero.\<close>

definition whole_seconds :: "duration \<Rightarrow> int" where
  "whole_seconds d = sgn d * (\<bar>d\<bar> div second)"

text \<open>Lengths a Go slice can have.\<close>

definition fits :: "'a list \<Rightarrow> bool" where
  "fits xs \<longleftrightarrow> length xs < 2 ^ 64"

text \<open>Big-endian bytes of a 64-bit value, as \<open>binary.BigEndian.PutUint64\<close> writes them.\<close>

definition be64 :: "64 word \<Rightarrow> bytes" where
  "be64 w = map (\<lambda>i. char_of (unat w div 256 ^ i)) [7, 6, 5, 4, 3, 2, 1, 0]"

section \<open>Maps\<close>

abbreviation mget :: "('k, 'v) gomap \<Rightarrow> 'k \<Rightarrow> 'v option" where
  "mget m k \<equiv> map_of m k"

abbreviation mput :: "'k \<Rightarrow> 'v \<Rightarrow> ('k, 'v) gomap \<Rightarrow> ('k, 'v) gomap" where
  "mput \<equiv> AList.update"

abbreviation mdel :: "'k \<Rightarrow> ('k, 'v) gomap \<Rightarrow> ('k, 'v) gomap" where
  "mdel \<equiv> AList.delete"

abbreviation keys :: "('k, 'v) gomap \<Rightarrow> 'k list" where
  "keys m \<equiv> map fst m"

definition mkeep :: "('k \<Rightarrow> 'v \<Rightarrow> bool) \<Rightarrow> ('k, 'v) gomap \<Rightarrow> ('k, 'v) gomap" where
  "mkeep P m = filter (\<lambda>(k, v). P k v) m"

text \<open>A list holds at most one binding per key: what every Go map is.\<close>

abbreviation is_map :: "('k, 'v) gomap \<Rightarrow> bool" where
  "is_map m \<equiv> distinct (keys m)"

declare map_of_eq_Some_iff [simp del] Some_eq_map_of_iff [simp del]

lemma mget_mput [go_map, simp]: "mget (mput k v m) x = (if x = k then Some v else mget m x)"
  by (simp add: update_conv')

lemma mget_mdel [go_map, simp]: "mget (mdel k m) x = (if x = k then None else mget m x)"
  by (simp add: delete_conv')

lemma is_map_mput [go_map, simp]: "is_map m \<Longrightarrow> is_map (mput k v m)"
  by (rule distinct_update)

lemma is_map_mdel [go_map, simp]: "is_map m \<Longrightarrow> is_map (mdel k m)"
  by (rule distinct_delete)

lemma set_keys_mput [go_map, simp]: "set (keys (mput k v m)) = insert k (set (keys m))"
  by (simp add: update_keys insert_absorb)

lemma set_keys_mdel [go_map, simp]: "set (keys (mdel k m)) = set (keys m) - {k}"
  by (auto simp: AList.delete_eq)

lemma image_fst_mput [simp]: "fst ` set (mput k v m) = insert k (fst ` set m)"
  using set_keys_mput [of k v m] by (simp only: set_map)

lemma mget_Some_key: "mget m k = Some v \<Longrightarrow> k \<in> set (keys m)"
  by (force dest: map_of_SomeD)

lemma mget_None_iff: "mget m k = None \<longleftrightarrow> k \<notin> set (keys m)"
  by (simp add: map_of_eq_None_iff)

lemma key_iff_mget: "k \<in> set (keys m) \<longleftrightarrow> (\<exists>v. mget m k = Some v)"
  using mget_None_iff [of m k] by (cases "mget m k") auto

lemma mget_mkeep [go_map]:
  "is_map m \<Longrightarrow> mget (mkeep P m) k =
     (case mget m k of None \<Rightarrow> None | Some v \<Rightarrow> if P k v then Some v else None)"
  by (induction m) (auto simp: mkeep_def map_of_eq_None_iff split: option.splits)

lemma is_map_mkeep [go_map, simp]: "is_map m \<Longrightarrow> is_map (mkeep P m)"
  unfolding mkeep_def by (rule distinct_map_filter)

lemma keys_mkeep_subset: "set (keys (mkeep P m)) \<subseteq> set (keys m)"
  by (auto simp: mkeep_def)

lemma length_mkeep_le: "length (mkeep P m) \<le> length m"
  by (simp add: mkeep_def)

lemma length_mput_new: "k \<notin> set (keys m) \<Longrightarrow> length (mput k v m) = Suc (length m)"
  by (induction m) auto

lemma length_mput_old: "k \<in> set (keys m) \<Longrightarrow> length (mput k v m) = length m"
  by (induction m) auto

lemma length_mdel_le: "length (mdel k m) \<le> length m"
  by (simp add: length_delete_le)

lemma mkeep_all: "(\<And>k v. (k, v) \<in> set m \<Longrightarrow> P k v) \<Longrightarrow> mkeep P m = m"
  by (auto simp: mkeep_def intro!: filter_True)

lemma mkeep_mkeep: "mkeep P (mkeep Q m) = mkeep (\<lambda>k v. Q k v \<and> P k v) m"
  by (auto simp: mkeep_def intro!: filter_cong)

lemma is_map_length_card: "is_map m \<Longrightarrow> length m = card (set (keys m))"
  using distinct_card [of "keys m"] by simp

section \<open>Wrap-around\<close>

lemma i64_range: "- (2 ^ 63) \<le> i64 x \<and> i64 x < 2 ^ 63"
  by (simp add: i64_def)

lemma i64_id: "- (2 ^ 63) \<le> x \<Longrightarrow> x < 2 ^ 63 \<Longrightarrow> i64 x = x"
  by (simp add: i64_def)

section \<open>Encodings that peel off the front\<close>

locale prefix_code =
  fixes enc :: "'a \<Rightarrow> bytes" and ok :: "'a \<Rightarrow> bool"
  assumes peel: "ok a \<Longrightarrow> ok b \<Longrightarrow> enc a @ x = enc b @ y \<Longrightarrow> a = b \<and> x = y"
begin

lemma enc_inj: "ok a \<Longrightarrow> ok b \<Longrightarrow> enc a = enc b \<Longrightarrow> a = b"
  using peel [of a b "[]" "[]"] by simp

lemma peel_iff: "ok a \<Longrightarrow> ok b \<Longrightarrow> enc a @ x = enc b @ y \<longleftrightarrow> a = b \<and> x = y"
  using peel by blast

lemma peel_list:
  "list_all ok as \<Longrightarrow> list_all ok bs \<Longrightarrow> length as = length bs \<Longrightarrow>
   concat (map enc as) @ x = concat (map enc bs) @ y \<Longrightarrow> as = bs \<and> x = y"
proof (induction as arbitrary: bs)
  case Nil
  then show ?case by simp
next
  case (Cons a as)
  from Cons.prems(3) obtain b bs' where bs: "bs = b # bs'"
    by (cases bs) auto
  have "enc a @ (concat (map enc as) @ x) = enc b @ (concat (map enc bs') @ y)"
    using Cons.prems(4) bs by simp
  then have "a = b" and "concat (map enc as) @ x = concat (map enc bs') @ y"
    using peel Cons.prems(1,2) bs by (auto dest: peel)
  with Cons.IH [of bs'] Cons.prems bs show ?case by simp
qed

end

locale prefix_pair = A: prefix_code enc1 ok1 + B: prefix_code enc2 ok2
  for enc1 :: "'a \<Rightarrow> bytes" and ok1 and enc2 :: "'b \<Rightarrow> bytes" and ok2

sublocale prefix_pair \<subseteq> prod: prefix_code "\<lambda>(a, b). enc1 a @ enc2 b" "\<lambda>(a, b). ok1 a \<and> ok2 b"
proof unfold_locales
  fix p q :: "'a \<times> 'b" and x y
  obtain a b c d where [simp]: "p = (a, b)" "q = (c, d)" by fastforce
  assume p: "case p of (a, b) \<Rightarrow> ok1 a \<and> ok2 b" and q: "case q of (a, b) \<Rightarrow> ok1 a \<and> ok2 b"
    and eq: "(case p of (a, b) \<Rightarrow> enc1 a @ enc2 b) @ x = (case q of (a, b) \<Rightarrow> enc1 a @ enc2 b) @ y"
  from p q eq have "a = c" and "enc2 b @ x = enc2 d @ y"
    using A.peel [of a c "enc2 b @ x" "enc2 d @ y"] by auto
  with p q show "p = q \<and> x = y" using B.peel [of b d x y] by simp
qed

subsection \<open>Big-endian integers\<close>

lemma length_be64 [simp]: "length (be64 w) = 8"
  by (simp add: be64_def)

definition of_be64 :: "bytes \<Rightarrow> nat" where
  "of_be64 bs = foldl (\<lambda>n c. n * 256 + of_char c) 0 bs"

lemma digit_step:
  assumes "m = Suc k"
  shows "(n::nat) div 256 ^ m * 256 + n div 256 ^ k mod 256 = n div 256 ^ k"
proof -
  have "n div 256 ^ m = n div 256 ^ k div 256"
    unfolding assms by (simp only: power_Suc2 div_mult2_eq)
  then show ?thesis by simp
qed

lemma of_be64_digits:
  assumes "(n::nat) < 256 ^ 8"
  shows "of_be64 (map (\<lambda>i. char_of (n div 256 ^ i)) [7, 6, 5, 4, 3, 2, 1, 0]) = n"
proof -
  have top: "n div 256 ^ 7 mod 256 = n div 256 ^ 7"
    using assms by (simp add: less_mult_imp_div_less)
  have "of_be64 (map (\<lambda>i. char_of (n div 256 ^ i)) [7, 6, 5, 4, 3, 2, 1, 0]) =
    ((((((n div 256 ^ 7 mod 256 * 256 + n div 256 ^ 6 mod 256) * 256 + n div 256 ^ 5 mod 256) * 256 +
      n div 256 ^ 4 mod 256) * 256 + n div 256 ^ 3 mod 256) * 256 + n div 256 ^ 2 mod 256) * 256 +
      n div 256 ^ 1 mod 256) * 256 + n div 256 ^ 0 mod 256"
    by (simp add: of_be64_def)
  also have "\<dots> = n"
    using digit_step [of 7 6 n] digit_step [of 6 5 n] digit_step [of 5 4 n] digit_step [of 4 3 n]
      digit_step [of 3 2 n] digit_step [of 2 1 n] digit_step [of 1 0 n]
    by (simp only: top) simp
  finally show ?thesis .
qed

lemma of_be64_be64: "of_be64 (be64 w) = unat w"
  unfolding be64_def using unsigned_less [of w] by (intro of_be64_digits) simp

lemma be64_inj: "be64 v = be64 w \<Longrightarrow> v = w"
  using of_be64_be64 [of v] of_be64_be64 [of w] by (simp add: word_unat_eq_iff)

lemma be64_length_eq: "fits xs \<Longrightarrow> fits ys \<Longrightarrow>
    be64 (word_of_nat (length xs)) = be64 (word_of_nat (length ys)) \<Longrightarrow> length xs = length ys"
  by (drule be64_inj) (simp add: fits_def word_unat_eq_iff unat_of_nat take_bit_nat_eq_self)

interpretation be64c: prefix_code be64 "\<lambda>_. True"
  by unfold_locales (auto dest: be64_inj)

subsection \<open>Counted runs\<close>

text \<open>A run of codes behind its 64-bit count peels off as a whole.\<close>

context prefix_code begin

lemma peel_counted:
  assumes "list_all ok as" "list_all ok bs" "fits as" "fits bs"
    and eq: "be64 (word_of_nat (length as)) @ concat (map enc as) @ x =
      be64 (word_of_nat (length bs)) @ concat (map enc bs) @ y"
  shows "as = bs \<and> x = y"
proof -
  from eq have "be64 (word_of_nat (length as)) = be64 (word_of_nat (length bs))"
    and rest: "concat (map enc as) @ x = concat (map enc bs) @ y" by simp_all
  with assms(3,4) have "length as = length bs" by (auto dest: be64_length_eq)
  with rest show ?thesis using peel_list assms(1,2) by blast
qed

end

section \<open>Entries that expire\<close>

text \<open>
  A store of time-limited entries decides from the current time and the entry alone
  whether the entry is still live, and an entry that has died stays dead.
\<close>

locale expiry =
  fixes live :: "go_time \<Rightarrow> 'v \<Rightarrow> bool"
  assumes stays_dead: "s \<le> t \<Longrightarrow> live t v \<Longrightarrow> live s v"
begin

lemma sweep_get: "is_map m \<Longrightarrow>
    mget (mkeep (\<lambda>_. live t) m) k = (case mget m k of None \<Rightarrow> None | Some v \<Rightarrow> if live t v then Some v else None)"
  by (rule mget_mkeep)

lemma sweep_keeps_live: "is_map m \<Longrightarrow> mget m k = Some v \<Longrightarrow> live t v \<Longrightarrow>
    mget (mkeep (\<lambda>_. live t) m) k = Some v"
  by (simp add: mget_mkeep)

lemma sweep_drops_dead: "is_map m \<Longrightarrow> mget m k = Some v \<Longrightarrow> \<not> live t v \<Longrightarrow>
    mget (mkeep (\<lambda>_. live t) m) k = None"
  by (simp add: mget_mkeep)

lemma sweep_twice: "s \<le> t \<Longrightarrow> mkeep (\<lambda>_. live t) (mkeep (\<lambda>_. live s) m) = mkeep (\<lambda>_. live t) m"
  using stays_dead by (auto simp: mkeep_mkeep mkeep_def intro!: filter_cong)

lemma sweep_invisible:
  assumes "is_map m" and "s \<le> t" and "mget m k = Some v" and "live t v"
  shows "mget (mkeep (\<lambda>_. live s) m) k = Some v"
  using assms stays_dead by (simp add: mget_mkeep)

end

end
