(* ===== verification/Encoding.thy ===== *)
theory Encoding
  imports Prelude
begin

text \<open>
  The text encodings of Go's standard library the program relies on: \<open>encoding/hex\<close>
  (lower-case output, either case accepted on input, odd length refused) and
  \<open>encoding/base64\<close> (\<open>StdEncoding\<close> with padding, \<open>RawURLEncoding\<close> without; the decoder skips
  carriage returns and line feeds and ignores unused trailing bits, as the non-strict
  Go decoder does).

  The lemmas are the round trips: decoding what was encoded gives the bytes back.
\<close>

section \<open>Hexadecimal\<close>

definition hex_digits :: string where "hex_digits = ''0123456789abcdef''"

definition hex_char :: "nat \<Rightarrow> char" where "hex_char n = hex_digits ! n"

fun hex_encode :: "bytes \<Rightarrow> string" where
  "hex_encode [] = []"
| "hex_encode (c # cs) = hex_char (of_char c div 16) # hex_char (of_char c mod 16) # hex_encode cs"

definition hex_val :: "char \<Rightarrow> nat option" where
  "hex_val c = (let n = of_char c :: nat in
     if 48 \<le> n \<and> n \<le> 57 then Some (n - 48)
     else if 97 \<le> n \<and> n \<le> 102 then Some (n - 87)
     else if 65 \<le> n \<and> n \<le> 70 then Some (n - 55)
     else None)"

fun hex_decode :: "string \<Rightarrow> bytes option" where
  "hex_decode [] = Some []"
| "hex_decode [_] = None"
| "hex_decode (a # b # cs) =
     (case (hex_val a, hex_val b) of
        (Some x, Some y) \<Rightarrow> map_option (\<lambda>bs. char_of (16 * x + y) # bs) (hex_decode cs)
      | _ \<Rightarrow> None)"

section \<open>Base 64\<close>

text \<open>The alphabets \<open>A-Za-z0-9+/\<close> and \<open>A-Za-z0-9-_\<close>, by digit value.\<close>

definition b64_chr :: "bool \<Rightarrow> nat \<Rightarrow> char" where
  "b64_chr url n =
    (if n < 26 then char_of (n + 65)
     else if n < 52 then char_of (n + 71)
     else if n < 62 then char_of (n - 4)
     else if n = 62 then (if url then CHR ''-'' else CHR ''+'')
     else (if url then CHR ''_'' else CHR ''/''))"

text \<open>The four six-bit digits of a three-byte group.\<close>

definition sextets :: "nat \<Rightarrow> nat \<Rightarrow> nat \<Rightarrow> nat list" where
  "sextets a b c = [a div 4, a mod 4 * 16 + b div 16, b mod 16 * 4 + c div 64, c mod 64]"

fun b64_encode :: "bool \<Rightarrow> bool \<Rightarrow> bytes \<Rightarrow> string" where
  "b64_encode url pad [] = []"
| "b64_encode url pad [a] =
     map (b64_chr url) (take 2 (sextets (of_char a) 0 0)) @ (if pad then ''=='' else [])"
| "b64_encode url pad [a, b] =
     map (b64_chr url) (take 3 (sextets (of_char a) (of_char b) 0)) @ (if pad then ''='' else [])"
| "b64_encode url pad (a # b # c # cs) =
     map (b64_chr url) (sextets (of_char a) (of_char b) (of_char c)) @ b64_encode url pad cs"

definition std_encode :: "bytes \<Rightarrow> string" where "std_encode = b64_encode False True"

definition rawurl_encode :: "bytes \<Rightarrow> string" where "rawurl_encode = b64_encode True False"

text \<open>\<open>StdEncoding.DecodeString\<close>.\<close>

definition b64_val :: "char \<Rightarrow> nat option" where
  "b64_val c = (let n = of_char c :: nat in
     if 65 \<le> n \<and> n \<le> 90 then Some (n - 65)
     else if 97 \<le> n \<and> n \<le> 122 then Some (n - 71)
     else if 48 \<le> n \<and> n \<le> 57 then Some (n + 4)
     else if n = 43 then Some 62
     else if n = 47 then Some 63
     else None)"

definition eq_sign :: char where "eq_sign = CHR ''=''"

fun b64_quanta :: "string \<Rightarrow> bytes option" where
  "b64_quanta [] = Some []"
| "b64_quanta (a # b # c # d # cs) =
     (case (b64_val a, b64_val b) of
        (Some w, Some x) \<Rightarrow>
          (if c = eq_sign then
             (if d = eq_sign \<and> cs = [] then Some [char_of (w * 4 + x div 16)] else None)
           else case b64_val c of None \<Rightarrow> None | Some y \<Rightarrow>
             (if d = eq_sign then
                (if cs = [] then Some [char_of (w * 4 + x div 16), char_of (x mod 16 * 16 + y div 4)] else None)
              else case b64_val d of None \<Rightarrow> None | Some z \<Rightarrow>
                map_option (\<lambda>bs. char_of (w * 4 + x div 16) # char_of (x mod 16 * 16 + y div 4) #
                    char_of (y mod 4 * 64 + z) # bs) (b64_quanta cs)))
      | _ \<Rightarrow> None)"
| "b64_quanta _ = None"

definition std_decode :: "string \<Rightarrow> bytes option" where
  "std_decode s = b64_quanta (filter (\<lambda>c. c \<noteq> CHR 0x0A \<and> c \<noteq> CHR 0x0D) s)"

section \<open>Round trips\<close>

lemma of_char_less [simp]: "(of_char c :: nat) < 256"
  using nat_of_char_less_256 [of c] by simp

lemma hex_val_char: "n < 16 \<Longrightarrow> hex_val (hex_char n) = Some n"
proof -
  have "list_all (\<lambda>n. hex_val (hex_char n) = Some n) [0..<16]" by code_simp
  then show "n < 16 \<Longrightarrow> ?thesis" by (simp add: list_all_iff)
qed

lemma hex_decode_encode [simp]: "hex_decode (hex_encode bs) = Some bs"
proof (induction bs)
  case (Cons c cs)
  have "(of_char c :: nat) div 16 < 16" by (simp add: less_mult_imp_div_less)
  with Cons show ?case by (simp add: hex_val_char)
qed simp

lemma length_hex_encode [simp]: "length (hex_encode bs) = 2 * length bs"
  by (induction bs) simp_all

lemma hex_encode_inj: "hex_encode a = hex_encode b \<Longrightarrow> a = b"
  by (metis hex_decode_encode option.inject)

lemma of_char_char_of_small: "n < 256 \<Longrightarrow> (of_char (char_of n) :: nat) = n"
  by simp

lemma b64_val_chr: "n < 64 \<Longrightarrow> b64_val (b64_chr False n) = Some n"
  by (auto simp: b64_val_def b64_chr_def Let_def)

lemma b64_chr_plain:
  assumes "n < 64"
  shows "b64_chr False n \<noteq> eq_sign \<and> b64_chr False n \<noteq> CHR 0x0A \<and> b64_chr False n \<noteq> CHR 0x0D"
proof -
  have "b64_val eq_sign = None" "b64_val (CHR 0x0A) = None" "b64_val (CHR 0x0D) = None"
    by (simp_all add: b64_val_def eq_sign_def)
  with b64_val_chr [OF assms] show ?thesis by auto
qed

lemma sextets_small: "a < 256 \<Longrightarrow> b < 256 \<Longrightarrow> c < 256 \<Longrightarrow> list_all (\<lambda>n. n < 64) (sextets a b c)"
  by (simp add: sextets_def less_mult_imp_div_less) (auto simp: div_less_iff_less_mult)

lemma regroup:
  fixes a b c :: nat
  assumes "a < 256" "b < 256" "c < 256"
  shows "a div 4 * 4 + (a mod 4 * 16 + b div 16) div 16 = a"
    and "(a mod 4 * 16 + b div 16) mod 16 * 16 + (b mod 16 * 4 + c div 64) div 4 = b"
    and "(b mod 16 * 4 + c div 64) mod 4 * 64 + c mod 64 = c"
  using assms by (simp_all add: div_less_iff_less_mult)

lemma quanta_group:
  assumes "list_all (\<lambda>n. n < 64) [w, x, y, z]"
  shows "b64_quanta (map (b64_chr False) [w, x, y, z] @ cs) =
    map_option (\<lambda>bs. [char_of (w * 4 + x div 16), char_of (x mod 16 * 16 + y div 4), char_of (y mod 4 * 64 + z)] @ bs)
      (b64_quanta cs)"
  using assms by (simp add: b64_val_chr b64_chr_plain)

lemma quanta_encode: "b64_quanta (b64_encode False True bs) = Some bs"
proof (induction False True bs rule: b64_encode.induct)
  case (2 a)
  have "list_all (\<lambda>n. n < 64) (sextets (of_char a) 0 0)" by (rule sextets_small) simp_all
  moreover have "(of_char a :: nat) div 4 * 4 + (of_char a mod 4 * 16) div 16 = of_char a"
    using regroup(1) [of "of_char a" 0 0] by simp
  ultimately show ?case by (simp add: sextets_def b64_val_chr eq_sign_def)
next
  case (3 a b)
  have "list_all (\<lambda>n. n < 64) (sextets (of_char a) (of_char b) 0)" by (rule sextets_small) simp_all
  then show ?case
    using regroup(1,2) [of "of_char a" "of_char b" 0] b64_chr_plain [of "of_char b mod 16 * 4"]
    by (simp add: sextets_def b64_val_chr eq_sign_def)
next
  case (4 a b c cs)
  let ?s = "sextets (of_char a) (of_char b) (of_char c)"
  have "list_all (\<lambda>n. n < 64) ?s" by (rule sextets_small) simp_all
  then show ?case
    using quanta_group [of "?s ! 0" "?s ! 1" "?s ! 2" "?s ! 3" "b64_encode False True cs"] 4
      regroup [of "of_char a" "of_char b" "of_char c"]
    by (simp add: sextets_def)
qed simp

lemma sextet_chars:
  assumes "c \<in> set (map (b64_chr False) (take k (sextets x y z)))" "x < 256" "y < 256" "z < 256"
  shows "c \<noteq> CHR 0x0A \<and> c \<noteq> CHR 0x0D"
proof -
  from assms(1) obtain n where "n \<in> set (sextets x y z)" "c = b64_chr False n"
    by (auto dest: in_set_takeD)
  with sextets_small [OF assms(2-4)] show ?thesis by (auto simp: list_all_iff dest: b64_chr_plain)
qed

lemma encode_no_break: "c \<in> set (b64_encode False True bs) \<Longrightarrow> c \<noteq> CHR 0x0A \<and> c \<noteq> CHR 0x0D"
proof (induction False True bs rule: b64_encode.induct)
  case (2 a)
  then show ?case using sextet_chars [of c 2 "of_char a" 0 0] by auto
next
  case (3 a b)
  then show ?case using sextet_chars [of c 3 "of_char a" "of_char b" 0] by auto
next
  case (4 a b d cs)
  then show ?case using sextet_chars [of c 4 "of_char a" "of_char b" "of_char d"]
    by (auto simp: sextets_def)
qed simp

lemma encode_no_breaks:
  "filter (\<lambda>c. c \<noteq> CHR 0x0A \<and> c \<noteq> CHR 0x0D) (b64_encode False True bs) = b64_encode False True bs"
  using encode_no_break by (intro filter_True) blast

lemma std_decode_encode [simp]: "std_decode (std_encode bs) = Some bs"
  by (simp add: std_decode_def std_encode_def encode_no_breaks quanta_encode)

lemma std_encode_inj: "std_encode a = std_encode b \<Longrightarrow> a = b"
  by (metis std_decode_encode option.inject)

end
