(* ===== verification/Signing.thy ===== *)
theory Signing
  imports Prelude
begin

text \<open>
  The canonical byte layouts of \<^verbatim>\<open>src/protocol/*_signing.go\<close>, \<^verbatim>\<open>signing.go\<close> and
  \<^verbatim>\<open>direct.go\<close>: the exact bytes every signature of the system covers. Each function
  starts from an empty buffer and appends length-prefixed fields (\<open>writeField\<close>), raw
  big-endian integers and, last, a raw hash.

  A layout that walks several parallel slices by the index of the first
  (\<open>RecordSigningBytesV2\<close>, \<open>RevocationSigningBytes\<close>) panics in Go when another slice is
  shorter; the model returns \<open>None\<close> there.

  The lemmas show that a field peels off the front of a byte string (an interpretation
  of \<open>prefix_code\<close>), that a counted run of fields does, and from these that every
  layout determines its arguments and that no two layouts share a byte string.
\<close>

section \<open>Fields\<close>

definition writeField :: "bytes \<Rightarrow> bytes \<Rightarrow> bytes" where
  "writeField buf b = (let l = be64 (word_of_nat (length b)) in (buf @ l) @ b)"

text \<open>The index loops over parallel slices; running off the end of a later slice panics.\<close>

fun writeLinks :: "bytes \<Rightarrow> bytes list \<Rightarrow> bytes list \<Rightarrow> bytes option" where
  "writeLinks buf [] _ = Some buf"
| "writeLinks buf (h # hs) [] = None"
| "writeLinks buf (h # hs) (r # rs) = writeLinks (writeField (writeField buf h) r) hs rs"

fun writeRoles :: "bytes \<Rightarrow> bytes list \<Rightarrow> bytes" where
  "writeRoles buf [] = buf"
| "writeRoles buf (r # rs) = writeRoles (writeField buf r) rs"

fun writeRevoked :: "bytes \<Rightarrow> bytes list \<Rightarrow> bytes list \<Rightarrow> bytes list \<Rightarrow> bytes option" where
  "writeRevoked buf [] _ _ = Some buf"
| "writeRevoked buf (s # ss) (a # as) (r # rs) =
     writeRevoked (writeField (writeField (writeField buf s) a) r) ss as rs"
| "writeRevoked buf (s # ss) _ _ = None"

section \<open>The layouts\<close>

definition SigningBytes :: "string \<Rightarrow> string \<Rightarrow> 64 word \<Rightarrow> bytes \<Rightarrow> bytes \<Rightarrow> bytes" where
  "SigningBytes roomID fromID epoch nonce ciphertext =
    (let buf = writeField [] ''netherchat/msg/v1'';
         buf = writeField buf roomID;
         buf = writeField buf fromID;
         buf = buf @ be64 epoch;
         buf = writeField buf nonce;
         buf = writeField buf ciphertext
     in buf)"

definition RecordSigningBytes ::
  "64 word \<Rightarrow> 64 word \<Rightarrow> string \<Rightarrow> string \<Rightarrow> string \<Rightarrow> string \<Rightarrow> bytes \<Rightarrow> bytes" where
  "RecordSigningBytes seq ts authorID kind actionee body prevHash =
    (let buf = writeField [] ''netherchat/record/v1'';
         buf = buf @ be64 seq;
         buf = buf @ be64 ts;
         buf = writeField buf authorID;
         buf = writeField buf kind;
         buf = writeField buf actionee;
         buf = writeField buf body
     in buf @ prevHash)"

definition RecordSigningBytesV2 ::
  "64 word \<Rightarrow> 64 word \<Rightarrow> string \<Rightarrow> string \<Rightarrow> string \<Rightarrow> string \<Rightarrow> string \<Rightarrow> string \<Rightarrow>
   string list \<Rightarrow> string list \<Rightarrow> bytes \<Rightarrow> bytes option" where
  "RecordSigningBytesV2 seq ts authorID kind actionee body schema schemaVer linkHashes linkRels prevHash =
    (let buf = writeField [] ''netherchat/record/v2'';
         buf = buf @ be64 seq;
         buf = buf @ be64 ts;
         buf = writeField buf authorID;
         buf = writeField buf kind;
         buf = writeField buf actionee;
         buf = writeField buf body;
         buf = writeField buf schema;
         buf = writeField buf schemaVer;
         buf = buf @ be64 (word_of_nat (length linkHashes))
     in map_option (\<lambda>buf. buf @ prevHash) (writeLinks buf linkHashes linkRels))"

definition SealSigningBytes :: "string \<Rightarrow> bytes \<Rightarrow> bytes" where
  "SealSigningBytes room headHash =
    (let buf = writeField [] ''netherchat/seal/v1'';
         buf = writeField buf room
     in buf @ headHash)"

definition SealSigningBytesV2 :: "string \<Rightarrow> string \<Rightarrow> string \<Rightarrow> string \<Rightarrow> bytes \<Rightarrow> bytes" where
  "SealSigningBytesV2 room meaning signerName signedAt headHash =
    (let buf = writeField [] ''netherchat/seal/v2'';
         buf = writeField buf room;
         buf = writeField buf meaning;
         buf = writeField buf signerName;
         buf = writeField buf signedAt
     in buf @ headHash)"

definition RosterSigningBytes :: "string \<Rightarrow> 64 word \<Rightarrow> bytes \<Rightarrow> bytes" where
  "RosterSigningBytes room epoch setHash =
    (let buf = writeField [] ''netherchat/roster/v1'';
         buf = writeField buf room;
         buf = buf @ be64 epoch
     in buf @ setHash)"

definition ScuttleReceiptSigningBytes :: "bytes \<Rightarrow> bytes" where
  "ScuttleReceiptSigningBytes receiptHash =
    (let buf = writeField [] ''netherchat/receipt/v1'' in buf @ receiptHash)"

definition ActionApprovalSigningBytes :: "string \<Rightarrow> string \<Rightarrow> string \<Rightarrow> string \<Rightarrow> bytes" where
  "ActionApprovalSigningBytes requestID paramsHash approverFpr nonce =
    (let buf = writeField [] ''netherchat/action-approval/v1'';
         buf = writeField buf requestID;
         buf = writeField buf paramsHash;
         buf = writeField buf approverFpr;
         buf = writeField buf nonce
     in buf)"

definition ActionApprovalSigningBytesV2 ::
  "string \<Rightarrow> string \<Rightarrow> string \<Rightarrow> string \<Rightarrow> string \<Rightarrow> string \<Rightarrow> string \<Rightarrow> bytes" where
  "ActionApprovalSigningBytesV2 requestID paramsHash approverFpr nonce meaning name signedAt =
    (let buf = writeField [] ''netherchat/action-approval/v2'';
         buf = writeField buf requestID;
         buf = writeField buf paramsHash;
         buf = writeField buf approverFpr;
         buf = writeField buf nonce;
         buf = writeField buf meaning;
         buf = writeField buf name;
         buf = writeField buf signedAt
     in buf)"

definition ArtifactApprovalSigningBytes :: "string \<Rightarrow> string \<Rightarrow> string \<Rightarrow> string \<Rightarrow> bytes" where
  "ArtifactApprovalSigningBytes proposalID artifactHash approverFpr nonce =
    (let buf = writeField [] ''netherchat/artifact-approval/v1'';
         buf = writeField buf proposalID;
         buf = writeField buf artifactHash;
         buf = writeField buf approverFpr;
         buf = writeField buf nonce
     in buf)"

definition ArtifactApprovalSigningBytesV2 ::
  "string \<Rightarrow> string \<Rightarrow> string \<Rightarrow> string \<Rightarrow> string \<Rightarrow> bytes" where
  "ArtifactApprovalSigningBytesV2 proposalID artifactHash approverFpr nonce role =
    (let buf = writeField [] ''netherchat/artifact-approval/v2'';
         buf = writeField buf proposalID;
         buf = writeField buf artifactHash;
         buf = writeField buf approverFpr;
         buf = writeField buf nonce;
         buf = writeField buf role
     in buf)"

definition AlertSigningBytes ::
  "string \<Rightarrow> string \<Rightarrow> string \<Rightarrow> string \<Rightarrow> string \<Rightarrow> 64 word \<Rightarrow> bytes" where
  "AlertSigningBytes source severity kind summary ref ts =
    (let buf = writeField [] ''netherchat/alert/v1'';
         buf = writeField buf source;
         buf = writeField buf severity;
         buf = writeField buf kind;
         buf = writeField buf summary;
         buf = writeField buf ref
     in buf @ be64 ts)"

definition DuressBeaconSigningBytes ::
  "string \<Rightarrow> string \<Rightarrow> string \<Rightarrow> string \<Rightarrow> string \<Rightarrow> bytes" where
  "DuressBeaconSigningBytes actorFpr mode ctxt issuedAt nonce =
    (let buf = writeField [] ''netherchat/duress-beacon/v1'';
         buf = writeField buf actorFpr;
         buf = writeField buf mode;
         buf = writeField buf ctxt;
         buf = writeField buf issuedAt;
         buf = writeField buf nonce
     in buf)"

definition DirectAuthBytes :: "bytes \<Rightarrow> bytes \<Rightarrow> bytes \<Rightarrow> bytes \<Rightarrow> bytes" where
  "DirectAuthBytes signerPub signerNonce peerPub peerNonce =
    (let buf = writeField [] ''netherchat/direct/v1'';
         buf = writeField buf signerPub;
         buf = writeField buf signerNonce;
         buf = writeField buf peerPub;
         buf = writeField buf peerNonce
     in buf)"

definition IdentitySigningBytes ::
  "string \<Rightarrow> string \<Rightarrow> string \<Rightarrow> string \<Rightarrow> string \<Rightarrow> string list \<Rightarrow> string \<Rightarrow> string \<Rightarrow> string \<Rightarrow>
   string \<Rightarrow> bytes" where
  "IdentitySigningBytes serial subject principalID displayName principalType roles
      issuedAt expiresAt algorithm issuer =
    (let buf = writeField [] ''netherchat/identity/v2'';
         buf = writeField buf serial;
         buf = writeField buf subject;
         buf = writeField buf principalID;
         buf = writeField buf displayName;
         buf = writeField buf principalType;
         buf = buf @ be64 (word_of_nat (length roles));
         buf = writeRoles buf roles;
         buf = writeField buf issuedAt;
         buf = writeField buf expiresAt;
         buf = writeField buf algorithm;
         buf = writeField buf issuer
     in buf)"

definition RevocationSigningBytes ::
  "string \<Rightarrow> string \<Rightarrow> 64 word \<Rightarrow> string \<Rightarrow> string \<Rightarrow> string list \<Rightarrow> string list \<Rightarrow> string list \<Rightarrow>
   bytes option" where
  "RevocationSigningBytes issuer statementID number issuedAt nextUpdate serials revokedAt reasons =
    (let buf = writeField [] ''netherchat/identity-revocation/v1'';
         buf = writeField buf issuer;
         buf = writeField buf statementID;
         buf = buf @ be64 number;
         buf = writeField buf issuedAt;
         buf = writeField buf nextUpdate;
         buf = buf @ be64 (word_of_nat (length serials))
     in writeRevoked buf serials revokedAt reasons)"

section \<open>What a signature can cover\<close>

text \<open>
  One value per call of a layout: the abstract statement a signer makes. \<open>preimage\<close>
  gives the bytes the code derives for it and \<open>sized\<close> the lengths that fit a Go slice
  and the parallel slices its callers build.
\<close>

datatype statement =
    Msg string string "64 word" bytes bytes
  | RecordV1 "64 word" "64 word" string string string string bytes
  | RecordV2 "64 word" "64 word" string string string string string string "string list" "string list" bytes
  | SealV1 string bytes
  | SealV2 string string string string bytes
  | Roster string "64 word" bytes
  | Receipt bytes
  | ActionV1 string string string string
  | ActionV2 string string string string string string string
  | ArtifactV1 string string string string
  | ArtifactV2 string string string string string
  | Alert string string string string string "64 word"
  | Duress string string string string string
  | Direct bytes bytes bytes bytes
  | IdentityV2 string string string string string "string list" string string string string
  | Revocation string string "64 word" string string "string list" "string list" "string list"

fun preimage :: "statement \<Rightarrow> bytes option" where
  "preimage (Msg a b c d e) = Some (SigningBytes a b c d e)"
| "preimage (RecordV1 a b c d e f g) = Some (RecordSigningBytes a b c d e f g)"
| "preimage (RecordV2 a b c d e f g h i j k) = RecordSigningBytesV2 a b c d e f g h i j k"
| "preimage (SealV1 a b) = Some (SealSigningBytes a b)"
| "preimage (SealV2 a b c d e) = Some (SealSigningBytesV2 a b c d e)"
| "preimage (Roster a b c) = Some (RosterSigningBytes a b c)"
| "preimage (Receipt a) = Some (ScuttleReceiptSigningBytes a)"
| "preimage (ActionV1 a b c d) = Some (ActionApprovalSigningBytes a b c d)"
| "preimage (ActionV2 a b c d e f g) = Some (ActionApprovalSigningBytesV2 a b c d e f g)"
| "preimage (ArtifactV1 a b c d) = Some (ArtifactApprovalSigningBytes a b c d)"
| "preimage (ArtifactV2 a b c d e) = Some (ArtifactApprovalSigningBytesV2 a b c d e)"
| "preimage (Alert a b c d e f) = Some (AlertSigningBytes a b c d e f)"
| "preimage (Duress a b c d e) = Some (DuressBeaconSigningBytes a b c d e)"
| "preimage (Direct a b c d) = Some (DirectAuthBytes a b c d)"
| "preimage (IdentityV2 a b c d e f g h i j) = Some (IdentitySigningBytes a b c d e f g h i j)"
| "preimage (Revocation a b c d e f g h) = RevocationSigningBytes a b c d e f g h"

fun sized :: "statement \<Rightarrow> bool" where
  "sized (Msg a b _ d e) = list_all fits [a, b, d, e]"
| "sized (RecordV1 _ _ c d e f _) = list_all fits [c, d, e, f]"
| "sized (RecordV2 _ _ c d e f g h i j _) =
     (list_all fits [c, d, e, f, g, h] \<and> list_all fits i \<and> list_all fits j \<and> fits i \<and> length j = length i)"
| "sized (SealV1 a _) = fits a"
| "sized (SealV2 a b c d _) = list_all fits [a, b, c, d]"
| "sized (Roster a _ _) = fits a"
| "sized (Receipt _) = True"
| "sized (ActionV1 a b c d) = list_all fits [a, b, c, d]"
| "sized (ActionV2 a b c d e f g) = list_all fits [a, b, c, d, e, f, g]"
| "sized (ArtifactV1 a b c d) = list_all fits [a, b, c, d]"
| "sized (ArtifactV2 a b c d e) = list_all fits [a, b, c, d, e]"
| "sized (Alert a b c d e _) = list_all fits [a, b, c, d, e]"
| "sized (Duress a b c d e) = list_all fits [a, b, c, d, e]"
| "sized (Direct a b c d) = list_all fits [a, b, c, d]"
| "sized (IdentityV2 a b c d e f g h i j) =
     (list_all fits [a, b, c, d, e, g, h, i, j] \<and> list_all fits f \<and> fits f)"
| "sized (Revocation a b _ d e f g h) =
     (list_all fits [a, b, d, e] \<and> list_all fits f \<and> list_all fits g \<and> list_all fits h \<and>
      fits f \<and> length g = length f \<and> length h = length f)"

section \<open>Fields peel\<close>

definition field :: "bytes \<Rightarrow> bytes" where
  "field b = be64 (word_of_nat (length b)) @ b"

lemma writeField_field [wire]: "writeField buf b = buf @ field b"
  by (simp add: writeField_def field_def)

interpretation field: prefix_code field fits
proof unfold_locales
  fix a b x y :: bytes
  assume len: "fits a" "fits b" and eq: "field a @ x = field b @ y"
  then have "be64 (word_of_nat (length a)) = be64 (word_of_nat (length b))" and rest: "a @ x = b @ y"
    by (simp_all add: field_def)
  then have "length a = length b" using len by (auto dest: be64_length_eq)
  with rest show "a = b \<and> x = y" by simp
qed

interpretation link: prefix_pair field fits field fits
  by unfold_locales

interpretation revoked: prefix_pair field fits "\<lambda>(a, b). field a @ field b" "\<lambda>(a, b). fits a \<and> fits b"
  by unfold_locales

lemma writeRoles_fields [wire]: "writeRoles buf rs = buf @ concat (map field rs)"
  by (induction buf rs rule: writeRoles.induct) (simp_all add: writeField_field)

lemma writeLinks_fields [wire]:
  "length rs = length hs \<Longrightarrow>
   writeLinks buf hs rs = Some (buf @ concat (map (\<lambda>(a, b). field a @ field b) (zip hs rs)))"
  by (induction buf hs rs rule: writeLinks.induct) (simp_all add: writeField_field)

lemma writeRevoked_fields [wire]:
  "length as = length ss \<Longrightarrow> length rs = length ss \<Longrightarrow>
   writeRevoked buf ss as rs =
     Some (buf @ concat (map (\<lambda>(a, b). field a @ (case b of (b, c) \<Rightarrow> field b @ field c)) (zip ss (zip as rs))))"
  by (induction buf ss as rs rule: writeRevoked.induct) (simp_all add: writeField_field)

lemma list_all_zip: "list_all P xs \<Longrightarrow> list_all Q ys \<Longrightarrow> list_all (\<lambda>(x, y). P x \<and> Q y) (zip xs ys)"
  by (auto simp: list_all_iff dest: set_zip_leftD set_zip_rightD)

lemma fits_zip: "fits xs \<Longrightarrow> fits (zip xs ys)"
  by (simp add: fits_def min_def)

lemma zip_inj: "zip a b = zip c d \<Longrightarrow> length a = length b \<Longrightarrow> length c = length d \<Longrightarrow> length a = length c \<Longrightarrow>
    a = c \<and> b = d"
  by (metis map_fst_zip map_snd_zip)

section \<open>Every layout determines its arguments\<close>

fun tag :: "statement \<Rightarrow> string" where
  "tag (Msg _ _ _ _ _) = ''netherchat/msg/v1''"
| "tag (RecordV1 _ _ _ _ _ _ _) = ''netherchat/record/v1''"
| "tag (RecordV2 _ _ _ _ _ _ _ _ _ _ _) = ''netherchat/record/v2''"
| "tag (SealV1 _ _) = ''netherchat/seal/v1''"
| "tag (SealV2 _ _ _ _ _) = ''netherchat/seal/v2''"
| "tag (Roster _ _ _) = ''netherchat/roster/v1''"
| "tag (Receipt _) = ''netherchat/receipt/v1''"
| "tag (ActionV1 _ _ _ _) = ''netherchat/action-approval/v1''"
| "tag (ActionV2 _ _ _ _ _ _ _) = ''netherchat/action-approval/v2''"
| "tag (ArtifactV1 _ _ _ _) = ''netherchat/artifact-approval/v1''"
| "tag (ArtifactV2 _ _ _ _ _) = ''netherchat/artifact-approval/v2''"
| "tag (Alert _ _ _ _ _ _) = ''netherchat/alert/v1''"
| "tag (Duress _ _ _ _ _) = ''netherchat/duress-beacon/v1''"
| "tag (Direct _ _ _ _) = ''netherchat/direct/v1''"
| "tag (IdentityV2 _ _ _ _ _ _ _ _ _ _) = ''netherchat/identity/v2''"
| "tag (Revocation _ _ _ _ _ _ _ _) = ''netherchat/identity-revocation/v1''"

lemmas layout_defs = SigningBytes_def RecordSigningBytes_def RecordSigningBytesV2_def SealSigningBytes_def
  SealSigningBytesV2_def RosterSigningBytes_def ScuttleReceiptSigningBytes_def
  ActionApprovalSigningBytes_def ActionApprovalSigningBytesV2_def ArtifactApprovalSigningBytes_def
  ArtifactApprovalSigningBytesV2_def AlertSigningBytes_def DuressBeaconSigningBytes_def
  DirectAuthBytes_def IdentitySigningBytes_def RevocationSigningBytes_def

lemma preimage_tag:
  assumes "sized p" shows "\<exists>r. preimage p = Some (field (tag p) @ r)"
  using assms by (cases p) (simp_all add: layout_defs wire Let_def)

lemma fits_tag: "fits (tag p)"
  by (cases p) (simp_all add: fits_def)

lemma same_preimage_same_tag:
  assumes "sized p" "sized q" "preimage p = preimage q" shows "tag p = tag q"
proof -
  from preimage_tag [OF assms(1)] preimage_tag [OF assms(2)] assms(3)
  obtain r r' where "field (tag p) @ r = field (tag q) @ r'" by (metis option.inject)
  then show ?thesis using field.peel [OF fits_tag fits_tag] by blast
qed

lemma links_inj:
  assumes "list_all fits i" "list_all fits j" "list_all fits i'" "list_all fits j'"
    and "fits i" "fits i'" "length j = length i" "length j' = length i'"
    and eq: "be64 (word_of_nat (length i)) @ concat (map (\<lambda>(a, b). field a @ field b) (zip i j)) @ x =
      be64 (word_of_nat (length i')) @ concat (map (\<lambda>(a, b). field a @ field b) (zip i' j')) @ y"
  shows "i = i' \<and> j = j' \<and> x = y"
proof -
  have "zip i j = zip i' j' \<and> x = y"
    using assms by (intro link.prod.peel_counted) (simp_all add: list_all_zip fits_zip)
  moreover have "length i = length i'"
    using eq assms(5,6) be64_length_eq [of i i'] by simp
  ultimately show ?thesis using zip_inj assms(7,8) by metis
qed

lemma revoked_inj:
  assumes "list_all fits s" "list_all fits a" "list_all fits r"
    and "list_all fits s'" "list_all fits a'" "list_all fits r'" and "fits s" "fits s'"
    and len: "length a = length s" "length r = length s" "length a' = length s'" "length r' = length s'"
    and eq: "be64 (word_of_nat (length s)) @
        concat (map (\<lambda>(a, b). field a @ (case b of (b, c) \<Rightarrow> field b @ field c)) (zip s (zip a r))) =
      be64 (word_of_nat (length s')) @
        concat (map (\<lambda>(a, b). field a @ (case b of (b, c) \<Rightarrow> field b @ field c)) (zip s' (zip a' r')))"
  shows "s = s' \<and> a = a' \<and> r = r'"
proof -
  have "zip s (zip a r) = zip s' (zip a' r')"
    using revoked.prod.peel_counted [of "zip s (zip a r)" "zip s' (zip a' r')" "[]" "[]"] assms
    by (simp add: list_all_zip fits_zip)
  moreover have "length s = length s'"
    using eq assms(7,8) be64_length_eq [of s s'] by simp
  ultimately have "s = s' \<and> zip a r = zip a' r'" using len by (intro zip_inj) simp_all
  then show ?thesis using zip_inj len by metis
qed

lemma field_last_iff: "fits a \<Longrightarrow> fits b \<Longrightarrow> field a = field b \<longleftrightarrow> a = b"
  using field.enc_inj by blast

lemma be64_peel_iff: "be64 v @ x = be64 w @ y \<longleftrightarrow> v = w \<and> x = y"
  using be64c.peel_iff by simp

lemma be64_last_iff: "be64 v = be64 w \<longleftrightarrow> v = w"
  using be64_inj by blast

lemmas peels = field.peel_iff field_last_iff be64_peel_iff be64_last_iff

lemma roles_inj:
  assumes "list_all fits f" "list_all fits g" "fits f" "fits g"
  shows "be64 (word_of_nat (length f)) @ concat (map field f) @ x =
      be64 (word_of_nat (length g)) @ concat (map field g) @ y \<longleftrightarrow> f = g \<and> x = y"
  using field.peel_counted [OF assms] by blast

subsection \<open>Each layout on its own\<close>

lemma SigningBytes_inj:
  "sized (Msg a b c d e) \<Longrightarrow> sized (Msg a' b' c' d' e') \<Longrightarrow>
   SigningBytes a b c d e = SigningBytes a' b' c' d' e' \<longleftrightarrow> Msg a b c d e = Msg a' b' c' d' e'"
  by (simp add: layout_defs wire Let_def peels)

lemma RecordSigningBytes_inj:
  "sized (RecordV1 a b c d e f g) \<Longrightarrow> sized (RecordV1 a' b' c' d' e' f' g') \<Longrightarrow>
   RecordSigningBytes a b c d e f g = RecordSigningBytes a' b' c' d' e' f' g' \<longleftrightarrow> RecordV1 a b c d e f g = RecordV1 a' b' c' d' e' f' g'"
  by (simp add: layout_defs wire Let_def peels)

lemma RecordSigningBytesV2_inj:
  "sized (RecordV2 a b c d e f g h i j k) \<Longrightarrow> sized (RecordV2 a' b' c' d' e' f' g' h' i' j' k') \<Longrightarrow>
   RecordSigningBytesV2 a b c d e f g h i j k = RecordSigningBytesV2 a' b' c' d' e' f' g' h' i' j' k' \<longleftrightarrow> RecordV2 a b c d e f g h i j k = RecordV2 a' b' c' d' e' f' g' h' i' j' k'"
  using links_inj [of i j i' j' k k'] by (simp add: layout_defs wire Let_def field.peel_iff be64_peel_iff) blast

lemma SealSigningBytes_inj:
  "sized (SealV1 a b) \<Longrightarrow> sized (SealV1 a' b') \<Longrightarrow>
   SealSigningBytes a b = SealSigningBytes a' b' \<longleftrightarrow> SealV1 a b = SealV1 a' b'"
  by (simp add: layout_defs wire Let_def peels)

lemma SealSigningBytesV2_inj:
  "sized (SealV2 a b c d e) \<Longrightarrow> sized (SealV2 a' b' c' d' e') \<Longrightarrow>
   SealSigningBytesV2 a b c d e = SealSigningBytesV2 a' b' c' d' e' \<longleftrightarrow> SealV2 a b c d e = SealV2 a' b' c' d' e'"
  by (simp add: layout_defs wire Let_def peels)

lemma RosterSigningBytes_inj:
  "sized (Roster a b c) \<Longrightarrow> sized (Roster a' b' c') \<Longrightarrow>
   RosterSigningBytes a b c = RosterSigningBytes a' b' c' \<longleftrightarrow> Roster a b c = Roster a' b' c'"
  by (simp add: layout_defs wire Let_def peels)

lemma ScuttleReceiptSigningBytes_inj:
  "sized (Receipt a) \<Longrightarrow> sized (Receipt a') \<Longrightarrow>
   ScuttleReceiptSigningBytes a = ScuttleReceiptSigningBytes a' \<longleftrightarrow> Receipt a = Receipt a'"
  by (simp add: layout_defs wire Let_def peels)

lemma ActionApprovalSigningBytes_inj:
  "sized (ActionV1 a b c d) \<Longrightarrow> sized (ActionV1 a' b' c' d') \<Longrightarrow>
   ActionApprovalSigningBytes a b c d = ActionApprovalSigningBytes a' b' c' d' \<longleftrightarrow> ActionV1 a b c d = ActionV1 a' b' c' d'"
  by (simp add: layout_defs wire Let_def peels)

lemma ActionApprovalSigningBytesV2_inj:
  "sized (ActionV2 a b c d e f g) \<Longrightarrow> sized (ActionV2 a' b' c' d' e' f' g') \<Longrightarrow>
   ActionApprovalSigningBytesV2 a b c d e f g = ActionApprovalSigningBytesV2 a' b' c' d' e' f' g' \<longleftrightarrow> ActionV2 a b c d e f g = ActionV2 a' b' c' d' e' f' g'"
  by (simp add: layout_defs wire Let_def peels)

lemma ArtifactApprovalSigningBytes_inj:
  "sized (ArtifactV1 a b c d) \<Longrightarrow> sized (ArtifactV1 a' b' c' d') \<Longrightarrow>
   ArtifactApprovalSigningBytes a b c d = ArtifactApprovalSigningBytes a' b' c' d' \<longleftrightarrow> ArtifactV1 a b c d = ArtifactV1 a' b' c' d'"
  by (simp add: layout_defs wire Let_def peels)

lemma ArtifactApprovalSigningBytesV2_inj:
  "sized (ArtifactV2 a b c d e) \<Longrightarrow> sized (ArtifactV2 a' b' c' d' e') \<Longrightarrow>
   ArtifactApprovalSigningBytesV2 a b c d e = ArtifactApprovalSigningBytesV2 a' b' c' d' e' \<longleftrightarrow> ArtifactV2 a b c d e = ArtifactV2 a' b' c' d' e'"
  by (simp add: layout_defs wire Let_def peels)

lemma AlertSigningBytes_inj:
  "sized (Alert a b c d e f) \<Longrightarrow> sized (Alert a' b' c' d' e' f') \<Longrightarrow>
   AlertSigningBytes a b c d e f = AlertSigningBytes a' b' c' d' e' f' \<longleftrightarrow> Alert a b c d e f = Alert a' b' c' d' e' f'"
  by (simp add: layout_defs wire Let_def peels)

lemma DuressBeaconSigningBytes_inj:
  "sized (Duress a b c d e) \<Longrightarrow> sized (Duress a' b' c' d' e') \<Longrightarrow>
   DuressBeaconSigningBytes a b c d e = DuressBeaconSigningBytes a' b' c' d' e' \<longleftrightarrow> Duress a b c d e = Duress a' b' c' d' e'"
  by (simp add: layout_defs wire Let_def peels)

lemma DirectAuthBytes_inj:
  "sized (Direct a b c d) \<Longrightarrow> sized (Direct a' b' c' d') \<Longrightarrow>
   DirectAuthBytes a b c d = DirectAuthBytes a' b' c' d' \<longleftrightarrow> Direct a b c d = Direct a' b' c' d'"
  by (simp add: layout_defs wire Let_def peels)

lemma IdentitySigningBytes_inj:
  "sized (IdentityV2 a b c d e f g h i j) \<Longrightarrow> sized (IdentityV2 a' b' c' d' e' f' g' h' i' j') \<Longrightarrow>
   IdentitySigningBytes a b c d e f g h i j = IdentitySigningBytes a' b' c' d' e' f' g' h' i' j' \<longleftrightarrow> IdentityV2 a b c d e f g h i j = IdentityV2 a' b' c' d' e' f' g' h' i' j'"
  using roles_inj [of f f' "field g @ field h @ field i @ field j" "field g' @ field h' @ field i' @ field j'"]
  by (simp add: layout_defs wire Let_def field.peel_iff field_last_iff)

lemma RevocationSigningBytes_inj:
  "sized (Revocation a b c d e f g h) \<Longrightarrow> sized (Revocation a' b' c' d' e' f' g' h') \<Longrightarrow>
   RevocationSigningBytes a b c d e f g h = RevocationSigningBytes a' b' c' d' e' f' g' h' \<longleftrightarrow> Revocation a b c d e f g h = Revocation a' b' c' d' e' f' g' h'"
  using revoked_inj [of f g h f' g' h'] by (simp add: layout_defs wire Let_def field.peel_iff be64_peel_iff) blast

lemmas layout_inj = SigningBytes_inj RecordSigningBytes_inj RecordSigningBytesV2_inj SealSigningBytes_inj SealSigningBytesV2_inj RosterSigningBytes_inj ScuttleReceiptSigningBytes_inj ActionApprovalSigningBytes_inj ActionApprovalSigningBytesV2_inj ArtifactApprovalSigningBytes_inj ArtifactApprovalSigningBytesV2_inj AlertSigningBytes_inj DuressBeaconSigningBytes_inj DirectAuthBytes_inj IdentitySigningBytes_inj RevocationSigningBytes_inj

subsection \<open>All layouts together\<close>

fun kind :: "statement \<Rightarrow> nat" where
  "kind (Msg _ _ _ _ _) = 0"
| "kind (RecordV1 _ _ _ _ _ _ _) = 1"
| "kind (RecordV2 _ _ _ _ _ _ _ _ _ _ _) = 2"
| "kind (SealV1 _ _) = 3"
| "kind (SealV2 _ _ _ _ _) = 4"
| "kind (Roster _ _ _) = 5"
| "kind (Receipt _) = 6"
| "kind (ActionV1 _ _ _ _) = 7"
| "kind (ActionV2 _ _ _ _ _ _ _) = 8"
| "kind (ArtifactV1 _ _ _ _) = 9"
| "kind (ArtifactV2 _ _ _ _ _) = 10"
| "kind (Alert _ _ _ _ _ _) = 11"
| "kind (Duress _ _ _ _ _) = 12"
| "kind (Direct _ _ _ _) = 13"
| "kind (IdentityV2 _ _ _ _ _ _ _ _ _ _) = 14"
| "kind (Revocation _ _ _ _ _ _ _ _) = 15"

definition kind_of_tag :: "(string \<times> nat) list" where
  "kind_of_tag = [(''netherchat/msg/v1'', 0),
    (''netherchat/record/v1'', 1),
    (''netherchat/record/v2'', 2),
    (''netherchat/seal/v1'', 3),
    (''netherchat/seal/v2'', 4),
    (''netherchat/roster/v1'', 5),
    (''netherchat/receipt/v1'', 6),
    (''netherchat/action-approval/v1'', 7),
    (''netherchat/action-approval/v2'', 8),
    (''netherchat/artifact-approval/v1'', 9),
    (''netherchat/artifact-approval/v2'', 10),
    (''netherchat/alert/v1'', 11),
    (''netherchat/duress-beacon/v1'', 12),
    (''netherchat/direct/v1'', 13),
    (''netherchat/identity/v2'', 14),
    (''netherchat/identity-revocation/v1'', 15)]"

lemma kind_of_tag: "map_of kind_of_tag (tag p) = Some (kind p)"
  by (cases p) (simp_all add: kind_of_tag_def)

lemma same_kind:
  assumes "sized p" "sized q" "preimage p = preimage q" shows "kind p = kind q"
  using same_preimage_same_tag [OF assms] kind_of_tag [of p] kind_of_tag [of q] by simp

lemma preimage_inj:
  assumes "sized p" "sized q" "preimage p = preimage q" shows "p = q"
  using same_kind [OF assms] assms
  by (cases p; cases q) (simp_all only: kind.simps preimage.simps layout_inj option.inject num.simps zero_neq_numeral)

text \<open>Claim C1. No byte string is the signed form of two different statements: over every
  signing layout of the protocol (messages, record entries, seals, rosters, receipts,
  approvals, alerts, duress beacons, direct handshakes, identities, revocations), equal
  canonical bytes mean the same kind of statement with the same arguments. A signature
  therefore cannot be replayed as another kind of statement or for other field values.\<close>

theorem preimage_injective:
  assumes "sized p" "sized q"
  shows "(\<exists>b. preimage p = Some b) \<and> (preimage p = preimage q \<longleftrightarrow> p = q)"
  using assms preimage_tag [of p] preimage_inj [of p q] by auto

theorem preimage_injective_witness:
  "preimage (ArtifactV1 ''p1'' ''ab'' ''SHA256:x'' ''n'') \<noteq> preimage (ArtifactV2 ''p1'' ''ab'' ''SHA256:x'' ''n'' ''qa'')"
  using preimage_injective [of "ArtifactV1 ''p1'' ''ab'' ''SHA256:x'' ''n''"
    "ArtifactV2 ''p1'' ''ab'' ''SHA256:x'' ''n'' ''qa''"]
  by (simp add: fits_def)

end
