(* ===== verification/Wire.thy ===== *)
theory Wire
  imports Prelude Encoding
begin

text \<open>
  The wire format of \<^verbatim>\<open>src/protocol/protocol.go\<close>, \<^verbatim>\<open>ext.go\<close> and \<^verbatim>\<open>file.go\<close>: the envelope and the
  payload structs the relay reads and writes, with Go's \<open>encoding/json\<close> between them.

  A \<open>json\<close> value is a parsed document. Decoding follows \<open>json.Unmarshal\<close>: object keys
  match field names up to case folding, later duplicates overwrite, unknown keys are
  ignored, \<open>null\<close> leaves scalars alone and empties slices, a value of the wrong type or an
  integer out of range is an error (\<open>None\<close>), and \<open>[]byte\<close> is base64. A Go byte slice is
  \<open>bytes option\<close>, \<open>None\<close> being the nil slice, which encodes as \<open>null\<close>. Strings are kept as
  decoded; the encoder's repair of invalid UTF-8 is the identity on what the decoder
  produced. Encoding follows the struct tags, \<open>omitempty\<close> included.
\<close>

section \<open>JSON values\<close>

datatype json =
    JNull
  | JBool bool
  | JInt int            \<comment> \<open>a number literal without fraction or exponent\<close>
  | JFloat string       \<comment> \<open>any other number literal\<close>
  | JStr string
  | JArr "json list"
  | JObj "(string \<times> json) list"

subsection \<open>Matching keys to fields\<close>

definition upper :: "char \<Rightarrow> char" where
  "upper c = (let n = of_char c :: nat in if 97 \<le> n \<and> n \<le> 122 then char_of (n - 32) else c)"

text \<open>Case folding of object keys, with the two non-ASCII letters that fold to ASCII.\<close>

function fold_name :: "string \<Rightarrow> string" where
  "fold_name s =
    (case s of
       [] \<Rightarrow> []
     | c # cs \<Rightarrow>
        (if take 2 s = [CHR 0xC5, CHR 0xBF] then CHR ''S'' # fold_name (drop 2 s)
         else if take 3 s = [CHR 0xE2, CHR 0x84, CHR 0xAA] then CHR ''K'' # fold_name (drop 3 s)
         else upper c # fold_name cs))"
  by pat_completeness auto
termination
  by (relation "measure length") auto

declare fold_name.simps [simp del]

type_synonym 's field_decoder = "'s \<Rightarrow> json \<Rightarrow> 's option"

fun find_field :: "(string \<times> 's field_decoder) list \<Rightarrow> string \<Rightarrow> 's field_decoder option" where
  "find_field [] key = None"
| "find_field ((name, d) # fs) key =
     (if fold_name name = fold_name key then Some d else find_field fs key)"

fun decode_object :: "(string \<times> 's field_decoder) list \<Rightarrow> (string \<times> json) list \<Rightarrow> 's \<Rightarrow> 's option" where
  "decode_object fs [] s = Some s"
| "decode_object fs ((key, v) # kvs) s =
     (case find_field fs key of
        None \<Rightarrow> decode_object fs kvs s
      | Some d \<Rightarrow> (case d s v of None \<Rightarrow> None | Some s' \<Rightarrow> decode_object fs kvs s'))"

fun decode_struct :: "(string \<times> 's field_decoder) list \<Rightarrow> 's \<Rightarrow> json \<Rightarrow> 's option" where
  "decode_struct fs s JNull = Some s"
| "decode_struct fs s (JObj kvs) = decode_object fs kvs s"
| "decode_struct fs s _ = None"

subsection \<open>Fields by type\<close>

fun str_field :: "(string \<Rightarrow> 's \<Rightarrow> 's) \<Rightarrow> 's field_decoder" where
  "str_field upd s (JStr x) = Some (upd x s)"
| "str_field upd s JNull = Some s"
| "str_field upd s _ = None"

fun bool_field :: "(bool \<Rightarrow> 's \<Rightarrow> 's) \<Rightarrow> 's field_decoder" where
  "bool_field upd s (JBool x) = Some (upd x s)"
| "bool_field upd s JNull = Some s"
| "bool_field upd s _ = None"

fun int_field :: "(int \<Rightarrow> 's \<Rightarrow> 's) \<Rightarrow> 's field_decoder" where
  "int_field upd s (JInt x) = (if - (2 ^ 63) \<le> x \<and> x < 2 ^ 63 then Some (upd x s) else None)"
| "int_field upd s JNull = Some s"
| "int_field upd s _ = None"

fun uint64_field :: "(64 word \<Rightarrow> 's \<Rightarrow> 's) \<Rightarrow> 's field_decoder" where
  "uint64_field upd s (JInt x) = (if 0 \<le> x \<and> x < 2 ^ 64 then Some (upd (word_of_int x) s) else None)"
| "uint64_field upd s JNull = Some s"
| "uint64_field upd s _ = None"

fun json_octet :: "json \<Rightarrow> char option" where
  "json_octet (JInt x) = (if 0 \<le> x \<and> x < 256 then Some (char_of (nat x)) else None)"
| "json_octet JNull = Some (CHR 0x00)"
| "json_octet _ = None"

fun json_string :: "json \<Rightarrow> string option" where
  "json_string (JStr x) = Some x"
| "json_string JNull = Some []"
| "json_string _ = None"

fun decode_all :: "(json \<Rightarrow> 'a option) \<Rightarrow> json list \<Rightarrow> 'a list option" where
  "decode_all d [] = Some []"
| "decode_all d (j # js) = (case d j of None \<Rightarrow> None | Some x \<Rightarrow> map_option ((#) x) (decode_all d js))"

fun bytes_field :: "(bytes option \<Rightarrow> 's \<Rightarrow> 's) \<Rightarrow> 's field_decoder" where
  "bytes_field upd s (JStr x) = map_option (\<lambda>b. upd (Some b) s) (std_decode x)"
| "bytes_field upd s (JArr js) = map_option (\<lambda>b. upd (Some b) s) (decode_all json_octet js)"
| "bytes_field upd s JNull = Some (upd None s)"
| "bytes_field upd s _ = None"

fun strs_field :: "(string list option \<Rightarrow> 's \<Rightarrow> 's) \<Rightarrow> 's field_decoder" where
  "strs_field upd s (JArr js) = map_option (\<lambda>b. upd (Some b) s) (decode_all json_string js)"
| "strs_field upd s JNull = Some (upd None s)"
| "strs_field upd s _ = None"

subsection \<open>Encoders by type\<close>

fun json_bytes :: "bytes option \<Rightarrow> json" where
  "json_bytes None = JNull"
| "json_bytes (Some b) = JStr (std_encode b)"

definition go_len :: "'a list option \<Rightarrow> nat" where
  "go_len x = (case x of None \<Rightarrow> 0 | Some b \<Rightarrow> length b)"

text \<open>\<open>omitempty\<close>\<close>

definition omit_bytes :: "string \<Rightarrow> bytes option \<Rightarrow> (string \<times> json) list" where
  "omit_bytes k x = (if go_len x = 0 then [] else [(k, json_bytes x)])"

definition omit_str :: "string \<Rightarrow> string \<Rightarrow> (string \<times> json) list" where
  "omit_str k x = (if x = [] then [] else [(k, JStr x)])"

definition omit_int :: "string \<Rightarrow> int \<Rightarrow> (string \<times> json) list" where
  "omit_int k x = (if x = 0 then [] else [(k, JInt x)])"

section \<open>Opcodes\<close>

definition OpHello :: string where "OpHello = ''hello''"
definition OpWelcome :: string where "OpWelcome = ''welcome''"
definition OpMemberJoined :: string where "OpMemberJoined = ''member_joined''"
definition OpMemberLeft :: string where "OpMemberLeft = ''member_left''"
definition OpKeyRequest :: string where "OpKeyRequest = ''key_request''"
definition OpKeyDeliver :: string where "OpKeyDeliver = ''key_deliver''"
definition OpMessage :: string where "OpMessage = ''msg''"
definition OpError :: string where "OpError = ''error''"
definition OpServerMessage :: string where "OpServerMessage = ''server_msg''"
definition OpControl :: string where "OpControl = ''control''"
definition OpExecRequest :: string where "OpExecRequest = ''exec_request''"
definition OpExecResult :: string where "OpExecResult = ''exec_result''"
definition OpInviteRequest :: string where "OpInviteRequest = ''invite_request''"
definition OpInviteResult :: string where "OpInviteResult = ''invite_result''"
definition OpBreakGlass :: string where "OpBreakGlass = ''break_glass''"
definition OpBreakGlassResult :: string where "OpBreakGlassResult = ''break_glass_result''"
definition OpRouteFired :: string where "OpRouteFired = ''route_fired''"
definition OpAck :: string where "OpAck = ''ack''"
definition OpHandoff :: string where "OpHandoff = ''handoff''"
definition OpRecordEntry :: string where "OpRecordEntry = ''record_entry''"
definition OpSealRequest :: string where "OpSealRequest = ''seal_request''"
definition OpSealAck :: string where "OpSealAck = ''seal_ack''"
definition OpRosterRequest :: string where "OpRosterRequest = ''roster_request''"
definition OpRosterAck :: string where "OpRosterAck = ''roster_ack''"
definition OpScuttleReceiptRequest :: string where "OpScuttleReceiptRequest = ''scuttle_receipt_request''"
definition OpScuttleReceiptAck :: string where "OpScuttleReceiptAck = ''scuttle_receipt_ack''"
definition OpActionRequest :: string where "OpActionRequest = ''action_request''"
definition OpActionApproval :: string where "OpActionApproval = ''action_approval''"
definition OpActionVeto :: string where "OpActionVeto = ''action_veto''"
definition OpArtifactProposal :: string where "OpArtifactProposal = ''artifact_proposal''"
definition OpArtifactApproval :: string where "OpArtifactApproval = ''artifact_approval''"
definition OpArtifactRejection :: string where "OpArtifactRejection = ''artifact_rejection''"
definition OpFileOffer :: string where "OpFileOffer = ''file_offer''"
definition OpFileChunk :: string where "OpFileChunk = ''file_chunk''"
definition OpFileAck :: string where "OpFileAck = ''file_ack''"
definition OpFileAbort :: string where "OpFileAbort = ''file_abort''"
definition OpStreamUpdate :: string where "OpStreamUpdate = ''stream_update''"
definition OpStreamEnd :: string where "OpStreamEnd = ''stream_end''"

lemmas opcodes = OpHello_def OpWelcome_def OpMemberJoined_def OpMemberLeft_def OpKeyRequest_def
  OpKeyDeliver_def OpMessage_def OpError_def OpServerMessage_def OpControl_def OpExecRequest_def
  OpExecResult_def OpInviteRequest_def OpInviteResult_def OpBreakGlass_def OpBreakGlassResult_def
  OpRouteFired_def OpAck_def OpHandoff_def OpRecordEntry_def OpSealRequest_def OpSealAck_def OpRosterRequest_def
  OpRosterAck_def OpScuttleReceiptRequest_def OpScuttleReceiptAck_def OpActionRequest_def OpActionApproval_def
  OpActionVeto_def OpArtifactProposal_def OpArtifactApproval_def OpArtifactRejection_def OpFileOffer_def
  OpFileChunk_def OpFileAck_def OpFileAbort_def OpStreamUpdate_def OpStreamEnd_def

definition Version :: int where "Version = 3"
definition MinVersion :: int where "MinVersion = 2"

section \<open>Envelope\<close>

record Envelope =
  ev_Type :: string
  ev_Data :: "json option"

definition Encode :: "string \<Rightarrow> json \<Rightarrow> Envelope" where
  "Encode op payload = \<lparr>ev_Type = op, ev_Data = Some payload\<rparr>"

text \<open>Unmarshalling absent data is a syntax error.\<close>

definition Decode :: "(json \<Rightarrow> 'a option) \<Rightarrow> Envelope \<Rightarrow> 'a option" where
  "Decode d e = (case ev_Data e of None \<Rightarrow> None | Some j \<Rightarrow> d j)"

section \<open>Payloads\<close>

record Member =
  mb_ID :: string
  mb_DisplayName :: string
  mb_IdentityKey :: "bytes option"
  mb_KXKey :: "bytes option"
  mb_Attestation :: "bytes option"

definition json_Member :: "Member \<Rightarrow> json" where
  "json_Member m = JObj ([(''id'', JStr (mb_ID m)), (''name'', JStr (mb_DisplayName m)),
     (''identity_key'', json_bytes (mb_IdentityKey m)), (''kx_key'', json_bytes (mb_KXKey m))]
     @ omit_bytes ''attestation'' (mb_Attestation m))"

record Hello =
  he_ProtocolVersion :: int
  he_Room :: string
  he_DisplayName :: string
  he_IdentityKey :: "bytes option"
  he_KXKey :: "bytes option"
  he_InviteToken :: string
  he_Attestation :: "bytes option"

definition decode_Hello :: "json \<Rightarrow> Hello option" where
  "decode_Hello = decode_struct
     [(''protocol_version'', int_field (\<lambda>x s. s\<lparr>he_ProtocolVersion := x\<rparr>)),
      (''room'', str_field (\<lambda>x s. s\<lparr>he_Room := x\<rparr>)),
      (''name'', str_field (\<lambda>x s. s\<lparr>he_DisplayName := x\<rparr>)),
      (''identity_key'', bytes_field (\<lambda>x s. s\<lparr>he_IdentityKey := x\<rparr>)),
      (''kx_key'', bytes_field (\<lambda>x s. s\<lparr>he_KXKey := x\<rparr>)),
      (''invite_token'', str_field (\<lambda>x s. s\<lparr>he_InviteToken := x\<rparr>)),
      (''attestation'', bytes_field (\<lambda>x s. s\<lparr>he_Attestation := x\<rparr>))]
     \<lparr>he_ProtocolVersion = 0, he_Room = [], he_DisplayName = [], he_IdentityKey = None, he_KXKey = None,
      he_InviteToken = [], he_Attestation = None\<rparr>"

record RoomPolicy =
  rp_InviteOnly :: bool
  rp_Webhook :: bool
  rp_TTLSeconds :: int

definition json_RoomPolicy :: "RoomPolicy \<Rightarrow> json" where
  "json_RoomPolicy p = JObj ([(''invite_only'', JBool (rp_InviteOnly p)), (''webhook'', JBool (rp_Webhook p))]
     @ omit_int ''ttl_seconds'' (rp_TTLSeconds p))"

record Welcome =
  we_ProtocolVersion :: int
  we_YourID :: string
  we_Room :: string
  we_Members :: "Member list"
  we_YouAreFirst :: bool
  we_Policy :: RoomPolicy

definition json_Welcome :: "Welcome \<Rightarrow> json" where
  "json_Welcome w = JObj [(''protocol_version'', JInt (we_ProtocolVersion w)), (''your_id'', JStr (we_YourID w)),
     (''room'', JStr (we_Room w)), (''members'', JArr (map json_Member (we_Members w))),
     (''you_are_first'', JBool (we_YouAreFirst w)), (''policy'', json_RoomPolicy (we_Policy w))]"

definition json_MemberJoined :: "Member \<Rightarrow> json" where
  "json_MemberJoined m = JObj [(''member'', json_Member m)]"

definition json_MemberLeft :: "string \<Rightarrow> json" where
  "json_MemberLeft memberID = JObj [(''id'', JStr memberID)]"

definition json_KeyRequest :: "Member \<Rightarrow> json" where
  "json_KeyRequest m = JObj [(''for_member'', json_Member m)]"

record KeyDeliver =
  kd_ToID :: string
  kd_FromID :: string
  kd_Epoch :: "64 word"
  kd_Nonce :: "bytes option"
  kd_WrappedKey :: "bytes option"

definition json_KeyDeliver :: "KeyDeliver \<Rightarrow> json" where
  "json_KeyDeliver k = JObj [(''to_id'', JStr (kd_ToID k)), (''from_id'', JStr (kd_FromID k)),
     (''epoch'', JInt (uint (kd_Epoch k))), (''nonce'', json_bytes (kd_Nonce k)),
     (''wrapped_key'', json_bytes (kd_WrappedKey k))]"

definition decode_KeyDeliver :: "json \<Rightarrow> KeyDeliver option" where
  "decode_KeyDeliver = decode_struct
     [(''to_id'', str_field (\<lambda>x s. s\<lparr>kd_ToID := x\<rparr>)),
      (''from_id'', str_field (\<lambda>x s. s\<lparr>kd_FromID := x\<rparr>)),
      (''epoch'', uint64_field (\<lambda>x s. s\<lparr>kd_Epoch := x\<rparr>)),
      (''nonce'', bytes_field (\<lambda>x s. s\<lparr>kd_Nonce := x\<rparr>)),
      (''wrapped_key'', bytes_field (\<lambda>x s. s\<lparr>kd_WrappedKey := x\<rparr>))]
     \<lparr>kd_ToID = [], kd_FromID = [], kd_Epoch = 0, kd_Nonce = None, kd_WrappedKey = None\<rparr>"

record Message =
  ms_FromID :: string
  ms_Epoch :: "64 word"
  ms_Nonce :: "bytes option"
  ms_Ciphertext :: "bytes option"
  ms_Sig :: "bytes option"

definition json_Message :: "Message \<Rightarrow> json" where
  "json_Message m = JObj ([(''from_id'', JStr (ms_FromID m)), (''epoch'', JInt (uint (ms_Epoch m))),
     (''nonce'', json_bytes (ms_Nonce m)), (''ciphertext'', json_bytes (ms_Ciphertext m))]
     @ omit_bytes ''sig'' (ms_Sig m))"

definition message_fields :: "(string \<times> Message field_decoder) list" where
  "message_fields =
     [(''from_id'', str_field (\<lambda>x s. s\<lparr>ms_FromID := x\<rparr>)),
      (''epoch'', uint64_field (\<lambda>x s. s\<lparr>ms_Epoch := x\<rparr>)),
      (''nonce'', bytes_field (\<lambda>x s. s\<lparr>ms_Nonce := x\<rparr>)),
      (''ciphertext'', bytes_field (\<lambda>x s. s\<lparr>ms_Ciphertext := x\<rparr>)),
      (''sig'', bytes_field (\<lambda>x s. s\<lparr>ms_Sig := x\<rparr>))]"

definition zero_Message :: Message where
  "zero_Message = \<lparr>ms_FromID = [], ms_Epoch = 0, ms_Nonce = None, ms_Ciphertext = None, ms_Sig = None\<rparr>"

definition decode_Message :: "json \<Rightarrow> Message option" where
  "decode_Message = decode_struct message_fields zero_Message"

definition json_Error :: "string \<Rightarrow> string \<Rightarrow> json" where
  "json_Error code message = JObj [(''code'', JStr code), (''message'', JStr message)]"

record Control =
  ct_Action :: string
  ct_By :: string
  ct_ByName :: string
  ct_TTLSeconds :: int
  ct_Reason :: string

definition json_Control :: "Control \<Rightarrow> json" where
  "json_Control c = JObj ([(''action'', JStr (ct_Action c))] @ omit_str ''by'' (ct_By c)
     @ omit_str ''by_name'' (ct_ByName c) @ omit_int ''ttl_seconds'' (ct_TTLSeconds c)
     @ omit_str ''reason'' (ct_Reason c))"

definition decode_Control :: "json \<Rightarrow> Control option" where
  "decode_Control = decode_struct
     [(''action'', str_field (\<lambda>x s. s\<lparr>ct_Action := x\<rparr>)),
      (''by'', str_field (\<lambda>x s. s\<lparr>ct_By := x\<rparr>)),
      (''by_name'', str_field (\<lambda>x s. s\<lparr>ct_ByName := x\<rparr>)),
      (''ttl_seconds'', int_field (\<lambda>x s. s\<lparr>ct_TTLSeconds := x\<rparr>)),
      (''reason'', str_field (\<lambda>x s. s\<lparr>ct_Reason := x\<rparr>))]
     \<lparr>ct_Action = [], ct_By = [], ct_ByName = [], ct_TTLSeconds = 0, ct_Reason = []\<rparr>"

record ServerMessage =
  sm_Kind :: string
  sm_From :: string
  sm_Text :: string
  sm_At :: int

definition json_ServerMessage :: "ServerMessage \<Rightarrow> json" where
  "json_ServerMessage m = JObj [(''kind'', JStr (sm_Kind m)), (''from'', JStr (sm_From m)),
     (''text'', JStr (sm_Text m)), (''at'', JInt (sm_At m))]"

record InviteResult =
  iv_Room :: string
  iv_Token :: string
  iv_Expires :: int

definition json_InviteResult :: "InviteResult \<Rightarrow> json" where
  "json_InviteResult r = JObj ([(''room'', JStr (iv_Room r)), (''token'', JStr (iv_Token r))]
     @ omit_int ''expires'' (iv_Expires r))"

record BreakGlass =
  bg_Invitees :: "string list option"
  bg_TTLSeconds :: int

definition decode_BreakGlass :: "json \<Rightarrow> BreakGlass option" where
  "decode_BreakGlass = decode_struct
     [(''invitees'', strs_field (\<lambda>x s. s\<lparr>bg_Invitees := x\<rparr>)),
      (''ttl_seconds'', int_field (\<lambda>x s. s\<lparr>bg_TTLSeconds := x\<rparr>))]
     \<lparr>bg_Invitees = None, bg_TTLSeconds = 0\<rparr>"

record BreakGlassInvite =
  bi_Name :: string
  bi_Token :: string

record BreakGlassResult =
  br_Room :: string
  br_TTLSeconds :: int
  br_Expires :: int
  br_HostToken :: string
  br_Invites :: "BreakGlassInvite list"

definition json_BreakGlassResult :: "BreakGlassResult \<Rightarrow> json" where
  "json_BreakGlassResult r = JObj [(''room'', JStr (br_Room r)), (''ttl_seconds'', JInt (br_TTLSeconds r)),
     (''expires'', JInt (br_Expires r)), (''host_token'', JStr (br_HostToken r)),
     (''invites'', JArr (map (\<lambda>i. JObj [(''name'', JStr (bi_Name i)), (''token'', JStr (bi_Token i))]) (br_Invites r)))]"

subsection \<open>File relay\<close>

definition ChunkSize :: nat where "ChunkSize = 65536"
definition MaxChunkWire :: nat where "MaxChunkWire = ChunkSize + 256"

record FileOffer =
  fo_TransferID :: string
  fo_Sealed :: Message

definition json_FileOffer :: "FileOffer \<Rightarrow> json" where
  "json_FileOffer f = JObj [(''transfer_id'', JStr (fo_TransferID f)), (''sealed'', json_Message (fo_Sealed f))]"

definition decode_FileOffer :: "json \<Rightarrow> FileOffer option" where
  "decode_FileOffer = decode_struct
     [(''transfer_id'', str_field (\<lambda>x s. s\<lparr>fo_TransferID := x\<rparr>)),
      (''sealed'', (\<lambda>s j. map_option (\<lambda>m. s\<lparr>fo_Sealed := m\<rparr>) (decode_struct message_fields (fo_Sealed s) j)))]
     \<lparr>fo_TransferID = [], fo_Sealed = zero_Message\<rparr>"

record FileChunk =
  fc_TransferID :: string
  fc_Index :: int
  fc_Total :: int
  fc_Nonce :: "bytes option"
  fc_Data :: "bytes option"

definition json_FileChunk :: "FileChunk \<Rightarrow> json" where
  "json_FileChunk c = JObj [(''transfer_id'', JStr (fc_TransferID c)), (''index'', JInt (fc_Index c)),
     (''total'', JInt (fc_Total c)), (''nonce'', json_bytes (fc_Nonce c)), (''data'', json_bytes (fc_Data c))]"

definition decode_FileChunk :: "json \<Rightarrow> FileChunk option" where
  "decode_FileChunk = decode_struct
     [(''transfer_id'', str_field (\<lambda>x s. s\<lparr>fc_TransferID := x\<rparr>)),
      (''index'', int_field (\<lambda>x s. s\<lparr>fc_Index := x\<rparr>)),
      (''total'', int_field (\<lambda>x s. s\<lparr>fc_Total := x\<rparr>)),
      (''nonce'', bytes_field (\<lambda>x s. s\<lparr>fc_Nonce := x\<rparr>)),
      (''data'', bytes_field (\<lambda>x s. s\<lparr>fc_Data := x\<rparr>))]
     \<lparr>fc_TransferID = [], fc_Index = 0, fc_Total = 0, fc_Nonce = None, fc_Data = None\<rparr>"

record FileAck =
  fa_TransferID :: string
  fa_Received :: int

definition json_FileAck :: "FileAck \<Rightarrow> json" where
  "json_FileAck a = JObj [(''transfer_id'', JStr (fa_TransferID a)), (''received'', JInt (fa_Received a))]"

definition decode_FileAck :: "json \<Rightarrow> FileAck option" where
  "decode_FileAck = decode_struct
     [(''transfer_id'', str_field (\<lambda>x s. s\<lparr>fa_TransferID := x\<rparr>)),
      (''received'', int_field (\<lambda>x s. s\<lparr>fa_Received := x\<rparr>))]
     \<lparr>fa_TransferID = [], fa_Received = 0\<rparr>"

record FileAbort =
  fb_TransferID :: string
  fb_Reason :: string

definition json_FileAbort :: "FileAbort \<Rightarrow> json" where
  "json_FileAbort a = JObj [(''transfer_id'', JStr (fb_TransferID a)), (''reason'', JStr (fb_Reason a))]"

definition decode_FileAbort :: "json \<Rightarrow> FileAbort option" where
  "decode_FileAbort = decode_struct
     [(''transfer_id'', str_field (\<lambda>x s. s\<lparr>fb_TransferID := x\<rparr>)),
      (''reason'', str_field (\<lambda>x s. s\<lparr>fb_Reason := x\<rparr>))]
     \<lparr>fb_TransferID = [], fb_Reason = []\<rparr>"

section \<open>Field names\<close>

definition name_chars :: string where
  "name_chars = ''abcdefghijklmnopqrstuvwxyz_0123456789''"

abbreviation plain :: "string \<Rightarrow> bool" where
  "plain s \<equiv> list_all (\<lambda>c. c \<in> set name_chars) s"

lemma upper_names: "map upper name_chars = ''ABCDEFGHIJKLMNOPQRSTUVWXYZ_0123456789''"
  by code_simp

lemma upper_inj: "a \<in> set name_chars \<Longrightarrow> b \<in> set name_chars \<Longrightarrow> upper a = upper b \<longleftrightarrow> a = b"
proof -
  have "distinct (map upper name_chars)" unfolding upper_names by simp
  then have "inj_on upper (set name_chars)" by (simp add: distinct_map)
  then show "a \<in> set name_chars \<Longrightarrow> b \<in> set name_chars \<Longrightarrow> upper a = upper b \<longleftrightarrow> a = b"
    by (rule inj_on_eq_iff)
qed

lemma fold_name_plain: "plain s \<Longrightarrow> fold_name s = map upper s"
proof (induction s)
  case Nil
  then show ?case by (simp add: fold_name.simps)
next
  case (Cons c cs)
  have "c \<noteq> CHR 0xC5" "c \<noteq> CHR 0xE2" using Cons.prems by (auto simp: name_chars_def)
  with Cons show ?case by (subst fold_name.simps) simp
qed

lemma fold_name_eq: "plain s \<Longrightarrow> plain t \<Longrightarrow> fold_name s = fold_name t \<longleftrightarrow> s = t"
proof (induction s arbitrary: t)
  case Nil
  then show ?case by (auto simp: fold_name_plain)
next
  case (Cons c cs)
  then show ?case by (cases t) (auto simp: fold_name_plain upper_inj)
qed

lemma find_field_plain:
  "plain n \<Longrightarrow> plain key \<Longrightarrow> find_field ((n, d) # fs) key = (if n = key then Some d else find_field fs key)"
  by (simp add: fold_name_eq)

section \<open>Round trips\<close>

text \<open>What a payload type promises its readers: decoding an encoded payload gives it back.\<close>

locale payload =
  fixes enc :: "'a \<Rightarrow> json" and dec :: "json \<Rightarrow> 'a option" and ok :: "'a \<Rightarrow> bool"
  assumes dec_enc: "ok x \<Longrightarrow> dec (enc x) = Some x"
begin

lemma Decode_Encode: "ok x \<Longrightarrow> Decode dec (Encode op (enc x)) = Some x"
  by (simp add: Decode_def Encode_def dec_enc)

lemma enc_inj: "ok x \<Longrightarrow> ok y \<Longrightarrow> enc x = enc y \<Longrightarrow> x = y"
  using dec_enc by (metis option.inject)

end

definition int64 :: "int \<Rightarrow> bool" where
  "int64 x \<longleftrightarrow> - (2 ^ 63) \<le> x \<and> x < 2 ^ 63"

lemma bytes_field_json [simp]: "bytes_field upd s (json_bytes b) = Some (upd b s)"
  by (cases b) simp_all

lemma uint64_field_json [simp]: "uint64_field upd s (JInt (uint w)) = Some (upd w s)"
  using uint_lt2p [of w] by simp

lemma int_field_json [simp]: "int64 x \<Longrightarrow> int_field upd s (JInt x) = Some (upd x s)"
  by (simp add: int64_def)

declare find_field.simps [simp del] uint64_field.simps [simp del] int_field.simps [simp del]

lemmas codec = find_field_plain find_field.simps(1) name_chars_def omit_bytes_def omit_str_def omit_int_def go_len_def

text \<open>The names of the fields, for which matching up to case is equality.\<close>

definition plain_name :: "string \<Rightarrow> bool" where
  "plain_name s \<longleftrightarrow> plain s"

lemma plain_names [simp]:
  "plain_name ''action''" "plain_name ''actionee''" "plain_name ''algorithm''" "plain_name ''allowed''" "plain_name ''approved_at''" "plain_name ''approver_fpr''" "plain_name ''approver_key''" "plain_name ''artifact_approvals''"
  "plain_name ''artifact_hash''" "plain_name ''artifact_ref''" "plain_name ''at''" "plain_name ''attestation''"
  "plain_name ''attested_at''" "plain_name ''attested_by''" "plain_name ''author_id''" "plain_name ''author_key''"
  "plain_name ''author_name''" "plain_name ''body''" "plain_name ''by''" "plain_name ''by_name''" "plain_name ''chunks''" "plain_name ''ciphertext''" "plain_name ''cmd''" "plain_name ''code''" "plain_name ''data''"
  "plain_name ''display_name''" "plain_name ''endorsements''" "plain_name ''entries''" "plain_name ''epoch''"
  "plain_name ''epoch_first''" "plain_name ''epoch_last''" "plain_name ''epoch_range''" "plain_name ''exit_code''"
  "plain_name ''expires''" "plain_name ''expires_at''" "plain_name ''expires_unix''" "plain_name ''filename''"
  "plain_name ''first''" "plain_name ''for_member''" "plain_name ''fpr''" "plain_name ''from''" "plain_name ''from_id''" "plain_name ''hash''" "plain_name ''head_hash''" "plain_name ''host_token''" "plain_name ''id''"
  "plain_name ''identity_key''" "plain_name ''index''" "plain_name ''invite_only''" "plain_name ''invite_token''"
  "plain_name ''invitees''" "plain_name ''invites''" "plain_name ''issued_at''" "plain_name ''issuer''" "plain_name ''keys_zeroized''" "plain_name ''kind''" "plain_name ''kx_key''" "plain_name ''last''" "plain_name ''lines''"
  "plain_name ''links''" "plain_name ''meaning''" "plain_name ''member''" "plain_name ''member_fprs''" "plain_name ''members''" "plain_name ''message''" "plain_name ''name''" "plain_name ''netherchat_identity''" "plain_name ''netherchat_receipt''" "plain_name ''netherchat_record''" "plain_name ''netherchat_revocation''" "plain_name ''netherchat_roster''" "plain_name ''next_update''" "plain_name ''nonce''" "plain_name ''number''" "plain_name ''output''" "plain_name ''params''" "plain_name ''params_hash''" "plain_name ''policy''" "plain_name ''prev_hash''" "plain_name ''principal''" "plain_name ''principal_type''" "plain_name ''proposal_id''" "plain_name ''proposed_at''" "plain_name ''proposer_fpr''" "plain_name ''protocol_version''" "plain_name ''quorum''"
  "plain_name ''quorum_needed''" "plain_name ''reason''" "plain_name ''receipt_hash''" "plain_name ''received''"
  "plain_name ''rejecter_fpr''" "plain_name ''rel''" "plain_name ''replayed''" "plain_name ''request_id''"
  "plain_name ''requester_fpr''" "plain_name ''revoked''" "plain_name ''revoked_at''" "plain_name ''role''"
  "plain_name ''roles''" "plain_name ''room''" "plain_name ''room_id''" "plain_name ''schema''" "plain_name ''schema_version''" "plain_name ''scuttled_at''" "plain_name ''scuttled_by''" "plain_name ''sealed''" "plain_name ''sealed_at''" "plain_name ''sealed_by''" "plain_name ''seq''" "plain_name ''serial''" "plain_name ''set_hash''"
  "plain_name ''sha256''" "plain_name ''sig''" "plain_name ''signatures''" "plain_name ''signed_at''" "plain_name ''signer_fpr''" "plain_name ''signer_keys''" "plain_name ''signer_name''" "plain_name ''size''" "plain_name ''source''" "plain_name ''statement_id''" "plain_name ''stream_id''" "plain_name ''subject''" "plain_name ''summary''" "plain_name ''tag''" "plain_name ''text''" "plain_name ''to_id''" "plain_name ''to_name''"
  "plain_name ''token''" "plain_name ''total''" "plain_name ''transfer_id''" "plain_name ''ts''" "plain_name ''ttl_seconds''" "plain_name ''verified''" "plain_name ''vetoer_fpr''" "plain_name ''webhook''" "plain_name ''wrapped_key''" "plain_name ''you_are_first''" "plain_name ''your_id''"
  by code_simp+

fun decode_plain :: "(string \<times> 's field_decoder) list \<Rightarrow> (string \<times> json) list \<Rightarrow> 's \<Rightarrow> 's option" where
  "decode_plain fs [] s = Some s"
| "decode_plain fs ((key, v) # kvs) s =
     (case map_of fs key of
        None \<Rightarrow> decode_plain fs kvs s
      | Some d \<Rightarrow> (case d s v of None \<Rightarrow> None | Some s' \<Rightarrow> decode_plain fs kvs s'))"

lemma find_field_map_of: "list_all (\<lambda>f. plain_name (fst f)) fs \<Longrightarrow> plain_name key \<Longrightarrow> find_field fs key = map_of fs key"
proof (induction fs)
  case Nil
  then show ?case by (simp add: find_field.simps)
next
  case (Cons f fs)
  then show ?case by (cases f) (auto simp: find_field_plain plain_name_def)
qed

lemma decode_object_plain:
  "list_all (\<lambda>f. plain_name (fst f)) fs \<Longrightarrow> list_all (\<lambda>f. plain_name (fst f)) kvs \<Longrightarrow> decode_object fs kvs s = decode_plain fs kvs s"
  by (induction fs kvs s rule: decode_plain.induct) (auto simp: find_field_map_of split: option.splits)

lemma decode_struct_plain:
  "list_all (\<lambda>f. plain_name (fst f)) fs \<Longrightarrow> list_all (\<lambda>f. plain_name (fst f)) kvs \<Longrightarrow>
   decode_struct fs s (JObj kvs) = decode_plain fs kvs s"
  by (simp add: decode_object_plain)

lemma decode_plain_append:
  "decode_plain fs (xs @ ys) s = (case decode_plain fs xs s of None \<Rightarrow> None | Some s' \<Rightarrow> decode_plain fs ys s')"
  by (induction fs xs s rule: decode_plain.induct) (auto split: option.splits)

lemma plain_omit [simp]:
  "plain_name k \<Longrightarrow> list_all (\<lambda>f. plain_name (fst f)) (omit_str k v)"
  "plain_name k \<Longrightarrow> list_all (\<lambda>f. plain_name (fst f)) (omit_int k i)"
  "plain_name k \<Longrightarrow> list_all (\<lambda>f. plain_name (fst f)) (omit_bytes k b)"
  by (simp_all add: omit_str_def omit_int_def omit_bytes_def)

lemma decode_omit_str:
  "map_of fs k = Some (str_field upd) \<Longrightarrow> decode_plain fs (omit_str k v) s = Some (if v = [] then s else upd v s)"
  by (simp add: omit_str_def)

lemma decode_omit_int:
  "map_of fs k = Some (int_field upd) \<Longrightarrow> int64 v \<Longrightarrow> decode_plain fs (omit_int k v) s = Some (if v = 0 then s else upd v s)"
  by (simp add: omit_int_def)

lemma decode_omit_bytes:
  "map_of fs k = Some (bytes_field upd) \<Longrightarrow> b \<noteq> Some [] \<Longrightarrow> decode_plain fs (omit_bytes k b) s = Some (if b = None then s else upd b s)"
  by (cases b) (auto simp: omit_bytes_def go_len_def)

lemmas names = decode_struct_plain decode_plain_append decode_omit_str decode_omit_int decode_omit_bytes

text \<open>The empty signature is omitted on the wire and read back as none.\<close>

definition message_ok :: "Message \<Rightarrow> bool" where
  "message_ok m \<longleftrightarrow> ms_Sig m \<noteq> Some []"

lemma decode_Message_fields:
  "message_ok m \<Longrightarrow> ms_Sig s = None \<Longrightarrow> decode_struct message_fields s (json_Message m) = Some m"
  by (cases m; cases s; cases "ms_Sig m") (auto simp: json_Message_def message_fields_def names message_ok_def simp del: decode_struct.simps(2))

interpretation message: payload json_Message decode_Message message_ok
  by unfold_locales (simp add: decode_Message_def decode_Message_fields zero_Message_def)

interpretation keydeliver: payload json_KeyDeliver decode_KeyDeliver "\<lambda>_. True"
  by unfold_locales (simp add: json_KeyDeliver_def decode_KeyDeliver_def names del: decode_struct.simps(2))

interpretation control: payload json_Control decode_Control "\<lambda>c. int64 (ct_TTLSeconds c)"
  by unfold_locales (simp add: json_Control_def decode_Control_def names del: decode_struct.simps(2))

interpretation fileoffer: payload json_FileOffer decode_FileOffer "\<lambda>f. message_ok (fo_Sealed f)"
  by unfold_locales (simp add: json_FileOffer_def decode_FileOffer_def names decode_Message_fields zero_Message_def del: decode_struct.simps(2))

interpretation filechunk: payload json_FileChunk decode_FileChunk "\<lambda>c. int64 (fc_Index c) \<and> int64 (fc_Total c)"
  by unfold_locales (simp add: json_FileChunk_def decode_FileChunk_def names del: decode_struct.simps(2))

interpretation fileack: payload json_FileAck decode_FileAck "\<lambda>a. int64 (fa_Received a)"
  by unfold_locales (simp add: json_FileAck_def decode_FileAck_def names del: decode_struct.simps(2))

interpretation fileabort: payload json_FileAbort decode_FileAbort "\<lambda>_. True"
  by unfold_locales (simp add: json_FileAbort_def decode_FileAbort_def names del: decode_struct.simps(2))

section \<open>Property\<close>

text \<open>What the relay writes, a peer reads back: for every payload type the relay
  decodes and re-encodes, decoding the encoded envelope gives the payload itself. A chat
  message is only changed if its signature is empty and not nil (the empty signature is
  omitted on the wire); integer fields are within the range of a Go \<open>int\<close>.\<close>

theorem payload_round_trip:
  "(message_ok m \<longrightarrow> Decode decode_Message (Encode op (json_Message m)) = Some m) \<and>
   Decode decode_KeyDeliver (Encode op (json_KeyDeliver k)) = Some k \<and>
   (int64 (ct_TTLSeconds c) \<longrightarrow> Decode decode_Control (Encode op (json_Control c)) = Some c) \<and>
   (message_ok (fo_Sealed f) \<longrightarrow> Decode decode_FileOffer (Encode op (json_FileOffer f)) = Some f) \<and>
   (int64 (fc_Index d) \<and> int64 (fc_Total d) \<longrightarrow>
      Decode decode_FileChunk (Encode op (json_FileChunk d)) = Some d) \<and>
   (int64 (fa_Received a) \<longrightarrow> Decode decode_FileAck (Encode op (json_FileAck a)) = Some a) \<and>
   Decode decode_FileAbort (Encode op (json_FileAbort b)) = Some b"
  by (intro conjI impI message.Decode_Encode control.Decode_Encode fileoffer.Decode_Encode
      filechunk.Decode_Encode fileack.Decode_Encode keydeliver.Decode_Encode fileabort.Decode_Encode) simp_all

definition sample_message :: Message where
  "sample_message = \<lparr>ms_FromID = ''abc'', ms_Epoch = 7, ms_Nonce = Some ''nonce'',
     ms_Ciphertext = Some ''hello'', ms_Sig = Some ''s''\<rparr>"

theorem payload_round_trip_witness:
  "Decode decode_Message (Encode OpMessage (json_Message sample_message)) = Some sample_message \<and>
   Decode decode_FileOffer (Encode OpFileOffer (json_FileOffer \<lparr>fo_TransferID = ''t'', fo_Sealed = sample_message\<rparr>))
     = Some \<lparr>fo_TransferID = ''t'', fo_Sealed = sample_message\<rparr>"
proof -
  have ok: "message_ok sample_message" by (simp add: message_ok_def sample_message_def)
  show ?thesis
    using payload_round_trip [of sample_message OpMessage] ok
      payload_round_trip [where op = OpFileOffer and f = "\<lparr>fo_TransferID = ''t'', fo_Sealed = sample_message\<rparr>"]
    by simp
qed

end
