(* ===== verification/Config.thy ===== *)
theory Config
  imports Prelude
begin

text \<open>
  The relay's configuration, \<^verbatim>\<open>src/server/config/config.go\<close>, and the scuttle policy adapter of
  \<^verbatim>\<open>src/server/server.go\<close>: the policy records, the effective caps and lifetimes derived
  from them, and the path a configuration takes from TOML to use (defaults, decoding,
  \<open>normalize\<close>, \<open>validate\<close>). The TOML decoder is a third-party package and a parameter.

  A \<open>float64\<close> is kept as mantissa and binary exponent with the infinities and NaN, since
  the code only asks whether a rate is non-positive.
\<close>

section \<open>Records\<close>

datatype float64 = Finite int int | Infinite bool | NaN

fun float_le_zero :: "float64 \<Rightarrow> bool" where
  "float_le_zero (Finite m e) = (m \<le> 0)"
| "float_le_zero (Infinite negative) = negative"
| "float_le_zero NaN = False"

record ActionPolicy =
  ap_Quorum :: int

record TrustEntry =
  tr_Handle :: string
  tr_Fpr :: string
  tr_KeysURL :: string

record SourceConfig =
  sc_Name :: string
  sc_Token :: string
  sc_HMACSecret :: string
  sc_RatePerMinute :: int
  sc_SpawnPerHour :: int
  sc_RequireFresh :: bool
  sc_FreshnessWindow :: duration
  sc_FreshnessFutureSkew :: duration

record FreshnessConfig =
  fr_Window :: duration
  fr_FutureSkew :: duration

record WebhookConfig =
  wh_RatePerMinute :: int
  wh_SpawnPerHour :: int
  wh_UnauthRatePerMinute :: int

record IngestConfig =
  in_Freshness :: FreshnessConfig
  in_Webhook :: WebhookConfig

record ServerConfig =
  sv_Addr :: string
  sv_TLSCert :: string
  sv_TLSKey :: string
  sv_WebURL :: string

record RouteConfig =
  ro_Match :: "(string, string) gomap"
  ro_Action :: string
  ro_Invite :: "string list"
  ro_TTL :: duration
  ro_RoomPrefix :: string
  ro_ReplyURL :: string

record LimitsConfig =
  li_MessagesPerSecond :: float64
  li_Burst :: int
  li_MaxFileBytes :: int
  li_MaxConcurrentTransfers :: int

record PersistenceConfig =
  pe_Enabled :: bool
  pe_Path :: string
  pe_History :: int
  pe_Key :: string

record ScuttlePolicy =
  sp_IdleAfter :: duration
  sp_OwnerLossBurn :: bool
  sp_Heartbeat :: duration

record RoomConfig =
  rm_InviteOnly :: bool
  rm_Webhook :: bool
  rm_WebhookToken :: string
  rm_WebhookRatePerMinute :: int
  rm_WebhookSpawnPerHour :: int
  rm_TTL :: duration
  rm_Scuttle :: ScuttlePolicy
  rm_Durable :: bool
  rm_BeaconToken :: string
  rm_BeaconTTL :: duration

record DirectConfig =
  di_Port :: int
  di_LANDiscovery :: bool

record NotifyConfig =
  no_On :: "string list"

record Config =
  cf_Server :: ServerConfig
  cf_Limits :: LimitsConfig
  cf_Persistence :: PersistenceConfig
  cf_Rooms :: "(string, RoomConfig) gomap"
  cf_Routes :: "RouteConfig list"
  cf_Sources :: "SourceConfig list"
  cf_Ingest :: IngestConfig
  cf_Actions :: "(string, ActionPolicy) gomap"
  cf_Trust :: "TrustEntry list"
  cf_Direct :: DirectConfig
  cf_Notify :: NotifyConfig
  cf_Macros :: "(string, string) gomap"

section \<open>Effective values\<close>

definition ActionQuorum :: "Config \<Rightarrow> string \<Rightarrow> int" where
  "ActionQuorum c action = (case mget (cf_Actions c) action of Some p \<Rightarrow> ap_Quorum p | None \<Rightarrow> 1)"

fun find_source :: "SourceConfig list \<Rightarrow> string \<Rightarrow> SourceConfig option" where
  "find_source [] name = None"
| "find_source (s # ss) name = (if sc_Name s = name then Some s else find_source ss name)"

definition Source :: "Config \<Rightarrow> string \<Rightarrow> SourceConfig option" where
  "Source c name = find_source (cf_Sources c) name"

definition DefaultFreshnessWindow :: duration where "DefaultFreshnessWindow = 5 * minute"
definition DefaultFreshnessFutureSkew :: duration where "DefaultFreshnessFutureSkew = 60 * second"
definition DefaultWebhookRatePerMinute :: int where "DefaultWebhookRatePerMinute = 120"
definition DefaultWebhookSpawnPerHour :: int where "DefaultWebhookSpawnPerHour = 60"
definition DefaultWebhookUnauthRatePerMinute :: int where "DefaultWebhookUnauthRatePerMinute = 600"
definition DefaultMaxFileBytes :: int where "DefaultMaxFileBytes = 50 * 2 ^ 20"
definition DefaultMaxConcurrentTransfers :: int where "DefaultMaxConcurrentTransfers = 3"

definition resolveWebhookCap :: "int \<Rightarrow> int \<Rightarrow> int \<Rightarrow> int" where
  "resolveWebhookCap override global builtin =
    (if override > 0 then override else if global > 0 then global else builtin)"

definition WebhookRate :: "Config \<Rightarrow> RoomConfig \<Rightarrow> int" where
  "WebhookRate c room = resolveWebhookCap (rm_WebhookRatePerMinute room)
     (wh_RatePerMinute (in_Webhook (cf_Ingest c))) DefaultWebhookRatePerMinute"

definition WebhookSpawn :: "Config \<Rightarrow> RoomConfig \<Rightarrow> int" where
  "WebhookSpawn c room = resolveWebhookCap (rm_WebhookSpawnPerHour room)
     (wh_SpawnPerHour (in_Webhook (cf_Ingest c))) DefaultWebhookSpawnPerHour"

definition WebhookUnauthRate :: "Config \<Rightarrow> int" where
  "WebhookUnauthRate c = resolveWebhookCap 0
     (wh_UnauthRatePerMinute (in_Webhook (cf_Ingest c))) DefaultWebhookUnauthRatePerMinute"

text \<open>The token and whether the beacon is enabled.\<close>

definition BeaconAuth :: "RoomConfig \<Rightarrow> string \<times> bool" where
  "BeaconAuth c =
    (if rm_BeaconToken c \<noteq> [] then (rm_BeaconToken c, True)
     else if rm_WebhookToken c \<noteq> [] then (rm_WebhookToken c, True)
     else ([], False))"

definition BeaconMaxTTL :: duration where "BeaconMaxTTL = 24 * hour"

definition BeaconLifetime :: "RoomConfig \<Rightarrow> int \<Rightarrow> duration" where
  "BeaconLifetime c requestedSeconds =
    (let max = rm_BeaconTTL c;
         max = (if max \<le> 0 \<or> max > BeaconMaxTTL then BeaconMaxTTL else max);
         d = i64 (requestedSeconds * second);
         d = (if d \<le> 0 then hour else d);
         d = (if d > max then max else d);
         d = (if d < minute then minute else d)
     in d)"

definition ScuttleActive :: "ScuttlePolicy \<Rightarrow> bool" where
  "ScuttleActive p \<longleftrightarrow> sp_IdleAfter p > 0 \<or> sp_OwnerLossBurn p"

definition defaultScuttleHeartbeat :: duration where "defaultScuttleHeartbeat = 60 * second"

definition HeartbeatOrDefault :: "ScuttlePolicy \<Rightarrow> duration" where
  "HeartbeatOrDefault p =
    (let hb = sp_Heartbeat p;
         hb = (if hb \<le> 0 then defaultScuttleHeartbeat else hb);
         idle = sp_IdleAfter p
     in if idle > 0 \<and> hb > idle then idle else hb)"

section \<open>Rooms\<close>

definition zero_scuttle :: ScuttlePolicy where
  "zero_scuttle = \<lparr>sp_IdleAfter = 0, sp_OwnerLossBurn = False, sp_Heartbeat = 0\<rparr>"

definition zero_room :: RoomConfig where
  "zero_room = \<lparr>rm_InviteOnly = False, rm_Webhook = False, rm_WebhookToken = [],
     rm_WebhookRatePerMinute = 0, rm_WebhookSpawnPerHour = 0, rm_TTL = 0, rm_Scuttle = zero_scuttle,
     rm_Durable = False, rm_BeaconToken = [], rm_BeaconTTL = 0\<rparr>"

definition Room :: "Config \<Rightarrow> string \<Rightarrow> RoomConfig" where
  "Room c name = (case mget (cf_Rooms c) name of Some r \<Rightarrow> r | None \<Rightarrow> zero_room)"

definition PersistRoom :: "Config \<Rightarrow> string \<Rightarrow> bool" where
  "PersistRoom c room \<longleftrightarrow> pe_Enabled (cf_Persistence c) \<or> rm_Durable (Room c room)"

fun any_durable :: "(string, RoomConfig) gomap \<Rightarrow> bool" where
  "any_durable [] = False"
| "any_durable ((_, rc) # rs) = (if rm_Durable rc then True else any_durable rs)"

definition AnyDurableRoom :: "Config \<Rightarrow> bool" where
  "AnyDurableRoom c = any_durable (cf_Rooms c)"

text \<open>The policy record of the scuttle manager (\<^verbatim>\<open>scuttle.Policy\<close>) and its adapter.\<close>

record Policy =
  po_IdleAfter :: duration
  po_OwnerLossBurn :: bool
  po_Heartbeat :: duration

definition scuttlePolicyOf :: "Config \<Rightarrow> string \<Rightarrow> Policy" where
  "scuttlePolicyOf cfg room =
    (let p = rm_Scuttle (Room cfg room)
     in \<lparr>po_IdleAfter = sp_IdleAfter p, po_OwnerLossBurn = sp_OwnerLossBurn p,
         po_Heartbeat = HeartbeatOrDefault p\<rparr>)"

section \<open>From TOML to use\<close>

definition Default :: Config where
  "Default = \<lparr>
     cf_Server = \<lparr>sv_Addr = '':3000'', sv_TLSCert = [], sv_TLSKey = [], sv_WebURL = []\<rparr>,
     cf_Limits = \<lparr>li_MessagesPerSecond = Finite 20 0, li_Burst = 40, li_MaxFileBytes = DefaultMaxFileBytes,
       li_MaxConcurrentTransfers = DefaultMaxConcurrentTransfers\<rparr>,
     cf_Persistence = \<lparr>pe_Enabled = False, pe_Path = [], pe_History = 100, pe_Key = []\<rparr>,
     cf_Rooms = [], cf_Routes = [], cf_Sources = [],
     cf_Ingest = \<lparr>in_Freshness = \<lparr>fr_Window = DefaultFreshnessWindow, fr_FutureSkew = DefaultFreshnessFutureSkew\<rparr>,
       in_Webhook = \<lparr>wh_RatePerMinute = DefaultWebhookRatePerMinute, wh_SpawnPerHour = DefaultWebhookSpawnPerHour,
         wh_UnauthRatePerMinute = DefaultWebhookUnauthRatePerMinute\<rparr>\<rparr>,
     cf_Actions = [], cf_Trust = [], cf_Direct = \<lparr>di_Port = 0, di_LANDiscovery = False\<rparr>,
     cf_Notify = \<lparr>no_On = []\<rparr>, cf_Macros = []\<rparr>"

definition normalize_server :: "ServerConfig \<Rightarrow> ServerConfig" where
  "normalize_server s = (if sv_Addr s = [] then s\<lparr>sv_Addr := '':3000''\<rparr> else s)"

definition normalize_limits :: "LimitsConfig \<Rightarrow> LimitsConfig" where
  "normalize_limits l =
    (let l = (if float_le_zero (li_MessagesPerSecond l) then l\<lparr>li_MessagesPerSecond := Finite 20 0\<rparr> else l);
         l = (if li_Burst l \<le> 0 then l\<lparr>li_Burst := 40\<rparr> else l);
         l = (if li_MaxFileBytes l \<le> 0 then l\<lparr>li_MaxFileBytes := DefaultMaxFileBytes\<rparr> else l);
         l = (if li_MaxConcurrentTransfers l \<le> 0
              then l\<lparr>li_MaxConcurrentTransfers := DefaultMaxConcurrentTransfers\<rparr> else l)
     in l)"

definition normalize_ingest :: "IngestConfig \<Rightarrow> IngestConfig" where
  "normalize_ingest i =
    (let f = in_Freshness i;
         f = (if fr_Window f \<le> 0 then f\<lparr>fr_Window := DefaultFreshnessWindow\<rparr> else f);
         f = (if fr_FutureSkew f \<le> 0 then f\<lparr>fr_FutureSkew := DefaultFreshnessFutureSkew\<rparr> else f);
         w = in_Webhook i;
         w = (if wh_RatePerMinute w \<le> 0 then w\<lparr>wh_RatePerMinute := DefaultWebhookRatePerMinute\<rparr> else w);
         w = (if wh_SpawnPerHour w \<le> 0 then w\<lparr>wh_SpawnPerHour := DefaultWebhookSpawnPerHour\<rparr> else w);
         w = (if wh_UnauthRatePerMinute w \<le> 0
              then w\<lparr>wh_UnauthRatePerMinute := DefaultWebhookUnauthRatePerMinute\<rparr> else w)
     in i\<lparr>in_Freshness := f, in_Webhook := w\<rparr>)"

definition normalize :: "Config \<Rightarrow> Config" where
  "normalize c =
    (let c = c\<lparr>cf_Server := normalize_server (cf_Server c)\<rparr>;
         c = c\<lparr>cf_Limits := normalize_limits (cf_Limits c)\<rparr>;
         c = (if (pe_Enabled (cf_Persistence c) \<or> AnyDurableRoom c) \<and> pe_History (cf_Persistence c) \<le> 0
              then c\<lparr>cf_Persistence := (cf_Persistence c)\<lparr>pe_History := 100\<rparr>\<rparr> else c);
         c = c\<lparr>cf_Ingest := normalize_ingest (cf_Ingest c)\<rparr>
     in c)"

datatype config_error = TLSNotHonored "string list" | FreshNeedsHMAC string

fun validate_sources :: "SourceConfig list \<Rightarrow> config_error option" where
  "validate_sources [] = None"
| "validate_sources (s # ss) =
     (if sc_RequireFresh s \<and> sc_HMACSecret s = [] then Some (FreshNeedsHMAC (sc_Name s))
      else validate_sources ss)"

definition validate :: "Config \<Rightarrow> config_error option" where
  "validate c =
    (let tlsKeys = [];
         tlsKeys = (if sv_TLSCert (cf_Server c) \<noteq> [] then tlsKeys @ [''tls_cert''] else tlsKeys);
         tlsKeys = (if sv_TLSKey (cf_Server c) \<noteq> [] then tlsKeys @ [''tls_key''] else tlsKeys)
     in if length tlsKeys > 0 then Some (TLSNotHonored tlsKeys)
        else validate_sources (cf_Sources c))"

text \<open>\<open>Parse\<close> over a TOML decoder that updates the defaults it is given.\<close>

datatype parse_error = TomlError string | Invalid config_error

definition Parse :: "(bytes \<Rightarrow> Config \<Rightarrow> string option \<times> Config) \<Rightarrow> bytes \<Rightarrow> Config \<times> parse_error option" where
  "Parse unmarshal b =
    (case unmarshal b Default of
       (Some err, cfg) \<Rightarrow> (cfg, Some (TomlError err))
     | (None, cfg) \<Rightarrow>
        (let cfg = normalize cfg
         in case validate cfg of Some err \<Rightarrow> (cfg, Some (Invalid err)) | None \<Rightarrow> (cfg, None)))"

section \<open>Well-formed configurations\<close>

definition config_sane :: "Config \<Rightarrow> bool" where
  "config_sane c \<longleftrightarrow>
     sv_Addr (cf_Server c) \<noteq> [] \<and>
     \<not> float_le_zero (li_MessagesPerSecond (cf_Limits c)) \<and> li_Burst (cf_Limits c) > 0 \<and>
     li_MaxFileBytes (cf_Limits c) > 0 \<and> li_MaxConcurrentTransfers (cf_Limits c) > 0 \<and>
     (pe_Enabled (cf_Persistence c) \<or> AnyDurableRoom c \<longrightarrow> pe_History (cf_Persistence c) > 0) \<and>
     fr_Window (in_Freshness (cf_Ingest c)) > 0 \<and> fr_FutureSkew (in_Freshness (cf_Ingest c)) > 0 \<and>
     wh_RatePerMinute (in_Webhook (cf_Ingest c)) > 0 \<and> wh_SpawnPerHour (in_Webhook (cf_Ingest c)) > 0 \<and>
     wh_UnauthRatePerMinute (in_Webhook (cf_Ingest c)) > 0"

lemmas config_defaults = DefaultFreshnessWindow_def DefaultFreshnessFutureSkew_def
  DefaultWebhookRatePerMinute_def DefaultWebhookSpawnPerHour_def DefaultWebhookUnauthRatePerMinute_def
  DefaultMaxFileBytes_def DefaultMaxConcurrentTransfers_def minute_def second_def hour_def

lemmas normalize_defs = normalize_def normalize_server_def normalize_limits_def normalize_ingest_def Let_def

lemma normalize_limits_sane:
  "\<not> float_le_zero (li_MessagesPerSecond (normalize_limits l)) \<and> li_Burst (normalize_limits l) > 0 \<and>
   li_MaxFileBytes (normalize_limits l) > 0 \<and> li_MaxConcurrentTransfers (normalize_limits l) > 0"
  by (simp add: normalize_limits_def Let_def config_defaults)

lemma normalize_ingest_sane:
  "fr_Window (in_Freshness (normalize_ingest i)) > 0 \<and> fr_FutureSkew (in_Freshness (normalize_ingest i)) > 0 \<and>
   wh_RatePerMinute (in_Webhook (normalize_ingest i)) > 0 \<and> wh_SpawnPerHour (in_Webhook (normalize_ingest i)) > 0 \<and>
   wh_UnauthRatePerMinute (in_Webhook (normalize_ingest i)) > 0"
  by (simp add: normalize_ingest_def Let_def config_defaults)

lemma AnyDurableRoom_iff: "AnyDurableRoom c \<longleftrightarrow> (\<exists>(n, r) \<in> set (cf_Rooms c). rm_Durable r)"
proof -
  have "any_durable rs \<longleftrightarrow> (\<exists>(n, r) \<in> set rs. rm_Durable r)" for rs
    by (induction rs rule: any_durable.induct) auto
  then show ?thesis by (simp add: AnyDurableRoom_def)
qed

lemma normalize_fields:
  "cf_Server (normalize c) = normalize_server (cf_Server c)"
  "cf_Limits (normalize c) = normalize_limits (cf_Limits c)"
  "cf_Ingest (normalize c) = normalize_ingest (cf_Ingest c)"
  "cf_Rooms (normalize c) = cf_Rooms c" "cf_Sources (normalize c) = cf_Sources c"
  "pe_Enabled (cf_Persistence (normalize c)) = pe_Enabled (cf_Persistence c)"
  by (simp_all add: normalize_def Let_def)

lemma normalize_sane: "config_sane (normalize c)"
proof -
  have "pe_Enabled (cf_Persistence c) \<or> AnyDurableRoom c \<Longrightarrow> pe_History (cf_Persistence (normalize c)) > 0"
    by (auto simp: normalize_def Let_def AnyDurableRoom_def)
  then show ?thesis
    using normalize_limits_sane normalize_ingest_sane
    by (simp add: config_sane_def normalize_fields AnyDurableRoom_def) (simp add: normalize_server_def)
qed

lemma normalize_limits_id:
  "\<not> float_le_zero (li_MessagesPerSecond l) \<Longrightarrow> li_Burst l > 0 \<Longrightarrow> li_MaxFileBytes l > 0 \<Longrightarrow>
   li_MaxConcurrentTransfers l > 0 \<Longrightarrow> normalize_limits l = l"
  by (simp add: normalize_limits_def)

lemma normalize_ingest_id:
  assumes "fr_Window (in_Freshness i) > 0" "fr_FutureSkew (in_Freshness i) > 0"
    and "wh_RatePerMinute (in_Webhook i) > 0" "wh_SpawnPerHour (in_Webhook i) > 0"
    and "wh_UnauthRatePerMinute (in_Webhook i) > 0"
  shows "normalize_ingest i = i"
  using assms by (cases i) (simp add: normalize_ingest_def)

lemma normalize_sane_id:
  assumes "config_sane c" shows "normalize c = c"
proof -
  have "normalize_server (cf_Server c) = cf_Server c" "normalize_limits (cf_Limits c) = cf_Limits c"
    "normalize_ingest (cf_Ingest c) = cf_Ingest c"
    using assms by (simp_all add: config_sane_def normalize_server_def normalize_limits_id normalize_ingest_id)
  moreover have "\<not> ((pe_Enabled (cf_Persistence c) \<or> AnyDurableRoom c) \<and> pe_History (cf_Persistence c) \<le> 0)"
    using assms by (auto simp: config_sane_def)
  ultimately show ?thesis by (cases c) (auto simp: normalize_def AnyDurableRoom_def Let_def)
qed

lemma validate_sources_None:
  "validate_sources ss = None \<longleftrightarrow> (\<forall>s \<in> set ss. sc_RequireFresh s \<longrightarrow> sc_HMACSecret s \<noteq> [])"
  by (induction ss) auto

lemma validate_None:
  "validate c = None \<longleftrightarrow> sv_TLSCert (cf_Server c) = [] \<and> sv_TLSKey (cf_Server c) = [] \<and>
     (\<forall>s \<in> set (cf_Sources c). sc_RequireFresh s \<longrightarrow> sc_HMACSecret s \<noteq> [])"
  by (simp add: validate_def Let_def validate_sources_None)

text \<open>A ticker with a non-positive period panics, and one longer than the window it watches is late.\<close>

lemma heartbeat_bounds:
  "po_Heartbeat (scuttlePolicyOf cfg room) > 0"
  "po_IdleAfter (scuttlePolicyOf cfg room) > 0 \<Longrightarrow>
    po_Heartbeat (scuttlePolicyOf cfg room) \<le> po_IdleAfter (scuttlePolicyOf cfg room)"
  by (auto simp: scuttlePolicyOf_def HeartbeatOrDefault_def Let_def defaultScuttleHeartbeat_def second_def)

section \<open>Properties\<close>

text \<open>A configuration that \<open>Parse\<close> accepts is usable as it stands: every limit,
  rate, window and history bound is positive, no TLS setting the relay would ignore is
  present, and no source demands freshness of a timestamp nobody signs.\<close>

theorem Parse_fails_closed:
  assumes "Parse unmarshal b = (cfg, None)"
  shows "config_sane cfg \<and> sv_TLSCert (cf_Server cfg) = [] \<and> sv_TLSKey (cf_Server cfg) = [] \<and>
    (\<forall>s \<in> set (cf_Sources cfg). sc_RequireFresh s \<longrightarrow> sc_HMACSecret s \<noteq> []) \<and> normalize cfg = cfg"
proof -
  from assms obtain c where "cfg = normalize c" "validate cfg = None"
    by (auto simp: Parse_def Let_def split: prod.splits option.splits)
  then show ?thesis using normalize_sane [of c] normalize_sane_id [of cfg] by (simp add: validate_None)
qed

definition negative_burst :: "bytes \<Rightarrow> Config \<Rightarrow> string option \<times> Config" where
  "negative_burst b c = (None, c\<lparr>cf_Limits := (cf_Limits c)\<lparr>li_Burst := -5\<rparr>\<rparr>)"

theorem Parse_fails_closed_witness:
  "snd (Parse negative_burst ''x'') = None \<and> config_sane (fst (Parse negative_burst ''x''))"
proof -
  have "validate (normalize (snd (negative_burst ''x'' Default))) = None"
    by (simp add: validate_None normalize_fields normalize_server_def negative_burst_def Default_def)
  then have "snd (Parse negative_burst ''x'') = None"
    by (simp add: Parse_def negative_burst_def)
  then show ?thesis 
    using Parse_fails_closed [of negative_burst "''x''" "fst (Parse negative_burst ''x'')"] by (simp add: prod_eq_iff)
qed

text \<open>A beacon's lifetime stays between one minute and 24 hours for every requested
  number of seconds, including one whose conversion to nanoseconds overflows, and a
  configured ceiling of at least a minute is respected.\<close>

theorem BeaconLifetime_bounds:
  "minute \<le> BeaconLifetime c n \<and> BeaconLifetime c n \<le> BeaconMaxTTL \<and>
   (minute \<le> rm_BeaconTTL c \<longrightarrow> BeaconLifetime c n \<le> rm_BeaconTTL c)"
  by (simp add: BeaconLifetime_def Let_def BeaconMaxTTL_def minute_def hour_def second_def)

theorem BeaconLifetime_bounds_witness:
  "minute \<le> rm_BeaconTTL (zero_room\<lparr>rm_BeaconTTL := 2 * hour\<rparr>) \<and>
   BeaconLifetime (zero_room\<lparr>rm_BeaconTTL := 2 * hour\<rparr>) 86400 \<le> 2 * hour"
  using BeaconLifetime_bounds [of "zero_room\<lparr>rm_BeaconTTL := 2 * hour\<rparr>" 86400]
  by (simp add: zero_room_def hour_def minute_def second_def)

end
