(* ===== verification/Invite.thy ===== *)
theory Invite
  imports Prelude Encoding
begin

text \<open>
  One-time invite tokens, \<^verbatim>\<open>src/server/internal/invite/invite.go\<close>. The store maps a token to
  the room it admits to and its expiry (\<open>None\<close> is the zero \<open>time.Time\<close>: no expiry). The
  clock and the 18 random bytes of a token are arguments, so every step is a function.

  The abstract view of a store at a time is the partial map \<open>live_tokens\<close> from usable
  tokens to rooms; the lemmas show how each operation acts on that view, that the
  janitor is invisible to redeemers, and that a token admits at most once.
\<close>

section \<open>The store\<close>

record invite_entry =
  ie_room :: string
  ie_expires :: "go_time option"

record Invites =
  tokens :: "(string, invite_entry) gomap"

definition NewInvites :: Invites where
  "NewInvites = \<lparr>tokens = []\<rparr>"

text \<open>\<open>!e.expires.IsZero() && now.After(e.expires)\<close>\<close>

definition expired :: "go_time \<Rightarrow> invite_entry \<Rightarrow> bool" where
  "expired now e = (case ie_expires e of None \<Rightarrow> False | Some t \<Rightarrow> now > t)"

definition Generate :: "bytes \<Rightarrow> go_time \<Rightarrow> string \<Rightarrow> duration \<Rightarrow> Invites \<Rightarrow> Invites \<times> string \<times> go_time option" where
  "Generate rnd now room ttl s =
    (let token = rawurl_encode rnd;
         exp = (if ttl > 0 then Some (now + ttl) else None)
     in (s\<lparr>tokens := mput token \<lparr>ie_room = room, ie_expires = exp\<rparr> (tokens s)\<rparr>, token, exp))"

definition Redeem :: "go_time \<Rightarrow> string \<Rightarrow> string \<Rightarrow> Invites \<Rightarrow> Invites \<times> bool" where
  "Redeem now token room s =
    (case mget (tokens s) token of
       None \<Rightarrow> (s, False)
     | Some e \<Rightarrow>
        (if expired now e then (s\<lparr>tokens := mdel token (tokens s)\<rparr>, False)
         else if ie_room e \<noteq> room then (s, False)
         else (s\<lparr>tokens := mdel token (tokens s)\<rparr>, True)))"

definition sweep_invites :: "go_time \<Rightarrow> Invites \<Rightarrow> Invites \<times> nat" where
  "sweep_invites now s =
    (let kept = mkeep (\<lambda>_ e. \<not> expired now e) (tokens s)
     in (s\<lparr>tokens := kept\<rparr>, length (tokens s) - length kept))"

section \<open>Runs\<close>

text \<open>The operations other goroutines may interleave, with what each answers.\<close>

datatype invite_op = IGenerate bytes string duration | IRedeem string string | ISweep

fun invite_step :: "go_time \<Rightarrow> invite_op \<Rightarrow> Invites \<Rightarrow> Invites \<times> bool" where
  "invite_step now (IGenerate rnd room ttl) s = (fst (Generate rnd now room ttl s), True)"
| "invite_step now (IRedeem token room) s = Redeem now token room s"
| "invite_step now ISweep s = (fst (sweep_invites now s), True)"

fun invite_run :: "(go_time \<times> invite_op) list \<Rightarrow> Invites \<Rightarrow> Invites \<times> (invite_op \<times> bool) list" where
  "invite_run [] s = (s, [])"
| "invite_run ((now, op) # ops) s =
     (let (s1, r) = invite_step now op s; (s2, rs) = invite_run ops s1 in (s2, (op, r) # rs))"

section \<open>Invariant and abstract view\<close>

definition invites_ok :: "Invites \<Rightarrow> bool" where
  "invites_ok s \<longleftrightarrow> is_map (tokens s)"

definition live_tokens :: "go_time \<Rightarrow> Invites \<Rightarrow> string \<Rightarrow> string option" where
  "live_tokens now s tok =
    (case mget (tokens s) tok of None \<Rightarrow> None | Some e \<Rightarrow> if expired now e then None else Some (ie_room e))"

interpretation inv: expiry "\<lambda>now e. \<not> expired now e"
  by unfold_locales (auto simp: expired_def split: option.splits)

lemmas invite_defs = Generate_def Redeem_def sweep_invites_def invites_ok_def Let_def

lemma invites_ok_new: "invites_ok NewInvites"
  by (simp add: invites_ok_def NewInvites_def)

lemma invite_step_ok: "invites_ok s \<Longrightarrow> invites_ok (fst (invite_step now op s))"
  by (cases op) (auto simp: invite_defs split: option.splits)

lemma Redeem_result: "snd (Redeem now tok room s) \<longleftrightarrow> live_tokens now s tok = Some room"
  by (auto simp: Redeem_def live_tokens_def split: option.splits)

lemma Redeem_live: "invites_ok s \<Longrightarrow> live_tokens now (fst (Redeem now tok room s)) =
    (if snd (Redeem now tok room s) then (live_tokens now s)(tok := None) else live_tokens now s)"
  by (auto simp: Redeem_def live_tokens_def fun_eq_iff split: option.splits)

lemma live_tokens_sweep: "invites_ok s \<Longrightarrow> s0 \<le> now \<Longrightarrow>
    live_tokens now (fst (sweep_invites s0 s)) = live_tokens now s"
  using inv.stays_dead by (auto simp: live_tokens_def sweep_invites_def invites_ok_def Let_def mget_mkeep
    fun_eq_iff split: option.splits)

lemma live_tokens_Generate:
  "live_tokens now (fst (Generate rnd now room ttl s)) = (live_tokens now s)(rawurl_encode rnd \<mapsto> room)"
  by (auto simp: live_tokens_def Generate_def expired_def Let_def fun_eq_iff split: option.splits)

section \<open>Properties\<close>

text \<open>Redemption implements the abstract one-time map: it succeeds exactly when the
  token is live and names this room, it then removes that token and nothing else, and a
  refusal (unknown, expired, or for another room) leaves every live token usable.\<close>

theorem Redeem_refines:
  assumes "invites_ok s"
  shows "(snd (Redeem now tok room s) \<longleftrightarrow> live_tokens now s tok = Some room) \<and>
    live_tokens now (fst (Redeem now tok room s)) =
      (if live_tokens now s tok = Some room then (live_tokens now s)(tok := None) else live_tokens now s) \<and>
    invites_ok (fst (Redeem now tok room s))"
  using Redeem_live [OF assms] Redeem_result [of now tok room s] invite_step_ok [OF assms, of now "IRedeem tok room"]
  by simp

theorem Redeem_refines_witness:
  "snd (Redeem 5 ''t'' ''ops'' \<lparr>tokens = [(''t'', \<lparr>ie_room = ''ops'', ie_expires = Some 9\<rparr>)]\<rparr>) \<and>
   live_tokens 5 (fst (Redeem 5 ''t'' ''ops'' \<lparr>tokens = [(''t'', \<lparr>ie_room = ''ops'', ie_expires = Some 9\<rparr>)]\<rparr>)) ''t'' = None"
  using Redeem_refines [of "\<lparr>tokens = [(''t'', \<lparr>ie_room = ''ops'', ie_expires = Some 9\<rparr>)]\<rparr>" 5 "''t''" "''ops''"]
  by (simp add: invites_ok_def live_tokens_def expired_def)

lemma gone_stays_gone:
  assumes "mget (tokens s) tok = None" and "invites_ok s"
    and "\<forall>(_, op) \<in> set ops. \<forall>rnd room ttl. op = IGenerate rnd room ttl \<longrightarrow> rawurl_encode rnd \<noteq> tok"
  shows "\<forall>(op, r) \<in> set (snd (invite_run ops s)). \<forall>room. op = IRedeem tok room \<longrightarrow> \<not> r"
  using assms
proof (induction ops arbitrary: s)
  case (Cons nop ops)
  obtain now op where nop: "nop = (now, op)" by fastforce
  let ?s1 = "fst (invite_step now op s)"
  have gone: "mget (tokens ?s1) tok = None"
    using Cons.prems nop by (cases op) (auto simp: invite_defs mget_mkeep split: option.splits)
  have "\<forall>(op, r) \<in> set (snd (invite_run ops ?s1)). \<forall>room. op = IRedeem tok room \<longrightarrow> \<not> r"
    using Cons.IH [OF gone invite_step_ok [OF Cons.prems(2)]] Cons.prems(3) by simp
  moreover have "op = IRedeem tok room \<Longrightarrow> \<not> snd (invite_step now op s)" for room
    using Cons.prems(1) by (simp add: Redeem_def)
  ultimately show ?case using nop by (auto simp: Let_def split: prod.splits)
qed simp

text \<open>A token admits exactly once: after a successful redemption, whatever other
  generations, redemptions and janitor sweeps interleave and at whatever times, every
  later redemption of that token fails, for every room (as long as the random
  generator does not draw the same token again).\<close>

theorem Redeem_once:
  assumes "invites_ok s" and "Redeem now tok room s = (s', True)"
    and "\<forall>(_, op) \<in> set ops. \<forall>rnd room ttl. op = IGenerate rnd room ttl \<longrightarrow> rawurl_encode rnd \<noteq> tok"
  shows "\<forall>(op, r) \<in> set (snd (invite_run ops s')). \<forall>room'. op = IRedeem tok room' \<longrightarrow> \<not> r"
proof (rule gone_stays_gone)
  show "mget (tokens s') tok = None" using assms(2) by (auto simp: Redeem_def split: option.splits if_splits)
  show "invites_ok s'" using invite_step_ok [OF assms(1), of now "IRedeem tok room"] assms(2) by simp
qed (rule assms(3))

theorem Redeem_once_witness:
  "snd (invite_run [(6, IRedeem ''t'' ''ops'')] (fst (Redeem 5 ''t'' ''ops''
      \<lparr>tokens = [(''t'', \<lparr>ie_room = ''ops'', ie_expires = Some 9\<rparr>)]\<rparr>))) = [(IRedeem ''t'' ''ops'', False)]"
  using Redeem_once [of "\<lparr>tokens = [(''t'', \<lparr>ie_room = ''ops'', ie_expires = Some 9\<rparr>)]\<rparr>" 5 "''t''" "''ops''"
      "\<lparr>tokens = []\<rparr>" "[(6, IRedeem ''t'' ''ops'')]"]
  by (simp add: invites_ok_def Redeem_def expired_def)

text \<open>The janitor only reclaims tokens a redeemer would already be refused: after a
  sweep at an earlier or the same time every redemption answers the same and leaves the
  same live tokens, and the sweep's count is the number of entries it removed.\<close>

theorem sweep_invites_invisible:
  assumes "invites_ok s" and "t0 \<le> now"
  shows "snd (Redeem now tok room (fst (sweep_invites t0 s))) = snd (Redeem now tok room s) \<and>
    live_tokens now (fst (Redeem now tok room (fst (sweep_invites t0 s)))) = live_tokens now (fst (Redeem now tok room s)) \<and>
    length (tokens s) = length (tokens (fst (sweep_invites t0 s))) + snd (sweep_invites t0 s)"
proof -
  have ok: "invites_ok (fst (sweep_invites t0 s))" using invite_step_ok [OF assms(1), of t0 ISweep] by simp
  have "live_tokens now (fst (sweep_invites t0 s)) = live_tokens now s"
    using live_tokens_sweep assms by blast
  then show ?thesis
    using Redeem_live [OF ok] Redeem_live [OF assms(1)] length_mkeep_le
    by (simp add: Redeem_result) (simp add: sweep_invites_def Let_def length_mkeep_le)
qed

theorem sweep_invites_invisible_witness:
  "snd (Redeem 8 ''t'' ''ops'' (fst (sweep_invites 7 \<lparr>tokens = [(''t'', \<lparr>ie_room = ''ops'', ie_expires = Some 9\<rparr>)]\<rparr>)))"
  using sweep_invites_invisible [of "\<lparr>tokens = [(''t'', \<lparr>ie_room = ''ops'', ie_expires = Some 9\<rparr>)]\<rparr>" 7 8 "''t''" "''ops''"]
  by (simp add: invites_ok_def Redeem_def expired_def)

end
