(* ===== verification/Ephemeral.thy ===== *)
theory Ephemeral
  imports Prelude Encoding
begin

text \<open>
  Break-glass war rooms, \<^verbatim>\<open>src/server/internal/ephemeral/ephemeral.go\<close>: rooms created at
  run time that vanish at a hard deadline. The random draws behind a room name are an
  infinite sequence of 4-byte blocks; the loop that redraws until the name is free may in
  principle never end, so it is a partial function whose \<open>None\<close> means exactly that.
  \<open>sweep_rooms\<close> returns the names handed to the \<open>onExpire\<close> callback.
\<close>

section \<open>The registry\<close>

definition MinTTL :: duration where "MinTTL = minute"
definition MaxTTL :: duration where "MaxTTL = 7 * (24 * hour)"
definition MaxInvitees :: nat where "MaxInvitees = 64"

record EphRoom =
  er_Name :: string
  er_CreatedBy :: string
  er_Created :: go_time
  er_Deadline :: go_time
  er_Notice :: string

record Registry =
  eph_rooms :: "(string, EphRoom) gomap"

definition NewRegistry :: Registry where
  "NewRegistry = \<lparr>eph_rooms = []\<rparr>"

definition ClampTTL :: "duration \<Rightarrow> duration" where
  "ClampTTL d = (if d < MinTTL then MinTTL else if d > MaxTTL then MaxTTL else d)"

definition newRoomName :: "bytes \<Rightarrow> string \<Rightarrow> string" where
  "newRoomName b prefix = prefix @ ''-'' @ hex_encode b"

text \<open>The redraw loop: draw number \<open>i\<close> onwards, and how many draws it used.\<close>

partial_function (option) fresh_name ::
  "(nat \<Rightarrow> bytes) \<Rightarrow> nat \<Rightarrow> string \<Rightarrow> (string, EphRoom) gomap \<Rightarrow> (string \<times> nat) option" where
  "fresh_name rnd i prefix rooms =
    (case mget rooms (newRoomName (rnd i) prefix) of
       None \<Rightarrow> Some (newRoomName (rnd i) prefix, Suc i)
     | Some _ \<Rightarrow> fresh_name rnd (Suc i) prefix rooms)"

definition CreateNamed ::
  "(nat \<Rightarrow> bytes) \<Rightarrow> nat \<Rightarrow> go_time \<Rightarrow> duration \<Rightarrow> string \<Rightarrow> string \<Rightarrow> Registry \<Rightarrow> (Registry \<times> EphRoom \<times> nat) option" where
  "CreateNamed rnd i now ttl by prefix r =
    (let prefix = (if prefix = [] then ''war'' else prefix);
         ttl = ClampTTL ttl;
         room = \<lparr>er_Name = [], er_CreatedBy = by, er_Created = now, er_Deadline = now + ttl, er_Notice = []\<rparr>
     in case fresh_name rnd i prefix (eph_rooms r) of
          None \<Rightarrow> None
        | Some (name, j) \<Rightarrow>
            (let room = room\<lparr>er_Name := name\<rparr>
             in Some (r\<lparr>eph_rooms := mput name room (eph_rooms r)\<rparr>, room, j)))"

definition Create ::
  "(nat \<Rightarrow> bytes) \<Rightarrow> nat \<Rightarrow> go_time \<Rightarrow> duration \<Rightarrow> string \<Rightarrow> Registry \<Rightarrow> (Registry \<times> EphRoom \<times> nat) option" where
  "Create rnd i now ttl by r = CreateNamed rnd i now ttl by ''war'' r"

definition CreateNamedNotice ::
  "(nat \<Rightarrow> bytes) \<Rightarrow> nat \<Rightarrow> go_time \<Rightarrow> duration \<Rightarrow> string \<Rightarrow> string \<Rightarrow> string \<Rightarrow> Registry \<Rightarrow>
   (Registry \<times> EphRoom \<times> nat) option" where
  "CreateNamedNotice rnd i now ttl by prefix notice r =
    (case CreateNamed rnd i now ttl by prefix r of
       None \<Rightarrow> None
     | Some (r, room, j) \<Rightarrow>
        (if notice \<noteq> [] then
           (case mget (eph_rooms r) (er_Name room) of
              Some cur \<Rightarrow> (let cur = cur\<lparr>er_Notice := notice\<rparr>
                          in Some (r\<lparr>eph_rooms := mput (er_Name room) cur (eph_rooms r)\<rparr>, cur, j))
            | None \<Rightarrow> Some (r, room, j))
         else Some (r, room, j)))"

definition GetRoom :: "string \<Rightarrow> Registry \<Rightarrow> EphRoom option" where
  "GetRoom name r = mget (eph_rooms r) name"

definition past_deadline :: "go_time \<Rightarrow> EphRoom \<Rightarrow> bool" where
  "past_deadline now room \<longleftrightarrow> now > er_Deadline room"

definition sweep_rooms :: "go_time \<Rightarrow> Registry \<Rightarrow> Registry \<times> string list" where
  "sweep_rooms now r =
    (r\<lparr>eph_rooms := mkeep (\<lambda>_ room. \<not> past_deadline now room) (eph_rooms r)\<rparr>,
     keys (mkeep (\<lambda>_. past_deadline now) (eph_rooms r)))"

section \<open>Invariant\<close>

text \<open>Every room is filed under its own name and lives between one minute and seven days.\<close>

definition registry_ok :: "Registry \<Rightarrow> bool" where
  "registry_ok r \<longleftrightarrow> is_map (eph_rooms r) \<and>
     (\<forall>n room. mget (eph_rooms r) n = Some room \<longrightarrow> er_Name room = n \<and>
        er_Created room + MinTTL \<le> er_Deadline room \<and> er_Deadline room \<le> er_Created room + MaxTTL)"

interpretation eph: expiry "\<lambda>now room. \<not> past_deadline now room"
  by unfold_locales (auto simp: past_deadline_def)

lemma ClampTTL_range: "MinTTL \<le> ClampTTL d \<and> ClampTTL d \<le> MaxTTL"
  by (simp add: ClampTTL_def MinTTL_def MaxTTL_def minute_def hour_def second_def)

lemma ClampTTL_id: "MinTTL \<le> d \<Longrightarrow> d \<le> MaxTTL \<Longrightarrow> ClampTTL d = d"
  by (simp add: ClampTTL_def)

lemma fresh_name_found:
  assumes "mget rooms (newRoomName (rnd k) prefix) = None" and "i \<le> k"
  shows "\<exists>name j. fresh_name rnd i prefix rooms = Some (name, j) \<and> j \<le> Suc k"
  using assms(2)
proof (induction "k - i" arbitrary: i)
  case 0
  then show ?case using assms(1) by (subst fresh_name.simps) simp
next
  case (Suc n)
  then have "\<exists>name j. fresh_name rnd (Suc i) prefix rooms = Some (name, j) \<and> j \<le> Suc k"
    by (intro Suc.hyps(1)) simp_all
  with Suc show ?case by (subst fresh_name.simps) (auto split: option.splits)
qed

lemma fresh_name_result:
  assumes "fresh_name rnd i prefix rooms = Some (name, j)"
  shows "mget rooms name = None \<and> (\<exists>k \<ge> i. name = newRoomName (rnd k) prefix \<and> j = Suc k)"
proof -
  have "\<And>p. fresh_name rnd i prefix rooms = Some p \<Longrightarrow>
      mget rooms (fst p) = None \<and> (\<exists>k \<ge> i. fst p = newRoomName (rnd k) prefix \<and> snd p = Suc k)"
  proof (rule fresh_name.raw_induct [where P = "\<lambda>rnd i prefix rooms p. mget rooms (fst p) = None \<and>
        (\<exists>k \<ge> i. fst p = newRoomName (rnd k) prefix \<and> snd p = Suc k)"])
    fix f rnd i prefix and rooms :: "(string, EphRoom) gomap" and p
    assume IH: "\<And>rnd i prefix rooms p. f rnd i prefix rooms = Some p \<Longrightarrow> mget rooms (fst p) = None \<and>
        (\<exists>k \<ge> i. fst p = newRoomName (rnd k) prefix \<and> snd p = Suc k)"
      and eq: "(case mget rooms (newRoomName (rnd i) prefix) of
          None \<Rightarrow> Some (newRoomName (rnd i) prefix, Suc i) | Some _ \<Rightarrow> f rnd (Suc i) prefix rooms) = Some p"
    show "mget rooms (fst p) = None \<and> (\<exists>k \<ge> i. fst p = newRoomName (rnd k) prefix \<and> snd p = Suc k)"
    proof (cases "mget rooms (newRoomName (rnd i) prefix)")
      case (Some x)
      with eq have "f rnd (Suc i) prefix rooms = Some p" by simp
      from IH [OF this] show ?thesis by (metis Suc_leD)
    qed (use eq in auto)
  qed
  with assms show ?thesis by fastforce
qed

lemma CreateNamed_spec:
  assumes "CreateNamed rnd i now ttl by prefix r = Some (r', room, j)"
  shows "mget (eph_rooms r) (er_Name room) = None \<and> eph_rooms r' = mput (er_Name room) room (eph_rooms r) \<and>
    (\<exists>k \<ge> i. er_Name room = newRoomName (rnd k) (if prefix = [] then ''war'' else prefix) \<and> j = Suc k) \<and>
    er_Created room = now \<and> er_Deadline room = now + ClampTTL ttl \<and> er_CreatedBy room = by \<and> er_Notice room = []"
  using assms by (auto simp: CreateNamed_def Let_def dest!: fresh_name_result split: option.splits prod.splits)

lemma registry_ok_new: "registry_ok NewRegistry"
  by (simp add: registry_ok_def NewRegistry_def)

lemma registry_ok_CreateNamed:
  assumes "registry_ok r" "CreateNamed rnd i now ttl by prefix r = Some (r', room, j)"
  shows "registry_ok r'"
  using assms CreateNamed_spec [OF assms(2)] ClampTTL_range [of ttl] by (auto simp: registry_ok_def)

lemma registry_ok_CreateNamedNotice:
  assumes "registry_ok r" "CreateNamedNotice rnd i now ttl by prefix notice r = Some (r', room, j)"
  shows "registry_ok r'"
proof -
  from assms(2) obtain r1 room1 where c: "CreateNamed rnd i now ttl by prefix r = Some (r1, room1, j)"
    by (auto simp: CreateNamedNotice_def Let_def split: option.splits prod.splits if_splits)
  with assms show ?thesis
    using registry_ok_CreateNamed [OF assms(1) c]
    by (auto simp: CreateNamedNotice_def registry_ok_def Let_def split: option.splits if_splits)
qed

lemma registry_ok_sweep: "registry_ok r \<Longrightarrow> registry_ok (fst (sweep_rooms now r))"
  by (auto simp: registry_ok_def sweep_rooms_def mget_mkeep split: option.splits if_splits)

section \<open>Properties\<close>

text \<open>Creating a war room returns as soon as one draw names a free room, and the room it
  returns did not exist before, is filed under a name of the form prefix-hex, leaves
  every other room as it was, and has a hard deadline between one minute and seven days
  away whatever lifetime was asked for.\<close>

theorem CreateNamed_total:
  assumes ok: "registry_ok r" and free: "GetRoom (newRoomName (rnd k) (if prefix = [] then ''war'' else prefix)) r = None" "i \<le> k"
  shows "\<exists>r' room j. CreateNamed rnd i now ttl by prefix r = Some (r', room, j) \<and> registry_ok r' \<and>
    GetRoom (er_Name room) r = None \<and> GetRoom (er_Name room) r' = Some room \<and>
    (\<forall>n. n \<noteq> er_Name room \<longrightarrow> GetRoom n r' = GetRoom n r) \<and>
    now + MinTTL \<le> er_Deadline room \<and> er_Deadline room \<le> now + MaxTTL \<and>
    (\<exists>b. er_Name room = (if prefix = [] then ''war'' else prefix) @ ''-'' @ hex_encode b)"
proof -
  obtain name j where "fresh_name rnd i (if prefix = [] then ''war'' else prefix) (eph_rooms r) = Some (name, j)"
    using fresh_name_found [of "eph_rooms r" rnd k _ i] free unfolding GetRoom_def by blast
  then obtain r' room where c: "CreateNamed rnd i now ttl by prefix r = Some (r', room, j)"
    by (auto simp: CreateNamed_def Let_def)
  from CreateNamed_spec [OF c] show ?thesis
    using registry_ok_CreateNamed [OF ok c] ClampTTL_range [of ttl] c
    by (auto simp: GetRoom_def newRoomName_def)
qed

theorem CreateNamed_total_witness:
  "\<exists>r' room j. CreateNamed (\<lambda>_. [CHR 0x3F, CHR 0x9A, CHR 0x2B, CHR 0x71]) 0 100 5 ''id1'' [] NewRegistry = Some (r', room, j) \<and>
    er_Deadline room \<le> 100 + MaxTTL"
  using CreateNamed_total [of NewRegistry "\<lambda>_. [CHR 0x3F, CHR 0x9A, CHR 0x2B, CHR 0x71]" 0 "[]" 0 100 5 "''id1''"]
  by (auto simp: registry_ok_new) (auto simp: GetRoom_def NewRegistry_def)

text \<open>A sweep closes exactly the war rooms whose deadline has passed: the callback gets
  each such room once and no other, they are gone afterwards, and every other room is
  untouched.\<close>

theorem sweep_rooms_exact:
  assumes "registry_ok r"
  shows "distinct (snd (sweep_rooms now r)) \<and>
    (\<forall>n. n \<in> set (snd (sweep_rooms now r)) \<longleftrightarrow> (\<exists>room. GetRoom n r = Some room \<and> now > er_Deadline room)) \<and>
    (\<forall>n. GetRoom n (fst (sweep_rooms now r)) = (if n \<in> set (snd (sweep_rooms now r)) then None else GetRoom n r)) \<and>
    registry_ok (fst (sweep_rooms now r))"
proof -
  have m: "is_map (eph_rooms r)" using assms by (simp add: registry_ok_def)
  have exp: "n \<in> set (snd (sweep_rooms now r)) \<longleftrightarrow> (\<exists>room. GetRoom n r = Some room \<and> now > er_Deadline room)" for n
    unfolding sweep_rooms_def snd_conv key_iff_mget
    using m by (simp only: mget_mkeep) (auto simp: GetRoom_def past_deadline_def split: option.splits)
  show ?thesis
    using m registry_ok_sweep [OF assms] exp
    by (auto simp: exp) (auto simp: sweep_rooms_def GetRoom_def mget_mkeep past_deadline_def split: option.splits)
qed

theorem sweep_rooms_exact_witness:
  "snd (sweep_rooms (10 + 2 * MaxTTL) \<lparr>eph_rooms = [(''war-1'', \<lparr>er_Name = ''war-1'', er_CreatedBy = ''a'',
     er_Created = 10, er_Deadline = 10 + MaxTTL, er_Notice = []\<rparr>)]\<rparr>) = [''war-1'']"
  using sweep_rooms_exact [of "\<lparr>eph_rooms = [(''war-1'', \<lparr>er_Name = ''war-1'', er_CreatedBy = ''a'',
     er_Created = 10, er_Deadline = 10 + MaxTTL, er_Notice = []\<rparr>)]\<rparr>" "10 + 2 * MaxTTL"]
  by (auto simp: registry_ok_def sweep_rooms_def mkeep_def past_deadline_def MinTTL_def MaxTTL_def minute_def hour_def second_def)

end
