(* ===== verification/Beacon.thy ===== *)
theory Beacon
  imports Prelude
begin

text \<open>
  The Status Beacon store, \<^verbatim>\<open>src/server/internal/beacon/beacon.go\<close>: at most one opaque
  ciphertext per room, overwritten by each set, deleted on request or when the room
  closes, and gone at its expiry. \<open>BGet\<close> deletes an expired entry as it reads, so it
  returns the store as well.
\<close>

section \<open>The store\<close>

record BEntry =
  be_Ciphertext :: bytes
  be_UpdatedAt :: go_time
  be_Expires :: go_time

record Beacons =
  beacons :: "(string, BEntry) gomap"

definition NewBeacons :: Beacons where
  "NewBeacons = \<lparr>beacons = []\<rparr>"

definition BSet :: "go_time \<Rightarrow> string \<Rightarrow> bytes \<Rightarrow> duration \<Rightarrow> Beacons \<Rightarrow> Beacons" where
  "BSet now room ciphertext ttl s =
    s\<lparr>beacons := mput room \<lparr>be_Ciphertext = ciphertext, be_UpdatedAt = now, be_Expires = now + ttl\<rparr> (beacons s)\<rparr>"

definition BGet :: "go_time \<Rightarrow> string \<Rightarrow> Beacons \<Rightarrow> Beacons \<times> BEntry option" where
  "BGet now room s =
    (case mget (beacons s) room of
       None \<Rightarrow> (s, None)
     | Some e \<Rightarrow> (if now > be_Expires e then (s\<lparr>beacons := mdel room (beacons s)\<rparr>, None) else (s, Some e)))"

definition BDelete :: "string \<Rightarrow> Beacons \<Rightarrow> Beacons" where
  "BDelete room s = s\<lparr>beacons := mdel room (beacons s)\<rparr>"

definition BPurge :: "go_time \<Rightarrow> Beacons \<Rightarrow> Beacons" where
  "BPurge now s = s\<lparr>beacons := mkeep (\<lambda>_ e. \<not> now > be_Expires e) (beacons s)\<rparr>"

section \<open>Invariant and abstract view\<close>

definition beacons_ok :: "Beacons \<Rightarrow> bool" where
  "beacons_ok s \<longleftrightarrow> is_map (beacons s)"

text \<open>What a reader can see at a time.\<close>

definition visible :: "go_time \<Rightarrow> Beacons \<Rightarrow> string \<Rightarrow> BEntry option" where
  "visible now s room = snd (BGet now room s)"

interpretation bcn: expiry "\<lambda>now e. \<not> now > be_Expires e"
  by unfold_locales simp

lemmas beacon_defs = BSet_def BGet_def BDelete_def BPurge_def beacons_ok_def visible_def

lemma beacons_ok_ops:
  assumes "beacons_ok s"
  shows "beacons_ok (BSet now room c ttl s)" "beacons_ok (fst (BGet now room s))"
    "beacons_ok (BDelete room s)" "beacons_ok (BPurge now s)"
  using assms by (auto simp: beacon_defs split: option.splits)

lemma visible_purge: "beacons_ok s \<Longrightarrow> t \<le> now \<Longrightarrow> visible now (BPurge t s) room = visible now s room"
  by (auto simp: beacon_defs mget_mkeep split: option.splits)

lemma visible_get: "beacons_ok s \<Longrightarrow> t \<le> now \<Longrightarrow> visible now (fst (BGet t r s)) room = visible now s room"
  by (auto simp: beacon_defs split: option.splits)

section \<open>Properties\<close>

text \<open>The store holds one current beacon per room: a set is visible, unchanged, to every
  reader until its lifetime is over and to none afterwards; it replaces only its own room's
  previous beacon; and reads and purges in between (by any janitor, at any earlier time) never
  change what a reader sees.\<close>

theorem beacon_lifetime:
  assumes "beacons_ok s" "now \<le> t" "u \<le> t"
  shows "visible t (BSet now room c ttl s) r =
      (if r \<noteq> room then visible t s r
       else if t \<le> now + ttl then Some \<lparr>be_Ciphertext = c, be_UpdatedAt = now, be_Expires = now + ttl\<rparr>
       else None) \<and>
    visible t (BPurge u s) r = visible t s r \<and>
    visible t (fst (BGet u r' s)) r = visible t s r \<and>
    visible t (BDelete room s) r = (if r = room then None else visible t s r)"
  using assms by (simp add: visible_purge visible_get) (auto simp: beacon_defs split: option.splits)

theorem beacon_lifetime_witness:
  "visible 7 (BSet 5 ''ops'' ''sealed'' 2 NewBeacons) ''ops'' \<noteq> None \<and>
   visible 8 (BSet 5 ''ops'' ''sealed'' 2 NewBeacons) ''ops'' = None"
  using beacon_lifetime [of NewBeacons 5 7 0 "''ops''" "''sealed''" 2 "''ops''"]
    beacon_lifetime [of NewBeacons 5 8 0 "''ops''" "''sealed''" 2 "''ops''"]
  by (simp add: beacons_ok_def NewBeacons_def)

end
