(* ===== verification/Transfers.thy ===== *)
theory Transfers
  imports Prelude
begin

text \<open>
  The per-room limit on concurrent artifact transfers, \<^verbatim>\<open>src/server/internal/ws/transfers.go\<close>:
  the one thing the relay tracks about a transfer is a content-free id and its opener.
  Inner maps are shared by reference in Go and mutated in place, so every update is
  written back into the outer map here.
\<close>

section \<open>The tracker\<close>

definition transferTTL :: duration where "transferTTL = 5 * minute"

record xfer =
  xf_owner :: string
  xf_started :: go_time

record transferTracker =
  tt_max :: int
  tt_rooms :: "(string, (string, xfer) gomap) gomap"

definition newTransferTracker :: "int \<Rightarrow> transferTracker" where
  "newTransferTracker limit = (let limit = (if limit \<le> 0 then 1 else limit) in \<lparr>tt_max = limit, tt_rooms = []\<rparr>)"

definition stale :: "go_time \<Rightarrow> xfer \<Rightarrow> bool" where
  "stale now x \<longleftrightarrow> now - xf_started x > transferTTL"

definition sweepLocked :: "go_time \<Rightarrow> (string, xfer) gomap \<Rightarrow> (string, xfer) gomap" where
  "sweepLocked now m = mkeep (\<lambda>_ x. \<not> stale now x) m"

definition tryStart :: "go_time \<Rightarrow> string \<Rightarrow> string \<Rightarrow> string \<Rightarrow> transferTracker \<Rightarrow> transferTracker \<times> bool" where
  "tryStart now room tid owner t =
    (let m = (case mget (tt_rooms t) room of None \<Rightarrow> [] | Some m \<Rightarrow> m);
         m = sweepLocked now m;
         t = t\<lparr>tt_rooms := mput room m (tt_rooms t)\<rparr>
     in if mget m tid \<noteq> None then (t, True)
        else if int (length m) \<ge> tt_max t then (t, False)
        else (t\<lparr>tt_rooms := mput room (mput tid \<lparr>xf_owner = owner, xf_started = now\<rparr> m) (tt_rooms t)\<rparr>, True))"

definition finish :: "string \<Rightarrow> string \<Rightarrow> transferTracker \<Rightarrow> transferTracker" where
  "finish room tid t =
    (case mget (tt_rooms t) room of
       None \<Rightarrow> t
     | Some m \<Rightarrow>
        (let m = mdel tid m
         in if length m = 0 then t\<lparr>tt_rooms := mdel room (tt_rooms t)\<rparr>
            else t\<lparr>tt_rooms := mput room m (tt_rooms t)\<rparr>))"

definition abortBy :: "string \<Rightarrow> string \<Rightarrow> transferTracker \<Rightarrow> transferTracker \<times> string list" where
  "abortBy room owner t =
    (case mget (tt_rooms t) room of
       None \<Rightarrow> (t, [])
     | Some m \<Rightarrow>
        (let ids = keys (mkeep (\<lambda>_ x. xf_owner x = owner) m);
             m = mkeep (\<lambda>_ x. xf_owner x \<noteq> owner) m
         in (if length m = 0 then t\<lparr>tt_rooms := mdel room (tt_rooms t)\<rparr>
             else t\<lparr>tt_rooms := mput room m (tt_rooms t)\<rparr>, ids)))"

section \<open>Runs\<close>

datatype transfer_op = TStart string string string | TFinish string string | TAbort string string

fun transfer_step :: "go_time \<Rightarrow> transfer_op \<Rightarrow> transferTracker \<Rightarrow> transferTracker" where
  "transfer_step now (TStart room tid owner) t = fst (tryStart now room tid owner t)"
| "transfer_step now (TFinish room tid) t = finish room tid t"
| "transfer_step now (TAbort room owner) t = fst (abortBy room owner t)"

fun transfer_run :: "(go_time \<times> transfer_op) list \<Rightarrow> transferTracker \<Rightarrow> transferTracker" where
  "transfer_run [] t = t"
| "transfer_run ((now, op) # ops) t = transfer_run ops (transfer_step now op t)"

section \<open>Invariant\<close>

definition in_flight :: "transferTracker \<Rightarrow> string \<Rightarrow> (string, xfer) gomap" where
  "in_flight t room = (case mget (tt_rooms t) room of None \<Rightarrow> [] | Some m \<Rightarrow> m)"

text \<open>No room holds more than the maximum, and no empty inner map is left behind.\<close>

definition tracker_ok :: "transferTracker \<Rightarrow> bool" where
  "tracker_ok t \<longleftrightarrow> 1 \<le> tt_max t \<and> is_map (tt_rooms t) \<and>
     (\<forall>room m. mget (tt_rooms t) room = Some m \<longrightarrow> is_map m \<and> m \<noteq> [] \<and> int (length m) \<le> tt_max t)"

interpretation xfers: expiry "\<lambda>now x. \<not> stale now x"
  by unfold_locales (auto simp: stale_def)

lemma tracker_ok_new: "tracker_ok (newTransferTracker n)"
  by (simp add: tracker_ok_def newTransferTracker_def Let_def)

lemma in_flight_map: "tracker_ok t \<Longrightarrow> is_map (in_flight t room)"
  by (auto simp: tracker_ok_def in_flight_def split: option.splits)

lemma in_flight_bound: "tracker_ok t \<Longrightarrow> int (length (in_flight t room)) \<le> tt_max t"
  by (force simp: tracker_ok_def in_flight_def split: option.splits)

lemma tryStart_in_flight:
  "in_flight (fst (tryStart now room tid owner t)) r =
    (if r \<noteq> room then in_flight t r
     else let m = sweepLocked now (in_flight t room)
       in if mget m tid \<noteq> None \<or> int (length m) \<ge> tt_max t then m
          else mput tid \<lparr>xf_owner = owner, xf_started = now\<rparr> m)"
  by (simp add: tryStart_def in_flight_def Let_def)

lemma tryStart_result:
  "snd (tryStart now room tid owner t) \<longleftrightarrow>
    (let m = sweepLocked now (in_flight t room) in mget m tid \<noteq> None \<or> int (length m) < tt_max t)"
  by (auto simp: tryStart_def in_flight_def Let_def)

lemma tt_max_step [simp]: "tt_max (transfer_step now op t) = tt_max t"
  by (cases op) (auto simp: tryStart_def finish_def abortBy_def Let_def split: option.splits)

lemma tracker_ok_start: "tracker_ok t \<Longrightarrow> tracker_ok (fst (tryStart now room tid owner t))"
proof -
  assume ok: "tracker_ok t"
  let ?m = "sweepLocked now (in_flight t room)"
  have m: "is_map ?m" "int (length ?m) \<le> tt_max t"
    using in_flight_map [OF ok] in_flight_bound [OF ok, of room]
      length_mkeep_le [of "\<lambda>_ x. \<not> stale now x" "in_flight t room"]
    by (auto simp: sweepLocked_def)
  have ne: "int (length ?m) \<ge> tt_max t \<Longrightarrow> ?m \<noteq> []" "mget ?m tid \<noteq> None \<Longrightarrow> ?m \<noteq> []"
    using ok by (auto simp: tracker_ok_def)
  have new: "mget ?m tid = None \<Longrightarrow> int (length ?m) < tt_max t \<Longrightarrow> int (length (mput tid x ?m)) \<le> tt_max t" for x
    using length_mput_new [of tid ?m x] by (simp add: mget_None_iff)
  have put: "mput tid x ?m \<noteq> []" for x by (cases ?m) auto
  show ?thesis using ok m ne new put
    by (auto simp: tracker_ok_def tryStart_def Let_def in_flight_def [symmetric] split: if_splits)
qed

lemma tracker_ok_shrink:
  assumes "tracker_ok t" "mget (tt_rooms t) room = Some m" "is_map m'" "length m' \<le> length m"
  shows "tracker_ok (if length m' = 0 then t\<lparr>tt_rooms := mdel room (tt_rooms t)\<rparr>
      else t\<lparr>tt_rooms := mput room m' (tt_rooms t)\<rparr>)"
proof -
  have "int (length m) \<le> tt_max t" using assms(1,2) by (auto simp: tracker_ok_def)
  with assms(4) have "int (length m') \<le> tt_max t" by linarith
  with assms(1-3) show ?thesis by (auto simp: tracker_ok_def)
qed

lemma tracker_ok_finish: "tracker_ok t \<Longrightarrow> tracker_ok (finish room tid t)"
proof (cases "mget (tt_rooms t) room")
  case (Some m)
  assume ok: "tracker_ok t"
  with Some have "is_map (mdel tid m)" by (auto simp: tracker_ok_def)
  with tracker_ok_shrink [OF ok Some this length_mdel_le] Some show ?thesis by (simp add: finish_def Let_def)
qed (simp add: finish_def)

lemma tracker_ok_abort: "tracker_ok t \<Longrightarrow> tracker_ok (fst (abortBy room owner t))"
proof (cases "mget (tt_rooms t) room")
  case (Some m)
  assume ok: "tracker_ok t"
  with Some have "is_map (mkeep (\<lambda>_ x. xf_owner x \<noteq> owner) m)" by (auto simp: tracker_ok_def)
  with tracker_ok_shrink [OF ok Some this length_mkeep_le] Some show ?thesis by (simp add: abortBy_def Let_def)
qed (simp add: abortBy_def)

lemma tracker_ok_step: "tracker_ok t \<Longrightarrow> tracker_ok (transfer_step now op t)"
  by (cases op) (simp_all add: tracker_ok_start tracker_ok_finish tracker_ok_abort)

lemma tracker_ok_run: "tracker_ok t \<Longrightarrow> tracker_ok (transfer_run ops t) \<and> tt_max (transfer_run ops t) = tt_max t"
  by (induction ops t rule: transfer_run.induct) (simp_all add: tracker_ok_step)

section \<open>Disconnecting senders\<close>

text \<open>When a sender disconnects, exactly its transfers in that room are released and
  reported: each once, nobody else's, and no other room changes.\<close>

lemma abortBy_facts:
  assumes "tracker_ok t"
  shows "distinct (snd (abortBy room owner t)) \<and>
    (\<forall>k. k \<in> set (snd (abortBy room owner t)) \<longleftrightarrow> (\<exists>x. mget (in_flight t room) k = Some x \<and> xf_owner x = owner)) \<and>
    (\<forall>r k. mget (in_flight (fst (abortBy room owner t)) r) k =
       (if r = room \<and> k \<in> set (snd (abortBy room owner t)) then None else mget (in_flight t r) k)) \<and>
    tracker_ok (fst (abortBy room owner t))"
proof -
  have m: "is_map (in_flight t room)" using assms by (rule in_flight_map)
  have ids: "snd (abortBy room owner t) = keys (mkeep (\<lambda>_ x. xf_owner x = owner) (in_flight t room))"
    by (simp add: abortBy_def in_flight_def mkeep_def Let_def split: option.splits)
  have mem: "k \<in> set (snd (abortBy room owner t)) \<longleftrightarrow> (\<exists>x. mget (in_flight t room) k = Some x \<and> xf_owner x = owner)" for k
    unfolding ids key_iff_mget using m by (simp only: mget_mkeep) (auto split: option.splits)
  have "in_flight (fst (abortBy room owner t)) r =
      (if r = room then mkeep (\<lambda>_ x. xf_owner x \<noteq> owner) (in_flight t room) else in_flight t r)" for r
    by (auto simp: abortBy_def in_flight_def mkeep_def Let_def split: option.splits)
  then have "mget (in_flight (fst (abortBy room owner t)) r) k =
       (if r = room \<and> k \<in> set (snd (abortBy room owner t)) then None else mget (in_flight t r) k)" for r k
    using m mem [of k] by (auto simp: mget_mkeep split: option.splits)
  moreover have "distinct (snd (abortBy room owner t))" using m ids is_map_mkeep by simp
  ultimately show ?thesis using mem tracker_ok_abort [OF assms] by blast
qed

section \<open>Properties\<close>

text \<open>Whatever offers, completions and disconnects occur, in any order and at any
  times, no room ever has more transfers in flight than the configured maximum (or one,
  when the configuration is not positive).\<close>

theorem transfers_bounded:
  "int (length (in_flight (transfer_run ops (newTransferTracker n)) room)) \<le> (if n \<le> 0 then 1 else n)"
  using in_flight_bound tracker_ok_run [OF tracker_ok_new, of ops n]
  by (metis newTransferTracker_def transferTracker.select_convs(1))

text \<open>The transfers of a room that still hold their slot.\<close>

definition holding :: "go_time \<Rightarrow> transferTracker \<Rightarrow> string \<Rightarrow> string set" where
  "holding now t room = {k. \<exists>x. mget (in_flight t room) k = Some x \<and> \<not> stale now x}"

lemma holding_keys: "tracker_ok t \<Longrightarrow> holding now t room = set (keys (sweepLocked now (in_flight t room)))"
  using in_flight_map [of t room] unfolding holding_def sweepLocked_def
  by (auto simp only: key_iff_mget mget_mkeep split: option.splits if_splits)

lemma sweepLocked_get: "tracker_ok t \<Longrightarrow> mget (sweepLocked now (in_flight t room)) k \<noteq> None \<longleftrightarrow> k \<in> holding now t room"
  using holding_keys [of t now room] by (simp add: mget_None_iff)

lemma sweepLocked_length: "tracker_ok t \<Longrightarrow> length (sweepLocked now (in_flight t room)) = card (holding now t room)"
  unfolding holding_keys
  by (rule is_map_length_card) (simp add: sweepLocked_def in_flight_map)

text \<open>An offer is refused only when the room already holds the maximum of other transfers
  that are not stale; an accepted offer holds a slot afterwards and a refused one changes
  nobody's; re-offering a tracked id succeeds; other rooms are untouched; and a room whose
  transfers have all gone stale accepts a new one, so a wedged sender cannot keep its slot.\<close>

theorem tryStart_spec:
  assumes "tracker_ok t"
  shows "(snd (tryStart now room tid owner t) \<longleftrightarrow>
       tid \<in> holding now t room \<or> int (card (holding now t room)) < tt_max t) \<and>
     holding now (fst (tryStart now room tid owner t)) room =
       (if snd (tryStart now room tid owner t) then insert tid (holding now t room) else holding now t room) \<and>
     (\<forall>r. r \<noteq> room \<longrightarrow> in_flight (fst (tryStart now room tid owner t)) r = in_flight t r) \<and>
     (holding now t room = {} \<longrightarrow> snd (tryStart now room tid owner t))"
proof -
  let ?m = "sweepLocked now (in_flight t room)"
  let ?t = "fst (tryStart now room tid owner t)" and ?H = "holding now t room"
  have res: "snd (tryStart now room tid owner t) \<longleftrightarrow>
       tid \<in> holding now t room \<or> int (card (holding now t room)) < tt_max t"
    by (simp only: tryStart_result Let_def sweepLocked_get [OF assms] sweepLocked_length [OF assms])
  have fl: "in_flight ?t room = (if tid \<in> ?H \<or> int (card ?H) \<ge> tt_max t then ?m
          else mput tid \<lparr>xf_owner = owner, xf_started = now\<rparr> ?m)"
    unfolding tryStart_in_flight Let_def sweepLocked_get [OF assms] sweepLocked_length [OF assms] by simp
  have live: "mget (in_flight ?t room) k = Some x \<Longrightarrow> \<not> stale now x" for k x
    using in_flight_map [OF assms, of room] unfolding fl
    by (auto simp: sweepLocked_def mget_mkeep stale_def transferTTL_def minute_def second_def split: option.splits if_splits)
  have "k \<in> holding now ?t room \<longleftrightarrow> mget (in_flight ?t room) k \<noteq> None" for k
    unfolding holding_def using live by auto
  then have "k \<in> holding now ?t room \<longleftrightarrow>
     k \<in> (if tid \<in> ?H \<or> int (card ?H) \<ge> tt_max t then ?H else insert tid ?H)" for k
    using sweepLocked_get [OF assms, of now room k] unfolding fl by auto
  then have "holding now ?t room = (if tid \<in> ?H \<or> int (card ?H) \<ge> tt_max t then ?H else insert tid ?H)"
    by (rule set_eqI)
  then have "holding now ?t room = (if snd (tryStart now room tid owner t) then insert tid ?H else ?H)"
    unfolding res by (cases "tid \<in> ?H"; cases "tt_max t \<le> int (card ?H)") (simp_all add: insert_absorb)
  moreover have "0 < tt_max t" using assms by (simp add: tracker_ok_def)
  ultimately show ?thesis using res by (simp add: tryStart_in_flight)
qed

theorem tryStart_spec_witness:
  "\<not> snd (tryStart 5 ''ops'' ''t2'' ''m1'' \<lparr>tt_max = 1, tt_rooms = [(''ops'', [(''t1'', \<lparr>xf_owner = ''m0'', xf_started = 4\<rparr>)])]\<rparr>)"
proof -
  let ?t = "\<lparr>tt_max = 1, tt_rooms = [(''ops'', [(''t1'', \<lparr>xf_owner = ''m0'', xf_started = 4\<rparr>)])]\<rparr>"
  have "holding 5 ?t ''ops'' = {''t1''}"
    by (auto simp: holding_def in_flight_def stale_def transferTTL_def minute_def second_def split: if_splits)
  then show ?thesis using tryStart_spec [of ?t 5 "''ops''" "''t2''" "''m1''"]
    by (simp add: tracker_ok_def split: if_splits)
qed

end
