(* ===== verification/Hub.thy ===== *)
theory Hub
  imports Prelude Config Wire
begin

text \<open>
  The room registry, \<^verbatim>\<open>src/server/internal/hub/hub.go\<close>. Every operation takes the hub lock
  once, so each is one atomic step here; what it does outside the lock (calling a member's
  \<open>Send\<close> or \<open>Close\<close>, the \<open>onClose\<close> callback, arming a timer) is returned as a list of
  effects in the order of the calls. A member's two callbacks are nil or the handle of
  a connection; a call of a nil function is the effect \<open>NilCall\<close>, Go's panic.
\<close>

section \<open>State\<close>

type_synonym conn = nat

record HubMember =
  hm_Info :: Member
  hm_Send :: "conn option"
  hm_Close :: "conn option"

record room =
  rr_members :: "(string, HubMember) gomap"
  rr_order :: "string list"
  rr_lastActivity :: go_time

record Hub =
  hub_rooms :: "(string, room) gomap"
  hub_cfg :: Config
  hub_onClose :: bool

datatype effect =
    Send conn Envelope
  | Close conn
  | OnClose string
  | AfterExpire duration string string
  | NilCall

definition NewHub :: "Config \<Rightarrow> Hub" where
  "NewHub cfg = \<lparr>hub_rooms = [], hub_cfg = cfg, hub_onClose = False\<rparr>"

definition SetOnClose :: "Hub \<Rightarrow> Hub" where
  "SetOnClose h = h\<lparr>hub_onClose := True\<rparr>"

definition fireClose :: "Hub \<Rightarrow> string \<Rightarrow> effect list" where
  "fireClose h room = (if hub_onClose h then [OnClose room] else [])"

record JoinResult =
  jr_Existing :: "Member list"
  jr_YouAreFirst :: bool
  jr_Distributor :: "HubMember option"

section \<open>Membership\<close>

text \<open>The loop over the join order: members still present, and the first of them.\<close>

fun existing :: "(string, HubMember) gomap \<Rightarrow> string list \<Rightarrow> JoinResult \<Rightarrow> JoinResult" where
  "existing members [] res = res"
| "existing members (i # is) res =
    (case mget members i of
       Some em \<Rightarrow>
        (let res = res\<lparr>jr_Existing := jr_Existing res @ [hm_Info em]\<rparr>;
             res = (case jr_Distributor res of None \<Rightarrow> res\<lparr>jr_Distributor := Some em\<rparr> | Some _ \<Rightarrow> res)
         in existing members is res)
     | None \<Rightarrow> existing members is res)"

definition Join :: "go_time \<Rightarrow> string \<Rightarrow> HubMember \<Rightarrow> Hub \<Rightarrow> Hub \<times> JoinResult" where
  "Join now roomName m h =
    (let r = (case mget (hub_rooms h) roomName of
                None \<Rightarrow> \<lparr>rr_members = [], rr_order = [], rr_lastActivity = 0\<rparr> | Some r \<Rightarrow> r);
         r = r\<lparr>rr_lastActivity := now\<rparr>;
         res = \<lparr>jr_Existing = [], jr_YouAreFirst = (length (rr_members r) = 0), jr_Distributor = None\<rparr>;
         res = existing (rr_members r) (rr_order r) res;
         r = r\<lparr>rr_members := mput (mb_ID (hm_Info m)) m (rr_members r)\<rparr>;
         r = r\<lparr>rr_order := rr_order r @ [mb_ID (hm_Info m)]\<rparr>
     in (h\<lparr>hub_rooms := mput roomName r (hub_rooms h)\<rparr>, res))"

definition removeLocked :: "string \<Rightarrow> string \<Rightarrow> Hub \<Rightarrow> Hub \<times> bool" where
  "removeLocked roomName memberID h =
    (case mget (hub_rooms h) roomName of
       None \<Rightarrow> (h, True)
     | Some r \<Rightarrow>
        (let r = r\<lparr>rr_members := mdel memberID (rr_members r)\<rparr>;
             r = r\<lparr>rr_order := remove1 memberID (rr_order r)\<rparr>
         in if length (rr_members r) = 0 then (h\<lparr>hub_rooms := mdel roomName (hub_rooms h)\<rparr>, True)
            else (h\<lparr>hub_rooms := mput roomName r (hub_rooms h)\<rparr>, False)))"

definition Leave :: "string \<Rightarrow> string \<Rightarrow> Hub \<Rightarrow> Hub \<times> bool" where
  "Leave roomName memberID h = removeLocked roomName memberID h"

section \<open>Closing rooms\<close>

definition opt_send :: "conn option \<Rightarrow> Envelope \<Rightarrow> effect list" where
  "opt_send c env = (case c of None \<Rightarrow> [] | Some c \<Rightarrow> [Send c env])"

definition opt_close :: "conn option \<Rightarrow> effect list" where
  "opt_close c = (case c of None \<Rightarrow> [] | Some c \<Rightarrow> [Close c])"

definition unix :: "go_time \<Rightarrow> int" where
  "unix t = t div second"

definition closeMembers :: "go_time \<Rightarrow> HubMember list \<Rightarrow> string \<Rightarrow> effect list" where
  "closeMembers now members reason =
    (let notice = Encode OpServerMessage (json_ServerMessage
           \<lparr>sm_Kind = ''system'', sm_From = ''server'', sm_Text = reason, sm_At = unix now\<rparr>)
     in concat (map (\<lambda>m. opt_send (hm_Send m) notice @ opt_close (hm_Close m)) members))"

definition ExpireRoom :: "go_time \<Rightarrow> string \<Rightarrow> string \<Rightarrow> Hub \<Rightarrow> Hub \<times> effect list" where
  "ExpireRoom now roomName reason h =
    (case mget (hub_rooms h) roomName of
       None \<Rightarrow> (h, [])
     | Some r \<Rightarrow>
        (let members = map snd (rr_members r);
             h = h\<lparr>hub_rooms := mdel roomName (hub_rooms h)\<rparr>
         in (h, closeMembers now members reason @ fireClose h roomName)))"

definition IsEmpty :: "string \<Rightarrow> Hub \<Rightarrow> bool" where
  "IsEmpty roomName h =
    (case mget (hub_rooms h) roomName of None \<Rightarrow> True | Some r \<Rightarrow> length (rr_members r) = 0)"

definition LastActivity :: "string \<Rightarrow> Hub \<Rightarrow> go_time option" where
  "LastActivity roomName h =
    (case mget (hub_rooms h) roomName of None \<Rightarrow> None | Some r \<Rightarrow> Some (rr_lastActivity r))"

definition scuttleAttestation :: string where
  "scuttleAttestation = [CHR 0xE2, CHR 0x9A, CHR 0xA1] @ '' room scuttled '' @ [CHR 0xE2, CHR 0x80, CHR 0x94]
     @ '' keys destroyed, no record kept''"

definition scuttleCloseGrace :: duration where "scuttleCloseGrace = 300 * 1000000"

definition scuttle_notice :: "string \<Rightarrow> Envelope" where
  "scuttle_notice reason = Encode OpControl (json_Control
     \<lparr>ct_Action = ''scuttle'', ct_By = [], ct_ByName = [], ct_TTLSeconds = 0, ct_Reason = reason\<rparr>)"

definition Scuttle :: "string \<Rightarrow> string \<Rightarrow> Hub \<Rightarrow> Hub \<times> effect list" where
  "Scuttle roomName reason h =
    (case mget (hub_rooms h) roomName of
       None \<Rightarrow> (h, [])
     | Some r \<Rightarrow>
        (let sends = map (hm_Send \<circ> snd) (rr_members r)
         in (h, concat (map (\<lambda>s. opt_send s (scuttle_notice reason)) sends)
              @ [AfterExpire scuttleCloseGrace roomName scuttleAttestation])))"

section \<open>Traffic\<close>

definition Touch :: "go_time \<Rightarrow> string \<Rightarrow> Hub \<Rightarrow> Hub" where
  "Touch now roomName h =
    (case mget (hub_rooms h) roomName of
       None \<Rightarrow> h
     | Some r \<Rightarrow> h\<lparr>hub_rooms := mput roomName (r\<lparr>rr_lastActivity := now\<rparr>) (hub_rooms h)\<rparr>)"

definition recipients :: "string \<Rightarrow> string \<Rightarrow> Hub \<Rightarrow> conn option list" where
  "recipients roomName exceptID h =
    (case mget (hub_rooms h) roomName of
       None \<Rightarrow> []
     | Some r \<Rightarrow> map (hm_Send \<circ> snd) (filter (\<lambda>(i, m). i \<noteq> exceptID) (rr_members r)))"

text \<open>The loop stops where it calls a nil function.\<close>

fun send_all :: "conn option list \<Rightarrow> Envelope \<Rightarrow> effect list" where
  "send_all [] env = []"
| "send_all (None # ss) env = [NilCall]"
| "send_all (Some c # ss) env = Send c env # send_all ss env"

definition Broadcast :: "string \<Rightarrow> string \<Rightarrow> Envelope \<Rightarrow> Hub \<Rightarrow> effect list" where
  "Broadcast roomName exceptID env h = send_all (recipients roomName exceptID h) env"

definition SendTo :: "string \<Rightarrow> string \<Rightarrow> Envelope \<Rightarrow> Hub \<Rightarrow> effect list \<times> bool" where
  "SendTo roomName toID env h =
    (let send = (case mget (hub_rooms h) roomName of
            None \<Rightarrow> None
          | Some r \<Rightarrow> (case mget (rr_members r) toID of None \<Rightarrow> None | Some m \<Rightarrow> hm_Send m))
     in case send of None \<Rightarrow> ([], False) | Some c \<Rightarrow> ([Send c env], True))"

record RoomStat =
  rs_Name :: string
  rs_Members :: int
  rs_InviteOnly :: bool
  rs_TTLSeconds :: int
  rs_Webhook :: bool

definition Stats :: "Hub \<Rightarrow> RoomStat list" where
  "Stats h = map (\<lambda>(name, r). let p = Room (hub_cfg h) name
     in \<lparr>rs_Name = name, rs_Members = int (length (rr_members r)), rs_InviteOnly = rm_InviteOnly p,
         rs_TTLSeconds = whole_seconds (rm_TTL p), rs_Webhook = rm_Webhook p\<rparr>) (hub_rooms h)"

section \<open>Idle expiry\<close>

text \<open>\<open>Time.Sub\<close> saturates at the range of a \<open>Duration\<close>.\<close>

definition time_sub :: "go_time \<Rightarrow> go_time \<Rightarrow> duration" where
  "time_sub t u = max (- (2 ^ 63)) (min (2 ^ 63 - 1) (t - u))"

definition idle_expired :: "Config \<Rightarrow> go_time \<Rightarrow> string \<Rightarrow> room \<Rightarrow> bool" where
  "idle_expired cfg now name r =
    (let ttl = rm_TTL (Room cfg name)
     in if ttl \<le> 0 then False else if time_sub now (rr_lastActivity r) \<le> ttl then False else True)"

definition expireIdleRooms :: "go_time \<Rightarrow> go_time \<Rightarrow> Hub \<Rightarrow> Hub \<times> effect list" where
  "expireIdleRooms now at h =
    (let victims = map (\<lambda>(name, r). (name, map snd (rr_members r)))
           (mkeep (idle_expired (hub_cfg h) now) (hub_rooms h));
         h = h\<lparr>hub_rooms := mkeep (\<lambda>name r. \<not> idle_expired (hub_cfg h) now name r) (hub_rooms h)\<rparr>
     in (h, concat (map (\<lambda>(name, members).
          closeMembers at members ''this room has expired (ttl) and is closing'' @ fireClose h name) victims)))"

section \<open>Invariant\<close>

text \<open>The members of a room by id, each with a live \<open>Send\<close>; the join order lists each once.\<close>

definition room_ok :: "room \<Rightarrow> bool" where
  "room_ok r \<longleftrightarrow> is_map (rr_members r) \<and> rr_members r \<noteq> [] \<and> distinct (rr_order r) \<and>
     set (rr_order r) = set (keys (rr_members r)) \<and>
     (\<forall>(i, m) \<in> set (rr_members r). mb_ID (hm_Info m) = i \<and> hm_Send m \<noteq> None)"

definition hub_ok :: "Hub \<Rightarrow> bool" where
  "hub_ok h \<longleftrightarrow> is_map (hub_rooms h) \<and> (\<forall>(n, r) \<in> set (hub_rooms h). room_ok r)"

text \<open>The abstract view of a room: its members, oldest first.\<close>

definition in_order :: "room \<Rightarrow> HubMember list" where
  "in_order r = map (\<lambda>i. the (mget (rr_members r) i)) (rr_order r)"

definition roster :: "Hub \<Rightarrow> string \<Rightarrow> HubMember list" where
  "roster h n = (case mget (hub_rooms h) n of None \<Rightarrow> [] | Some r \<Rightarrow> in_order r)"

abbreviation member_id :: "HubMember \<Rightarrow> string" where
  "member_id m \<equiv> mb_ID (hm_Info m)"

lemma hub_ok_room: "hub_ok h \<Longrightarrow> mget (hub_rooms h) n = Some r \<Longrightarrow> room_ok r"
  by (auto simp: hub_ok_def dest!: map_of_SomeD)

lemma hub_ok_iff: "hub_ok h \<longleftrightarrow> is_map (hub_rooms h) \<and> (\<forall>n r. mget (hub_rooms h) n = Some r \<longrightarrow> room_ok r)"
  by (auto simp: hub_ok_def map_of_eq_Some_iff)

lemma in_order_nonempty: "room_ok r \<Longrightarrow> in_order r \<noteq> []"
  by (auto simp: in_order_def room_ok_def)

lemma in_order_ids: "room_ok r \<Longrightarrow> map member_id (in_order r) = rr_order r"
proof -
  assume ok: "room_ok r"
  have "member_id (the (mget (rr_members r) i)) = i" if "i \<in> set (rr_order r)" for i
  proof -
    have "i \<in> set (keys (rr_members r))" using ok that by (simp add: room_ok_def)
    then obtain m where "mget (rr_members r) i = Some m" by (auto simp: key_iff_mget simp del: set_map)
    then show ?thesis using ok by (auto simp: room_ok_def dest!: map_of_SomeD)
  qed
  then show ?thesis by (auto simp: in_order_def comp_def intro: map_idI)
qed

lemma map_the_mget_keys: "is_map m \<Longrightarrow> map (\<lambda>i. the (mget m i)) (keys m) = map snd m"
proof (induction m)
  case (Cons p m)
  have "map (\<lambda>i. the (mget (p # m) i)) (keys m) = map (\<lambda>i. the (mget m i)) (keys m)"
    using Cons.prems by (intro map_cong refl) (auto simp: rev_image_eqI)
  then show ?case using Cons by (cases p) (simp add: comp_def)
qed simp

text \<open>The unordered map and the join order hold the same members, each once.\<close>

lemma mset_in_order: "room_ok r \<Longrightarrow> mset (in_order r) = mset (map snd (rr_members r))"
proof -
  assume ok: "room_ok r"
  then have "mset (rr_order r) = mset (keys (rr_members r))"
    by (subst set_eq_iff_mset_eq_distinct [symmetric]) (simp_all add: room_ok_def)
  then have "mset (in_order r) = mset (map (\<lambda>i. the (mget (rr_members r) i)) (keys (rr_members r)))"
    unfolding in_order_def by (simp only: mset_map)
  also have "\<dots> = mset (map snd (rr_members r))"
    using ok by (simp add: map_the_mget_keys room_ok_def del: map_map)
  finally show ?thesis .
qed

lemma existing_spec:
  assumes "set is \<subseteq> set (keys members)"
  shows "existing members is res = res\<lparr>
      jr_Existing := jr_Existing res @ map (\<lambda>i. hm_Info (the (mget members i))) is,
      jr_Distributor := (case jr_Distributor res of Some d \<Rightarrow> Some d
        | None \<Rightarrow> (case is of [] \<Rightarrow> None | i # _ \<Rightarrow> Some (the (mget members i))))\<rparr>"
  using assms
proof (induction "is" arbitrary: res)
  case (Cons i "is")
  then obtain m where "mget members i = Some m" by (auto simp: key_iff_mget simp del: set_map)
  with Cons show ?case by (auto simp: Let_def split: option.splits list.splits)
qed (auto split: option.splits)

subsection \<open>Operations keep the invariant\<close>

lemma room_ok_iff:
  "room_ok r \<longleftrightarrow> is_map (rr_members r) \<and> rr_members r \<noteq> [] \<and> distinct (rr_order r) \<and>
     set (rr_order r) = set (keys (rr_members r)) \<and>
     (\<forall>i m. mget (rr_members r) i = Some m \<longrightarrow> mb_ID (hm_Info m) = i \<and> hm_Send m \<noteq> None)"
  by (auto simp: room_ok_def map_of_eq_Some_iff)

lemma mput_nonempty [simp]: "mput k v m \<noteq> []"
  by (cases m) auto

lemma room_ok_put:
  assumes "room_ok r \<or> r = \<lparr>rr_members = [], rr_order = [], rr_lastActivity = t\<rparr>"
    and "mget (rr_members r) (member_id m) = None" and "hm_Send m \<noteq> None"
  shows "room_ok (r\<lparr>rr_lastActivity := now, rr_members := mput (member_id m) m (rr_members r),
    rr_order := rr_order r @ [member_id m]\<rparr>)"
  using assms
proof (elim disjE)
  assume "room_ok r"
  moreover have "member_id m \<notin> set (keys (rr_members r))" using assms(2) by (simp only: mget_None_iff) simp
  ultimately show ?thesis using assms(3) by (simp add: room_ok_iff del: set_map) 
qed (simp add: room_ok_def)

lemma room_ok_del:
  assumes "room_ok r" and "mdel i (rr_members r) \<noteq> []"
  shows "room_ok (r\<lparr>rr_members := mdel i (rr_members r), rr_order := remove1 i (rr_order r)\<rparr>)"
  using assms by (auto simp: room_ok_def AList.delete_eq set_remove1_eq distinct_remove1 intro: distinct_map_filter)

lemma hub_ok_new: "hub_ok (NewHub cfg)"
  by (simp add: hub_ok_def NewHub_def)

lemma hub_ok_Join:
  assumes "hub_ok h" and "member_id m \<notin> set (map member_id (roster h n))" and "hm_Send m \<noteq> None"
  shows "hub_ok (fst (Join now n m h))"
proof -
  let ?r = "case mget (hub_rooms h) n of None \<Rightarrow> \<lparr>rr_members = [], rr_order = [], rr_lastActivity = 0\<rparr> | Some r \<Rightarrow> r"
  have r: "room_ok ?r \<or> ?r = \<lparr>rr_members = [], rr_order = [], rr_lastActivity = 0\<rparr>"
    using hub_ok_room [OF assms(1), of n] by (auto split: option.splits)
  have "mget (rr_members ?r) (member_id m) = None"
  proof (cases "mget (hub_rooms h) n")
    case (Some r)
    then have "room_ok r" using hub_ok_room [OF assms(1)] by blast
    then show ?thesis using assms(2) Some in_order_ids
      by (simp add: roster_def mget_None_iff room_ok_def del: set_map) 
  qed simp
  from room_ok_put [OF r this assms(3)] assms(1) show ?thesis
    by (auto simp: hub_ok_iff Join_def Let_def)
qed

lemma hub_ok_Leave: "hub_ok h \<Longrightarrow> hub_ok (fst (Leave n i h))"
  using hub_ok_room [of h n]
  by (auto simp: hub_ok_iff Leave_def removeLocked_def Let_def room_ok_del split: option.splits)

lemma hub_ok_ExpireRoom: "hub_ok h \<Longrightarrow> hub_ok (fst (ExpireRoom now n reason h))"
  by (auto simp: hub_ok_iff ExpireRoom_def Let_def split: option.splits)

lemma hub_ok_Touch: "hub_ok h \<Longrightarrow> hub_ok (Touch now n h)"
  using hub_ok_room [of h n] by (auto simp: hub_ok_iff Touch_def room_ok_def split: option.splits)

lemma hub_ok_expireIdleRooms: "hub_ok h \<Longrightarrow> hub_ok (fst (expireIdleRooms now at h))"
  by (auto simp: hub_ok_def expireIdleRooms_def Let_def mkeep_def intro: distinct_map_filter)

subsection \<open>Rosters\<close>

lemma roster_empty_iff: "hub_ok h \<Longrightarrow> roster h n = [] \<longleftrightarrow> mget (hub_rooms h) n = None"
  using hub_ok_room [of h n] in_order_nonempty by (auto simp: roster_def split: option.splits)

lemma roster_ids_distinct: "hub_ok h \<Longrightarrow> distinct (map member_id (roster h n))"
proof (cases "mget (hub_rooms h) n")
  case (Some r)
  moreover assume "hub_ok h"
  ultimately show ?thesis using hub_ok_room [of h n r] in_order_ids [of r] by (simp add: roster_def room_ok_def)
qed (simp add: roster_def)

lemma roster_wired: "hub_ok h \<Longrightarrow> m \<in> set (roster h n) \<Longrightarrow> hm_Send m \<noteq> None"
proof (cases "mget (hub_rooms h) n")
  case (Some r)
  assume "hub_ok h" "m \<in> set (roster h n)"
  then have r: "room_ok r" and "m \<in> set_mset (mset (in_order r))"
    using Some hub_ok_room by (auto simp: roster_def)
  then have "m \<in> snd ` set (rr_members r)" by (subst (asm) mset_in_order) auto
  then show ?thesis using r by (auto simp: room_ok_def)
qed (simp add: roster_def)

lemma IsEmpty_roster: "hub_ok h \<Longrightarrow> IsEmpty n h \<longleftrightarrow> roster h n = []"
  using hub_ok_room [of h n] in_order_nonempty
  by (auto simp: IsEmpty_def roster_def room_ok_def split: option.splits)

lemma in_order_put:
  assumes "room_ok r" and "i \<notin> set (keys (rr_members r))"
  shows "in_order (r\<lparr>rr_lastActivity := t, rr_members := mput i m (rr_members r), rr_order := rr_order r @ [i]\<rparr>)
    = in_order r @ [m]"
  using assms by (auto simp: in_order_def room_ok_def)

lemma in_order_del:
  assumes "room_ok r"
  shows "in_order (r\<lparr>rr_members := mdel i (rr_members r), rr_order := remove1 i (rr_order r)\<rparr>)
    = filter (\<lambda>m. member_id m \<noteq> i) (in_order r)"
proof -
  have "remove1 i (rr_order r) = filter (\<lambda>x. x \<noteq> i) (rr_order r)"
    using assms by (simp add: room_ok_def distinct_remove1_removeAll removeAll_filter_not_eq eq_commute)
  moreover have "filter (\<lambda>m. member_id m \<noteq> i) (in_order r) =
      map (\<lambda>x. the (mget (rr_members r) x)) (filter (\<lambda>x. x \<noteq> i) (rr_order r))"
  proof -
    have "member_id (the (mget (rr_members r) x)) = x" if "x \<in> set (rr_order r)" for x
      using in_order_ids [OF assms] that by (auto simp: in_order_def map_eq_conv dest: map_eq_conv [THEN iffD1, of _ _ id, simplified])
    then show ?thesis unfolding in_order_def filter_map comp_def by (intro arg_cong [where f = "map _"] filter_cong) auto
  qed
  ultimately show ?thesis by (auto simp: in_order_def)
qed

lemma Join_first: "hub_ok h \<Longrightarrow> jr_YouAreFirst (snd (Join now n m h)) \<longleftrightarrow> roster h n = []"
  using hub_ok_room [of h n] in_order_nonempty
  by (auto simp: Join_def Let_def roster_def existing_spec room_ok_def split: option.splits)

lemma Join_result:
  assumes "hub_ok h"
  shows "snd (Join now n m h) = \<lparr>jr_Existing = map hm_Info (roster h n), jr_YouAreFirst = (roster h n = []),
    jr_Distributor = (case roster h n of [] \<Rightarrow> None | d # _ \<Rightarrow> Some d)\<rparr>"
proof (cases "mget (hub_rooms h) n")
  case (Some r)
  then have ok: "room_ok r" using assms hub_ok_room by blast
  then have "set (rr_order r) \<subseteq> set (keys (rr_members r))" by (simp add: room_ok_def)
  with Some ok in_order_nonempty [OF ok] show ?thesis
    by (simp add: Join_def Let_def existing_spec roster_def in_order_def room_ok_def comp_def split: list.splits)
qed (simp add: Join_def Let_def roster_def)

lemma roster_Join:
  assumes "hub_ok h" and "member_id m \<notin> set (map member_id (roster h n))"
  shows "roster (fst (Join now n m h)) k = (if k = n then roster h n @ [m] else roster h k)"
proof (cases "mget (hub_rooms h) n")
  case (Some r)
  then have ok: "room_ok r" using assms hub_ok_room by blast
  then have "member_id m \<notin> set (keys (rr_members r))"
    using assms(2) Some in_order_ids by (simp add: roster_def room_ok_def del: set_map)
  with Some ok in_order_put [OF ok] show ?thesis by (simp add: Join_def Let_def roster_def)
qed (simp add: Join_def Let_def roster_def in_order_def)

lemma room_gone_order: "room_ok r \<Longrightarrow> mdel i (rr_members r) = [] \<longleftrightarrow> filter (\<lambda>m. member_id m \<noteq> i) (in_order r) = []"
proof -
  assume ok: "room_ok r"
  have "mdel i (rr_members r) = [] \<longleftrightarrow> set (keys (mdel i (rr_members r))) = {}" by simp
  also have "\<dots> \<longleftrightarrow> set (rr_order r) \<subseteq> {i}" using ok by (simp add: room_ok_def del: set_map)
  also have "\<dots> \<longleftrightarrow> set (map member_id (in_order r)) \<subseteq> {i}" by (simp only: in_order_ids [OF ok])
  finally show ?thesis by (auto simp: filter_empty_conv)
qed

lemma roster_Leave:
  assumes "hub_ok h"
  shows "roster (fst (Leave n i h)) k = (if k = n then filter (\<lambda>m. member_id m \<noteq> i) (roster h n) else roster h k) \<and>
    snd (Leave n i h) = (filter (\<lambda>m. member_id m \<noteq> i) (roster h n) = [])"
proof (cases "mget (hub_rooms h) n")
  case (Some r)
  then have ok: "room_ok r" using assms hub_ok_room by blast
  from Some room_gone_order [OF ok, of i] in_order_del [OF ok, of i] show ?thesis
    by (auto simp: Leave_def removeLocked_def Let_def roster_def)
qed (simp add: Leave_def removeLocked_def roster_def)

section \<open>Effects\<close>

lemma send_all_wired: "list_all (\<lambda>s. s \<noteq> None) ss \<Longrightarrow> send_all ss env = map (\<lambda>s. Send (the s) env) ss"
  by (induction ss env rule: send_all.induct) auto

lemma Broadcast_mset:
  assumes "hub_ok h"
  shows "mset (Broadcast n e env h) =
    image_mset (\<lambda>m. Send (the (hm_Send m)) env) (filter_mset (\<lambda>m. member_id m \<noteq> e) (mset (roster h n)))"
proof (cases "mget (hub_rooms h) n")
  case (Some r)
  then have ok: "room_ok r" using assms hub_ok_room by blast
  let ?ms = "filter (\<lambda>(i, m). i \<noteq> e) (rr_members r)"
  have eq: "(\<lambda>(i, m). i \<noteq> e) p \<longleftrightarrow> member_id (snd p) \<noteq> e" if "p \<in> set (rr_members r)" for p
    using ok that by (auto simp: room_ok_def)
  have "list_all (\<lambda>s. s \<noteq> None) (recipients n e h)"
    using Some ok by (auto simp: recipients_def room_ok_def list_all_iff)
  then have "Broadcast n e env h = map (\<lambda>m. Send (the (hm_Send m)) env) (map snd ?ms)"
    using Some by (simp add: Broadcast_def send_all_wired recipients_def comp_def)
  also have "map snd ?ms = filter (\<lambda>m. member_id m \<noteq> e) (map snd (rr_members r))"
    unfolding filter_map comp_def using eq by (intro arg_cong [where f = "map snd"] filter_cong) auto
  finally show ?thesis using Some mset_in_order [OF ok] by (simp add: roster_def)
qed (simp add: Broadcast_def recipients_def roster_def)

lemma members_of_roster: "hub_ok h \<Longrightarrow> mget (hub_rooms h) n = Some r \<Longrightarrow> set (map snd (rr_members r)) = set (roster h n)"
  using mset_in_order [OF hub_ok_room, THEN mset_eq_setD] by (simp add: roster_def)

lemma closeMembers_set:
  "e \<in> set (closeMembers now ms reason) \<longleftrightarrow>
    (\<exists>m \<in> set ms. (\<exists>c. hm_Send m = Some c \<and> e = Send c (Encode OpServerMessage (json_ServerMessage
        \<lparr>sm_Kind = ''system'', sm_From = ''server'', sm_Text = reason, sm_At = unix now\<rparr>))) \<or>
      (\<exists>c. hm_Close m = Some c \<and> e = Close c))"
  by (auto simp: closeMembers_def Let_def opt_send_def opt_close_def split: option.splits) (metis option.sel)+

lemma find_unique: "distinct (map f xs) \<Longrightarrow> x \<in> set xs \<Longrightarrow> find (\<lambda>y. f y = f x) xs = Some x"
  by (induction xs) (auto simp: rev_image_eqI)

lemma SendTo_roster:
  assumes "hub_ok h"
  shows "SendTo n i env h = (case find (\<lambda>m. member_id m = i) (roster h n) of
     None \<Rightarrow> ([], False) | Some m \<Rightarrow> ([Send (the (hm_Send m)) env], True))"
proof (cases "mget (hub_rooms h) n")
  case (Some r)
  then have ok: "room_ok r" using assms hub_ok_room by blast
  have ids: "map member_id (in_order r) = rr_order r" by (rule in_order_ids [OF ok])
  show ?thesis
  proof (cases "mget (rr_members r) i")
    case None
    then have "i \<notin> set (map member_id (in_order r))" using ok unfolding ids by (simp add: room_ok_def mget_None_iff del: set_map)
    then have "find (\<lambda>m. member_id m = i) (in_order r) = None" by (auto simp: find_None_iff)
    with Some None show ?thesis by (simp add: SendTo_def roster_def)
  next
    case (Some m)
    from Some have m: "m \<in> set (in_order r)" "member_id m = i" "hm_Send m \<noteq> None"
      using ok mset_in_order [OF ok, THEN mset_eq_setD]
      by (auto simp: room_ok_def dest!: map_of_SomeD intro: rev_image_eqI)
    have "distinct (map member_id (in_order r))" using ok unfolding ids by (simp add: room_ok_def)
    then have "find (\<lambda>m. member_id m = i) (in_order r) = Some m"
      using find_unique [of member_id "in_order r" m] m(1,2) by simp
    with Some m(3) \<open>mget (hub_rooms h) n = Some r\<close> show ?thesis by (auto simp: SendTo_def roster_def)
  qed
qed (simp add: SendTo_def roster_def)

section \<open>Reachable hubs\<close>

text \<open>
  Any interleaving of the operations. A joining member has a connection behind its
  \<open>Send\<close>, and a random id that no present member of the room has.
\<close>

inductive hub_reach :: "Config \<Rightarrow> Hub \<Rightarrow> bool" for cfg where
  init: "hub_reach cfg (NewHub cfg)"
| on_close: "hub_reach cfg h \<Longrightarrow> hub_reach cfg (SetOnClose h)"
| join: "hub_reach cfg h \<Longrightarrow> hm_Send m \<noteq> None \<Longrightarrow> member_id m \<notin> set (map member_id (roster h n)) \<Longrightarrow>
    hub_reach cfg (fst (Join now n m h))"
| leave: "hub_reach cfg h \<Longrightarrow> hub_reach cfg (fst (Leave n i h))"
| touch: "hub_reach cfg h \<Longrightarrow> hub_reach cfg (Touch now n h)"
| expire: "hub_reach cfg h \<Longrightarrow> hub_reach cfg (fst (ExpireRoom now n reason h))"
| scuttle: "hub_reach cfg h \<Longrightarrow> hub_reach cfg (fst (Scuttle n reason h))"
| idle: "hub_reach cfg h \<Longrightarrow> hub_reach cfg (fst (expireIdleRooms now at h))"

lemma Scuttle_hub [simp]: "fst (Scuttle n reason h) = h"
  by (simp add: Scuttle_def Let_def split: option.splits)

lemma hub_cfg_ops [simp]:
  "hub_cfg (fst (Join now n m h)) = hub_cfg h" "hub_cfg (fst (Leave n i h)) = hub_cfg h"
  "hub_cfg (Touch now n h) = hub_cfg h" "hub_cfg (fst (ExpireRoom now n reason h)) = hub_cfg h"
  "hub_cfg (fst (expireIdleRooms now at h)) = hub_cfg h"
  by (auto simp: Join_def Leave_def removeLocked_def Touch_def ExpireRoom_def expireIdleRooms_def Let_def
      split: option.splits)

lemmas hub_ok_ops = hub_ok_new hub_ok_Join hub_ok_Leave hub_ok_Touch hub_ok_ExpireRoom hub_ok_expireIdleRooms

section \<open>Properties\<close>

text \<open>Claim C13. Whatever operations interleave, a reachable hub is well formed: room names and member
  ids are unique, every room has at least one member, the join order lists exactly the
  present members, each once, and every member is filed under its own id and has a
  connection, so that no delivery can call a nil function.\<close>

theorem hub_reach_ok: "hub_reach cfg h \<Longrightarrow> hub_ok h \<and> hub_cfg h = cfg"
proof (induction rule: hub_reach.induct)
  case init
  then show ?case by (simp add: hub_ok_new) (simp add: NewHub_def)
next
  case (on_close h)
  then show ?case by (simp add: SetOnClose_def hub_ok_def)
qed (auto intro: hub_ok_ops)

definition sample_member :: "string \<Rightarrow> conn \<Rightarrow> HubMember" where
  "sample_member i c = \<lparr>hm_Info = \<lparr>mb_ID = i, mb_DisplayName = i, mb_IdentityKey = None, mb_KXKey = None,
     mb_Attestation = None\<rparr>, hm_Send = Some c, hm_Close = Some c\<rparr>"

definition sample_hub :: Hub where
  "sample_hub = \<lparr>hub_rooms = [(''ops'', \<lparr>rr_members = [(''a'', sample_member ''a'' 1), (''b'', sample_member ''b'' 2)],
     rr_order = [''a'', ''b''], rr_lastActivity = 5\<rparr>)], hub_cfg = Default, hub_onClose = True\<rparr>"

lemma sample_hub_ok: "hub_ok sample_hub"
  by (simp add: hub_ok_def room_ok_def sample_hub_def sample_member_def)

lemma sample_hub_roster: "roster sample_hub n = (if n = ''ops'' then [sample_member ''a'' 1, sample_member ''b'' 2] else [])"
  by (simp add: roster_def in_order_def sample_hub_def)

theorem hub_reach_ok_witness:
  "hub_ok (fst (Join 5 ''ops'' (sample_member ''a'' 1) (NewHub Default)))"
proof -
  have "hub_reach Default (fst (Join 5 ''ops'' (sample_member ''a'' 1) (NewHub Default)))"
    by (rule hub_reach.join [OF hub_reach.init]) (simp_all add: sample_member_def roster_def NewHub_def)
  from hub_reach_ok [OF this] show ?thesis by simp
qed

text \<open>Claim C12. The hub implements a list of members per room, oldest first. Joining appends the
  newcomer and tells it exactly who was there, in join order, whether it founded the
  room, and that the oldest present member distributes the key; leaving removes exactly
  that member, and reports empty exactly when nobody is left, so the next oldest becomes
  the distributor; no other room changes; and a room is empty for admission exactly when
  its list is.\<close>

theorem hub_refines_rosters:
  assumes "hub_ok h" and "member_id m \<notin> set (map member_id (roster h n))"
  shows "roster (fst (Join now n m h)) = (roster h)(n := roster h n @ [m]) \<and>
    snd (Join now n m h) = \<lparr>jr_Existing = map hm_Info (roster h n), jr_YouAreFirst = (roster h n = []),
      jr_Distributor = (case roster h n of [] \<Rightarrow> None | d # _ \<Rightarrow> Some d)\<rparr> \<and>
    roster (fst (Leave n i h)) = (roster h)(n := filter (\<lambda>m. member_id m \<noteq> i) (roster h n)) \<and>
    snd (Leave n i h) = (roster (fst (Leave n i h)) n = []) \<and>
    IsEmpty n h = (roster h n = [])"
  using roster_Join [OF assms] Join_result [OF assms(1)] roster_Leave [OF assms(1)] IsEmpty_roster [OF assms(1)]
  by (auto simp: fun_eq_iff)

theorem hub_refines_rosters_witness:
  "jr_Distributor (snd (Join 9 ''ops'' (sample_member ''c'' 3) sample_hub)) = Some (sample_member ''a'' 1) \<and>
   roster (fst (Leave ''ops'' ''a'' sample_hub)) ''ops'' = [sample_member ''b'' 2]"
  using hub_refines_rosters [OF sample_hub_ok, of "sample_member ''c'' 3" "''ops''" 9 "''a''"]
  by (simp add: sample_hub_roster) (simp add: sample_member_def)

text \<open>A broadcast reaches every other member of the room exactly once, and nobody else:
  not the sender, no member of another room, and never through a nil function. An
  addressed frame goes to the member with that id and to no one else, and the caller
  is told when there is none.\<close>

theorem Broadcast_exact:
  assumes "hub_ok h"
  shows "mset (Broadcast n e env h) =
      image_mset (\<lambda>m. Send (the (hm_Send m)) env) (filter_mset (\<lambda>m. member_id m \<noteq> e) (mset (roster h n))) \<and>
    NilCall \<notin> set (Broadcast n e env h) \<and>
    SendTo n i env h = (case find (\<lambda>m. member_id m = i) (roster h n) of
      None \<Rightarrow> ([], False) | Some m \<Rightarrow> ([Send (the (hm_Send m)) env], True))"
proof -
  have "set (Broadcast n e env h) = set_mset (mset (Broadcast n e env h))" by simp
  then have "NilCall \<notin> set (Broadcast n e env h)"
    unfolding Broadcast_mset [OF assms] by auto
  then show ?thesis using Broadcast_mset [OF assms] SendTo_roster [OF assms] by simp
qed

theorem Broadcast_exact_witness:
  "mset (Broadcast ''ops'' ''a'' (Encode OpMessage JNull) sample_hub) = {# Send 2 (Encode OpMessage JNull) #}"
  using Broadcast_exact [OF sample_hub_ok, of "''ops''" "''a''" "Encode OpMessage JNull"]
  by (simp add: sample_hub_roster) (simp add: sample_member_def)

lemma roster_idle:
  assumes "hub_ok h"
  shows "roster (fst (expireIdleRooms now at h)) n =
    (case mget (hub_rooms h) n of Some r \<Rightarrow> if idle_expired (hub_cfg h) now n r then [] else roster h n | None \<Rightarrow> [])"
  using assms by (auto simp: expireIdleRooms_def Let_def roster_def hub_ok_def mget_mkeep split: option.splits)

lemma mem_mkeep: "is_map m \<Longrightarrow> (k, v) \<in> set (mkeep P m) \<longleftrightarrow> mget m k = Some v \<and> P k v"
  by (auto simp: mkeep_def map_of_eq_Some_iff)

lemma idle_effects:
  assumes "hub_ok h"
  shows "e \<in> set (snd (expireIdleRooms now at h)) \<longleftrightarrow>
    (\<exists>n r. mget (hub_rooms h) n = Some r \<and> idle_expired (hub_cfg h) now n r \<and>
      (e \<in> set (closeMembers at (roster h n) ''this room has expired (ttl) and is closing'') \<or>
       hub_onClose h \<and> e = OnClose n))"
proof -
  have m: "is_map (hub_rooms h)" using assms by (simp add: hub_ok_def)
  have c: "mget (hub_rooms h) n = Some r \<Longrightarrow> e \<in> set (closeMembers at (map snd (rr_members r)) s) \<longleftrightarrow>
      e \<in> set (closeMembers at (roster h n) s)" for n r s
    unfolding closeMembers_set using members_of_roster [OF assms, of n r] by simp
  have "e \<in> set (snd (expireIdleRooms now at h)) \<longleftrightarrow>
    (\<exists>n r. (n, r) \<in> set (mkeep (idle_expired (hub_cfg h) now) (hub_rooms h)) \<and>
      (e \<in> set (closeMembers at (map snd (rr_members r)) ''this room has expired (ttl) and is closing'') \<or>
       hub_onClose h \<and> e = OnClose n))"
    by (auto simp: expireIdleRooms_def Let_def fireClose_def split_beta split: if_splits) (metis fst_conv snd_conv)+
  moreover have "((n, r) \<in> set (mkeep (idle_expired (hub_cfg h) now) (hub_rooms h)) \<and>
      (e \<in> set (closeMembers at (map snd (rr_members r)) s) \<or> hub_onClose h \<and> e = OnClose n)) \<longleftrightarrow>
    (mget (hub_rooms h) n = Some r \<and> idle_expired (hub_cfg h) now n r \<and>
      (e \<in> set (closeMembers at (roster h n) s) \<or> hub_onClose h \<and> e = OnClose n))" for n r s
    unfolding mem_mkeep [OF m] using c [of n r s] by blast
  ultimately show ?thesis by (simp only:)
qed

text \<open>A room is due: it has a lifetime and has been quiet for longer.\<close>

definition idle_due :: "go_time \<Rightarrow> Hub \<Rightarrow> string \<Rightarrow> bool" where
  "idle_due now h n = (case LastActivity n h of None \<Rightarrow> False
     | Some t \<Rightarrow> rm_TTL (Room (hub_cfg h) n) > 0 \<and> time_sub now t > rm_TTL (Room (hub_cfg h) n))"

lemma idle_due_iff: "idle_due now h n \<longleftrightarrow> (\<exists>r. mget (hub_rooms h) n = Some r \<and> idle_expired (hub_cfg h) now n r)"
  by (cases "mget (hub_rooms h) n") (auto simp: idle_due_def LastActivity_def idle_expired_def Let_def)

text \<open>The idle janitor closes exactly the rooms whose configuration sets a lifetime and
  that have been quiet for longer than it: those rooms are gone afterwards, each of their
  members is disconnected, and the close callback fires for those rooms and no other;
  every other room, its members and connections are untouched.\<close>

theorem expireIdleRooms_exact:
  assumes "hub_ok h" and "expireIdleRooms now at h = (h', es)"
  shows "roster h' n = (if idle_due now h n then [] else roster h n) \<and>
    (Close c \<in> set es \<longleftrightarrow> (\<exists>k m. idle_due now h k \<and> m \<in> set (roster h k) \<and> hm_Close m = Some c)) \<and>
    (OnClose n \<in> set es \<longleftrightarrow> hub_onClose h \<and> idle_due now h n) \<and>
    (Send c env \<in> set es \<longrightarrow> (\<exists>k m. idle_due now h k \<and> m \<in> set (roster h k) \<and> hm_Send m = Some c))"
proof -
  have h': "h' = fst (expireIdleRooms now at h)" and es: "es = snd (expireIdleRooms now at h)"
    by (simp_all add: assms(2))
  have "roster h' n = (if idle_due now h n then [] else roster h n)"
    unfolding h' roster_idle [OF assms(1)] idle_due_iff by (auto simp: roster_def split: option.splits)
  moreover have "Close c \<in> set es \<longleftrightarrow> (\<exists>k m. idle_due now h k \<and> m \<in> set (roster h k) \<and> hm_Close m = Some c)"
    unfolding es idle_effects [OF assms(1)] closeMembers_set idle_due_iff by blast
  moreover have "OnClose n \<in> set es \<longleftrightarrow> hub_onClose h \<and> idle_due now h n"
    unfolding es idle_effects [OF assms(1)] closeMembers_set idle_due_iff by auto
  moreover have "Send c env \<in> set es \<longrightarrow> (\<exists>k m. idle_due now h k \<and> m \<in> set (roster h k) \<and> hm_Send m = Some c)"
    unfolding es idle_effects [OF assms(1)] closeMembers_set idle_due_iff by blast
  ultimately show ?thesis by blast
qed

definition ttl_hub :: Hub where
  "ttl_hub = sample_hub\<lparr>hub_cfg := Default\<lparr>cf_Rooms := [(''ops'', zero_room\<lparr>rm_TTL := 3\<rparr>)]\<rparr>\<rparr>"

theorem expireIdleRooms_exact_witness:
  "roster (fst (expireIdleRooms 9 9 ttl_hub)) ''ops'' = [] \<and> Close 2 \<in> set (snd (expireIdleRooms 9 9 ttl_hub)) \<and>
   OnClose ''ops'' \<in> set (snd (expireIdleRooms 9 9 ttl_hub))"
proof -
  have ok: "hub_ok ttl_hub" using sample_hub_ok by (simp add: hub_ok_def ttl_hub_def)
  have due: "idle_due 9 ttl_hub ''ops''"
    by (simp add: idle_due_def LastActivity_def ttl_hub_def sample_hub_def Room_def time_sub_def)
  have r: "roster ttl_hub ''ops'' = [sample_member ''a'' 1, sample_member ''b'' 2]"
    using sample_hub_roster [of "''ops''"] by (simp add: roster_def ttl_hub_def)
  have "hm_Close (sample_member ''b'' 2) = Some 2" "hub_onClose ttl_hub"
    by (simp_all add: sample_member_def ttl_hub_def sample_hub_def)
  with expireIdleRooms_exact [OF ok surjective_pairing, of 9 9 "''ops''" 2 undefined] due r show ?thesis
    by (metis list.set_intros(1) list.set_intros(2))
qed

text \<open>A burn tells everybody and then closes: scuttling a room sends the notice once to
  every member, the initiator included, and schedules the close; when that runs, exactly
  the members of the room at that moment are notified and disconnected, the room is gone,
  the close callback has fired (which purges the room's beacon), and no other room has
  changed. Scuttling or expiring a room that is gone does nothing.\<close>

theorem scuttle_closes:
  assumes "hub_ok h" and "roster h n \<noteq> []"
  shows "\<exists>sends. snd (Scuttle n reason h) = sends @ [AfterExpire scuttleCloseGrace n scuttleAttestation] \<and>
      mset sends = image_mset (\<lambda>m. Send (the (hm_Send m)) (scuttle_notice reason)) (mset (roster h n)) \<and>
    (Close c \<in> set (snd (ExpireRoom now n text h)) \<longleftrightarrow> (\<exists>m \<in> set (roster h n). hm_Close m = Some c)) \<and>
    (OnClose k \<in> set (snd (ExpireRoom now n text h)) \<longleftrightarrow> hub_onClose h \<and> k = n) \<and>
    roster (fst (ExpireRoom now n text h)) = (roster h)(n := []) \<and>
    Scuttle n reason (fst (ExpireRoom now n text h)) = (fst (ExpireRoom now n text h), []) \<and>
    ExpireRoom now n text (fst (ExpireRoom now n text h)) = (fst (ExpireRoom now n text h), [])"
proof -
  obtain r where r: "mget (hub_rooms h) n = Some r" using assms by (auto simp: roster_def split: option.splits)
  then have ok: "room_ok r" using assms(1) hub_ok_room by blast
  let ?sends = "concat (map (\<lambda>s. opt_send s (scuttle_notice reason)) (map (hm_Send \<circ> snd) (rr_members r)))"
  have "opt_send (hm_Send (snd p)) e = [Send (the (hm_Send (snd p))) e]" if "p \<in> set (rr_members r)" for p e
    using ok that by (auto simp: room_ok_def opt_send_def)
  then have "?sends = concat (map (\<lambda>p. [Send (the (hm_Send (snd p))) (scuttle_notice reason)]) (rr_members r))"
    by (intro arg_cong [where f = concat]) simp
  then have s: "?sends = map (\<lambda>m. Send (the (hm_Send m)) (scuttle_notice reason)) (map snd (rr_members r))" by simp
  have m: "mset ?sends = image_mset (\<lambda>m. Send (the (hm_Send m)) (scuttle_notice reason)) (mset (roster h n))"
    unfolding s roster_def r mset_map by (simp add: mset_in_order [OF ok] image_mset.compositionality)
  have e: "snd (ExpireRoom now n text h) = closeMembers now (map snd (rr_members r)) text @ fireClose h n"
    by (simp add: ExpireRoom_def r Let_def fireClose_def)
  have c: "Close c \<in> set (snd (ExpireRoom now n text h)) \<longleftrightarrow> (\<exists>m \<in> set (roster h n). hm_Close m = Some c)"
    "OnClose k \<in> set (snd (ExpireRoom now n text h)) \<longleftrightarrow> hub_onClose h \<and> k = n"
    unfolding e set_append Un_iff closeMembers_set members_of_roster [OF assms(1) r] by (auto simp: fireClose_def)
  have g: "mget (hub_rooms (fst (ExpireRoom now n text h))) k = (if k = n then None else mget (hub_rooms h) k)" for k
    by (simp add: ExpireRoom_def r Let_def)
  show ?thesis
    by (intro exI [of _ ?sends] conjI) (use m c g r in \<open>simp_all add: Scuttle_def roster_def fun_eq_iff ExpireRoom_def [of _ _ _ "fst _"]\<close>)
qed

theorem scuttle_closes_witness:
  "length (snd (Scuttle ''ops'' ''manual'' sample_hub)) = 3 \<and>
   roster (fst (ExpireRoom 9 ''ops'' scuttleAttestation sample_hub)) ''ops'' = []"
  using scuttle_closes [OF sample_hub_ok, of "''ops''" "''manual''" 0 9 scuttleAttestation "[]"]
  by (auto simp: sample_hub_roster dest: arg_cong [where f = size])

end
