(* ===== verification/ScuttleManager.thy ===== *)
theory ScuttleManager
  imports Prelude Config Hub
begin

text \<open>
  The dead-man's switch, \<^verbatim>\<open>src/server/internal/scuttle/scuttle.go\<close>. The manager's two maps are
  modelled with the runtime objects behind them: stop channels and timers are numbered in
  order of creation, \<open>mg_loops\<close> are the running \<open>idleLoop\<close> goroutines and where each of them
  is, \<open>mg_pending\<close> the timers that have not fired, \<open>mg_firing\<close> the timer functions that
  have started. Each step is one critical section, so the steps interleave as the
  goroutines do. Closing a closed channel is Go's panic and sets \<open>mg_panic\<close>.

  The Go interface \<open>scuttle.Hub\<close> is the locale \<open>scuttle_hub\<close>; the operations take its two
  methods as arguments, and it is interpreted on the hub of theory \<open>Hub\<close>.
\<close>

section \<open>State\<close>

datatype phase = Waiting | Forgetting bool | Burning

record Manager =
  mg_idle :: "(string, nat) gomap"
  mg_armed :: "(string, nat) gomap"
  mg_closed :: "nat list"
  mg_loops :: "(nat, string \<times> Policy \<times> phase) gomap"
  mg_pending :: "(nat, string \<times> go_time) gomap"
  mg_firing :: "(nat, string \<times> bool) gomap"
  mg_next :: nat
  mg_panic :: bool

definition NewManager :: Manager where
  "NewManager = \<lparr>mg_idle = [], mg_armed = [], mg_closed = [], mg_loops = [], mg_pending = [], mg_firing = [],
     mg_next = 0, mg_panic = False\<rparr>"

section \<open>Operations\<close>

definition Start :: "(string \<Rightarrow> Policy) \<Rightarrow> string \<Rightarrow> Manager \<Rightarrow> Manager" where
  "Start policyOf room m =
    (let pol = policyOf room
     in if po_IdleAfter pol \<le> 0 then m
        else if mget (mg_idle m) room \<noteq> None then m
        else (let stop = mg_next m
              in m\<lparr>mg_next := Suc stop, mg_idle := mput room stop (mg_idle m),
                   mg_loops := mput stop (room, pol, Waiting) (mg_loops m)\<rparr>))"

definition stop_janitor :: "string \<Rightarrow> Manager \<Rightarrow> Manager" where
  "stop_janitor room m =
    (case mget (mg_idle m) room of
       None \<Rightarrow> m
     | Some stop \<Rightarrow>
        m\<lparr>mg_panic := mg_panic m \<or> stop \<in> set (mg_closed m), mg_closed := stop # mg_closed m,
          mg_idle := mdel room (mg_idle m)\<rparr>)"

definition stop_timer :: "string \<Rightarrow> Manager \<Rightarrow> Manager" where
  "stop_timer room m =
    (case mget (mg_armed m) room of
       None \<Rightarrow> m
     | Some t \<Rightarrow> m\<lparr>mg_pending := mdel t (mg_pending m), mg_armed := mdel room (mg_armed m)\<rparr>)"

definition Stop :: "string \<Rightarrow> Manager \<Rightarrow> Manager" where
  "Stop room m = stop_timer room (stop_janitor room m)"

definition OwnerLeft ::
  "(string \<Rightarrow> string \<Rightarrow> 'h \<Rightarrow> 'h \<times> effect list) \<Rightarrow> (string \<Rightarrow> Policy) \<Rightarrow> string \<Rightarrow> 'h \<Rightarrow> 'h \<times> effect list" where
  "OwnerLeft burn policyOf room h =
    (if po_OwnerLossBurn (policyOf room) then burn room ''owner_loss'' h else (h, []))"

definition Arm :: "go_time \<Rightarrow> string \<Rightarrow> duration \<Rightarrow> Manager \<Rightarrow> Manager" where
  "Arm now room d m =
    (if d \<le> 0 then m
     else (let m = (case mget (mg_armed m) room of
                      Some prev \<Rightarrow> m\<lparr>mg_pending := mdel prev (mg_pending m)\<rparr> | None \<Rightarrow> m);
               t = mg_next m
           in m\<lparr>mg_next := Suc t, mg_armed := mput room t (mg_armed m),
                mg_pending := mput t (room, now + d) (mg_pending m)\<rparr>))"

subsection \<open>The timer function\<close>

text \<open>The runtime starts a due timer's function; from then on \<open>Stop\<close> comes too late.\<close>

definition timer_due :: "go_time \<Rightarrow> nat \<Rightarrow> Manager \<Rightarrow> Manager" where
  "timer_due now t m =
    (case mget (mg_pending m) t of
       Some (room, at) \<Rightarrow>
        (if now \<ge> at then m\<lparr>mg_pending := mdel t (mg_pending m), mg_firing := mput t (room, False) (mg_firing m)\<rparr> else m)
     | None \<Rightarrow> m)"

definition timer_drop :: "nat \<Rightarrow> Manager \<Rightarrow> Manager" where
  "timer_drop t m =
    (case mget (mg_firing m) t of
       Some (room, False) \<Rightarrow> m\<lparr>mg_armed := mdel room (mg_armed m), mg_firing := mput t (room, True) (mg_firing m)\<rparr>
     | _ \<Rightarrow> m)"

definition timer_burn ::
  "(string \<Rightarrow> string \<Rightarrow> 'h \<Rightarrow> 'h \<times> effect list) \<Rightarrow> nat \<Rightarrow> Manager \<Rightarrow> 'h \<Rightarrow> Manager \<times> 'h \<times> effect list" where
  "timer_burn burn t m h =
    (case mget (mg_firing m) t of
       Some (room, True) \<Rightarrow> (m\<lparr>mg_firing := mdel t (mg_firing m)\<rparr>, burn room ''armed'' h)
     | _ \<Rightarrow> (m, h, []))"

subsection \<open>The idle janitor\<close>

datatype verdict = Keep | RoomGone | Quiet

definition idle_observe ::
  "(string \<Rightarrow> 'h \<Rightarrow> go_time option) \<Rightarrow> go_time \<Rightarrow> string \<Rightarrow> Policy \<Rightarrow> 'h \<Rightarrow> verdict" where
  "idle_observe activity now room pol h =
    (case activity room h of
       None \<Rightarrow> RoomGone
     | Some t \<Rightarrow> (if time_sub now t \<ge> po_IdleAfter pol then Quiet else Keep))"

text \<open>The select of the loop: the stop channel, or a tick, which may win even when both are ready.\<close>

definition idle_stop :: "nat \<Rightarrow> Manager \<Rightarrow> Manager" where
  "idle_stop ch m =
    (case mget (mg_loops m) ch of
       Some (room, pol, Waiting) \<Rightarrow> (if ch \<in> set (mg_closed m) then m\<lparr>mg_loops := mdel ch (mg_loops m)\<rparr> else m)
     | _ \<Rightarrow> m)"

definition idle_tick ::
  "(string \<Rightarrow> 'h \<Rightarrow> go_time option) \<Rightarrow> go_time \<Rightarrow> nat \<Rightarrow> 'h \<Rightarrow> Manager \<Rightarrow> Manager" where
  "idle_tick activity now ch h m =
    (case mget (mg_loops m) ch of
       Some (room, pol, Waiting) \<Rightarrow>
        (case idle_observe activity now room pol h of
           RoomGone \<Rightarrow> m\<lparr>mg_loops := mput ch (room, pol, Forgetting False) (mg_loops m)\<rparr>
         | Quiet \<Rightarrow> m\<lparr>mg_loops := mput ch (room, pol, Forgetting True) (mg_loops m)\<rparr>
         | Keep \<Rightarrow> m)
     | _ \<Rightarrow> m)"

definition forget :: "string \<Rightarrow> Manager \<Rightarrow> Manager" where
  "forget room m = m\<lparr>mg_idle := mdel room (mg_idle m)\<rparr>"

definition idle_forget :: "nat \<Rightarrow> Manager \<Rightarrow> Manager" where
  "idle_forget ch m =
    (case mget (mg_loops m) ch of
       Some (room, pol, Forgetting burns) \<Rightarrow>
        (let m = forget room m
         in if burns then m\<lparr>mg_loops := mput ch (room, pol, Burning) (mg_loops m)\<rparr>
            else m\<lparr>mg_loops := mdel ch (mg_loops m)\<rparr>)
     | _ \<Rightarrow> m)"

definition idle_burn ::
  "(string \<Rightarrow> string \<Rightarrow> 'h \<Rightarrow> 'h \<times> effect list) \<Rightarrow> nat \<Rightarrow> Manager \<Rightarrow> 'h \<Rightarrow> Manager \<times> 'h \<times> effect list" where
  "idle_burn burn ch m h =
    (case mget (mg_loops m) ch of
       Some (room, pol, Burning) \<Rightarrow> (m\<lparr>mg_loops := mdel ch (mg_loops m)\<rparr>, burn room ''idle'' h)
     | _ \<Rightarrow> (m, h, []))"

text \<open>One janitor over the ticks it sees: the time it burns the room, if it does.\<close>

fun idle_watch ::
  "(string \<Rightarrow> 'h \<Rightarrow> go_time option) \<Rightarrow> string \<Rightarrow> Policy \<Rightarrow> (go_time \<times> 'h) list \<Rightarrow> go_time option" where
  "idle_watch activity room pol [] = None"
| "idle_watch activity room pol ((now, h) # ts) =
    (case idle_observe activity now room pol h of
       RoomGone \<Rightarrow> None | Quiet \<Rightarrow> Some now | Keep \<Rightarrow> idle_watch activity room pol ts)"

section \<open>The interface of the hub\<close>

locale scuttle_hub =
  fixes activity :: "string \<Rightarrow> 'h \<Rightarrow> go_time option"
    and burn :: "string \<Rightarrow> string \<Rightarrow> 'h \<Rightarrow> 'h \<times> effect list"
  assumes burn_gone: "activity room h = None \<Longrightarrow> burn room reason h = (h, [])"
    and burn_keeps: "activity r (fst (burn room reason h)) = activity r h"
begin

lemma OwnerLeft_gone: "activity room h = None \<Longrightarrow> OwnerLeft burn pol room h = (h, [])"
  by (simp add: OwnerLeft_def burn_gone)

lemma idle_burn_gone:
  "mget (mg_loops m) ch = Some (room, pol, Burning) \<Longrightarrow> activity room h = None \<Longrightarrow> snd (idle_burn burn ch m h) = (h, [])"
  by (simp add: idle_burn_def burn_gone)

lemma timer_burn_gone:
  "mget (mg_firing m) t = Some (room, True) \<Longrightarrow> activity room h = None \<Longrightarrow> snd (timer_burn burn t m h) = (h, [])"
  by (simp add: timer_burn_def burn_gone)

lemma last_after_burns:
  "activity r (fst (OwnerLeft burn pol room h)) = activity r h"
  "activity r (fst (snd (idle_burn burn ch m h))) = activity r h"
  "activity r (fst (snd (timer_burn burn t m h))) = activity r h"
  by (auto simp: OwnerLeft_def idle_burn_def timer_burn_def burn_keeps split: option.splits phase.splits bool.splits prod.splits)

lemma watch_cons_quiet:
  "idle_watch activity room pol ts = Some t \<Longrightarrow>
    \<exists>h seen. (t, h) \<in> set ts \<and> activity room h = Some seen \<and> time_sub t seen \<ge> po_IdleAfter pol"
proof (induction ts)
  case (Cons p ts)
  obtain now h where p: "p = (now, h)" by fastforce
  show ?case
  proof (cases "idle_observe activity now room pol h")
    case Quiet
    then show ?thesis using Cons.prems p by (force simp: idle_observe_def split: option.splits if_splits)
  qed (use Cons p in \<open>auto split: if_splits\<close>)
qed simp

end

interpretation sh: scuttle_hub LastActivity Scuttle
  by unfold_locales (auto simp: LastActivity_def Scuttle_def Let_def split: option.splits)

section \<open>Interleavings\<close>

text \<open>Every order in which the critical sections of the manager's goroutines can run, on any hub.\<close>

inductive mgr_reach :: "(string \<Rightarrow> Policy) \<Rightarrow> Manager \<Rightarrow> bool" for policyOf where
  init: "mgr_reach policyOf NewManager"
| start: "mgr_reach policyOf m \<Longrightarrow> mgr_reach policyOf (Start policyOf room m)"
| stop: "mgr_reach policyOf m \<Longrightarrow> mgr_reach policyOf (Stop room m)"
| arm: "mgr_reach policyOf m \<Longrightarrow> mgr_reach policyOf (Arm now room d m)"
| due: "mgr_reach policyOf m \<Longrightarrow> mgr_reach policyOf (timer_due now t m)"
| drop: "mgr_reach policyOf m \<Longrightarrow> mgr_reach policyOf (timer_drop t m)"
| fire: "mgr_reach policyOf m \<Longrightarrow> mgr_reach policyOf (fst (timer_burn Scuttle t m h))"
| exit: "mgr_reach policyOf m \<Longrightarrow> mgr_reach policyOf (idle_stop ch m)"
| tick: "mgr_reach policyOf m \<Longrightarrow> mgr_reach policyOf (idle_tick LastActivity now ch h m)"
| forget: "mgr_reach policyOf m \<Longrightarrow> mgr_reach policyOf (idle_forget ch m)"
| burn: "mgr_reach policyOf m \<Longrightarrow> mgr_reach policyOf (fst (idle_burn Scuttle ch m h))"

text \<open>
  A registration names a goroutine that is still running for this room, with the room's
  policy, whose stop channel is open and that has not yet forgotten the room. Numbers
  beyond the next one are unused.
\<close>

definition registered :: "(string \<Rightarrow> Policy) \<Rightarrow> Manager \<Rightarrow> string \<Rightarrow> nat \<Rightarrow> bool" where
  "registered policyOf m room ch \<longleftrightarrow> ch < mg_next m \<and> ch \<notin> set (mg_closed m) \<and>
     (\<exists>ph. mget (mg_loops m) ch = Some (room, policyOf room, ph) \<and> ph \<noteq> Burning)"

definition mgr_ok :: "(string \<Rightarrow> Policy) \<Rightarrow> Manager \<Rightarrow> bool" where
  "mgr_ok policyOf m \<longleftrightarrow> \<not> mg_panic m \<and>
     (\<forall>room ch. mget (mg_idle m) room = Some ch \<longrightarrow> registered policyOf m room ch) \<and>
     (\<forall>ch room pol ph. mget (mg_loops m) ch = Some (room, pol, ph) \<longrightarrow>
        ch < mg_next m \<and> pol = policyOf room \<and> po_IdleAfter pol > 0) \<and>
     (\<forall>ch \<in> set (mg_closed m). ch < mg_next m) \<and>
     (\<forall>room t. mget (mg_armed m) room = Some t \<longrightarrow> t < mg_next m) \<and>
     (\<forall>t v. mget (mg_pending m) t = Some v \<longrightarrow> t < mg_next m)"

text \<open>How a step may change what the invariant reads.\<close>

lemma mgr_okD:
  assumes "mgr_ok policyOf m"
  shows "mget (mg_idle m) room = Some ch \<Longrightarrow> registered policyOf m room ch"
    "mget (mg_loops m) ch = Some (room, pol, ph) \<Longrightarrow> ch < mg_next m \<and> pol = policyOf room \<and> po_IdleAfter pol > 0"
    "mget (mg_armed m) room = Some t \<Longrightarrow> t < mg_next m"
    "mget (mg_pending m) t = Some v \<Longrightarrow> t < mg_next m" "ch \<in> set (mg_closed m) \<Longrightarrow> ch < mg_next m"
  using assms unfolding mgr_ok_def by blast+

lemma mgr_ok_Start: "mgr_ok policyOf m \<Longrightarrow> mgr_ok policyOf (Start policyOf room m)"
  unfolding mgr_ok_def registered_def Start_def Let_def
  by (auto simp: less_Suc_eq)

lemma idle_unshared: "mgr_ok policyOf m \<Longrightarrow> mget (mg_idle m) r = Some ch \<Longrightarrow> mget (mg_idle m) r' = Some ch \<Longrightarrow> r' = r"
  using mgr_okD(1) [of policyOf m r ch] mgr_okD(1) [of policyOf m r' ch] by (auto simp: registered_def)

lemma mgr_ok_stop_janitor: "mgr_ok policyOf m \<Longrightarrow> mgr_ok policyOf (stop_janitor room m)"
proof (cases "mget (mg_idle m) room")
  case (Some ch)
  assume ok: "mgr_ok policyOf m"
  have reg: "ch < mg_next m" "ch \<notin> set (mg_closed m)" using mgr_okD(1) [OF ok Some] by (auto simp: registered_def)
  have "registered policyOf (stop_janitor room m) r c" if "mget (mg_idle m) r = Some c" "r \<noteq> room" for r c
  proof -
    have "c \<noteq> ch" using idle_unshared [OF ok Some, of r] that by blast
    then show ?thesis using mgr_okD(1) [OF ok that(1)] Some by (auto simp: registered_def stop_janitor_def)
  qed
  then show ?thesis using ok reg Some unfolding mgr_ok_def by (auto simp: stop_janitor_def)
qed (simp add: stop_janitor_def)

lemma mgr_ok_stop_timer: "mgr_ok policyOf m \<Longrightarrow> mgr_ok policyOf (stop_timer room m)"
  by (auto simp: mgr_ok_def registered_def stop_timer_def split: option.splits)

lemma mgr_ok_Arm: "mgr_ok policyOf m \<Longrightarrow> mgr_ok policyOf (Arm now room d m)"
  unfolding mgr_ok_def registered_def Arm_def Let_def
  by (auto simp: less_Suc_eq split: option.splits)

lemma mgr_ok_timers:
  assumes "mgr_ok policyOf m"
  shows "mgr_ok policyOf (timer_due now t m)" "mgr_ok policyOf (timer_drop t m)"
    "mgr_ok policyOf (fst (timer_burn b t m h))"
  using assms by (auto simp: mgr_ok_def registered_def timer_due_def timer_drop_def timer_burn_def
    split: option.splits prod.splits bool.splits)

lemma mgr_ok_idle_stop: "mgr_ok policyOf m \<Longrightarrow> mgr_ok policyOf (idle_stop ch m)"
  by (auto simp: mgr_ok_def registered_def idle_stop_def split: option.splits prod.splits phase.splits)

lemma mgr_ok_phase:
  assumes "mgr_ok policyOf m" "mget (mg_loops m) ch = Some (room, pol, ph)" "ph' \<noteq> Burning \<or> mget (mg_idle m) room \<noteq> Some ch"
  shows "mgr_ok policyOf (m\<lparr>mg_loops := mput ch (room, pol, ph') (mg_loops m)\<rparr>)"
proof -
  have "registered policyOf (m\<lparr>mg_loops := mput ch (room, pol, ph') (mg_loops m)\<rparr>) r c"
    if r: "mget (mg_idle m) r = Some c" for r c
    using mgr_okD(1) [OF assms(1) r] assms(2,3) r by (auto simp: registered_def)
  then show ?thesis using assms(1) mgr_okD(2) [OF assms(1,2)] by (auto simp: mgr_ok_def)
qed

lemma mgr_ok_idle_tick: "mgr_ok policyOf m \<Longrightarrow> mgr_ok policyOf (idle_tick a now ch h m)"
  by (auto simp: idle_tick_def intro: mgr_ok_phase split: option.splits prod.splits phase.splits verdict.splits)

lemma mgr_ok_forget: "mgr_ok policyOf m \<Longrightarrow> mgr_ok policyOf (forget room m)"
  by (auto simp: mgr_ok_def registered_def forget_def)

lemma mgr_ok_end:
  assumes "mgr_ok policyOf m" "mget (mg_loops m) ch = Some (room, pol, ph)" "mget (mg_idle m) room \<noteq> Some ch"
  shows "mgr_ok policyOf (m\<lparr>mg_loops := mdel ch (mg_loops m)\<rparr>)"
proof -
  have "r = room" if "mget (mg_idle m) r = Some ch" for r
    using mgr_okD(1) [OF assms(1) that] assms(2) by (auto simp: registered_def)
  then have "registered policyOf (m\<lparr>mg_loops := mdel ch (mg_loops m)\<rparr>) r c"
    if "mget (mg_idle m) r = Some c" for r c
    using mgr_okD(1) [OF assms(1) that] assms(3) that by (auto simp: registered_def)
  then show ?thesis using assms(1) by (auto simp: mgr_ok_def)
qed

lemma mgr_ok_idle_forget: "mgr_ok policyOf m \<Longrightarrow> mgr_ok policyOf (idle_forget ch m)"
proof -
  assume ok: "mgr_ok policyOf m"
  show ?thesis
  proof (cases "mget (mg_loops m) ch")
    case (Some v)
    obtain room pol ph where v: "v = (room, pol, ph)" by (cases v) auto
    have "mget (mg_loops (forget room m)) ch = Some (room, pol, ph)" "mget (mg_idle (forget room m)) room \<noteq> Some ch"
      using Some v by (simp_all add: forget_def)
    with mgr_ok_forget [OF ok, of room] Some v ok show ?thesis
      by (auto simp: idle_forget_def Let_def intro: mgr_ok_phase mgr_ok_end split: phase.splits)
  qed (use ok in \<open>simp add: idle_forget_def\<close>)
qed

lemma mgr_ok_idle_burn: "mgr_ok policyOf m \<Longrightarrow> mgr_ok policyOf (fst (idle_burn b ch m h))"
proof -
  assume ok: "mgr_ok policyOf m"
  have "mget (mg_idle m) room \<noteq> Some ch" if "mget (mg_loops m) ch = Some (room, pol, Burning)" for room pol
    using mgr_okD(1) [OF ok, of room ch] that by (auto simp: registered_def)
  with ok show ?thesis
    by (auto simp: idle_burn_def intro: mgr_ok_end split: option.splits prod.splits phase.splits)
qed

lemmas mgr_ok_ops = mgr_ok_Start mgr_ok_stop_janitor mgr_ok_stop_timer mgr_ok_Arm mgr_ok_timers mgr_ok_idle_stop
  mgr_ok_idle_tick mgr_ok_idle_forget mgr_ok_idle_burn

section \<open>Properties\<close>

text \<open>Claim C36. However the janitors, timers and callers interleave, no stop channel is ever closed
  twice (which would panic the server), every registered janitor is a live goroutine for
  that room that can still be stopped, no janitor watches a room without an idle policy,
  starting a watched room again does nothing, and stopping a room leaves neither a
  registration nor a pending countdown registered for it.\<close>

theorem manager_safe:
  assumes "mgr_reach policyOf m"
  shows "\<not> mg_panic m \<and>
    (\<forall>room ch. mget (mg_idle m) room = Some ch \<longrightarrow> registered policyOf m room ch \<and> Start policyOf room m = m) \<and>
    (\<forall>ch room pol ph. mget (mg_loops m) ch = Some (room, pol, ph) \<longrightarrow> pol = policyOf room \<and> po_IdleAfter pol > 0) \<and>
    mget (mg_idle (Stop room m)) room = None \<and> mget (mg_armed (Stop room m)) room = None"
proof -
  from assms have ok: "mgr_ok policyOf m"
  proof (induction rule: mgr_reach.induct)
    case init
    then show ?case by (simp add: mgr_ok_def NewManager_def)
  qed (auto simp: Stop_def intro: mgr_ok_ops)
  have "Start policyOf room m = m" if "mget (mg_idle m) room = Some ch" for room ch
    using that by (simp add: Start_def Let_def)
  moreover have "mget (mg_idle (Stop room m)) room = None \<and> mget (mg_armed (Stop room m)) room = None"
    by (simp add: Stop_def stop_timer_def stop_janitor_def split: option.splits)
  ultimately show ?thesis using ok unfolding mgr_ok_def by blast
qed

definition idle_policy :: "string \<Rightarrow> Policy" where
  "idle_policy room = \<lparr>po_IdleAfter = 10, po_OwnerLossBurn = False, po_Heartbeat = 4\<rparr>"

theorem manager_safe_witness:
  "registered idle_policy (Start idle_policy ''ops'' NewManager) ''ops'' 0 \<and> \<not> mg_panic (Start idle_policy ''ops'' NewManager)"
proof -
  have "mgr_reach idle_policy (Start idle_policy ''ops'' NewManager)" by (intro mgr_reach.start mgr_reach.init)
  moreover have "mget (mg_idle (Start idle_policy ''ops'' NewManager)) ''ops'' = Some 0"
    by (simp add: Start_def idle_policy_def NewManager_def Let_def)
  ultimately show ?thesis using manager_safe by blast
qed

lemma idle_watch_find:
  "(\<And>t h. (t, h) \<in> set ts \<Longrightarrow> activity room h = Some seen) \<Longrightarrow>
   idle_watch activity room pol ts = map_option fst (find (\<lambda>(t, _). time_sub t seen \<ge> po_IdleAfter pol) ts)"
proof (induction ts)
  case (Cons p ts)
  obtain t h where p: "p = (t, h)" by fastforce
  have "activity room h = Some seen" by (rule Cons.prems [of t]) (simp add: p)
  with Cons p show ?case by (auto simp: idle_observe_def)
qed simp

lemma time_sub_ge: "0 < d \<Longrightarrow> d < 2 ^ 63 \<Longrightarrow> time_sub t u \<ge> d \<longleftrightarrow> t - u \<ge> d"
  by (simp add: time_sub_def) linarith

text \<open>The first tick of a periodic ticker at or after a time that is not before its start.\<close>

lemma first_tick:
  fixes hs :: "nat \<Rightarrow> 'a"
  assumes "0 < (hb :: int)" "t0 < due" "due \<le> t0 + int N * hb"
  shows "\<exists>t h. find (\<lambda>(t, _). t \<ge> due) (map (\<lambda>k. (t0 + int (Suc k) * hb, hs k)) [0..<N]) = Some (t, h) \<and>
    due \<le> t \<and> t < due + hb"
proof -
  define ts where "ts = map (\<lambda>k. (t0 + int (Suc k) * hb, hs k)) [0..<N]"
  define P where "P = (\<lambda>p :: int \<times> 'a. fst p \<ge> due)"
  have P: "(\<lambda>(t, _). t \<ge> due) = P" by (auto simp: P_def)
  have nth: "ts ! k = (t0 + int (Suc k) * hb, hs k)" if "k < N" for k using that by (simp add: ts_def)
  have len: "length ts = N" by (simp add: ts_def)
  obtain n where N: "N = Suc n" using assms(2,3) by (cases N) auto
  then have "ts ! n \<in> set ts" "P (ts ! n)" using assms(3) nth [of n] nth_mem [of n ts] len by (simp_all add: P_def)
  then obtain x where f: "find P ts = Some x" using find_None_iff [of P ts] by (cases "find P ts") blast+
  then obtain i where i: "i < N" "P (ts ! i)" "x = ts ! i" "\<forall>j<i. \<not> P (ts ! j)"
    unfolding find_Some_iff len by blast
  have "t0 + int (Suc i) * hb < due + hb"
  proof (cases i)
    case (Suc j)
    then have "\<not> P (ts ! j)" using i(4) by simp
    then show ?thesis using Suc i(1) nth [of j] by (simp add: P_def algebra_simps)
  qed (use assms(2) in simp)
  then show ?thesis using f i(1,2,3) nth [of i] unfolding P ts_def [symmetric] by (auto simp: P_def)
qed

text \<open>The dead-man's switch fires, and in time: for every configured idle window, a room
  that stays quiet from its last activity on is burnt by its janitor at one of the
  janitor's ticks, never before the window has passed, less than one heartbeat after it
  and so before twice the window, whatever heartbeat the configuration asks for.\<close>

theorem idle_burn_in_time:
  fixes hs :: "nat \<Rightarrow> Hub"
  assumes "pol = scuttlePolicyOf cfg room" "0 < po_IdleAfter pol" "po_IdleAfter pol < 2 ^ 63"
    and "\<And>k. LastActivity room (hs k) = Some seen" "t0 \<le> seen"
    and "seen + po_IdleAfter pol \<le> t0 + int N * po_Heartbeat pol"
  shows "\<exists>t. idle_watch LastActivity room pol (map (\<lambda>k. (t0 + int (Suc k) * po_Heartbeat pol, hs k)) [0..<N]) = Some t \<and>
    seen + po_IdleAfter pol \<le> t \<and> t < seen + po_IdleAfter pol + po_Heartbeat pol \<and> t < seen + 2 * po_IdleAfter pol"
proof -
  let ?ts = "map (\<lambda>k. (t0 + int (Suc k) * po_Heartbeat pol, hs k)) [0..<N]"
  have hb: "po_Heartbeat pol > 0" "po_Heartbeat pol \<le> po_IdleAfter pol"
    using heartbeat_bounds assms(1,2) by blast+
  have P: "time_sub t seen \<ge> po_IdleAfter pol \<longleftrightarrow> t \<ge> seen + po_IdleAfter pol" for t
    using time_sub_ge [OF assms(2,3), of t seen] by linarith
  have "idle_watch LastActivity room pol ?ts = map_option fst (find (\<lambda>(t, _). t \<ge> seen + po_IdleAfter pol) ?ts)"
    using assms(4) by (subst idle_watch_find [of _ LastActivity room seen]) (auto simp: P)
  with first_tick [OF hb(1), of t0 "seen + po_IdleAfter pol" N hs] assms(2,5,6) hb(2) show ?thesis by force
qed

definition idle_config :: Config where
  "idle_config = Default\<lparr>cf_Rooms := [(''ops'', zero_room\<lparr>rm_Scuttle := \<lparr>sp_IdleAfter = 10, sp_OwnerLossBurn = False, sp_Heartbeat = 4\<rparr>\<rparr>)]\<rparr>"

theorem idle_burn_in_time_witness:
  "\<exists>t. idle_watch LastActivity ''ops'' (scuttlePolicyOf idle_config ''ops'')
     (map (\<lambda>k. (3 + int (Suc k) * 4, sample_hub)) [0..<3]) = Some t \<and> 15 \<le> t \<and> t < 19"
proof -
  have p: "po_IdleAfter (scuttlePolicyOf idle_config ''ops'') = 10" "po_Heartbeat (scuttlePolicyOf idle_config ''ops'') = 4"
    by (simp_all add: idle_config_def scuttlePolicyOf_def Room_def HeartbeatOrDefault_def)
  have "LastActivity ''ops'' sample_hub = Some 5" by (simp add: LastActivity_def sample_hub_def)
  then show ?thesis using idle_burn_in_time [OF refl, of idle_config "''ops''" "\<lambda>_. sample_hub" 5 3 3] p by auto
qed

text \<open>A burn that comes too late is harmless: a janitor or countdown that fires, or a founder
  who leaves, after the room is gone sends nothing and changes nothing in the hub, and a
  janitor only ever burns after it has seen the room present and quiet for the whole
  window.\<close>

theorem late_burns_harmless:
  assumes "LastActivity room h = None"
  shows "OwnerLeft Scuttle policyOf room h = (h, []) \<and>
    (mget (mg_loops m) ch = Some (room, pol, Burning) \<longrightarrow> snd (idle_burn Scuttle ch m h) = (h, [])) \<and>
    (mget (mg_firing m) t = Some (room, True) \<longrightarrow> snd (timer_burn Scuttle t m h) = (h, [])) \<and>
    (mget (mg_loops m) ch = Some (room, pol, Waiting) \<longrightarrow>
      mget (mg_loops (idle_tick LastActivity now ch h' m)) ch = Some (room, pol, Forgetting True) \<longrightarrow>
      (\<exists>seen. LastActivity room h' = Some seen \<and> time_sub now seen \<ge> po_IdleAfter pol))"
  using sh.OwnerLeft_gone [OF assms] sh.idle_burn_gone [OF _ assms] sh.timer_burn_gone [OF _ assms]
  by (auto simp: idle_tick_def idle_observe_def split: option.splits if_splits verdict.splits)

theorem late_burns_harmless_witness:
  "OwnerLeft Scuttle (\<lambda>_. \<lparr>po_IdleAfter = 0, po_OwnerLossBurn = True, po_Heartbeat = 60\<rparr>) ''gone'' sample_hub = (sample_hub, [])"
  using late_burns_harmless [of "''gone''" sample_hub "\<lambda>_. \<lparr>po_IdleAfter = 0, po_OwnerLossBurn = True, po_Heartbeat = 60\<rparr>"]
  by (simp add: LastActivity_def sample_hub_def)

end
