(* ===== verification/Store.thy ===== *)
theory Store
  imports Prelude Wire
begin

text \<open>
  Message history, \<^verbatim>\<open>src/server/internal/store\<close>: the \<open>Store\<close> interface as the locale
  \<open>message_store\<close> and its in-memory implementation \<^verbatim>\<open>memory.go\<close>. The SQLite implementation
  is I/O and not modelled.
\<close>

section \<open>The ring buffer\<close>

record Memory =
  me_max :: int
  me_rooms :: "(string, Envelope list) gomap"

definition NewMemory :: "int \<Rightarrow> Memory" where
  "NewMemory limit = (let limit = (if limit \<le> 0 then 100 else limit) in \<lparr>me_max = limit, me_rooms = []\<rparr>)"

definition room_buf :: "string \<Rightarrow> Memory \<Rightarrow> Envelope list" where
  "room_buf room m = (case mget (me_rooms m) room of None \<Rightarrow> [] | Some b \<Rightarrow> b)"

definition MAppend :: "string \<Rightarrow> Envelope \<Rightarrow> Memory \<Rightarrow> Memory" where
  "MAppend room env m =
    (let buf = room_buf room m @ [env];
         buf = (if int (length buf) > me_max m then drop (length buf - nat (me_max m)) buf else buf)
     in m\<lparr>me_rooms := mput room buf (me_rooms m)\<rparr>)"

definition MHistory :: "string \<Rightarrow> int \<Rightarrow> Memory \<Rightarrow> Envelope list" where
  "MHistory room limit m =
    (let buf = room_buf room m
     in if limit > 0 \<and> int (length buf) > limit then drop (length buf - nat limit) buf else buf)"

section \<open>The interface\<close>

text \<open>The most recent entries of a list, in order.\<close>

definition recent :: "nat \<Rightarrow> 'a list \<Rightarrow> 'a list" where
  "recent n xs = drop (length xs - n) xs"

lemma recent_recent: "recent m (recent n xs) = recent (min m n) xs"
proof -
  have "length xs - (length xs - n) - m + (length xs - n) = length xs - min m n" by linarith
  then show ?thesis by (simp only: recent_def drop_drop length_drop)
qed

lemma recent_snoc: "recent n (recent n xs @ [x]) = recent n (xs @ [x])"
  by (cases "length xs \<le> n") (auto simp: recent_def Suc_diff_le)

lemma length_recent: "length (recent n xs) = min n (length xs)"
  by (simp add: recent_def)

locale message_store =
  fixes append :: "string \<Rightarrow> Envelope \<Rightarrow> 's \<Rightarrow> 's" and history :: "string \<Rightarrow> int \<Rightarrow> 's \<Rightarrow> Envelope list"
    and capacity :: "'s \<Rightarrow> nat"
  assumes capacity_append: "capacity (append room env s) = capacity s"
    and history_append: "history r 0 (append room env s) =
      (if r = room then recent (capacity s) (history room 0 s @ [env]) else history r 0 s)"
    and history_limit: "0 < limit \<Longrightarrow> history room limit s = recent (nat limit) (history room 0 s)"
begin

lemma history_run:
  assumes "history room 0 s = recent (capacity s) xs"
  shows "history room 0 (fold (\<lambda>(r, env). append r env) log s) =
    recent (capacity s) (xs @ map snd (filter (\<lambda>(r, _). r = room) log))"
  using assms
proof (induction log arbitrary: s xs)
  case (Cons p log)
  obtain r env where p: "p = (r, env)" by fastforce
  show ?case
  proof (cases "r = room")
    case True
    have "history room 0 (append r env s) = recent (capacity (append r env s)) (xs @ [env])"
      using True Cons.prems by (simp add: history_append capacity_append recent_snoc)
    from Cons.IH [OF this] show ?thesis using p True by (simp add: capacity_append)
  next
    case False
    have "history room 0 (append r env s) = recent (capacity (append r env s)) xs"
      using False Cons.prems by (simp add: history_append capacity_append)
    from Cons.IH [OF this] show ?thesis using p False by (simp add: capacity_append)
  qed
qed simp

end

interpretation mem: message_store MAppend MHistory "\<lambda>m. nat (me_max m)"
proof
  show "MHistory r 0 (MAppend room env s) =
      (if r = room then recent (nat (me_max s)) (MHistory room 0 s @ [env]) else MHistory r 0 s)" for r room env s
    by (auto simp: MHistory_def MAppend_def room_buf_def recent_def Let_def)
  show "0 < limit \<Longrightarrow> MHistory room limit s = recent (nat limit) (MHistory room 0 s)" for limit room s
    by (auto simp: MHistory_def recent_def Let_def)
qed (simp add: MAppend_def Let_def)

section \<open>Property\<close>

text \<open>The in-memory store replays exactly the most recent messages of the room, oldest
  first, whatever was appended to other rooms in between: never more than its capacity,
  never more than asked for, and nothing of another room.\<close>

theorem memory_replays_recent:
  assumes "0 < limit"
  shows "MHistory room limit (fold (\<lambda>(r, env). MAppend r env) log (NewMemory cap)) =
    recent (nat (min limit (if cap \<le> 0 then 100 else cap))) (map snd (filter (\<lambda>(r, _). r = room) log))"
proof -
  let ?s = "fold (\<lambda>(r, env). MAppend r env) log (NewMemory cap)" and ?cap = "if cap \<le> 0 then 100 else cap"
  let ?xs = "map snd (filter (\<lambda>(r, _). r = room) log)"
  have cap: "me_max (NewMemory cap) = ?cap" by (simp add: NewMemory_def Let_def)
  have "MHistory room 0 (NewMemory cap) = recent (nat ?cap) []"
    by (simp add: MHistory_def room_buf_def NewMemory_def recent_def Let_def)
  then have "MHistory room 0 ?s = recent (nat ?cap) ?xs"
    using mem.history_run [of room "NewMemory cap" "[]" log] by (simp add: cap)
  then have "MHistory room limit ?s = recent (nat limit) (recent (nat ?cap) ?xs)"
    using mem.history_limit [OF assms, of room ?s] by simp
  also have "\<dots> = recent (nat (min limit ?cap)) ?xs"
    by (auto simp: recent_recent min_def)
  finally show ?thesis .
qed

theorem memory_replays_recent_witness:
  "MHistory ''ops'' 5 (fold (\<lambda>(r, env). MAppend r env)
     [(''ops'', Encode OpMessage JNull), (''hr'', Encode OpAck JNull), (''ops'', Encode OpHandoff JNull)] (NewMemory 1))
   = [Encode OpHandoff JNull]"
  using memory_replays_recent [of 5 "''ops''"
      "[(''ops'', Encode OpMessage JNull), (''hr'', Encode OpAck JNull), (''ops'', Encode OpHandoff JNull)]" 1]
  by (simp add: recent_def)

end
