(* ===== verification/Relay.thy ===== *)
theory Relay
  imports Prelude Config Wire Hub ScuttleManager Invite Ephemeral Beacon Transfers Store
begin

text \<open>
  The transport, \<^verbatim>\<open>src/server/internal/ws/server.go\<close>, with the wiring of
  \<^verbatim>\<open>src/server/server.go\<close>: the handshake that admits a connection, the relay of every opcode,
  break-glass, departure, and the outbound queue of a connection.

  A handler is a function from the server to the server after it and the effects it
  requested, in order; \<open>perform\<close> carries an effect out. The clock, the random draws, the
  verdict of the token-bucket limiter and the frames read from the socket are arguments.
  \<open>None\<close> stands for a handler that does not return (the redraw loop of a war-room name).
  The history store is the in-memory one.
\<close>

section \<open>State\<close>

record Server =
  s_hub :: Hub
  s_cfg :: Config
  s_invites :: Invites
  s_ephemeral :: Registry
  s_scuttle :: "Manager option"
  s_transfers :: transferTracker
  s_store :: "Memory option"
  s_out :: "(conn, Envelope list) gomap"
  s_closed :: "conn list"
  s_beacons :: Beacons
  s_grace :: "(go_time \<times> string \<times> string) list"
  s_panicked :: bool

text \<open>What a handler reads from outside: the clock and the random draws, for room names and for tokens.\<close>

record Inputs =
  in_now :: go_time
  in_names :: "nat \<Rightarrow> bytes"
  in_tokens :: "nat \<Rightarrow> bytes"

definition sendBuffer :: nat where "sendBuffer = 64"
definition inviteTTL :: duration where "inviteTTL = 24 * hour"

definition NewServer :: "Config \<Rightarrow> bool \<Rightarrow> Memory option \<Rightarrow> Server" where
  "NewServer cfg with_scuttle st =
    \<lparr>s_hub = SetOnClose (NewHub cfg), s_cfg = cfg, s_invites = NewInvites, s_ephemeral = NewRegistry,
     s_scuttle = (if with_scuttle then Some NewManager else None),
     s_transfers = newTransferTracker (li_MaxConcurrentTransfers (cf_Limits cfg)),
     s_store = st, s_out = [], s_closed = [], s_beacons = NewBeacons, s_grace = [], s_panicked = False\<rparr>"

section \<open>Outbound queues\<close>

definition queue :: "conn \<Rightarrow> Server \<Rightarrow> Envelope list" where
  "queue c s = (case mget (s_out s) c of None \<Rightarrow> [] | Some q \<Rightarrow> q)"

text \<open>\<open>conn.send\<close>: enqueue without blocking, or drop.\<close>

definition conn_send :: "conn \<Rightarrow> Envelope \<Rightarrow> Server \<Rightarrow> Server" where
  "conn_send c env s =
    (if length (queue c s) < sendBuffer then s\<lparr>s_out := mput c (queue c s @ [env]) (s_out s)\<rparr> else s)"

text \<open>One turn of \<open>conn.writePump\<close>: the frame written to the socket, if there is one.\<close>

definition writePump :: "conn \<Rightarrow> Server \<Rightarrow> Server \<times> Envelope option" where
  "writePump c s = (case queue c s of [] \<Rightarrow> (s, None) | env # q \<Rightarrow> (s\<lparr>s_out := mput c q (s_out s)\<rparr>, Some env))"

fun perform :: "go_time \<Rightarrow> effect \<Rightarrow> Server \<Rightarrow> Server" where
  "perform now (Send c env) s = conn_send c env s"
| "perform now (Close c) s = s\<lparr>s_closed := c # s_closed s\<rparr>"
| "perform now (OnClose room) s = s\<lparr>s_beacons := BDelete room (s_beacons s)\<rparr>"
| "perform now (AfterExpire d room txt) s = s\<lparr>s_grace := (now + d, room, txt) # s_grace s\<rparr>"
| "perform now NilCall s = s\<lparr>s_panicked := True\<rparr>"

fun perform_all :: "go_time \<Rightarrow> effect list \<Rightarrow> Server \<Rightarrow> Server" where
  "perform_all now [] s = s"
| "perform_all now (e # es) s = perform_all now es (perform now e s)"

section \<open>Policy\<close>

record effectivePolicy =
  ep_InviteOnly :: bool
  ep_Webhook :: bool
  ep_TTLSeconds :: int

definition roomPolicy :: "go_time \<Rightarrow> string \<Rightarrow> Server \<Rightarrow> effectivePolicy" where
  "roomPolicy now room s =
    (let cfg = Room (s_cfg s) room;
         pol = \<lparr>ep_InviteOnly = rm_InviteOnly cfg, ep_Webhook = rm_Webhook cfg,
                ep_TTLSeconds = whole_seconds (rm_TTL cfg)\<rparr>
     in case GetRoom room (s_ephemeral s) of
          None \<Rightarrow> pol
        | Some er \<Rightarrow>
            (let pol = pol\<lparr>ep_InviteOnly := True, ep_Webhook := False, ep_TTLSeconds := 0\<rparr>;
                 rem = whole_seconds (time_sub (er_Deadline er) now)
             in if rem > 0 then pol\<lparr>ep_TTLSeconds := rem\<rparr> else pol))"

section \<open>Break-glass\<close>

fun mint :: "go_time \<Rightarrow> (nat \<Rightarrow> bytes) \<Rightarrow> nat \<Rightarrow> string \<Rightarrow> duration \<Rightarrow> string list \<Rightarrow> Invites \<Rightarrow> Invites \<times> BreakGlassInvite list" where
  "mint now toks i room ttl [] ivs = (ivs, [])"
| "mint now toks i room ttl (name # names) ivs =
    (case Generate (toks i) now room ttl ivs of
       (ivs, token, _) \<Rightarrow>
        (case mint now toks (Suc i) room ttl names ivs of
           (ivs, is) \<Rightarrow> (ivs, \<lparr>bi_Name = name, bi_Token = token\<rparr> # is)))"

definition handleBreakGlass :: "Inputs \<Rightarrow> string \<Rightarrow> string \<Rightarrow> BreakGlass \<Rightarrow> Server \<Rightarrow> (Server \<times> effect list) option" where
  "handleBreakGlass inp fromRoom fromID bg s =
    (let ttl = ClampTTL (i64 (bg_TTLSeconds bg * second))
     in case Create (in_names inp) 0 (in_now inp) ttl fromID (s_ephemeral s) of
          None \<Rightarrow> None
        | Some (eph, room, _) \<Rightarrow>
           (let (ivs, hostToken, _) = Generate (in_tokens inp 0) (in_now inp) (er_Name room) ttl (s_invites s);
                invitees = (case bg_Invitees bg of None \<Rightarrow> [] | Some xs \<Rightarrow> xs);
                invitees = (if length invitees > MaxInvitees then take MaxInvitees invitees else invitees);
                (ivs, invites) = mint (in_now inp) (in_tokens inp) 1 (er_Name room) ttl invitees ivs;
                s = s\<lparr>s_ephemeral := eph, s_invites := ivs\<rparr>
            in Some (s, fst (SendTo fromRoom fromID (Encode OpBreakGlassResult (json_BreakGlassResult
                 \<lparr>br_Room = er_Name room, br_TTLSeconds = whole_seconds ttl, br_Expires = unix (er_Deadline room),
                  br_HostToken = hostToken, br_Invites = invites\<rparr>)) (s_hub s)))))"

section \<open>Relay\<close>

definition opaque_ops :: "string list" where
  "opaque_ops = [OpExecRequest, OpExecResult, OpAck, OpHandoff, OpRecordEntry, OpSealRequest, OpSealAck,
     OpRosterRequest, OpRosterAck, OpScuttleReceiptRequest, OpScuttleReceiptAck, OpActionRequest,
     OpActionApproval, OpActionVeto, OpArtifactProposal, OpArtifactApproval, OpArtifactRejection,
     OpStreamUpdate, OpStreamEnd]"

definition relay_message :: "string \<Rightarrow> string \<Rightarrow> Envelope \<Rightarrow> Server \<Rightarrow> Server \<times> effect list" where
  "relay_message room fromID env s =
    (case Decode decode_Message env of
       None \<Rightarrow> (s, [])
     | Some m \<Rightarrow>
        (let m = m\<lparr>ms_FromID := fromID\<rparr>;
             out = Encode OpMessage (json_Message m);
             es = Broadcast room fromID out (s_hub s)
         in case s_store s of
              Some st \<Rightarrow> (if PersistRoom (s_cfg s) room then (s\<lparr>s_store := Some (MAppend room out st)\<rparr>, es) else (s, es))
            | None \<Rightarrow> (s, es)))"

definition relay_opaque :: "string \<Rightarrow> string \<Rightarrow> Envelope \<Rightarrow> Server \<Rightarrow> Server \<times> effect list" where
  "relay_opaque room fromID env s =
    (case Decode decode_Message env of
       None \<Rightarrow> (s, [])
     | Some m \<Rightarrow> (s, Broadcast room fromID (Encode (ev_Type env) (json_Message (m\<lparr>ms_FromID := fromID\<rparr>))) (s_hub s)))"

definition relay_key :: "string \<Rightarrow> string \<Rightarrow> Envelope \<Rightarrow> Server \<Rightarrow> Server \<times> effect list" where
  "relay_key room fromID env s =
    (case Decode decode_KeyDeliver env of
       None \<Rightarrow> (s, [])
     | Some kd \<Rightarrow>
        (let kd = kd\<lparr>kd_FromID := fromID\<rparr>
         in (s, fst (SendTo room (kd_ToID kd) (Encode OpKeyDeliver (json_KeyDeliver kd)) (s_hub s)))))"

definition relay_control :: "go_time \<Rightarrow> string \<Rightarrow> string \<Rightarrow> Envelope \<Rightarrow> Server \<Rightarrow> Server \<times> effect list" where
  "relay_control now room fromID env s =
    (case Decode decode_Control env of
       None \<Rightarrow> (s, [])
     | Some ctrl \<Rightarrow>
        (let ctrl = ctrl\<lparr>ct_By := fromID\<rparr>
         in if ct_Action ctrl = ''scuttle'' then (s, snd (Scuttle room ''manual'' (s_hub s)))
            else if ct_Action ctrl = ''scuttle_arm'' then
              (let es = Broadcast room [] (Encode OpControl (json_Control ctrl)) (s_hub s)
               in case s_scuttle s of
                    Some sc \<Rightarrow> (s\<lparr>s_scuttle := Some (Arm now room (i64 (ct_TTLSeconds ctrl * second)) sc)\<rparr>, es)
                  | None \<Rightarrow> (s, es))
            else (s, Broadcast room fromID (Encode OpControl (json_Control ctrl)) (s_hub s))))"

definition relay_invite :: "Inputs \<Rightarrow> string \<Rightarrow> string \<Rightarrow> Server \<Rightarrow> Server \<times> effect list" where
  "relay_invite inp room fromID s =
    (let (ivs, token, exp) = Generate (in_tokens inp 0) (in_now inp) room inviteTTL (s_invites s);
         expUnix = (case exp of Some t \<Rightarrow> unix t | None \<Rightarrow> 0)
     in (s\<lparr>s_invites := ivs\<rparr>, fst (SendTo room fromID (Encode OpInviteResult (json_InviteResult
          \<lparr>iv_Room = room, iv_Token = token, iv_Expires = expUnix\<rparr>)) (s_hub s))))"

definition relay_offer :: "go_time \<Rightarrow> string \<Rightarrow> string \<Rightarrow> Envelope \<Rightarrow> Server \<Rightarrow> Server \<times> effect list" where
  "relay_offer now room fromID env s =
    (case Decode decode_FileOffer env of
       None \<Rightarrow> (s, [])
     | Some fo \<Rightarrow>
        (case tryStart now room (fo_TransferID fo) fromID (s_transfers s) of
           (tt, started) \<Rightarrow>
            (let s = s\<lparr>s_transfers := tt\<rparr>
             in if \<not> started then (s, fst (SendTo room fromID (Encode OpError (json_Error ''transfer_limit''
                    ''too many concurrent transfers in this room'')) (s_hub s)))
                else (s, Broadcast room fromID (Encode OpFileOffer (json_FileOffer
                    (fo\<lparr>fo_Sealed := (fo_Sealed fo)\<lparr>ms_FromID := fromID\<rparr>\<rparr>))) (s_hub s)))))"

definition relay_chunk :: "string \<Rightarrow> string \<Rightarrow> Envelope \<Rightarrow> Server \<Rightarrow> Server \<times> effect list" where
  "relay_chunk room fromID env s =
    (case Decode decode_FileChunk env of
       None \<Rightarrow> (s, [])
     | Some fc \<Rightarrow>
        (if go_len (fc_Data fc) > MaxChunkWire then
           (s, fst (SendTo room fromID (Encode OpError (json_Error ''chunk_too_large''
              ''artifact chunk exceeds the size limit'')) (s_hub s)))
         else
           (let es = Broadcast room fromID (Encode OpFileChunk (json_FileChunk fc)) (s_hub s)
            in if fc_Total fc > 0 \<and> fc_Index fc = fc_Total fc - 1
               then (s\<lparr>s_transfers := finish room (fc_TransferID fc) (s_transfers s)\<rparr>, es) else (s, es))))"

definition relay_ack :: "string \<Rightarrow> string \<Rightarrow> Envelope \<Rightarrow> Server \<Rightarrow> Server \<times> effect list" where
  "relay_ack room fromID env s =
    (case Decode decode_FileAck env of
       None \<Rightarrow> (s, [])
     | Some fa \<Rightarrow> (s, Broadcast room fromID (Encode OpFileAck (json_FileAck fa)) (s_hub s)))"

definition relay_abort :: "string \<Rightarrow> string \<Rightarrow> Envelope \<Rightarrow> Server \<Rightarrow> Server \<times> effect list" where
  "relay_abort room fromID env s =
    (case Decode decode_FileAbort env of
       None \<Rightarrow> (s, [])
     | Some fa \<Rightarrow> (s\<lparr>s_transfers := finish room (fb_TransferID fa) (s_transfers s)\<rparr>,
         Broadcast room fromID (Encode OpFileAbort (json_FileAbort fa)) (s_hub s)))"

definition relay :: "Inputs \<Rightarrow> string \<Rightarrow> string \<Rightarrow> Envelope \<Rightarrow> Server \<Rightarrow> (Server \<times> effect list) option" where
  "relay inp room fromID env s =
    (let s = s\<lparr>s_hub := Touch (in_now inp) room (s_hub s)\<rparr>
     in if ev_Type env = OpMessage then Some (relay_message room fromID env s)
        else if ev_Type env = OpKeyDeliver then Some (relay_key room fromID env s)
        else if ev_Type env = OpControl then Some (relay_control (in_now inp) room fromID env s)
        else if ev_Type env = OpInviteRequest then Some (relay_invite inp room fromID s)
        else if ev_Type env \<in> set opaque_ops then Some (relay_opaque room fromID env s)
        else if ev_Type env = OpFileOffer then Some (relay_offer (in_now inp) room fromID env s)
        else if ev_Type env = OpFileChunk then Some (relay_chunk room fromID env s)
        else if ev_Type env = OpFileAck then Some (relay_ack room fromID env s)
        else if ev_Type env = OpFileAbort then Some (relay_abort room fromID env s)
        else if ev_Type env = OpBreakGlass then
          (case Decode decode_BreakGlass env of
             None \<Rightarrow> Some (s, [])
           | Some bg \<Rightarrow> handleBreakGlass inp room fromID bg s)
        else Some (s, []))"

section \<open>The lifecycle of a connection\<close>

record session =
  se_room :: string
  se_id :: string
  se_owner :: bool
  se_conn :: conn

definition newID :: "bytes \<Rightarrow> string" where
  "newID b = hex_encode b"

text \<open>The checks before a connection is admitted: an error code, or the hello and the policy.\<close>

definition admit :: "go_time \<Rightarrow> Envelope \<Rightarrow> Server \<Rightarrow> Server \<times> (string + Hello \<times> effectivePolicy)" where
  "admit now first s =
    (if ev_Type first \<noteq> OpHello then (s, Inl ''expected_hello'')
     else case Decode decode_Hello first of
       None \<Rightarrow> (s, Inl ''bad_hello'')
     | Some hello \<Rightarrow>
        (if he_ProtocolVersion hello < MinVersion \<or> he_ProtocolVersion hello > Version then (s, Inl ''version_mismatch'')
         else if he_Room hello = [] then (s, Inl ''no_room'')
         else (let pol = roomPolicy now (he_Room hello) s
               in if ep_InviteOnly pol then
                    (let (ivs, redeemed) = (if he_InviteToken hello \<noteq> []
                           then Redeem now (he_InviteToken hello) (he_Room hello) (s_invites s)
                           else (s_invites s, False));
                         s = s\<lparr>s_invites := ivs\<rparr>
                     in if \<not> redeemed \<and> \<not> IsEmpty (he_Room hello) (s_hub s) then (s, Inl ''invite_required'')
                        else (s, Inr (hello, pol)))
                  else (s, Inr (hello, pol)))))"

definition member_of :: "string \<Rightarrow> conn \<Rightarrow> Hello \<Rightarrow> HubMember" where
  "member_of i c hello =
    \<lparr>hm_Info = \<lparr>mb_ID = i, mb_DisplayName = he_DisplayName hello, mb_IdentityKey = he_IdentityKey hello,
       mb_KXKey = he_KXKey hello, mb_Attestation = he_Attestation hello\<rparr>,
     hm_Send = Some c, hm_Close = Some c\<rparr>"

definition replay_history :: "conn \<Rightarrow> string \<Rightarrow> Server \<Rightarrow> effect list" where
  "replay_history c room s =
    (case s_store s of
       Some st \<Rightarrow> (if PersistRoom (s_cfg s) room
          then map (Send c) (MHistory room (pe_History (cf_Persistence (s_cfg s))) st) else [])
     | None \<Rightarrow> [])"

definition spawn_notice :: "go_time \<Rightarrow> conn \<Rightarrow> string \<Rightarrow> Server \<Rightarrow> effect list" where
  "spawn_notice now c room s =
    (case GetRoom room (s_ephemeral s) of
       Some er \<Rightarrow> (if er_Notice er \<noteq> [] then [Send c (Encode OpServerMessage (json_ServerMessage
          \<lparr>sm_Kind = ''alert'', sm_From = ''ingress'', sm_Text = er_Notice er, sm_At = unix now\<rparr>))] else [])
     | None \<Rightarrow> [])"

definition welcome_env :: "string \<Rightarrow> Hello \<Rightarrow> effectivePolicy \<Rightarrow> JoinResult \<Rightarrow> Envelope" where
  "welcome_env i hello pol res = Encode OpWelcome (json_Welcome
     \<lparr>we_ProtocolVersion = Version, we_YourID = i, we_Room = he_Room hello, we_Members = jr_Existing res,
      we_YouAreFirst = jr_YouAreFirst res,
      we_Policy = \<lparr>rp_InviteOnly = ep_InviteOnly pol, rp_Webhook = ep_Webhook pol, rp_TTLSeconds = ep_TTLSeconds pol\<rparr>\<rparr>)"

definition enter :: "go_time \<Rightarrow> bytes \<Rightarrow> conn \<Rightarrow> Hello \<times> effectivePolicy \<Rightarrow> Server \<Rightarrow> Server \<times> effect list \<times> session" where
  "enter now rid c hp s =
    (let (hello, pol) = hp;
         room = he_Room hello;
         i = newID rid;
         member = member_of i c hello;
         (h, res) = Join now room member (s_hub s);
         s = s\<lparr>s_hub := h\<rparr>;
         s = (case s_scuttle s of
                Some sc \<Rightarrow> (if jr_YouAreFirst res then s\<lparr>s_scuttle := Some (Start (scuttlePolicyOf (s_cfg s)) room sc)\<rparr> else s)
              | None \<Rightarrow> s)
     in (s,
         [Send c (welcome_env i hello pol res)]
         @ replay_history c room s
         @ spawn_notice now c room s
         @ Broadcast room i (Encode OpMemberJoined (json_MemberJoined (hm_Info member))) (s_hub s)
         @ (case jr_Distributor res of
              Some d \<Rightarrow> send_all [hm_Send d] (Encode OpKeyRequest (json_KeyRequest (hm_Info member)))
            | None \<Rightarrow> []),
         \<lparr>se_room = room, se_id = i, se_owner = jr_YouAreFirst res, se_conn = c\<rparr>))"

text \<open>One turn of the read loop: the parsed frame, and whether the limiter lets a message through.\<close>

definition on_frame :: "Inputs \<Rightarrow> bool \<Rightarrow> session \<Rightarrow> Envelope option \<Rightarrow> Server \<Rightarrow> (Server \<times> effect list) option" where
  "on_frame inp allow se frame s =
    (case frame of
       None \<Rightarrow> Some (s, [])
     | Some env \<Rightarrow>
        (if ev_Type env = OpMessage \<and> \<not> allow
         then Some (s, [Send (se_conn se) (Encode OpError (json_Error ''rate_limited'' ''slow down''))])
         else relay inp (se_room se) (se_id se) env s))"

definition depart :: "session \<Rightarrow> Server \<Rightarrow> Server \<times> effect list" where
  "depart se s =
    (let room = se_room se; i = se_id se;
         (h, empty) = Leave room i (s_hub s);
         s = s\<lparr>s_hub := h\<rparr>;
         es = Broadcast room i (Encode OpMemberLeft (json_MemberLeft i)) (s_hub s);
         (tt, tids) = abortBy room i (s_transfers s);
         s = s\<lparr>s_transfers := tt\<rparr>;
         es = es @ concat (map (\<lambda>tid. Broadcast room i (Encode OpFileAbort (json_FileAbort
                \<lparr>fb_TransferID = tid, fb_Reason = ''sender disconnected''\<rparr>)) (s_hub s)) tids)
     in case s_scuttle s of
          None \<Rightarrow> (s, es)
        | Some sc \<Rightarrow>
           (if empty then (s\<lparr>s_scuttle := Some (Stop room sc)\<rparr>, es)
            else if se_owner se then
              (case OwnerLeft Scuttle (scuttlePolicyOf (s_cfg s)) room (s_hub s) of
                 (h, es') \<Rightarrow> (s\<lparr>s_hub := h\<rparr>, es @ es'))
            else (s, es)))"

section \<open>What is sent, and to whom\<close>

text \<open>
  Every frame the relay forwards for a member carries that member's id wherever the payload
  has a sender; the other frames are the scuttle notice, payloads without a sender field, and
  the server's own answers.
\<close>

definition frame_from :: "string \<Rightarrow> Envelope \<Rightarrow> bool" where
  "frame_from i env \<longleftrightarrow>
    (if ev_Type env \<in> set (OpMessage # opaque_ops) then \<exists>m. env = Encode (ev_Type env) (json_Message m) \<and> ms_FromID m = i
     else if ev_Type env = OpKeyDeliver then \<exists>k. env = Encode OpKeyDeliver (json_KeyDeliver k) \<and> kd_FromID k = i
     else if ev_Type env = OpControl then env = scuttle_notice ''manual'' \<or>
       (\<exists>c. env = Encode OpControl (json_Control c) \<and> ct_By c = i)
     else if ev_Type env = OpFileOffer then \<exists>f. env = Encode OpFileOffer (json_FileOffer f) \<and> ms_FromID (fo_Sealed f) = i
     else ev_Type env \<in> {OpFileChunk, OpFileAck, OpFileAbort, OpError, OpInviteResult, OpBreakGlassResult})"

text \<open>The only frames a member's own frame can send back to it.\<close>

definition reply_op :: "Envelope \<Rightarrow> bool" where
  "reply_op env \<longleftrightarrow> ev_Type env \<in> {OpControl, OpKeyDeliver, OpError, OpInviteResult, OpBreakGlassResult}"

definition relayed :: "Hub \<Rightarrow> string \<Rightarrow> string \<Rightarrow> effect \<Rightarrow> bool" where
  "relayed h room i e =
    (case e of
       Send c env \<Rightarrow> frame_from i env \<and> (\<exists>m \<in> set (roster h room). hm_Send m = Some c \<and> (member_id m = i \<longrightarrow> reply_op env))
     | AfterExpire d r txt \<Rightarrow> r = room
     | _ \<Rightarrow> False)"

lemma ev_Type_Encode [simp]: "ev_Type (Encode op j) = op"
  by (simp add: Encode_def)

lemma Broadcast_effect:
  assumes "hub_ok h" "e \<in> set (Broadcast room x env h)"
  shows "\<exists>m \<in> set (roster h room). member_id m \<noteq> x \<and> hm_Send m \<noteq> None \<and> e = Send (the (hm_Send m)) env"
proof -
  have "e \<in> set_mset (mset (Broadcast room x env h))" using assms(2) by simp
  then show ?thesis unfolding Broadcast_mset [OF assms(1)] using roster_wired [OF assms(1)] by auto
qed

lemma SendTo_effect:
  assumes "hub_ok h" "e \<in> set (fst (SendTo room i env h))"
  shows "\<exists>m \<in> set (roster h room). member_id m = i \<and> hm_Send m \<noteq> None \<and> e = Send (the (hm_Send m)) env"
  using assms roster_wired [OF assms(1)]
  by (auto simp: SendTo_roster find_Some_iff in_set_conv_nth split: option.splits) (metis nth_mem)+

lemma Scuttle_effect:
  assumes "hub_ok h" "e \<in> set (snd (Scuttle room reason h))"
  shows "e = AfterExpire scuttleCloseGrace room scuttleAttestation \<or>
    (\<exists>m \<in> set (roster h room). hm_Send m \<noteq> None \<and> e = Send (the (hm_Send m)) (scuttle_notice reason))"
proof (cases "mget (hub_rooms h) room")
  case (Some r)
  have "snd p \<in> set (roster h room)" if "p \<in> set (rr_members r)" for p
    using members_of_roster [OF assms(1) Some] that by auto
  with assms(2) Some show ?thesis by (auto simp: Scuttle_def opt_send_def split: option.splits) (metis option.distinct(1) option.sel)
qed (use assms in \<open>simp add: Scuttle_def\<close>)

lemma relayed_Broadcast:
  assumes "hub_ok h" "frame_from i env" "x = i \<or> reply_op env"
  shows "list_all (relayed h room i) (Broadcast room x env h)"
  unfolding list_all_iff using Broadcast_effect [OF assms(1)] assms(2,3) by (fastforce simp: relayed_def)

lemma relayed_SendTo:
  assumes "hub_ok h" "frame_from i env" "reply_op env"
  shows "list_all (relayed h room i) (fst (SendTo room x env h))"
  unfolding list_all_iff using SendTo_effect [OF assms(1)] assms(2,3) by (fastforce simp: relayed_def)

definition message_ops :: "string list" where
  "message_ops = OpMessage # opaque_ops"

lemma op_groups:
  "OpKeyDeliver \<notin> set message_ops" "OpControl \<notin> set message_ops" "OpFileOffer \<notin> set message_ops"
  "OpControl \<noteq> OpKeyDeliver" "OpFileOffer \<noteq> OpKeyDeliver" "OpFileOffer \<noteq> OpControl"
  by (simp_all add: message_ops_def opaque_ops_def opcodes)

lemma op_groups_plain:
  assumes "op \<in> {OpFileChunk, OpFileAck, OpFileAbort, OpError, OpInviteResult, OpBreakGlassResult}"
  shows "op \<notin> set message_ops" "op \<noteq> OpKeyDeliver" "op \<noteq> OpControl" "op \<noteq> OpFileOffer"
  using assms by (auto simp: message_ops_def opaque_ops_def opcodes)

lemma frame_from_message:
  "op \<in> set message_ops \<Longrightarrow> ms_FromID m = i \<Longrightarrow> frame_from i (Encode op (json_Message m))"
  unfolding frame_from_def message_ops_def [symmetric] by (auto simp del: set_simps)

lemma frame_from_key: "kd_FromID k = i \<Longrightarrow> frame_from i (Encode OpKeyDeliver (json_KeyDeliver k))"
  unfolding frame_from_def message_ops_def [symmetric] by (auto simp: op_groups)

lemma frame_from_control: "ct_By c = i \<Longrightarrow> frame_from i (Encode OpControl (json_Control c))"
  unfolding frame_from_def message_ops_def [symmetric] by (auto simp: op_groups)

lemma frame_from_scuttle: "frame_from i (scuttle_notice ''manual'')"
  unfolding frame_from_def message_ops_def [symmetric] by (simp add: op_groups scuttle_notice_def)

lemma frame_from_offer: "ms_FromID (fo_Sealed f) = i \<Longrightarrow> frame_from i (Encode OpFileOffer (json_FileOffer f))"
  unfolding frame_from_def message_ops_def [symmetric] by (auto simp: op_groups)

lemma frame_from_plain:
  "op \<in> {OpFileChunk, OpFileAck, OpFileAbort, OpError, OpInviteResult, OpBreakGlassResult} \<Longrightarrow> frame_from i (Encode op j)"
  unfolding frame_from_def message_ops_def [symmetric] by (simp only: ev_Type_Encode op_groups_plain if_False)

lemma frame_from_plains:
  "frame_from i (Encode OpFileChunk j)" "frame_from i (Encode OpFileAck j)" "frame_from i (Encode OpFileAbort j)"
  "frame_from i (Encode OpError j)" "frame_from i (Encode OpInviteResult j)" "frame_from i (Encode OpBreakGlassResult j)"
  by (simp_all add: frame_from_plain)

lemmas frame_from_Encode = frame_from_message frame_from_key frame_from_control frame_from_scuttle frame_from_offer
  frame_from_plains

lemma reply_op_Encode [simp]:
  "reply_op (Encode OpKeyDeliver j)" "reply_op (Encode OpControl j)" "reply_op (Encode OpError j)"
  "reply_op (Encode OpInviteResult j)" "reply_op (Encode OpBreakGlassResult j)" "reply_op (scuttle_notice r)"
  by (simp_all add: reply_op_def scuttle_notice_def)

lemma relayed_Scuttle:
  assumes "hub_ok h"
  shows "list_all (relayed h room i) (snd (Scuttle room ''manual'' h))"
proof -
  have "relayed h room i e" if e: "e \<in> set (snd (Scuttle room ''manual'' h))" for e
    using Scuttle_effect [OF assms e] by (auto simp: relayed_def frame_from_scuttle)
  then show ?thesis by (simp add: list_all_iff)
qed

lemmas relayed_rules = relayed_Broadcast relayed_SendTo relayed_Scuttle frame_from_Encode

lemma message_ops_mem: "OpMessage \<in> set message_ops" "op \<in> set opaque_ops \<Longrightarrow> op \<in> set message_ops"
  by (simp_all add: message_ops_def)

text \<open>Every branch of the relay.\<close>

lemma relayed_branches:
  assumes "hub_ok (s_hub s)"
  shows "list_all (relayed (s_hub s) room i) (snd (relay_message room i env s))"
    "list_all (relayed (s_hub s) room i) (snd (relay_key room i env s))"
    "list_all (relayed (s_hub s) room i) (snd (relay_control now room i env s))"
    "list_all (relayed (s_hub s) room i) (snd (relay_invite inp room i s))"
    "ev_Type env \<in> set opaque_ops \<Longrightarrow> list_all (relayed (s_hub s) room i) (snd (relay_opaque room i env s))"
    "list_all (relayed (s_hub s) room i) (snd (relay_offer now room i env s))"
    "list_all (relayed (s_hub s) room i) (snd (relay_chunk room i env s))"
    "list_all (relayed (s_hub s) room i) (snd (relay_ack room i env s))"
    "list_all (relayed (s_hub s) room i) (snd (relay_abort room i env s))"
  using assms
  by (auto simp: relay_message_def relay_key_def relay_control_def relay_invite_def relay_opaque_def relay_offer_def
      relay_chunk_def relay_ack_def relay_abort_def Let_def message_ops_mem
      intro!: relayed_rules split: option.splits prod.splits)

lemma relayed_breakglass:
  assumes "hub_ok (s_hub s)" "handleBreakGlass inp room i bg s = Some (s', es)"
  shows "list_all (relayed (s_hub s) room i) es"
  using assms by (auto simp: handleBreakGlass_def Let_def intro!: relayed_rules split: option.splits prod.splits)

section \<open>Invariant\<close>

definition server_ok :: "Server \<Rightarrow> bool" where
  "server_ok s \<longleftrightarrow> hub_ok (s_hub s) \<and> hub_cfg (s_hub s) = s_cfg s \<and> invites_ok (s_invites s) \<and>
     registry_ok (s_ephemeral s) \<and> tracker_ok (s_transfers s) \<and> beacons_ok (s_beacons s) \<and>
     (\<forall>sc. s_scuttle s = Some sc \<longrightarrow> mgr_ok (scuttlePolicyOf (s_cfg s)) sc) \<and>
     (\<forall>c. length (queue c s) \<le> sendBuffer) \<and> \<not> s_panicked s"

lemma Generate_ok: "invites_ok ivs \<Longrightarrow> invites_ok (fst (Generate r now room ttl ivs))"
  using invite_step_ok [of ivs now "IGenerate r room ttl"] by simp

lemma Redeem_ok: "invites_ok ivs \<Longrightarrow> invites_ok (fst (Redeem now tok room ivs))"
  using invite_step_ok [of ivs now "IRedeem tok room"] by simp

lemma mint_ok: "invites_ok ivs \<Longrightarrow> invites_ok (fst (mint now toks i room ttl names ivs))"
  by (induction names arbitrary: i ivs) (auto dest: Generate_ok simp: split_beta)

lemma roster_Touch [simp]: "roster (Touch now n h) = roster h"
  by (auto simp: roster_def Touch_def in_order_def fun_eq_iff split: option.splits)

lemma server_ok_simps [simp]:
  "queue c (s\<lparr>s_hub := h\<rparr>) = queue c s" "queue c (s\<lparr>s_invites := ivs\<rparr>) = queue c s"
  "queue c (s\<lparr>s_ephemeral := r\<rparr>) = queue c s" "queue c (s\<lparr>s_scuttle := m\<rparr>) = queue c s"
  "queue c (s\<lparr>s_transfers := t\<rparr>) = queue c s" "queue c (s\<lparr>s_store := st\<rparr>) = queue c s"
  "queue c (s\<lparr>s_closed := cs\<rparr>) = queue c s" "queue c (s\<lparr>s_beacons := b\<rparr>) = queue c s"
  "queue c (s\<lparr>s_grace := g\<rparr>) = queue c s"
  by (simp_all add: queue_def)

lemma server_ok_Touch: "server_ok s \<Longrightarrow> server_ok (s\<lparr>s_hub := Touch now n (s_hub s)\<rparr>)"
  by (simp add: server_ok_def hub_ok_Touch)

text \<open>A branch keeps the hub and the invariant.\<close>

definition keeps :: "Server \<Rightarrow> Server \<Rightarrow> bool" where
  "keeps s s' \<longleftrightarrow> s_hub s' = s_hub s \<and> s_cfg s' = s_cfg s \<and> s_out s' = s_out s \<and> (server_ok s \<longrightarrow> server_ok s')"

lemma branches_keep:
  "keeps s (fst (relay_message room i env s))" "keeps s (fst (relay_key room i env s))"
  "keeps s (fst (relay_control now room i env s))" "keeps s (fst (relay_invite inp room i s))"
  "keeps s (fst (relay_opaque room i env s))" "keeps s (fst (relay_offer now room i env s))"
  "keeps s (fst (relay_chunk room i env s))" "keeps s (fst (relay_ack room i env s))"
  "keeps s (fst (relay_abort room i env s))"
  using tracker_ok_start [of "s_transfers s" now room] tracker_ok_finish [of "s_transfers s" room] mgr_ok_Arm
    Generate_ok [of "s_invites s" "in_tokens inp 0" "in_now inp" room inviteTTL]
  by (auto simp: keeps_def relay_message_def relay_key_def relay_control_def relay_invite_def relay_opaque_def
      relay_offer_def relay_chunk_def relay_ack_def relay_abort_def server_ok_def Let_def split_beta split: option.splits)

lemma breakglass_keeps:
  assumes "handleBreakGlass inp room i bg s = Some (s', es)"
  shows "keeps s s'"
proof -
  let ?ttl = "ClampTTL (i64 (bg_TTLSeconds bg * second))"
  from assms obtain eph er j ivs where c: "Create (in_names inp) 0 (in_now inp) ?ttl i (s_ephemeral s) = Some (eph, er, j)"
      "s' = s\<lparr>s_ephemeral := eph, s_invites := ivs\<rparr>" and ivs: "invites_ok (s_invites s) \<Longrightarrow> invites_ok ivs"
    using Generate_ok mint_ok by (auto simp: handleBreakGlass_def Let_def split_beta split: option.splits)
  have "registry_ok (s_ephemeral s) \<Longrightarrow> registry_ok eph"
    using registry_ok_CreateNamed c(1) unfolding Create_def by blast
  with ivs show ?thesis by (auto simp: keeps_def server_ok_def c(2))
qed

lemma relayed_Touch [simp]: "relayed (Touch now n h) = relayed h"
  by (auto simp: relayed_def fun_eq_iff split: effect.splits)

text \<open>One case per branch of the dispatch.\<close>

lemma relay_elim:
  assumes "relay inp room i env s = Some r"
    and "\<And>t. t = s\<lparr>s_hub := Touch (in_now inp) room (s_hub s)\<rparr> \<Longrightarrow>
      P (relay_message room i env t) \<and> P (relay_key room i env t) \<and> P (relay_control (in_now inp) room i env t) \<and>
      P (relay_invite inp room i t) \<and> P (relay_offer (in_now inp) room i env t) \<and> P (relay_chunk room i env t) \<and>
      P (relay_ack room i env t) \<and> P (relay_abort room i env t) \<and> P (t, [])"
    and "ev_Type env \<in> set opaque_ops \<Longrightarrow> P (relay_opaque room i env (s\<lparr>s_hub := Touch (in_now inp) room (s_hub s)\<rparr>))"
    and "\<And>bg r. handleBreakGlass inp room i bg (s\<lparr>s_hub := Touch (in_now inp) room (s_hub s)\<rparr>) = Some r \<Longrightarrow> P r"
  shows "P r"
proof -
  define t where "t = s\<lparr>s_hub := Touch (in_now inp) room (s_hub s)\<rparr>"
  note b = assms(2) [OF t_def] and o = assms(3) [folded t_def] and bg = assms(4) [folded t_def]
  have "(if ev_Type env = OpMessage then Some (relay_message room i env t)
        else if ev_Type env = OpKeyDeliver then Some (relay_key room i env t)
        else if ev_Type env = OpControl then Some (relay_control (in_now inp) room i env t)
        else if ev_Type env = OpInviteRequest then Some (relay_invite inp room i t)
        else if ev_Type env \<in> set opaque_ops then Some (relay_opaque room i env t)
        else if ev_Type env = OpFileOffer then Some (relay_offer (in_now inp) room i env t)
        else if ev_Type env = OpFileChunk then Some (relay_chunk room i env t)
        else if ev_Type env = OpFileAck then Some (relay_ack room i env t)
        else if ev_Type env = OpFileAbort then Some (relay_abort room i env t)
        else if ev_Type env = OpBreakGlass then
          (case Decode decode_BreakGlass env of None \<Rightarrow> Some (t, []) | Some bg \<Rightarrow> handleBreakGlass inp room i bg t)
        else Some (t, [])) = Some r"
    using assms(1) unfolding relay_def Let_def t_def .
  then show ?thesis using b o bg by (auto simp del: split_paired_All split: if_splits option.splits)
qed

lemma relay_sound:
  assumes "server_ok s" "relay inp room i env s = Some (s', es)"
  shows "list_all (relayed (s_hub s) room i) es \<and> s_hub s' = Touch (in_now inp) room (s_hub s) \<and>
    s_cfg s' = s_cfg s \<and> s_out s' = s_out s \<and> server_ok s'"
proof -
  let ?t = "s\<lparr>s_hub := Touch (in_now inp) room (s_hub s)\<rparr>"
  have ok: "server_ok ?t" using assms(1) by (rule server_ok_Touch)
  then have h: "hub_ok (s_hub ?t)" by (simp add: server_ok_def)
  define P where "P = (\<lambda>r. list_all (relayed (s_hub ?t) room i) (snd r) \<and> keeps ?t (fst r))"
  have "P (s', es)"
  proof (rule relay_elim [OF assms(2)])
    fix bg r
    assume "handleBreakGlass inp room i bg ?t = Some r"
    then show "P r" using relayed_breakglass [OF h] breakglass_keeps unfolding P_def by (cases r) auto
  next
    fix t
    assume "t = ?t"
    then show "P (relay_message room i env t) \<and> P (relay_key room i env t) \<and> P (relay_control (in_now inp) room i env t) \<and>
      P (relay_invite inp room i t) \<and> P (relay_offer (in_now inp) room i env t) \<and> P (relay_chunk room i env t) \<and>
      P (relay_ack room i env t) \<and> P (relay_abort room i env t) \<and> P (t, [])"
      using relayed_branches [OF h] branches_keep [of ?t] unfolding P_def by (auto simp: keeps_def)
  qed (use relayed_branches(5) [OF h] branches_keep(5) [of ?t] in \<open>auto simp: P_def\<close>)
  then have "list_all (relayed (s_hub ?t) room i) es \<and> keeps ?t s'" by (simp add: P_def)
  then show ?thesis using ok by (simp add: keeps_def)
qed

section \<open>Properties of the relay\<close>


definition sample_server :: Server where
  "sample_server = (NewServer Default False None)\<lparr>s_hub := sample_hub\<rparr>"

lemma sample_server_ok: "server_ok sample_server"
  using sample_hub_ok invites_ok_new registry_ok_new tracker_ok_new
  by (simp add: server_ok_def sample_server_def NewServer_def queue_def beacons_ok_def NewBeacons_def)
    (simp add: sample_hub_def)




section \<open>Admission\<close>

lemma admit_same:
  "s_hub (fst (admit now first s)) = s_hub s" "s_cfg (fst (admit now first s)) = s_cfg s"
  "s_ephemeral (fst (admit now first s)) = s_ephemeral s" "s_out (fst (admit now first s)) = s_out s"
  by (auto simp: admit_def Let_def split_beta split: option.splits)

lemma admit_ok: "server_ok s \<Longrightarrow> server_ok (fst (admit now first s))"
  using Redeem_ok by (auto simp: admit_def Let_def split_beta server_ok_def split: option.splits)

text \<open>The hello a frame carries, when it is acceptable at all.\<close>

definition hello_of :: "Envelope \<Rightarrow> Hello option" where
  "hello_of first = (if ev_Type first \<noteq> OpHello then None else
     case Decode decode_Hello first of None \<Rightarrow> None
     | Some h \<Rightarrow> if he_ProtocolVersion h < 2 \<or> he_ProtocolVersion h > 3 \<or> he_Room h = [] then None else Some h)"

lemma admit_hello:
  assumes "hello_of first = Some hello"
  shows "admit now first s =
    (let pol = roomPolicy now (he_Room hello) s
     in if ep_InviteOnly pol then
          (let (ivs, redeemed) = (if he_InviteToken hello \<noteq> []
                 then Redeem now (he_InviteToken hello) (he_Room hello) (s_invites s) else (s_invites s, False));
               s = s\<lparr>s_invites := ivs\<rparr>
           in if \<not> redeemed \<and> \<not> IsEmpty (he_Room hello) (s_hub s) then (s, Inl ''invite_required'')
              else (s, Inr (hello, pol)))
        else (s, Inr (hello, pol)))"
  using assms by (auto simp: hello_of_def admit_def MinVersion_def Version_def split: if_splits option.splits)

text \<open>Claim C3. Admission is fail-closed and spends tokens exactly: a connection is admitted exactly when
  its first frame is a well-formed hello of a supported version naming a room, and the
  room is open, or it is empty, or the hello carries a token that is live for this room.
  A spent token is gone; a refused hello costs nobody a live token, touches no room and
  no queue; and a war room is always invite-only and never a webhook target, whatever the
  static configuration of its name says.\<close>

theorem admit_exact:
  assumes "server_ok s"
  shows "(snd (admit now first s) \<in> range Inr \<longleftrightarrow>
      (\<exists>hello. hello_of first = Some hello \<and>
        (\<not> ep_InviteOnly (roomPolicy now (he_Room hello) s) \<or> roster (s_hub s) (he_Room hello) = [] \<or>
         he_InviteToken hello \<noteq> [] \<and> live_tokens now (s_invites s) (he_InviteToken hello) = Some (he_Room hello)))) \<and>
    (snd (admit now first s) \<in> range Inl \<longrightarrow>
      live_tokens now (s_invites (fst (admit now first s))) = live_tokens now (s_invites s)) \<and>
    (\<forall>hello pol. snd (admit now first s) = Inr (hello, pol) \<longrightarrow> hello_of first = Some hello \<and>
       pol = roomPolicy now (he_Room hello) s \<and>
       (ep_InviteOnly pol \<and> roster (s_hub s) (he_Room hello) \<noteq> [] \<longrightarrow>
         live_tokens now (s_invites (fst (admit now first s))) = (live_tokens now (s_invites s))(he_InviteToken hello := None))) \<and>
    s_hub (fst (admit now first s)) = s_hub s \<and> s_out (fst (admit now first s)) = s_out s \<and>
    (GetRoom room (s_ephemeral s) \<noteq> None \<longrightarrow>
      ep_InviteOnly (roomPolicy now room s) \<and> \<not> ep_Webhook (roomPolicy now room s))"
proof (cases "hello_of first")
  case None
  then have "snd (admit now first s) \<in> range Inl" "fst (admit now first s) = s"
    by (auto simp: hello_of_def admit_def MinVersion_def Version_def split: if_splits option.splits)
  then show ?thesis using None by (auto simp: roomPolicy_def Let_def split: option.splits)
next
  case (Some hello)
  let ?r = "Redeem now (he_InviteToken hello) (he_Room hello) (s_invites s)"
  have ivs: "invites_ok (s_invites s)" and hub: "hub_ok (s_hub s)" using assms by (simp_all add: server_ok_def)
  have live: "live_tokens now (fst ?r) = (if snd ?r then (live_tokens now (s_invites s))(he_InviteToken hello := None)
      else live_tokens now (s_invites s))"
    and res: "snd ?r \<longleftrightarrow> live_tokens now (s_invites s) (he_InviteToken hello) = Some (he_Room hello)"
    using Redeem_live [OF ivs] Redeem_result by auto
  have empty: "IsEmpty (he_Room hello) (s_hub s) \<longleftrightarrow> roster (s_hub s) (he_Room hello) = []" by (rule IsEmpty_roster [OF hub])
  have pol: "GetRoom room (s_ephemeral s) \<noteq> None \<longrightarrow>
      ep_InviteOnly (roomPolicy now room s) \<and> \<not> ep_Webhook (roomPolicy now room s)"
    by (auto simp: roomPolicy_def Let_def split: option.splits)
  show ?thesis using live res empty pol Some
    by (cases "snd ?r") (auto simp: admit_hello [OF Some] Let_def split_beta split: if_splits)
qed

definition guarded_config :: Config where
  "guarded_config = Default\<lparr>cf_Rooms := [(''ops'', zero_room\<lparr>rm_InviteOnly := True\<rparr>)]\<rparr>"

definition guarded_server :: Server where
  "guarded_server = (NewServer guarded_config False None)\<lparr>s_hub := sample_hub\<lparr>hub_cfg := guarded_config\<rparr>,
     s_invites := \<lparr>tokens = [(''t'', \<lparr>ie_room = ''ops'', ie_expires = Some 20\<rparr>)]\<rparr>\<rparr>"

lemma guarded_server_ok: "server_ok guarded_server"
proof -
  have "hub_ok (sample_hub\<lparr>hub_cfg := guarded_config\<rparr>)" using sample_hub_ok by (simp add: hub_ok_def)
  then show ?thesis using registry_ok_new tracker_ok_new
    by (simp add: server_ok_def guarded_server_def NewServer_def queue_def beacons_ok_def NewBeacons_def invites_ok_def)
qed

definition sample_hello :: "string \<Rightarrow> Envelope" where
  "sample_hello token = Encode OpHello (JObj [(''protocol_version'', JInt 3), (''room'', JStr ''ops''), (''name'', JStr ''c''),
     (''invite_token'', JStr token)])"

lemma sample_hello_of: "hello_of (sample_hello token) = Some \<lparr>he_ProtocolVersion = 3, he_Room = ''ops'', he_DisplayName = ''c'',
    he_IdentityKey = None, he_KXKey = None, he_InviteToken = token, he_Attestation = None\<rparr>"
proof -
  have "int64 3" by (simp add: int64_def)
  then have "decode_Hello (JObj [(''protocol_version'', JInt 3), (''room'', JStr ''ops''), (''name'', JStr ''c''),
      (''invite_token'', JStr token)]) = Some \<lparr>he_ProtocolVersion = 3, he_Room = ''ops'', he_DisplayName = ''c'',
    he_IdentityKey = None, he_KXKey = None, he_InviteToken = token, he_Attestation = None\<rparr>"
    unfolding decode_Hello_def by (simp add: codec)
  then show ?thesis by (simp add: hello_of_def sample_hello_def Decode_def) (simp add: Encode_def)
qed

theorem admit_exact_witness:
  "snd (admit 9 (sample_hello ''t'') guarded_server) \<in> range Inr \<and> snd (admit 9 (sample_hello ''x'') guarded_server) \<notin> range Inr"
proof -
  have p: "ep_InviteOnly (roomPolicy 9 ''ops'' guarded_server)"
    by (simp add: roomPolicy_def guarded_server_def NewServer_def NewRegistry_def GetRoom_def Room_def guarded_config_def Let_def)
  have r: "roster (s_hub guarded_server) ''ops'' \<noteq> []"
    using sample_hub_roster [of "''ops''"] by (simp add: roster_def guarded_server_def)
  have l: "live_tokens 9 (s_invites guarded_server) ''t'' = Some ''ops''" "live_tokens 9 (s_invites guarded_server) ''x'' = None"
    by (simp_all add: live_tokens_def guarded_server_def expired_def)
  show ?thesis
    using admit_exact [OF guarded_server_ok, of 9 "sample_hello ''t''"] admit_exact [OF guarded_server_ok, of 9 "sample_hello ''x''"]
      p r l by (simp add: sample_hello_of)
qed

section \<open>Break-glass\<close>

lemma mint_spec:
  assumes "ttl > 0"
  shows "map bi_Name (snd (mint now toks i room ttl names ivs)) = names \<and>
    map bi_Token (snd (mint now toks i room ttl names ivs)) = map (\<lambda>k. rawurl_encode (toks (i + k))) [0..<length names] \<and>
    tokens (fst (mint now toks i room ttl names ivs)) = fold (\<lambda>t. mput t \<lparr>ie_room = room, ie_expires = Some (now + ttl)\<rparr>)
      (map (\<lambda>k. rawurl_encode (toks (i + k))) [0..<length names]) (tokens ivs)"
  using assms
proof (induction names arbitrary: i ivs)
  case (Cons n names)
  have shift: "map (\<lambda>k. rawurl_encode (toks (i + k))) [0..<length (n # names)] =
      rawurl_encode (toks i) # map (\<lambda>k. rawurl_encode (toks (Suc i + k))) [0..<length names]"
    by (simp add: upt_conv_Cons map_Suc_upt [symmetric] comp_def del: upt_Suc)
  show ?case unfolding shift using Cons.IH [of "Suc i" "fst (Generate (toks i) now room ttl ivs)"] Cons.prems
    by (simp add: split_beta Generate_def Let_def)
qed simp

lemma invites_zip: "xs = map2 (\<lambda>n t. \<lparr>bi_Name = n, bi_Token = t\<rparr>) (map bi_Name xs) (map bi_Token xs)"
  by (induction xs) auto

lemma mget_fold_mput: "mget (fold (\<lambda>t. mput t v) ts m) k = (if k \<in> set ts then Some v else mget m k)"
  by (induction ts arbitrary: m) auto

text \<open>Breaking the glass stands up a private room: the handler files a new war room that did
  not exist, invite-only, with a deadline between one minute and seven days away; answers
  the requester alone with a host token and one token per invitee, at most 64; every one
  of those tokens admits to the new room and to no other, and dies with the room at its
  deadline; and no other token changes.\<close>

theorem handleBreakGlass_spec:
  assumes "server_ok s" "handleBreakGlass inp room i bg s = Some (s', es)"
    and "invitees = take 64 (case bg_Invitees bg of None \<Rightarrow> [] | Some xs \<Rightarrow> xs)"
    and "toks = map (\<lambda>k. rawurl_encode (in_tokens inp k)) [0..<Suc (length invitees)]"
  shows "\<exists>er. GetRoom (er_Name er) (s_ephemeral s) = None \<and> GetRoom (er_Name er) (s_ephemeral s') = Some er \<and>
    ep_InviteOnly (roomPolicy now (er_Name er) s') \<and>
    in_now inp + MinTTL \<le> er_Deadline er \<and> er_Deadline er \<le> in_now inp + MaxTTL \<and>
    (\<forall>t \<in> set toks. live_tokens now (s_invites s') t = (if now > er_Deadline er then None else Some (er_Name er))) \<and>
    (\<forall>t. t \<notin> set toks \<longrightarrow> live_tokens now (s_invites s') t = live_tokens now (s_invites s) t) \<and>
    es = fst (SendTo room i (Encode OpBreakGlassResult (json_BreakGlassResult
      \<lparr>br_Room = er_Name er, br_TTLSeconds = whole_seconds (er_Deadline er - in_now inp), br_Expires = unix (er_Deadline er),
       br_HostToken = hd toks, br_Invites = map2 (\<lambda>n t. \<lparr>bi_Name = n, bi_Token = t\<rparr>) invitees (tl toks)\<rparr>)) (s_hub s)) \<and>
    length invitees \<le> 64 \<and> server_ok s'"
proof -
  let ?ttl = "ClampTTL (i64 (bg_TTLSeconds bg * second))" and ?now = "in_now inp"
  have ttl: "?ttl > 0" using ClampTTL_range [of "i64 (bg_TTLSeconds bg * second)"]
    by (simp add: MinTTL_def minute_def second_def)
  from assms(2) obtain eph er j where c: "Create (in_names inp) 0 ?now ?ttl i (s_ephemeral s) = Some (eph, er, j)"
    by (auto simp: handleBreakGlass_def Let_def split: option.splits)
  note er = CreateNamed_spec [OF c [unfolded Create_def]]
  have cl: "ClampTTL ?ttl = ?ttl" using ClampTTL_id ClampTTL_range by blast
  have inv: "(let xs = case bg_Invitees bg of None \<Rightarrow> [] | Some xs \<Rightarrow> xs in if length xs > MaxInvitees then take MaxInvitees xs else xs) = invitees"
    using assms(3) by (simp add: MaxInvitees_def Let_def)
  have toks: "toks = rawurl_encode (in_tokens inp 0) # map (\<lambda>k. rawurl_encode (in_tokens inp (1 + k))) [0..<length invitees]"
    unfolding assms(4) by (simp add: upt_conv_Cons map_Suc_upt [symmetric] comp_def del: upt_Suc)
  let ?m = "mint ?now (in_tokens inp) 1 (er_Name er) ?ttl invitees (fst (Generate (in_tokens inp 0) ?now (er_Name er) ?ttl (s_invites s)))"
  have h: "handleBreakGlass inp room i bg s = Some (s\<lparr>s_ephemeral := eph, s_invites := fst ?m\<rparr>,
      fst (SendTo room i (Encode OpBreakGlassResult (json_BreakGlassResult
        \<lparr>br_Room = er_Name er, br_TTLSeconds = whole_seconds ?ttl, br_Expires = unix (er_Deadline er),
         br_HostToken = rawurl_encode (in_tokens inp 0), br_Invites = snd ?m\<rparr>)) (s_hub s)))"
    unfolding handleBreakGlass_def Let_def c inv [symmetric] by (simp add: split_beta Let_def Generate_def)
  then have s': "s' = s\<lparr>s_ephemeral := eph, s_invites := fst ?m\<rparr>" and es: "es = fst (SendTo room i (Encode OpBreakGlassResult (json_BreakGlassResult
        \<lparr>br_Room = er_Name er, br_TTLSeconds = whole_seconds ?ttl, br_Expires = unix (er_Deadline er),
         br_HostToken = rawurl_encode (in_tokens inp 0), br_Invites = snd ?m\<rparr>)) (s_hub s))" using assms(2) by simp_all
  note m = mint_spec [OF ttl, of ?now "in_tokens inp" 1 "er_Name er" invitees "fst (Generate (in_tokens inp 0) ?now (er_Name er) ?ttl (s_invites s))"]
  have get: "mget (tokens (fst ?m)) t = (if t \<in> set toks then Some \<lparr>ie_room = er_Name er, ie_expires = Some (er_Deadline er)\<rparr>
      else mget (tokens (s_invites s)) t)" for t
    using m er ttl by (simp add: mget_fold_mput toks cl Generate_def Let_def)
  have bi: "snd ?m = map2 (\<lambda>n t. \<lparr>bi_Name = n, bi_Token = t\<rparr>) invitees (tl toks)"
    using m invites_zip [of "snd ?m"] by (simp add: toks)
  have "server_ok s'" using breakglass_keeps [OF assms(2)] assms(1) by (simp add: keeps_def)
  moreover have "ep_InviteOnly (roomPolicy now (er_Name er) s')"
    using er by (simp add: roomPolicy_def s' GetRoom_def Let_def)
  moreover have "live_tokens now (s_invites s') t = (if t \<in> set toks then if now > er_Deadline er then None else Some (er_Name er)
      else live_tokens now (s_invites s) t)" for t
    using get [of t] by (simp add: live_tokens_def s' expired_def)
  moreover have "er_Deadline er - ?now = ?ttl" using er cl by simp
  moreover have "hd toks = rawurl_encode (in_tokens inp 0)" by (simp add: toks)
  ultimately show ?thesis using er cl es bi ClampTTL_range [of "i64 (bg_TTLSeconds bg * second)"] assms(3)
    by (intro exI [of _ er]) (simp add: GetRoom_def s')
qed

definition sample_inputs :: Inputs where
  "sample_inputs = \<lparr>in_now = 9, in_names = (\<lambda>_. [CHR 0x3F, CHR 0x9A, CHR 0x2B, CHR 0x71]), in_tokens = (\<lambda>k. [char_of k])\<rparr>"

theorem handleBreakGlass_spec_witness:
  "\<exists>er s' es. handleBreakGlass sample_inputs ''ops'' ''a'' \<lparr>bg_Invitees = Some [''x''], bg_TTLSeconds = 60\<rparr> sample_server = Some (s', es) \<and>
     GetRoom (er_Name er) (s_ephemeral s') = Some er \<and> ep_InviteOnly (roomPolicy 9 (er_Name er) s') \<and>
     live_tokens 9 (s_invites s') (rawurl_encode (in_tokens sample_inputs 0)) = Some (er_Name er)"
proof -
  let ?bg = "\<lparr>bg_Invitees = Some [''x''], bg_TTLSeconds = 60\<rparr>"
  have "handleBreakGlass sample_inputs ''ops'' ''a'' ?bg sample_server \<noteq> None"
    by (simp add: handleBreakGlass_def Create_def CreateNamed_def Let_def split_beta fresh_name.simps
        sample_server_def NewServer_def NewRegistry_def)
  then obtain s' es where h: "handleBreakGlass sample_inputs ''ops'' ''a'' ?bg sample_server = Some (s', es)" by auto
  have tok: "rawurl_encode (in_tokens sample_inputs 0) \<in> set (map (\<lambda>k. rawurl_encode (in_tokens sample_inputs k)) [0..<Suc (length [''x''])])"
    by (simp add: upt_conv_Cons del: upt_Suc)
  obtain er where er: "GetRoom (er_Name er) (s_ephemeral s') = Some er" "ep_InviteOnly (roomPolicy 9 (er_Name er) s')"
      "in_now sample_inputs + MinTTL \<le> er_Deadline er"
      "\<forall>t \<in> set (map (\<lambda>k. rawurl_encode (in_tokens sample_inputs k)) [0..<Suc (length [''x''])]).
        live_tokens 9 (s_invites s') t = (if 9 > er_Deadline er then None else Some (er_Name er))"
    using handleBreakGlass_spec [OF sample_server_ok h, of "[''x'']" _ 9] by auto
  then have "\<not> 9 > er_Deadline er" by (simp add: sample_inputs_def MinTTL_def minute_def second_def)
  then show ?thesis using er h tok by (metis (no_types, lifting))
qed

section \<open>Arrival and departure\<close>

lemma enter_hub: "s_hub (fst (enter now rid c (hello, pol) s)) = fst (Join now (he_Room hello) (member_of (newID rid) c hello) (s_hub s))"
  by (auto simp: enter_def Let_def split_beta split: option.splits)

lemma member_of_simps [simp]: "member_id (member_of i c hello) = i" "hm_Send (member_of i c hello) = Some c"
  by (simp_all add: member_of_def)

lemma enter_ok:
  assumes "server_ok s" "newID rid \<notin> set (map member_id (roster (s_hub s) (he_Room hello)))"
  shows "server_ok (fst (enter now rid c (hello, pol) s))"
proof -
  have "hub_ok (fst (Join now (he_Room hello) (member_of (newID rid) c hello) (s_hub s)))"
    using assms by (intro hub_ok_Join) (simp_all add: server_ok_def)
  then show ?thesis using assms(1) mgr_ok_Start
    by (auto simp: server_ok_def enter_def Let_def split_beta split: option.splits)
qed

lemma enter_effects:
  assumes "server_ok s" "newID rid \<notin> set (map member_id (roster (s_hub s) (he_Room hello)))"
    and "enter now rid c (hello, pol) s = (s', es, se)"
  shows "\<exists>own. es = Send c (welcome_env (newID rid) hello pol \<lparr>jr_Existing = map hm_Info (roster (s_hub s) (he_Room hello)),
        jr_YouAreFirst = (roster (s_hub s) (he_Room hello) = []),
        jr_Distributor = (case roster (s_hub s) (he_Room hello) of [] \<Rightarrow> None | d # _ \<Rightarrow> Some d)\<rparr>) # own
      @ Broadcast (he_Room hello) (newID rid) (Encode OpMemberJoined (json_MemberJoined (hm_Info (member_of (newID rid) c hello)))) (s_hub s')
      @ (case roster (s_hub s) (he_Room hello) of [] \<Rightarrow> []
         | d # _ \<Rightarrow> [Send (the (hm_Send d)) (Encode OpKeyRequest (json_KeyRequest (hm_Info (member_of (newID rid) c hello))))]) \<and>
    (\<forall>e \<in> set own. \<exists>env. e = Send c env)"
proof -
  have hub: "hub_ok (s_hub s)" using assms(1) by (simp add: server_ok_def)
  let ?own = "replay_history c (he_Room hello) s' @ spawn_notice now c (he_Room hello) s'"
  have d: "send_all [hm_Send d] env = [Send (the (hm_Send d)) env]" if "roster (s_hub s) (he_Room hello) = d # ds" for d ds env
    using roster_wired [OF hub, of d "he_Room hello"] that by (cases "hm_Send d") auto
  have "\<forall>e \<in> set ?own. \<exists>env. e = Send c env"
    by (auto simp: replay_history_def spawn_notice_def split: option.splits if_splits)
  moreover have "es = Send c (welcome_env (newID rid) hello pol (snd (Join now (he_Room hello) (member_of (newID rid) c hello) (s_hub s)))) # ?own
      @ Broadcast (he_Room hello) (newID rid) (Encode OpMemberJoined (json_MemberJoined (hm_Info (member_of (newID rid) c hello)))) (s_hub s')
      @ (case jr_Distributor (snd (Join now (he_Room hello) (member_of (newID rid) c hello) (s_hub s))) of
           Some d \<Rightarrow> send_all [hm_Send d] (Encode OpKeyRequest (json_KeyRequest (hm_Info (member_of (newID rid) c hello)))) | None \<Rightarrow> [])"
    using assms(3) by (auto simp: enter_def Let_def split_beta split: option.splits)
  ultimately show ?thesis using d
    by (intro exI [of _ ?own]) (auto simp: Join_result [OF hub] split: list.splits)
qed

text \<open>A newcomer joins consistently: it is appended to the room, is told the members who were
  there before it, in join order, and its own id; every earlier member, and nobody else,
  learns of it exactly once; and exactly one of them, the oldest, is asked to wrap the
  room key for it, unless the newcomer founded the room.\<close>

theorem enter_spec:
  assumes "server_ok s" "newID rid \<notin> set (map member_id (roster (s_hub s) (he_Room hello)))"
    and "enter now rid c (hello, pol) s = (s', es, se)" "olds = roster (s_hub s) (he_Room hello)"
    and "me = member_of (newID rid) c hello"
  shows "\<exists>own joined. es = Send c (welcome_env (newID rid) hello pol \<lparr>jr_Existing = map hm_Info olds, jr_YouAreFirst = (olds = []),
        jr_Distributor = (case olds of [] \<Rightarrow> None | d # _ \<Rightarrow> Some d)\<rparr>) # own @ joined @
      (case olds of [] \<Rightarrow> [] | d # _ \<Rightarrow> [Send (the (hm_Send d)) (Encode OpKeyRequest (json_KeyRequest (hm_Info me)))]) \<and>
    (\<forall>e \<in> set own. \<exists>env. e = Send c env) \<and>
    mset joined = image_mset (\<lambda>m. Send (the (hm_Send m)) (Encode OpMemberJoined (json_MemberJoined (hm_Info me)))) (mset olds) \<and>
    roster (s_hub s') = (roster (s_hub s))(he_Room hello := olds @ [me]) \<and>
    se = \<lparr>se_room = he_Room hello, se_id = newID rid, se_owner = (olds = []), se_conn = c\<rparr> \<and> server_ok s'"
proof -
  have hub: "hub_ok (s_hub s)" using assms(1) by (simp add: server_ok_def)
  have s': "s' = fst (enter now rid c (hello, pol) s)" by (simp add: assms(3))
  have ok: "server_ok s'" unfolding s' by (rule enter_ok [OF assms(1,2)])
  have r: "roster (s_hub s') = (roster (s_hub s))(he_Room hello := olds @ [me])"
    unfolding s' enter_hub using roster_Join [OF hub, of me "he_Room hello" now] assms(2,4,5) by (auto simp: fun_eq_iff)
  have "filter_mset (\<lambda>m. member_id m \<noteq> newID rid) (mset (olds @ [me])) = mset olds"
    using assms(2,4,5) by (auto simp: filter_mset_eq_conv) (metis image_eqI)
  then have "mset (Broadcast (he_Room hello) (newID rid) env (s_hub s')) = image_mset (\<lambda>m. Send (the (hm_Send m)) env) (mset olds)" for env
    using Broadcast_mset [of "s_hub s'"] ok r by (simp add: server_ok_def)
  moreover have "se = \<lparr>se_room = he_Room hello, se_id = newID rid, se_owner = (olds = []), se_conn = c\<rparr>"
    using assms(3,4) Join_first [OF hub] by (auto simp: enter_def Let_def split_beta)
  ultimately show ?thesis using enter_effects [OF assms(1-3)] r ok assms(4,5) by blast
qed

theorem enter_spec_witness:
  "\<exists>s' es se. enter 9 [CHR 0xAB] 7 (the (hello_of (sample_hello [])), roomPolicy 9 ''ops'' sample_server) sample_server = (s', es, se) \<and>
     \<not> se_owner se \<and> map member_id (roster (s_hub s') ''ops'') = [''a'', ''b'', ''ab'']"
proof -
  let ?hello = "the (hello_of (sample_hello []))"
  have hello: "he_Room ?hello = ''ops''" by (simp add: sample_hello_of)
  have r: "roster (s_hub sample_server) ''ops'' = [sample_member ''a'' 1, sample_member ''b'' 2]"
    by (simp add: sample_server_def sample_hub_roster)
  have i: "newID [CHR 0xAB] = ''ab''" unfolding newID_def by code_simp
  obtain s' es se where e: "enter 9 [CHR 0xAB] 7 (?hello, roomPolicy 9 ''ops'' sample_server) sample_server = (s', es, se)"
    by (rule prod_cases3)
  have f: "newID [CHR 0xAB] \<notin> set (map member_id (roster (s_hub sample_server) (he_Room ?hello)))"
    unfolding hello r i by (simp add: sample_member_def)
  show ?thesis using enter_spec [OF sample_server_ok f e refl refl] e hello r i
    by (auto simp: sample_member_def member_of_def)
qed

text \<open>The payload that ends a transfer whose sender is gone.\<close>

definition sender_gone :: "string \<Rightarrow> Envelope" where
  "sender_gone tid = Encode OpFileAbort (json_FileAbort \<lparr>fb_TransferID = tid, fb_Reason = ''sender disconnected''\<rparr>)"

lemma depart_eq:
  "depart se s =
    (let h = fst (Leave (se_room se) (se_id se) (s_hub s));
         es = Broadcast (se_room se) (se_id se) (Encode OpMemberLeft (json_MemberLeft (se_id se))) h
           @ concat (map (\<lambda>tid. Broadcast (se_room se) (se_id se) (sender_gone tid) h) (snd (abortBy (se_room se) (se_id se) (s_transfers s))));
         t = s\<lparr>s_hub := h, s_transfers := fst (abortBy (se_room se) (se_id se) (s_transfers s))\<rparr>
     in case s_scuttle s of
          None \<Rightarrow> (t, es)
        | Some sc \<Rightarrow>
           (if snd (Leave (se_room se) (se_id se) (s_hub s)) then (t\<lparr>s_scuttle := Some (Stop (se_room se) sc)\<rparr>, es)
            else if se_owner se \<and> po_OwnerLossBurn (scuttlePolicyOf (s_cfg s) (se_room se))
            then (t, es @ snd (Scuttle (se_room se) ''owner_loss'' h)) else (t, es)))"
  by (simp add: depart_def Let_def split_beta sender_gone_def OwnerLeft_def split: option.splits)

lemma depart_ok: "server_ok s \<Longrightarrow> server_ok (fst (depart se s))"
  using hub_ok_Leave [of "s_hub s"] tracker_ok_abort [of "s_transfers s"] mgr_ok_stop_timer mgr_ok_stop_janitor
  by (auto simp: depart_eq Let_def server_ok_def Stop_def split: option.splits)

text \<open>A departure is complete: exactly that member is removed from its room; each remaining
  member is told once that it left, and that every transfer it had in flight there, and no
  other, is over; those transfers hold no slot any more; the room's janitor and countdown
  stop exactly when the room is empty; and if the founder leaves others behind in a room
  that burns on owner loss, the room is burnt.\<close>

theorem depart_spec:
  assumes "server_ok s" "depart se s = (s', es)" "room = se_room se" "i = se_id se"
    and "rest = filter (\<lambda>m. member_id m \<noteq> i) (roster (s_hub s) room)"
  shows "roster (s_hub s') = (roster (s_hub s))(room := rest) \<and>
    (\<exists>left aborts burn. es = left @ aborts @ burn \<and>
      mset left = image_mset (\<lambda>m. Send (the (hm_Send m)) (Encode OpMemberLeft (json_MemberLeft i))) (mset rest) \<and>
      (\<forall>e. e \<in> set aborts \<longleftrightarrow> (\<exists>m \<in> set rest. \<exists>tid x. mget (in_flight (s_transfers s) room) tid = Some x \<and> xf_owner x = i \<and>
          e = Send (the (hm_Send m)) (sender_gone tid))) \<and>
      burn = (if s_scuttle s \<noteq> None \<and> rest \<noteq> [] \<and> se_owner se \<and> po_OwnerLossBurn (scuttlePolicyOf (s_cfg s) room)
              then snd (Scuttle room ''owner_loss'' (s_hub s')) else [])) \<and>
    (\<forall>tid x. mget (in_flight (s_transfers s') room) tid = Some x \<longrightarrow> xf_owner x \<noteq> i) \<and>
    s_scuttle s' = (if rest = [] then map_option (Stop room) (s_scuttle s) else s_scuttle s) \<and> server_ok s'"
proof -
  have hub: "hub_ok (s_hub s)" and tr: "tracker_ok (s_transfers s)" using assms(1) by (simp_all add: server_ok_def)
  let ?h = "fst (Leave room i (s_hub s))" and ?ab = "abortBy room i (s_transfers s)"
  let ?left = "Broadcast room i (Encode OpMemberLeft (json_MemberLeft i)) ?h"
    and ?ab_es = "concat (map (\<lambda>tid. Broadcast room i (sender_gone tid) ?h) (snd ?ab))"
  have r: "roster ?h = (roster (s_hub s))(room := rest)" "snd (Leave room i (s_hub s)) \<longleftrightarrow> rest = []"
    using roster_Leave [OF hub] assms(5) by (auto simp: fun_eq_iff)
  have b: "mset (Broadcast room i env ?h) = image_mset (\<lambda>m. Send (the (hm_Send m)) env) (mset rest)" for env
    using Broadcast_mset [OF hub_ok_Leave [OF hub], of room i env room i] assms(5) by (simp add: r filter_filter_mset)
  have mem: "e \<in> set (Broadcast room i env ?h) \<longleftrightarrow> (\<exists>m \<in> set rest. e = Send (the (hm_Send m)) env)" for e env
    using mset_eq_setD [of "Broadcast room i env ?h" "map (\<lambda>m. Send (the (hm_Send m)) env) rest"] b by (auto simp: image_iff)
  have ab: "e \<in> set ?ab_es \<longleftrightarrow> (\<exists>m \<in> set rest. \<exists>tid x. mget (in_flight (s_transfers s) room) tid = Some x \<and> xf_owner x = i \<and>
      e = Send (the (hm_Send m)) (sender_gone tid))" for e
  proof -
    have k: "tid \<in> set (snd ?ab) \<longleftrightarrow> (\<exists>x. mget (in_flight (s_transfers s) room) tid = Some x \<and> xf_owner x = i)" for tid
      using abortBy_facts [OF tr, of room i] by blast
    have "e \<in> set ?ab_es \<longleftrightarrow> (\<exists>tid \<in> set (snd ?ab). e \<in> set (Broadcast room i (sender_gone tid) ?h))" by auto
    then show ?thesis unfolding mem Bex_def k by blast
  qed
  have fl: "mget (in_flight (fst ?ab) room) tid = Some x \<longrightarrow> xf_owner x \<noteq> i" for tid x
    using abortBy_facts [OF tr, of room i] by (metis option.distinct(1))
  have s': "s_hub s' = ?h" "s_transfers s' = fst ?ab" "s_scuttle s' = (if rest = [] then map_option (Stop room) (s_scuttle s) else s_scuttle s)"
    "es = ?left @ ?ab_es @ (if s_scuttle s \<noteq> None \<and> rest \<noteq> [] \<and> se_owner se \<and> po_OwnerLossBurn (scuttlePolicyOf (s_cfg s) room)
              then snd (Scuttle room ''owner_loss'' ?h) else [])"
    using assms(2) r(2) unfolding depart_eq assms(3,4) [symmetric] Let_def by (auto split: option.splits if_splits)
  have "server_ok s'" using depart_ok [OF assms(1), of se] assms(2) by simp
  moreover have "\<exists>left aborts burn. es = left @ aborts @ burn \<and>
      mset left = image_mset (\<lambda>m. Send (the (hm_Send m)) (Encode OpMemberLeft (json_MemberLeft i))) (mset rest) \<and>
      (\<forall>e. e \<in> set aborts \<longleftrightarrow> (\<exists>m \<in> set rest. \<exists>tid x. mget (in_flight (s_transfers s) room) tid = Some x \<and> xf_owner x = i \<and>
          e = Send (the (hm_Send m)) (sender_gone tid))) \<and>
      burn = (if s_scuttle s \<noteq> None \<and> rest \<noteq> [] \<and> se_owner se \<and> po_OwnerLossBurn (scuttlePolicyOf (s_cfg s) room)
              then snd (Scuttle room ''owner_loss'' (s_hub s')) else [])"
    using s'(4) b ab unfolding s'(1) by blast
  ultimately show ?thesis using r(1) fl s'(1-3) by simp
qed

theorem depart_spec_witness:
  "\<exists>s' es. depart \<lparr>se_room = ''ops'', se_id = ''a'', se_owner = True, se_conn = 1\<rparr> sample_server = (s', es) \<and>
     roster (s_hub s') ''ops'' = [sample_member ''b'' 2] \<and> server_ok s'"
proof -
  let ?se = "\<lparr>se_room = ''ops'', se_id = ''a'', se_owner = True, se_conn = 1\<rparr>"
  obtain s' es where d: "depart ?se sample_server = (s', es)" by fastforce
  have "filter (\<lambda>m. member_id m \<noteq> ''a'') (roster (s_hub sample_server) ''ops'') = [sample_member ''b'' 2]"
    by (simp add: sample_server_def sample_hub_roster) (simp add: sample_member_def)
  then show ?thesis using depart_spec [OF sample_server_ok d refl refl refl] d by simp
qed

end
