(* ===== verification/RecordChain.thy ===== *)
theory RecordChain
  imports Prelude Signing Encoding Wire
begin

text \<open>
  The record chain, \<^verbatim>\<open>src/tui/record/record.go\<close> and \<^verbatim>\<open>artifact.go\<close>: entries, their canonical
  bytes and hashes, verification of one entry, and the append-only chain each client keeps.

  SHA-256, Ed25519 verification, the SSH fingerprint of a key and the lexer that turns JSON
  text into a document (with the printers that go the other way) and RFC 3339 times are
  library code; they are the fields of \<open>Prims\<close>, an argument of every definition that uses them. An \<open>int64\<close> timestamp is kept as its 64 bits, an error as
  a constructor per message, a nil slice as the empty one (no code here tells them apart).
\<close>

section \<open>Library functions\<close>

record Prims =
  pr_sha256 :: "bytes \<Rightarrow> bytes"
  pr_verify :: "bytes \<Rightarrow> bytes \<Rightarrow> bytes \<Rightarrow> bool"   \<comment> \<open>public key, message, signature\<close>
  pr_fingerprint :: "bytes \<Rightarrow> string"
  pr_json :: "string \<Rightarrow> json option"
  pr_scan :: "string \<Rightarrow> (json \<times> string) option"   \<comment> \<open>the first document of a text, and the rest\<close>
  pr_marshal :: "json \<Rightarrow> string"
  pr_indent :: "json \<Rightarrow> string"
  pr_parse_time :: "string \<Rightarrow> int option"   \<comment> \<open>RFC 3339, as an instant; the zero time is 0\<close>
  pr_format_time :: "int \<Rightarrow> string"

text \<open>\<open>ed25519.PublicKeySize\<close> and \<open>sha256.Size\<close>.\<close>

definition PublicKeySize :: nat where "PublicKeySize = 32"
definition sha256_Size :: nat where "sha256_Size = 32"

definition Fingerprint :: "Prims \<Rightarrow> bytes \<Rightarrow> string" where
  "Fingerprint c pub = pr_fingerprint c pub"

section \<open>Entries\<close>

definition KindDecision :: string where "KindDecision = ''decision''"
definition KindAction :: string where "KindAction = ''action''"
definition KindNote :: string where "KindNote = ''note''"
definition KindArtifact :: string where "KindArtifact = ''artifact''"
definition KindTyped :: string where "KindTyped = ''typed''"

record Link =
  ln_Hash :: string
  ln_Relation :: string

record Entry =
  en_Seq :: "64 word"
  en_TS :: "64 word"
  en_AuthorID :: string
  en_AuthorName :: string
  en_AuthorKey :: bytes
  en_Kind :: string
  en_Actionee :: string
  en_Body :: string
  en_PrevHash :: bytes
  en_Sig :: bytes
  en_Schema :: string
  en_SchemaVer :: string
  en_Links :: "Link list"
  en_Replayed :: bool

definition extended :: "Entry \<Rightarrow> bool" where
  "extended e \<longleftrightarrow> en_Kind e = KindTyped \<or> en_Schema e \<noteq> [] \<or> en_SchemaVer e \<noteq> [] \<or> length (en_Links e) > 0"

definition splitLinks :: "Link list \<Rightarrow> string list \<times> string list" where
  "splitLinks links = (map ln_Hash links, map ln_Relation links)"

text \<open>The parallel slices always have the same length, so the v2 layout never panics.\<close>

definition canonical :: "Entry \<Rightarrow> bytes" where
  "canonical e =
    (if \<not> extended e then
       RecordSigningBytes (en_Seq e) (en_TS e) (en_AuthorID e) (en_Kind e) (en_Actionee e) (en_Body e) (en_PrevHash e)
     else
       (let (hashes, rels) = splitLinks (en_Links e)
        in the (RecordSigningBytesV2 (en_Seq e) (en_TS e) (en_AuthorID e) (en_Kind e) (en_Actionee e) (en_Body e)
             (en_Schema e) (en_SchemaVer e) hashes rels (en_PrevHash e))))"

definition Hash :: "Prims \<Rightarrow> Entry \<Rightarrow> bytes" where
  "Hash c e = pr_sha256 c (canonical e)"

definition zeroHash :: bytes where
  "zeroHash = replicate 32 (CHR 0x00)"

datatype entry_error =
    BadKeySize "64 word" nat
  | KeyMismatch "64 word" string string
  | SchemaOnBuiltin "64 word" string
  | TypedWithoutSchema "64 word"
  | UnknownKind "64 word" string
  | EmptyLinkHash "64 word" nat
  | BadPrevHash "64 word" nat
  | BadEntrySig "64 word" string

fun emptyLink :: "nat \<Rightarrow> Link list \<Rightarrow> nat option" where
  "emptyLink i [] = None"
| "emptyLink i (l # ls) = (if ln_Hash l = [] then Some i else emptyLink (Suc i) ls)"

definition kindError :: "Entry \<Rightarrow> entry_error option" where
  "kindError e =
    (if en_Kind e \<in> {KindDecision, KindAction, KindNote, KindArtifact} then
       (if en_Schema e \<noteq> [] \<or> en_SchemaVer e \<noteq> [] then Some (SchemaOnBuiltin (en_Seq e) (en_Kind e)) else None)
     else if en_Kind e = KindTyped then
       (if en_Schema e = [] then Some (TypedWithoutSchema (en_Seq e)) else None)
     else Some (UnknownKind (en_Seq e) (en_Kind e)))"

definition VerifyEntry :: "Prims \<Rightarrow> Entry \<Rightarrow> entry_error option" where
  "VerifyEntry c e =
    (if length (en_AuthorKey e) \<noteq> PublicKeySize then Some (BadKeySize (en_Seq e) (length (en_AuthorKey e)))
     else if pr_fingerprint c (en_AuthorKey e) \<noteq> en_AuthorID e
       then Some (KeyMismatch (en_Seq e) (pr_fingerprint c (en_AuthorKey e)) (en_AuthorID e))
     else case kindError e of
       Some err \<Rightarrow> Some err
     | None \<Rightarrow>
        (case emptyLink 0 (en_Links e) of
           Some i \<Rightarrow> Some (EmptyLinkHash (en_Seq e) i)
         | None \<Rightarrow>
            (if length (en_PrevHash e) \<noteq> sha256_Size then Some (BadPrevHash (en_Seq e) (length (en_PrevHash e)))
             else if \<not> pr_verify c (en_AuthorKey e) (canonical e) (en_Sig e) then Some (BadEntrySig (en_Seq e) (en_AuthorID e))
             else None)))"

section \<open>Chains\<close>

record Author =
  au_ID :: string
  au_Name :: string
  au_Key :: bytes
  au_Sign :: "bytes \<Rightarrow> bytes option"

type_synonym Chain = "Entry list"

definition headOf :: "Prims \<Rightarrow> Entry list \<Rightarrow> bytes" where
  "headOf c entries = (if entries = [] then zeroHash else Hash c (last entries))"

record EntrySpec =
  es_Kind :: string
  es_Actionee :: string
  es_Body :: string
  es_Schema :: string
  es_SchemaVer :: string
  es_Links :: "Link list"

definition newEntry :: "Prims \<Rightarrow> 64 word \<Rightarrow> Author \<Rightarrow> EntrySpec \<Rightarrow> Chain \<Rightarrow> Entry" where
  "newEntry c ts a spec ch =
    \<lparr>en_Seq = word_of_nat (length ch), en_TS = ts, en_AuthorID = au_ID a, en_AuthorName = au_Name a,
     en_AuthorKey = au_Key a, en_Kind = es_Kind spec, en_Actionee = es_Actionee spec, en_Body = es_Body spec,
     en_PrevHash = headOf c ch, en_Sig = [], en_Schema = es_Schema spec, en_SchemaVer = es_SchemaVer spec,
     en_Links = es_Links spec, en_Replayed = False\<rparr>"

definition Append :: "Prims \<Rightarrow> 64 word \<Rightarrow> Author \<Rightarrow> EntrySpec \<Rightarrow> Chain \<Rightarrow> (Chain \<times> Entry) option" where
  "Append c ts a spec ch =
    (let e = newEntry c ts a spec ch
     in case au_Sign a (canonical e) of
          None \<Rightarrow> None
        | Some sig \<Rightarrow> (let e = e\<lparr>en_Sig := sig\<rparr> in Some (ch @ [e], e)))"

definition AppendNew :: "Prims \<Rightarrow> 64 word \<Rightarrow> Author \<Rightarrow> string \<Rightarrow> string \<Rightarrow> string \<Rightarrow> Chain \<Rightarrow> (Chain \<times> Entry) option" where
  "AppendNew c ts a k actionee body ch =
    Append c ts a \<lparr>es_Kind = k, es_Actionee = actionee, es_Body = body, es_Schema = [], es_SchemaVer = [], es_Links = []\<rparr> ch"

datatype chain_error = EntryInvalid entry_error | OutOfOrder "64 word" nat | ChainFork

definition AppendRemote :: "Prims \<Rightarrow> Entry \<Rightarrow> Chain \<Rightarrow> chain_error + Chain" where
  "AppendRemote c e ch =
    (case VerifyEntry c e of
       Some err \<Rightarrow> Inl (EntryInvalid err)
     | None \<Rightarrow>
        (if en_Seq e \<noteq> word_of_nat (length ch) then Inl (OutOfOrder (en_Seq e) (length ch))
         else if en_PrevHash e \<noteq> headOf c ch then Inl ChainFork
         else Inr (ch @ [e])))"

section \<open>Artifact bodies\<close>

record ArtifactMeta =
  am_Source :: string
  am_ArtifactRef :: string
  am_ArtifactHash :: string
  am_ApproverFpr :: string
  am_ProposedAt :: string
  am_ApprovedAt :: string
  am_ProposalID :: string
  am_Nonce :: string
  am_ProposerFpr :: string

definition zero_ArtifactMeta :: ArtifactMeta where
  "zero_ArtifactMeta = \<lparr>am_Source = [], am_ArtifactRef = [], am_ArtifactHash = [], am_ApproverFpr = [], am_ProposedAt = [],
     am_ApprovedAt = [], am_ProposalID = [], am_Nonce = [], am_ProposerFpr = []\<rparr>"

definition decode_ArtifactMeta :: "json \<Rightarrow> ArtifactMeta option" where
  "decode_ArtifactMeta = decode_struct
     [(''source'', str_field (\<lambda>x s. s\<lparr>am_Source := x\<rparr>)),
      (''artifact_ref'', str_field (\<lambda>x s. s\<lparr>am_ArtifactRef := x\<rparr>)),
      (''artifact_hash'', str_field (\<lambda>x s. s\<lparr>am_ArtifactHash := x\<rparr>)),
      (''approver_fpr'', str_field (\<lambda>x s. s\<lparr>am_ApproverFpr := x\<rparr>)),
      (''proposed_at'', str_field (\<lambda>x s. s\<lparr>am_ProposedAt := x\<rparr>)),
      (''approved_at'', str_field (\<lambda>x s. s\<lparr>am_ApprovedAt := x\<rparr>)),
      (''proposal_id'', str_field (\<lambda>x s. s\<lparr>am_ProposalID := x\<rparr>)),
      (''nonce'', str_field (\<lambda>x s. s\<lparr>am_Nonce := x\<rparr>)),
      (''proposer_fpr'', str_field (\<lambda>x s. s\<lparr>am_ProposerFpr := x\<rparr>))]
     zero_ArtifactMeta"

definition ParseArtifactBody :: "Prims \<Rightarrow> string \<Rightarrow> ArtifactMeta option" where
  "ParseArtifactBody c body = (case pr_json c body of None \<Rightarrow> None | Some j \<Rightarrow> decode_ArtifactMeta j)"

definition ArtifactOf :: "Prims \<Rightarrow> Entry \<Rightarrow> ArtifactMeta option" where
  "ArtifactOf c e = (if en_Kind e \<noteq> KindArtifact then None else ParseArtifactBody c (en_Body e))"

definition shortHash :: "string \<Rightarrow> nat \<Rightarrow> string" where
  "shortHash h n = (if length h \<le> n then h else take n h)"

section \<open>What a chain commits to\<close>

text \<open>The statement an entry's signature makes, and the sizes a Go value has.\<close>

definition entry_statement :: "Entry \<Rightarrow> statement" where
  "entry_statement e =
    (if \<not> extended e then RecordV1 (en_Seq e) (en_TS e) (en_AuthorID e) (en_Kind e) (en_Actionee e) (en_Body e) (en_PrevHash e)
     else RecordV2 (en_Seq e) (en_TS e) (en_AuthorID e) (en_Kind e) (en_Actionee e) (en_Body e) (en_Schema e) (en_SchemaVer e)
       (map ln_Hash (en_Links e)) (map ln_Relation (en_Links e)) (en_PrevHash e))"

abbreviation entry_sized :: "Entry \<Rightarrow> bool" where
  "entry_sized e \<equiv> sized (entry_statement e)"

text \<open>Seq is the index, and the previous hash links to the entry before.\<close>

fun linked_from :: "Prims \<Rightarrow> nat \<Rightarrow> bytes \<Rightarrow> Entry list \<Rightarrow> bool" where
  "linked_from c i prev [] = True"
| "linked_from c i prev (e # es) \<longleftrightarrow>
    en_Seq e = word_of_nat i \<and> en_PrevHash e = prev \<and> linked_from c (Suc i) (Hash c e) es"

definition linked :: "Prims \<Rightarrow> Chain \<Rightarrow> bool" where
  "linked c ch = linked_from c 0 zeroHash ch"

definition chain_ok :: "Prims \<Rightarrow> Chain \<Rightarrow> bool" where
  "chain_ok c ch \<longleftrightarrow> linked c ch \<and> (\<forall>e \<in> set ch. VerifyEntry c e = None)"

lemma canonical_preimage: "entry_sized e \<Longrightarrow> preimage (entry_statement e) = Some (canonical e)"
  using preimage_tag [of "entry_statement e"]
  by (auto simp: entry_statement_def canonical_def splitLinks_def split: if_splits)

lemma canonical_inj: "entry_sized e \<Longrightarrow> entry_sized f \<Longrightarrow> canonical e = canonical f \<Longrightarrow> entry_statement e = entry_statement f"
  using preimage_inj canonical_preimage by metis

lemma statement_fields:
  "entry_statement e = entry_statement f \<Longrightarrow> en_Seq e = en_Seq f \<and> en_PrevHash e = en_PrevHash f"
  by (auto simp: entry_statement_def split: if_splits)

lemma linked_from_snoc:
  "linked_from c i prev (es @ [e]) \<longleftrightarrow> linked_from c i prev es \<and> en_Seq e = word_of_nat (i + length es) \<and>
    en_PrevHash e = (if es = [] then prev else Hash c (last es))"
  by (induction c i prev es rule: linked_from.induct) (auto simp: last_append)

lemma linked_snoc: "linked c (ch @ [e]) \<longleftrightarrow> linked c ch \<and> en_Seq e = word_of_nat (length ch) \<and> en_PrevHash e = headOf c ch"
  by (auto simp: linked_def linked_from_snoc headOf_def)

text \<open>Two entries of the chains, or an entry and the root, that SHA-256 does not tell apart.\<close>

definition hash_clash :: "Prims \<Rightarrow> Entry list \<Rightarrow> bool" where
  "hash_clash c es \<longleftrightarrow> (\<exists>x \<in> set es. Hash c x = zeroHash \<or>
     (\<exists>y \<in> set es. canonical x \<noteq> canonical y \<and> Hash c x = Hash c y))"

lemma hash_clash_mono: "hash_clash c es \<Longrightarrow> set es \<subseteq> set fs \<Longrightarrow> hash_clash c fs"
  unfolding hash_clash_def by blast

lemma equal_heads:
  assumes "linked c ch" "linked c ch'" "list_all entry_sized (ch @ ch')" "headOf c ch = headOf c ch'"
    and "\<not> hash_clash c (ch @ ch')"
  shows "map entry_statement ch = map entry_statement ch'"
  using assms
proof (induction ch arbitrary: ch' rule: rev_induct)
  case Nil
  then show ?case
    by (cases ch' rule: rev_cases) (auto simp: headOf_def hash_clash_def dest: sym)
next
  case (snoc e ch)
  show ?case
  proof (cases ch' rule: rev_cases)
    case Nil
    then show ?thesis using snoc.prems by (auto simp: headOf_def hash_clash_def)
  next
    case (snoc ds d)
    have "Hash c e = Hash c d" using snoc.prems(4) snoc by (simp add: headOf_def)
    then have "canonical e = canonical d" using snoc.prems(5) snoc by (auto simp: hash_clash_def)
    then have st: "entry_statement e = entry_statement d" using snoc.prems(3) snoc canonical_inj by simp
    have "en_PrevHash e = headOf c ch" "en_PrevHash d = headOf c ds"
      using snoc.prems(1,2) snoc by (simp_all add: linked_snoc)
    with statement_fields [OF st] have "headOf c ch = headOf c ds" by simp
    moreover have "\<not> hash_clash c (ch @ ds)"
      using hash_clash_mono [of c "ch @ ds" "(ch @ [e]) @ ds @ [d]"] snoc.prems(5) snoc by auto
    ultimately have "map entry_statement ch = map entry_statement ds"
      using snoc.prems(1-3) snoc by (intro snoc.IH) (simp_all add: linked_snoc)
    with st snoc show ?thesis by simp
  qed
qed

section \<open>Operations keep a chain valid\<close>

lemma AppendRemote_Inr:
  "AppendRemote c e ch = Inr ch' \<longleftrightarrow> VerifyEntry c e = None \<and> en_Seq e = word_of_nat (length ch) \<and>
    en_PrevHash e = headOf c ch \<and> ch' = ch @ [e]"
  by (auto simp: AppendRemote_def split: option.splits)

lemma chain_ok_snoc:
  "chain_ok c (ch @ [e]) \<longleftrightarrow> chain_ok c ch \<and> VerifyEntry c e = None \<and> en_Seq e = word_of_nat (length ch) \<and> en_PrevHash e = headOf c ch"
  by (auto simp: chain_ok_def linked_snoc)

lemma canonical_sig [simp]: "canonical (e\<lparr>en_Sig := s\<rparr>) = canonical e"
  by (simp add: canonical_def extended_def)

lemma kindError_sig [simp]: "kindError (e\<lparr>en_Sig := s\<rparr>) = kindError e"
  by (simp add: kindError_def)

text \<open>An author who can sign: the id is the key's fingerprint and signatures verify.\<close>

definition author_ok :: "Prims \<Rightarrow> Author \<Rightarrow> bool" where
  "author_ok c a \<longleftrightarrow> length (au_Key a) = PublicKeySize \<and> au_ID a = pr_fingerprint c (au_Key a) \<and>
     (\<forall>m. \<exists>s. au_Sign a m = Some s \<and> pr_verify c (au_Key a) m s)"

definition spec_ok :: "EntrySpec \<Rightarrow> bool" where
  "spec_ok s \<longleftrightarrow> (if es_Kind s = KindTyped then es_Schema s \<noteq> []
     else es_Kind s \<in> {KindDecision, KindAction, KindNote, KindArtifact} \<and> es_Schema s = [] \<and> es_SchemaVer s = []) \<and>
     (\<forall>l \<in> set (es_Links s). ln_Hash l \<noteq> [])"

lemma emptyLink_None: "emptyLink i ls = None \<longleftrightarrow> (\<forall>l \<in> set ls. ln_Hash l \<noteq> [])"
  by (induction ls arbitrary: i) auto

lemmas kinds = KindDecision_def KindAction_def KindNote_def KindArtifact_def KindTyped_def

lemma kindError_new: "spec_ok s \<Longrightarrow> kindError (newEntry c ts a s ch) = None"
  by (auto simp: kindError_def newEntry_def spec_ok_def kinds split: if_splits)

lemma length_headOf:
  assumes "\<And>x. length (pr_sha256 c x) = 32"
  shows "length (headOf c ch) = sha256_Size"
  using assms by (simp add: headOf_def Hash_def zeroHash_def sha256_Size_def)

lemma Append_verifies:
  assumes "\<And>x. length (pr_sha256 c x) = 32" "author_ok c a" "spec_ok s"
  shows "\<exists>e. Append c ts a s ch = Some (ch @ [e], e) \<and> VerifyEntry c e = None \<and>
    en_Seq e = word_of_nat (length ch) \<and> en_PrevHash e = headOf c ch"
proof -
  let ?e = "newEntry c ts a s ch"
  obtain sig where sig: "au_Sign a (canonical ?e) = Some sig" "pr_verify c (au_Key a) (canonical ?e) sig"
    using assms(2) unfolding author_ok_def by blast
  have "emptyLink 0 (es_Links s) = None" using assms(3) by (simp add: emptyLink_None spec_ok_def)
  then have "VerifyEntry c (?e\<lparr>en_Sig := sig\<rparr>) = None"
    unfolding VerifyEntry_def kindError_sig canonical_sig kindError_new [OF assms(3)]
    using sig(2) assms(2) length_headOf [OF assms(1)] by (simp add: newEntry_def author_ok_def)
  then show ?thesis using sig(1)
    by (intro exI [of _ "?e\<lparr>en_Sig := sig\<rparr>"]) (simp add: Append_def Let_def, simp add: newEntry_def)
qed

section \<open>Properties\<close>


text \<open>A sample instantiation of the primitives: the hash is the 32-byte tail of its padded input.\<close>

definition toy :: Prims where
  "toy = \<lparr>pr_sha256 = (\<lambda>x. take 32 (rev x @ replicate 32 (CHR ''.''))), pr_verify = (\<lambda>k m s. s = k @ m),
     pr_fingerprint = (\<lambda>k. ''SHA256:'' @ k), pr_json = (\<lambda>_. None), pr_scan = (\<lambda>_. None),
     pr_marshal = (\<lambda>_. []), pr_indent = (\<lambda>_. []), pr_parse_time = (\<lambda>s. Some (int (length s))), pr_format_time = (\<lambda>_. [])\<rparr>"

definition toy_key :: "char \<Rightarrow> bytes" where
  "toy_key x = replicate 32 x"

definition toy_author :: "char \<Rightarrow> Author" where
  "toy_author x = \<lparr>au_ID = ''SHA256:'' @ toy_key x, au_Name = [x], au_Key = toy_key x, au_Sign = (\<lambda>m. Some (toy_key x @ m))\<rparr>"

lemma toy_hash: "length (pr_sha256 toy x) = 32"
  by (simp add: toy_def)

lemma toy_author_ok: "author_ok toy (toy_author x)"
  by (simp add: author_ok_def toy_def toy_author_def toy_key_def PublicKeySize_def)

definition toy_note :: "string \<Rightarrow> EntrySpec" where
  "toy_note b = \<lparr>es_Kind = KindNote, es_Actionee = [], es_Body = b, es_Schema = [], es_SchemaVer = [], es_Links = []\<rparr>"

definition toy_chain :: Chain where
  "toy_chain = fst (the (Append toy 1 (toy_author CHR ''a'') (toy_note ''hi'') []))"


text \<open>Chains stay valid and converge: an entry a well-set-up author appends is accepted by
  every replica that holds the same chain, which then holds the author's new chain; a
  replica accepts an entry exactly when it verifies and continues the replica's own chain,
  and every chain built this way links up and verifies entry by entry.\<close>

theorem append_converges:
  assumes "\<And>x. length (pr_sha256 c x) = 32" "author_ok c a" "spec_ok s" "chain_ok c ch"
  shows "\<exists>e. Append c ts a s ch = Some (ch @ [e], e) \<and> AppendRemote c e ch = Inr (ch @ [e]) \<and> chain_ok c (ch @ [e]) \<and>
    (\<forall>f ch'. AppendRemote c f ch = Inr ch' \<longrightarrow> ch' = ch @ [f] \<and> chain_ok c ch')"
  using Append_verifies [OF assms(1-3), of ts ch] assms(4) by (auto simp: AppendRemote_Inr chain_ok_snoc)

theorem append_converges_witness:
  "\<exists>e. Append toy 1 (toy_author CHR ''a'') (toy_note ''hi'') [] = Some ([e], e) \<and> AppendRemote toy e [] = Inr [e]"
proof -
  have "spec_ok (toy_note ''hi'')" "chain_ok toy []"
    by (simp_all add: spec_ok_def toy_note_def kinds chain_ok_def linked_def)
  from append_converges [OF toy_hash toy_author_ok this, of 1 "CHR ''a''"]
  obtain e where "Append toy 1 (toy_author CHR ''a'') (toy_note ''hi'') [] = Some ([] @ [e], e)"
    "AppendRemote toy e [] = Inr ([] @ [e])" by blast
  then show ?thesis by (intro exI [of _ e]) (simp only: append_Nil simp_thms)
qed

end
