(* ===== verification/Sealed.thy ===== *)
theory Sealed
  imports Prelude RecordChain
begin

text \<open>
  Sealed records, \<^verbatim>\<open>src/tui/record/sealed.go\<close>: the record a seal writes, its assembly, and its
  offline verification. JSON text and the two renderers are not modelled; a failure's
  \<open>Reason\<close> is a constructor per message. Loops over a Go map in sorted key order are
  recursions over the sorted keys.
\<close>

section \<open>Records\<close>

definition FormatVersion :: string where "FormatVersion = ''v1''"
definition FormatVersionV2 :: string where "FormatVersionV2 = ''v2''"

record Endorsement =
  ed_Meaning :: string
  ed_Name :: string
  ed_SignedAt :: string

record ApprovalProof =
  pf_ApproverFpr :: string
  pf_ApproverKey :: string
  pf_Sig :: string
  pf_Role :: string

record SealedRecord =
  sr_Version :: string
  sr_Room :: string
  sr_SealedAt :: string
  sr_SealedBy :: string
  sr_Entries :: "Entry list"
  sr_HeadHash :: string
  sr_Signatures :: "(string, string) gomap"
  sr_SignerKeys :: "(string, string) gomap"
  sr_Endorsements :: "(string, Endorsement) gomap"
  sr_ArtifactApprovals :: "(string, ApprovalProof list) gomap"

definition recordVersion :: "Entry list \<Rightarrow> (string, Endorsement) gomap \<Rightarrow> (string, ApprovalProof list) gomap \<Rightarrow> string" where
  "recordVersion entries endorsements approvals =
    (if length endorsements > 0 \<or> length approvals > 0 then FormatVersionV2
     else if list_ex extended entries then FormatVersionV2
     else FormatVersion)"

definition mvals :: "('v \<Rightarrow> 'w) \<Rightarrow> ('k, 'v) gomap \<Rightarrow> ('k, 'w) gomap" where
  "mvals f m = map (\<lambda>(k, v). (k, f v)) m"

definition newSealedRecord ::
  "string \<Rightarrow> string \<Rightarrow> string \<Rightarrow> Entry list \<Rightarrow> bytes \<Rightarrow> (string, bytes) gomap \<Rightarrow> (string, bytes) gomap \<Rightarrow>
   (string, Endorsement) gomap \<Rightarrow> (string, ApprovalProof list) gomap \<Rightarrow> SealedRecord" where
  "newSealedRecord sealedAt room sealedBy entries head sealerSigs sealerKeys endorsements approvals =
    \<lparr>sr_Version = recordVersion entries endorsements approvals, sr_Room = room, sr_SealedAt = sealedAt,
     sr_SealedBy = sealedBy, sr_Entries = entries, sr_HeadHash = hex_encode head,
     sr_Signatures = mvals std_encode sealerSigs, sr_SignerKeys = mvals std_encode sealerKeys,
     sr_Endorsements = endorsements, sr_ArtifactApprovals = approvals\<rparr>"

definition NewSealedRecord ::
  "string \<Rightarrow> string \<Rightarrow> string \<Rightarrow> Entry list \<Rightarrow> bytes \<Rightarrow> (string, bytes) gomap \<Rightarrow> (string, bytes) gomap \<Rightarrow> SealedRecord" where
  "NewSealedRecord sealedAt room sealedBy entries head sealerSigs sealerKeys =
    newSealedRecord sealedAt room sealedBy entries head sealerSigs sealerKeys [] []"

section \<open>Verification\<close>

record VerifiedApprover =
  va_Fingerprint :: string
  va_Role :: string

datatype approval_error =
    DuplicateProposal string
  | UnknownProposal string
  | NoNonce string
  | ApproverKeyMalformed string string
  | ApproverKeyMismatch string string
  | ApprovalNotBase64 string string
  | ApprovalBad string string

datatype reason =
    UnsupportedVersion string
  | BadSeq nat "64 word"
  | BadLink nat
  | BadEntry entry_error
  | HeadMismatch string string
  | NoSignatures
  | NoSignerKey string
  | SignerKeyMalformed string
  | SignerKeyMismatch string
  | SealNotBase64 string
  | SealBad string
  | BadApprovals approval_error

record VerifyResult =
  vr_Valid :: bool
  vr_Room :: string
  vr_Entries :: nat
  vr_Signers :: "string list"
  vr_HeadHash :: string
  vr_Reason :: "reason option"
  vr_ArtifactApprovers :: "(string, string list) gomap"
  vr_ArtifactApproverRoles :: "(string, VerifiedApprover list) gomap"

datatype verify_error = HeadHashNotHex

fun walkChain :: "Prims \<Rightarrow> nat \<Rightarrow> bytes \<Rightarrow> Entry list \<Rightarrow> reason + bytes" where
  "walkChain c i prev [] = Inr prev"
| "walkChain c i prev (e # es) =
    (if en_Seq e \<noteq> word_of_nat i then Inl (BadSeq i (en_Seq e))
     else if en_PrevHash e \<noteq> prev then Inl (BadLink i)
     else case VerifyEntry c e of
       Some err \<Rightarrow> Inl (BadEntry err)
     | None \<Rightarrow> walkChain c (Suc i) (Hash c e) es)"

definition sortedMapKeys :: "(string, 'v) gomap \<Rightarrow> string list" where
  "sortedMapKeys m = sort (keys m)"

definition sealPreimage :: "SealedRecord \<Rightarrow> bytes \<Rightarrow> string \<Rightarrow> bytes" where
  "sealPreimage r prev fpr =
    (case mget (sr_Endorsements r) fpr of
       Some e \<Rightarrow> SealSigningBytesV2 (sr_Room r) (ed_Meaning e) (ed_Name e) (ed_SignedAt e) prev
     | None \<Rightarrow> SealSigningBytes (sr_Room r) prev)"

definition verifySeal :: "Prims \<Rightarrow> SealedRecord \<Rightarrow> bytes \<Rightarrow> string \<Rightarrow> reason option" where
  "verifySeal c r prev fpr =
    (case mget (sr_SignerKeys r) fpr of
       None \<Rightarrow> Some (NoSignerKey fpr)
     | Some keyB64 \<Rightarrow>
        (case std_decode keyB64 of
           None \<Rightarrow> Some (SignerKeyMalformed fpr)
         | Some key \<Rightarrow>
            (if length key \<noteq> PublicKeySize then Some (SignerKeyMalformed fpr)
             else if pr_fingerprint c key \<noteq> fpr then Some (SignerKeyMismatch fpr)
             else case std_decode (case mget (sr_Signatures r) fpr of Some s \<Rightarrow> s | None \<Rightarrow> []) of
               None \<Rightarrow> Some (SealNotBase64 fpr)
             | Some sig \<Rightarrow> (if \<not> pr_verify c key (sealPreimage r prev fpr) sig then Some (SealBad fpr) else None))))"

fun verifySeals :: "Prims \<Rightarrow> SealedRecord \<Rightarrow> bytes \<Rightarrow> string list \<Rightarrow> string list \<Rightarrow> reason + string list" where
  "verifySeals c r prev [] signers = Inr signers"
| "verifySeals c r prev (fpr # fprs) signers =
    (case verifySeal c r prev fpr of
       Some err \<Rightarrow> Inl err
     | None \<Rightarrow> verifySeals c r prev fprs (signers @ [fpr]))"

subsection \<open>Artifact approvals\<close>

text \<open>The two indexes by proposal id, built together.\<close>

fun indexArtifacts :: "Prims \<Rightarrow> Entry list \<Rightarrow> (string, ArtifactMeta \<times> string) gomap \<Rightarrow>
    approval_error + (string, ArtifactMeta \<times> string) gomap" where
  "indexArtifacts c [] idx = Inr idx"
| "indexArtifacts c (e # es) idx =
    (if en_Kind e \<noteq> KindArtifact then indexArtifacts c es idx
     else case ArtifactOf c e of
       None \<Rightarrow> indexArtifacts c es idx
     | Some m \<Rightarrow>
        (if am_ProposalID m = [] then indexArtifacts c es idx
         else if mget idx (am_ProposalID m) \<noteq> None then Inl (DuplicateProposal (am_ProposalID m))
         else indexArtifacts c es (mput (am_ProposalID m) (m, en_AuthorID e) idx)))"

definition approvalPreimage :: "string \<Rightarrow> ArtifactMeta \<Rightarrow> ApprovalProof \<Rightarrow> bytes" where
  "approvalPreimage pid m p =
    (if pf_Role p \<noteq> [] then ArtifactApprovalSigningBytesV2 pid (am_ArtifactHash m) (pf_ApproverFpr p) (am_Nonce m) (pf_Role p)
     else ArtifactApprovalSigningBytes pid (am_ArtifactHash m) (pf_ApproverFpr p) (am_Nonce m))"

definition verifyProof :: "Prims \<Rightarrow> string \<Rightarrow> ArtifactMeta \<Rightarrow> ApprovalProof \<Rightarrow> approval_error option" where
  "verifyProof c pid m p =
    (case std_decode (pf_ApproverKey p) of
       None \<Rightarrow> Some (ApproverKeyMalformed pid (pf_ApproverFpr p))
     | Some key \<Rightarrow>
        (if length key \<noteq> PublicKeySize then Some (ApproverKeyMalformed pid (pf_ApproverFpr p))
         else if pr_fingerprint c key \<noteq> pf_ApproverFpr p then Some (ApproverKeyMismatch pid (pf_ApproverFpr p))
         else case std_decode (pf_Sig p) of
           None \<Rightarrow> Some (ApprovalNotBase64 pid (pf_ApproverFpr p))
         | Some sig \<Rightarrow>
            (if \<not> pr_verify c key (approvalPreimage pid m p) sig then Some (ApprovalBad pid (pf_ApproverFpr p)) else None)))"

text \<open>The loop over the proofs of one proposal: the distinct fingerprints and the role pairs seen.\<close>

fun verifyProofs :: "Prims \<Rightarrow> string \<Rightarrow> ArtifactMeta \<Rightarrow> ApprovalProof list \<Rightarrow> string list \<Rightarrow> VerifiedApprover list \<Rightarrow>
    approval_error + string list \<times> VerifiedApprover list" where
  "verifyProofs c pid m [] seen pairs = Inr (seen, pairs)"
| "verifyProofs c pid m (p # ps) seen pairs =
    (case verifyProof c pid m p of
       Some err \<Rightarrow> Inl err
     | None \<Rightarrow> verifyProofs c pid m ps (if pf_ApproverFpr p \<in> set seen then seen else seen @ [pf_ApproverFpr p])
         (if pf_Role p \<noteq> [] then pairs @ [\<lparr>va_Fingerprint = pf_ApproverFpr p, va_Role = pf_Role p\<rparr>] else pairs))"

fun dedupPairs :: "VerifiedApprover list \<Rightarrow> string \<Rightarrow> string \<Rightarrow> VerifiedApprover list \<Rightarrow> VerifiedApprover list" where
  "dedupPairs [] author proposer out = out"
| "dedupPairs (p # ps) author proposer out =
    (if va_Fingerprint p = author \<or> va_Fingerprint p = proposer then dedupPairs ps author proposer out
     else if p \<in> set out then dedupPairs ps author proposer out
     else dedupPairs ps author proposer (out @ [p]))"

definition dedupApproverRoles :: "VerifiedApprover list \<Rightarrow> string \<Rightarrow> string \<Rightarrow> VerifiedApprover list" where
  "dedupApproverRoles pairs author proposer =
    sort_key (\<lambda>p. (va_Fingerprint p, va_Role p)) (dedupPairs pairs author proposer [])"

definition approverSet :: "string list \<Rightarrow> string \<Rightarrow> string \<Rightarrow> string list" where
  "approverSet seen author proposer = sort (filter (\<lambda>fpr. \<not> (fpr = author \<or> fpr = proposer)) seen)"

fun verifyProposals :: "Prims \<Rightarrow> SealedRecord \<Rightarrow> (string, ArtifactMeta \<times> string) gomap \<Rightarrow> string list \<Rightarrow>
    (string, string list) gomap \<Rightarrow> (string, VerifiedApprover list) gomap \<Rightarrow>
    approval_error + (string, string list) gomap \<times> (string, VerifiedApprover list) gomap" where
  "verifyProposals c r idx [] out roles = Inr (out, roles)"
| "verifyProposals c r idx (pid # pids) out roles =
    (case mget idx pid of
       None \<Rightarrow> Inl (UnknownProposal pid)
     | Some (m, author) \<Rightarrow>
        (if am_Nonce m = [] then Inl (NoNonce pid)
         else case verifyProofs c pid m (case mget (sr_ArtifactApprovals r) pid of Some ps \<Rightarrow> ps | None \<Rightarrow> []) [] [] of
           Inl err \<Rightarrow> Inl err
         | Inr (seen, pairs) \<Rightarrow>
            (let fprs = approverSet seen author (am_ProposerFpr m);
                 out = (if length fprs > 0 then mput pid fprs out else out);
                 rset = dedupApproverRoles pairs author (am_ProposerFpr m);
                 roles = (if length rset > 0 then mput pid rset roles else roles)
             in verifyProposals c r idx pids out roles)))"

definition verifyArtifactApprovals :: "Prims \<Rightarrow> SealedRecord \<Rightarrow>
    approval_error + (string, string list) gomap \<times> (string, VerifiedApprover list) gomap" where
  "verifyArtifactApprovals c r =
    (case indexArtifacts c (sr_Entries r) [] of
       Inl err \<Rightarrow> Inl err
     | Inr idx \<Rightarrow> verifyProposals c r idx (sort (keys (sr_ArtifactApprovals r))) [] [])"

subsection \<open>The whole record\<close>

definition Verify :: "Prims \<Rightarrow> SealedRecord \<Rightarrow> VerifyResult \<times> verify_error option" where
  "Verify c r =
    (let res = \<lparr>vr_Valid = False, vr_Room = sr_Room r, vr_Entries = length (sr_Entries r), vr_Signers = [],
           vr_HeadHash = [], vr_Reason = None, vr_ArtifactApprovers = [], vr_ArtifactApproverRoles = []\<rparr>
     in if sr_Version r \<noteq> FormatVersion \<and> sr_Version r \<noteq> FormatVersionV2
        then (res\<lparr>vr_Reason := Some (UnsupportedVersion (sr_Version r))\<rparr>, None)
        else case walkChain c 0 zeroHash (sr_Entries r) of
          Inl err \<Rightarrow> (res\<lparr>vr_Reason := Some err\<rparr>, None)
        | Inr prev \<Rightarrow>
           (let res = res\<lparr>vr_HeadHash := hex_encode prev\<rparr>
            in case hex_decode (sr_HeadHash r) of
                 None \<Rightarrow> (res, Some HeadHashNotHex)
               | Some storedHead \<Rightarrow>
                  (if storedHead \<noteq> prev then (res\<lparr>vr_Reason := Some (HeadMismatch (sr_HeadHash r) (vr_HeadHash res))\<rparr>, None)
                   else if length (sr_Signatures r) = 0 then (res\<lparr>vr_Reason := Some NoSignatures\<rparr>, None)
                   else case verifySeals c r prev (sortedMapKeys (sr_Signatures r)) [] of
                     Inl err \<Rightarrow> (res\<lparr>vr_Reason := Some err\<rparr>, None)
                   | Inr signers \<Rightarrow>
                      (let res = res\<lparr>vr_Signers := sort signers\<rparr>
                       in if length (sr_ArtifactApprovals r) > 0 then
                            (case verifyArtifactApprovals c r of
                               Inl err \<Rightarrow> (res\<lparr>vr_Reason := Some (BadApprovals err)\<rparr>, None)
                             | Inr (approvers, roles) \<Rightarrow>
                                (let res = (if length approvers > 0 then res\<lparr>vr_ArtifactApprovers := approvers\<rparr> else res);
                                     res = (if length roles > 0 then res\<lparr>vr_ArtifactApproverRoles := roles\<rparr> else res)
                                 in (res\<lparr>vr_Valid := True\<rparr>, None)))
                          else (res\<lparr>vr_Valid := True\<rparr>, None)))))"

definition VerifiedArtifactApprovers :: "VerifyResult option \<Rightarrow> string \<Rightarrow> string list" where
  "VerifiedArtifactApprovers res pid =
    (case res of None \<Rightarrow> [] | Some res \<Rightarrow> (case mget (vr_ArtifactApprovers res) pid of None \<Rightarrow> [] | Some fs \<Rightarrow> fs))"

definition VerifiedArtifactApproverRoles :: "VerifyResult option \<Rightarrow> string \<Rightarrow> VerifiedApprover list" where
  "VerifiedArtifactApproverRoles res pid =
    (case res of None \<Rightarrow> [] | Some res \<Rightarrow> (case mget (vr_ArtifactApproverRoles res) pid of None \<Rightarrow> [] | Some fs \<Rightarrow> fs))"

fun nameByFingerprint :: "Entry list \<Rightarrow> (string, string) gomap \<Rightarrow> (string, string) gomap" where
  "nameByFingerprint [] m = m"
| "nameByFingerprint (e # es) m =
    nameByFingerprint es (if mget m (en_AuthorID e) = None \<and> en_AuthorName e \<noteq> [] then mput (en_AuthorID e) (en_AuthorName e) m else m)"

section \<open>What a valid record is\<close>

text \<open>One co-signature: under a key that hashes to the signer, over this head in this room.\<close>

definition seal_ok :: "Prims \<Rightarrow> SealedRecord \<Rightarrow> bytes \<Rightarrow> string \<Rightarrow> bool" where
  "seal_ok c r head fpr \<longleftrightarrow> (\<exists>keyB sigB key sig. mget (sr_SignerKeys r) fpr = Some keyB \<and> std_decode keyB = Some key \<and>
     length key = PublicKeySize \<and> pr_fingerprint c key = fpr \<and> mget (sr_Signatures r) fpr = Some sigB \<and>
     std_decode sigB = Some sig \<and> pr_verify c key (sealPreimage r head fpr) sig)"

definition proof_ok :: "Prims \<Rightarrow> string \<Rightarrow> ArtifactMeta \<Rightarrow> ApprovalProof \<Rightarrow> bool" where
  "proof_ok c pid m p \<longleftrightarrow> (\<exists>key sig. std_decode (pf_ApproverKey p) = Some key \<and> length key = PublicKeySize \<and>
     pr_fingerprint c key = pf_ApproverFpr p \<and> std_decode (pf_Sig p) = Some sig \<and> pr_verify c key (approvalPreimage pid m p) sig)"

text \<open>The artifact entries that carry a proposal id, in chain order.\<close>

definition proposals :: "Prims \<Rightarrow> Entry list \<Rightarrow> (string \<times> ArtifactMeta \<times> string) list" where
  "proposals c es = concat (map (\<lambda>e. case ArtifactOf c e of Some m \<Rightarrow>
     (if am_ProposalID m = [] then [] else [(am_ProposalID m, m, en_AuthorID e)]) | None \<Rightarrow> []) es)"

definition approvals_ok :: "Prims \<Rightarrow> SealedRecord \<Rightarrow> bool" where
  "approvals_ok c r \<longleftrightarrow> is_map (proposals c (sr_Entries r)) \<and>
     (\<forall>pid ps. mget (sr_ArtifactApprovals r) pid = Some ps \<longrightarrow> (\<exists>m author. mget (proposals c (sr_Entries r)) pid = Some (m, author) \<and>
        am_Nonce m \<noteq> [] \<and> (\<forall>p \<in> set ps. proof_ok c pid m p)))"

definition valid_record :: "Prims \<Rightarrow> SealedRecord \<Rightarrow> bool" where
  "valid_record c r \<longleftrightarrow> sr_Version r \<in> {FormatVersion, FormatVersionV2} \<and> chain_ok c (sr_Entries r) \<and>
     hex_decode (sr_HeadHash r) = Some (headOf c (sr_Entries r)) \<and> sr_Signatures r \<noteq> [] \<and>
     (\<forall>fpr \<in> set (keys (sr_Signatures r)). seal_ok c r (headOf c (sr_Entries r)) fpr) \<and>
     (sr_ArtifactApprovals r \<noteq> [] \<longrightarrow> approvals_ok c r)"

lemma walkChain_Inr:
  "walkChain c i prev es = Inr h \<longleftrightarrow> linked_from c i prev es \<and> (\<forall>e \<in> set es. VerifyEntry c e = None) \<and>
    h = (if es = [] then prev else Hash c (last es))"
  by (induction c i prev es rule: walkChain.induct) (auto split: option.splits)

lemma verifySeal_None: "fpr \<in> set (keys (sr_Signatures r)) \<Longrightarrow> verifySeal c r h fpr = None \<longleftrightarrow> seal_ok c r h fpr"
  by (auto simp: verifySeal_def seal_ok_def key_iff_mget simp del: set_map split: option.splits)

lemma verifySeals_Inr:
  "verifySeals c r h fs ss = Inr out \<longleftrightarrow> (\<forall>f \<in> set fs. verifySeal c r h f = None) \<and> out = ss @ fs"
  by (induction c r h fs ss rule: verifySeals.induct) (auto split: option.splits)

lemma verifyProof_None: "verifyProof c pid m p = None \<longleftrightarrow> proof_ok c pid m p"
  by (auto simp: verifyProof_def proof_ok_def split: option.splits)

lemma proposals_Cons:
  "proposals c (e # es) = (case ArtifactOf c e of Some m \<Rightarrow>
     (if am_ProposalID m = [] then [] else [(am_ProposalID m, m, en_AuthorID e)]) | None \<Rightarrow> []) @ proposals c es"
  by (simp add: proposals_def)

lemma indexArtifacts_Inr:
  "indexArtifacts c es idx = Inr out \<Longrightarrow> is_map idx \<Longrightarrow>
    is_map (proposals c es) \<and> set (keys (proposals c es)) \<inter> set (keys idx) = {} \<and>
    is_map out \<and> mget out = mget idx ++ mget (proposals c es)"
proof (induction c es idx rule: indexArtifacts.induct)
  case (2 c e es idx)
  show ?case
  proof (cases "ArtifactOf c e")
    case None
    then have "indexArtifacts c es idx = Inr out" using "2.prems"(1) by (simp split: if_splits)
    then show ?thesis using "2.IH"(1,2) None "2.prems"(2) by (cases "en_Kind e \<noteq> KindArtifact") (auto simp: proposals_Cons)
  next
    case (Some m)
    then have k: "en_Kind e = KindArtifact" by (auto simp: ArtifactOf_def split: if_splits)
    show ?thesis
    proof (cases "am_ProposalID m = []")
      case True
      then show ?thesis using 2 Some k by (simp add: proposals_Cons)
    next
      case False
      let ?idx = "mput (am_ProposalID m) (m, en_AuthorID e) idx"
      have n: "mget idx (am_ProposalID m) = None" and i: "indexArtifacts c es ?idx = Inr out"
        using "2.prems"(1) Some k False by (simp_all del: not_None_eq split: if_splits)
      have IH: "is_map (proposals c es) \<and> set (keys (proposals c es)) \<inter> set (keys ?idx) = {} \<and>
          is_map out \<and> mget out = mget ?idx ++ mget (proposals c es)"
        using "2.IH"(4) [OF _ Some False _ i] k n "2.prems"(2) by simp
      have new: "am_ProposalID m \<notin> set (keys (proposals c es))" "am_ProposalID m \<notin> set (keys idx)"
        using IH n by (auto simp: mget_None_iff simp del: set_map)
      have "mget out = mget idx ++ mget (proposals c (e # es))"
        using IH Some False new(1) by (auto simp: proposals_Cons map_add_def fun_eq_iff mget_None_iff split: option.splits simp del: set_map)
      moreover have "is_map (proposals c (e # es))" using IH Some False new(1) by (simp add: proposals_Cons)
      moreover have "set (keys (proposals c (e # es))) \<inter> set (keys idx) = {}"
        using IH Some False new(2) by (auto simp: proposals_Cons)
      ultimately show ?thesis using IH by simp
    qed
  qed
qed (simp add: proposals_def)

lemma indexArtifacts_total:
  "is_map (proposals c es) \<Longrightarrow> set (keys (proposals c es)) \<inter> set (keys idx) = {} \<Longrightarrow> \<exists>out. indexArtifacts c es idx = Inr out"
proof (induction c es idx rule: indexArtifacts.induct)
  case (2 c e es idx)
  show ?case
  proof (cases "ArtifactOf c e")
    case (Some m)
    then have "en_Kind e = KindArtifact" by (auto simp: ArtifactOf_def split: if_splits)
    with Some 2 show ?thesis
      by (cases "am_ProposalID m = []") (auto simp: proposals_Cons mget_None_iff)
  qed (use 2 in \<open>auto simp: proposals_Cons\<close>)
qed simp

lemma verifyProofs_Inr:
  "verifyProofs c pid m ps seen pairs = Inr out \<Longrightarrow> distinct seen \<Longrightarrow>
    (\<forall>p \<in> set ps. proof_ok c pid m p) \<and> distinct (fst out) \<and> set (fst out) = set seen \<union> pf_ApproverFpr ` set ps \<and>
    snd out = pairs @ map (\<lambda>p. \<lparr>va_Fingerprint = pf_ApproverFpr p, va_Role = pf_Role p\<rparr>) (filter (\<lambda>p. pf_Role p \<noteq> []) ps)"
  by (induction c pid m ps seen pairs rule: verifyProofs.induct) (auto simp: verifyProof_None split: option.splits if_splits)

lemma verifyProofs_total: "\<forall>p \<in> set ps. proof_ok c pid m p \<Longrightarrow> \<exists>out. verifyProofs c pid m ps seen pairs = Inr out"
  by (induction c pid m ps seen pairs rule: verifyProofs.induct) (auto simp: verifyProof_None [symmetric])

lemma dedupPairs_spec:
  "distinct out \<Longrightarrow> distinct (dedupPairs ps a b out) \<and>
    set (dedupPairs ps a b out) = set out \<union> {p \<in> set ps. va_Fingerprint p \<noteq> a \<and> va_Fingerprint p \<noteq> b}"
  by (induction ps a b out rule: dedupPairs.induct) auto

definition proofs_of :: "SealedRecord \<Rightarrow> string \<Rightarrow> ApprovalProof list" where
  "proofs_of r pid = (case mget (sr_ArtifactApprovals r) pid of Some ps \<Rightarrow> ps | None \<Rightarrow> [])"

text \<open>What one turn of the loop over proposals contributes.\<close>

definition contribution :: "Prims \<Rightarrow> SealedRecord \<Rightarrow> (string, ArtifactMeta \<times> string) gomap \<Rightarrow> string \<Rightarrow>
    string list \<times> VerifiedApprover list" where
  "contribution c r idx pid =
    (case mget idx pid of
       Some (m, a) \<Rightarrow> (case verifyProofs c pid m (proofs_of r pid) [] [] of
         Inr (seen, pairs) \<Rightarrow> (approverSet seen a (am_ProposerFpr m), dedupApproverRoles pairs a (am_ProposerFpr m))
       | Inl _ \<Rightarrow> ([], []))
     | None \<Rightarrow> ([], []))"

definition proposal_ok :: "Prims \<Rightarrow> SealedRecord \<Rightarrow> (string, ArtifactMeta \<times> string) gomap \<Rightarrow> string \<Rightarrow> bool" where
  "proposal_ok c r idx pid \<longleftrightarrow> (\<exists>m a. mget idx pid = Some (m, a) \<and> am_Nonce m \<noteq> [] \<and> (\<forall>p \<in> set (proofs_of r pid). proof_ok c pid m p))"

lemma verifyProposals_Inr:
  "verifyProposals c r idx pids out roles = Inr (out', roles') \<Longrightarrow>
    (\<forall>pid \<in> set pids. proposal_ok c r idx pid) \<and>
    (\<forall>pid. mget out' pid = (if pid \<in> set pids \<and> fst (contribution c r idx pid) \<noteq> [] then Some (fst (contribution c r idx pid)) else mget out pid)) \<and>
    (\<forall>pid. mget roles' pid = (if pid \<in> set pids \<and> snd (contribution c r idx pid) \<noteq> [] then Some (snd (contribution c r idx pid)) else mget roles pid))"
proof (induction c r idx pids out roles rule: verifyProposals.induct)
  case (2 c r idx pid pids out roles)
  from "2.prems"(1) obtain m a seen pairs where i: "mget idx pid = Some (m, a)" "am_Nonce m \<noteq> []"
      "verifyProofs c pid m (proofs_of r pid) [] [] = Inr (seen, pairs)"
    by (auto simp: proofs_of_def split: option.splits if_splits sum.splits)
  have rec: "verifyProposals c r idx pids (if length (approverSet seen a (am_ProposerFpr m)) > 0 then mput pid (approverSet seen a (am_ProposerFpr m)) out else out)
      (if length (dedupApproverRoles pairs a (am_ProposerFpr m)) > 0 then mput pid (dedupApproverRoles pairs a (am_ProposerFpr m)) roles else roles) = Inr (out', roles')"
    using "2.prems"(1) i by (simp add: proofs_of_def [symmetric] Let_def)
  note IH = "2.IH" [OF i(1) refl i(2) i(3) [unfolded proofs_of_def] refl refl refl refl refl rec]
  have c: "contribution c r idx pid = (approverSet seen a (am_ProposerFpr m), dedupApproverRoles pairs a (am_ProposerFpr m))"
    using i by (simp add: contribution_def)
  have "proposal_ok c r idx pid" using i verifyProofs_Inr [OF i(3)] by (auto simp: proposal_ok_def)
  with IH c show ?case by auto
qed simp

lemma verifyProposals_total:
  "\<forall>pid \<in> set pids. proposal_ok c r idx pid \<Longrightarrow> \<exists>out' roles'. verifyProposals c r idx pids out roles = Inr (out', roles')"
proof (induction c r idx pids out roles rule: verifyProposals.induct)
  case (2 c r idx pid pids out roles)
  then obtain m a where i: "mget idx pid = Some (m, a)" "am_Nonce m \<noteq> []" "\<forall>p \<in> set (proofs_of r pid). proof_ok c pid m p"
    by (auto simp: proposal_ok_def)
  obtain seen pairs where v: "verifyProofs c pid m (proofs_of r pid) [] [] = Inr (seen, pairs)"
    using verifyProofs_total [OF i(3)] by (metis surj_pair)
  show ?case using "2.IH" [OF i(1) refl i(2) v [unfolded proofs_of_def] refl refl refl refl refl] "2.prems" i v
    by (simp add: proofs_of_def [symmetric] Let_def)
qed simp

lemma approverSet_spec:
  "distinct seen \<Longrightarrow> sorted (approverSet seen a b) \<and> distinct (approverSet seen a b) \<and>
    set (approverSet seen a b) = {f \<in> set seen. f \<noteq> a \<and> f \<noteq> b}"
  by (auto simp: approverSet_def)

lemma index_proposals:
  assumes "indexArtifacts c (sr_Entries r) [] = Inr idx"
  shows "is_map (proposals c (sr_Entries r))" "mget idx = mget (proposals c (sr_Entries r))"
  using indexArtifacts_Inr [OF assms] by auto

lemma verifyArtifactApprovals_ok:
  "(\<exists>out. verifyArtifactApprovals c r = Inr out) \<longleftrightarrow> approvals_ok c r"
proof
  assume "\<exists>out. verifyArtifactApprovals c r = Inr out"
  then obtain idx out roles where i: "indexArtifacts c (sr_Entries r) [] = Inr idx"
      "verifyProposals c r idx (sort (keys (sr_ArtifactApprovals r))) [] [] = Inr (out, roles)"
    by (auto simp: verifyArtifactApprovals_def split: sum.splits)
  have p: "proposal_ok c r idx pid" if "pid \<in> set (keys (sr_ArtifactApprovals r))" for pid
    using verifyProposals_Inr [OF i(2)] that by (simp only: set_sort)
  have "\<exists>m author. mget (proposals c (sr_Entries r)) pid = Some (m, author) \<and> am_Nonce m \<noteq> [] \<and> (\<forall>p \<in> set ps. proof_ok c pid m p)"
    if ps: "mget (sr_ArtifactApprovals r) pid = Some ps" for pid ps
    using p [OF mget_Some_key [OF ps]] ps unfolding proposal_ok_def proofs_of_def index_proposals(2) [OF i(1)] by simp
  then show "approvals_ok c r" using index_proposals(1) [OF i(1)] unfolding approvals_ok_def by blast
next
  assume ok: "approvals_ok c r"
  then obtain idx where i: "indexArtifacts c (sr_Entries r) [] = Inr idx"
    using indexArtifacts_total [of c "sr_Entries r" "[]"] by (auto simp: approvals_ok_def)
  have "proposal_ok c r idx pid" if k: "pid \<in> set (keys (sr_ArtifactApprovals r))" for pid
  proof -
    obtain ps where ps: "mget (sr_ArtifactApprovals r) pid = Some ps" using k unfolding key_iff_mget by blast
    with ok show ?thesis unfolding approvals_ok_def proposal_ok_def proofs_of_def index_proposals(2) [OF i] by (simp only: option.simps)
  qed
  then show "\<exists>out. verifyArtifactApprovals c r = Inr out"
    using verifyProposals_total [of "sort (keys (sr_ArtifactApprovals r))" c r idx "[]" "[]"] i by (auto simp: verifyArtifactApprovals_def)
qed

lemma walkChain_ok: "walkChain c 0 zeroHash es = Inr h \<longleftrightarrow> chain_ok c es \<and> h = headOf c es"
  unfolding walkChain_Inr chain_ok_def linked_def headOf_def by blast

lemma verifySeals_ok:
  "verifySeals c r h (sortedMapKeys (sr_Signatures r)) [] = Inr out \<longleftrightarrow>
    (\<forall>fpr \<in> set (keys (sr_Signatures r)). seal_ok c r h fpr) \<and> out = sortedMapKeys (sr_Signatures r)"
  unfolding verifySeals_Inr sortedMapKeys_def set_sort using verifySeal_None by (metis append_Nil)

lemma Verify_rejects:
  assumes "\<not> valid_record c r"
  shows "\<not> vr_Valid (fst (Verify c r))"
proof (cases "walkChain c 0 zeroHash (sr_Entries r)")
  case (Inr h)
  then have ok: "chain_ok c (sr_Entries r)" and h: "h = headOf c (sr_Entries r)" using walkChain_ok by auto
  show ?thesis
  proof (cases "verifySeals c r h (sortedMapKeys (sr_Signatures r)) []")
    case (Inr out)
    then have "\<forall>fpr \<in> set (keys (sr_Signatures r)). seal_ok c r h fpr" using verifySeals_ok by blast
    with Inr \<open>walkChain c 0 zeroHash (sr_Entries r) = Inr h\<close> h ok assms show ?thesis
      using verifyArtifactApprovals_ok [of c r]
      by (cases "verifyArtifactApprovals c r") (auto simp: Verify_def Let_def valid_record_def split: option.splits)
  qed (use Inr in \<open>auto simp: Verify_def Let_def split: option.splits\<close>)
qed (auto simp: Verify_def Let_def)

lemma Verify_accepts:
  assumes "valid_record c r"
  obtains approvers roles where
    "if sr_ArtifactApprovals r = [] then approvers = [] \<and> roles = [] else verifyArtifactApprovals c r = Inr (approvers, roles)"
    "Verify c r = (\<lparr>vr_Valid = True, vr_Room = sr_Room r, vr_Entries = length (sr_Entries r),
       vr_Signers = sortedMapKeys (sr_Signatures r), vr_HeadHash = hex_encode (headOf c (sr_Entries r)), vr_Reason = None,
       vr_ArtifactApprovers = approvers, vr_ArtifactApproverRoles = roles\<rparr>, None)"
proof -
  let ?h = "headOf c (sr_Entries r)"
  have w: "walkChain c 0 zeroHash (sr_Entries r) = Inr ?h"
    using assms walkChain_ok by (simp add: valid_record_def)
  have s: "verifySeals c r ?h (sortedMapKeys (sr_Signatures r)) [] = Inr (sortedMapKeys (sr_Signatures r))"
    using assms verifySeals_ok by (simp add: valid_record_def)
  have srt: "sort (sortedMapKeys (sr_Signatures r)) = sortedMapKeys (sr_Signatures r)"
    by (simp add: sortedMapKeys_def sorted_sort_id)
  show ?thesis
  proof (cases "sr_ArtifactApprovals r = []")
    case True
    then show ?thesis using that [of "[]" "[]"] assms w s srt by (auto simp: Verify_def Let_def valid_record_def)
  next
    case False
    then obtain a b where "verifyArtifactApprovals c r = Inr (a, b)"
      using assms verifyArtifactApprovals_ok by (fastforce simp: valid_record_def)
    then show ?thesis using that [of a b] False assms w s srt by (auto simp: Verify_def Let_def valid_record_def)
  qed
qed

lemma Verify_Valid: "vr_Valid (fst (Verify c r)) \<longleftrightarrow> valid_record c r"
  using Verify_rejects by (auto elim: Verify_accepts)

text \<open>Who may be surfaced as an approver of a proposal: a verified proof by neither the entry's author nor its proposer.\<close>

definition second_person :: "Prims \<Rightarrow> SealedRecord \<Rightarrow> string \<Rightarrow> ApprovalProof \<Rightarrow> bool" where
  "second_person c r pid p \<longleftrightarrow> p \<in> set (proofs_of r pid) \<and>
     (\<exists>m author. mget (proposals c (sr_Entries r)) pid = Some (m, author) \<and> proof_ok c pid m p \<and>
        pf_ApproverFpr p \<noteq> author \<and> pf_ApproverFpr p \<noteq> am_ProposerFpr m)"

lemma contribution_spec:
  assumes "indexArtifacts c (sr_Entries r) [] = Inr idx" "proposal_ok c r idx pid"
  shows "sorted (fst (contribution c r idx pid)) \<and> distinct (fst (contribution c r idx pid)) \<and>
      set (fst (contribution c r idx pid)) = pf_ApproverFpr ` {p. second_person c r pid p}"
    and "distinct (snd (contribution c r idx pid)) \<and> set (snd (contribution c r idx pid)) =
      (\<lambda>p. \<lparr>va_Fingerprint = pf_ApproverFpr p, va_Role = pf_Role p\<rparr>) ` {p. second_person c r pid p \<and> pf_Role p \<noteq> []}"
proof -
  obtain m a where i: "mget idx pid = Some (m, a)" "\<forall>p \<in> set (proofs_of r pid). proof_ok c pid m p"
    using assms(2) by (auto simp: proposal_ok_def)
  have sp: "second_person c r pid p \<longleftrightarrow> p \<in> set (proofs_of r pid) \<and> pf_ApproverFpr p \<noteq> a \<and> pf_ApproverFpr p \<noteq> am_ProposerFpr m" for p
    using i unfolding second_person_def index_proposals(2) [OF assms(1), symmetric] by auto
  obtain seen pairs where v: "verifyProofs c pid m (proofs_of r pid) [] [] = Inr (seen, pairs)"
    using verifyProofs_total [OF i(2)] by (metis surj_pair)
  have seen: "distinct seen" "set seen = pf_ApproverFpr ` set (proofs_of r pid)"
    and pairs: "pairs = map (\<lambda>p. \<lparr>va_Fingerprint = pf_ApproverFpr p, va_Role = pf_Role p\<rparr>) (filter (\<lambda>p. pf_Role p \<noteq> []) (proofs_of r pid))"
    using verifyProofs_Inr [OF v] by auto
  have ct: "contribution c r idx pid = (approverSet seen a (am_ProposerFpr m), dedupApproverRoles pairs a (am_ProposerFpr m))"
    using i(1) v by (simp add: contribution_def)
  show "sorted (fst (contribution c r idx pid)) \<and> distinct (fst (contribution c r idx pid)) \<and>
      set (fst (contribution c r idx pid)) = pf_ApproverFpr ` {p. second_person c r pid p}"
    unfolding ct fst_conv sp using approverSet_spec [OF seen(1), of a "am_ProposerFpr m"] seen(2) by auto
  show "distinct (snd (contribution c r idx pid)) \<and> set (snd (contribution c r idx pid)) =
      (\<lambda>p. \<lparr>va_Fingerprint = pf_ApproverFpr p, va_Role = pf_Role p\<rparr>) ` {p. second_person c r pid p \<and> pf_Role p \<noteq> []}"
  proof -
    let ?va = "\<lambda>p. \<lparr>va_Fingerprint = pf_ApproverFpr p, va_Role = pf_Role p\<rparr>"
    have "{q \<in> set pairs. va_Fingerprint q \<noteq> a \<and> va_Fingerprint q \<noteq> am_ProposerFpr m} =
        ?va ` {p \<in> set (proofs_of r pid). pf_Role p \<noteq> [] \<and> pf_ApproverFpr p \<noteq> a \<and> pf_ApproverFpr p \<noteq> am_ProposerFpr m}"
      unfolding pairs by (auto simp only: set_map set_filter mem_Collect_eq VerifiedApprover.simps image_iff)
    moreover have "{p. second_person c r pid p \<and> pf_Role p \<noteq> []} =
        {p \<in> set (proofs_of r pid). pf_Role p \<noteq> [] \<and> pf_ApproverFpr p \<noteq> a \<and> pf_ApproverFpr p \<noteq> am_ProposerFpr m}"
      unfolding sp by blast
    ultimately show ?thesis
      unfolding ct snd_conv dedupApproverRoles_def set_sort distinct_sort
      using dedupPairs_spec [of "[]" pairs a "am_ProposerFpr m"] by (simp only: list.set distinct.simps Un_empty_left simp_thms)
  qed
qed

lemma surfaced_exact:
  assumes "valid_record c r"
  defines "res \<equiv> Some (fst (Verify c r))"
  shows "sorted (VerifiedArtifactApprovers res pid) \<and> distinct (VerifiedArtifactApprovers res pid) \<and>
      set (VerifiedArtifactApprovers res pid) = pf_ApproverFpr ` {p. second_person c r pid p}"
    and "distinct (VerifiedArtifactApproverRoles res pid) \<and> set (VerifiedArtifactApproverRoles res pid) =
      (\<lambda>p. \<lparr>va_Fingerprint = pf_ApproverFpr p, va_Role = pf_Role p\<rparr>) ` {p. second_person c r pid p \<and> pf_Role p \<noteq> []}"
proof (atomize (full), rule Verify_accepts [OF assms(1)])
  fix approvers roles
  assume a: "if sr_ArtifactApprovals r = [] then approvers = [] \<and> roles = [] else verifyArtifactApprovals c r = Inr (approvers, roles)"
    and v: "Verify c r = (\<lparr>vr_Valid = True, vr_Room = sr_Room r, vr_Entries = length (sr_Entries r),
       vr_Signers = sortedMapKeys (sr_Signatures r), vr_HeadHash = hex_encode (headOf c (sr_Entries r)), vr_Reason = None,
       vr_ArtifactApprovers = approvers, vr_ArtifactApproverRoles = roles\<rparr>, None)"
  let ?A = "VerifiedArtifactApprovers res pid" and ?R = "VerifiedArtifactApproverRoles res pid"
  have none: "\<not> second_person c r pid p" if "pid \<notin> set (keys (sr_ArtifactApprovals r))" for p
    using that unfolding mget_None_iff [symmetric] second_person_def proofs_of_def by simp
  show "(sorted ?A \<and> distinct ?A \<and> set ?A = pf_ApproverFpr ` {p. second_person c r pid p}) \<and>
      distinct ?R \<and> set ?R = (\<lambda>p. \<lparr>va_Fingerprint = pf_ApproverFpr p, va_Role = pf_Role p\<rparr>) ` {p. second_person c r pid p \<and> pf_Role p \<noteq> []}"
  proof (cases "pid \<in> set (keys (sr_ArtifactApprovals r))")
    case False
    have "mget approvers pid = None \<and> mget roles pid = None"
    proof (cases "sr_ArtifactApprovals r = []")
      case nonempty: False
      then obtain idx where "verifyProposals c r idx (sort (keys (sr_ArtifactApprovals r))) [] [] = Inr (approvers, roles)"
        using a by (auto simp: verifyArtifactApprovals_def split: sum.splits)
      from verifyProposals_Inr [OF this] False show ?thesis by (simp del: set_map)
    qed (use a in simp)
    then show ?thesis using none [OF False]
      by (simp add: res_def v VerifiedArtifactApprovers_def VerifiedArtifactApproverRoles_def)
  next
    case True
    then have "sr_ArtifactApprovals r \<noteq> []" by auto
    then obtain idx where i: "indexArtifacts c (sr_Entries r) [] = Inr idx"
        "verifyProposals c r idx (sort (keys (sr_ArtifactApprovals r))) [] [] = Inr (approvers, roles)"
      using a by (auto simp: verifyArtifactApprovals_def split: sum.splits)
    note vp = verifyProposals_Inr [OF i(2), unfolded set_sort]
    have ok: "proposal_ok c r idx pid" using vp True by blast
    have "?A = fst (contribution c r idx pid)" "?R = snd (contribution c r idx pid)"
      using vp True by (simp_all add: res_def v VerifiedArtifactApprovers_def VerifiedArtifactApproverRoles_def del: set_map)
    then show ?thesis using contribution_spec [OF i(1) ok] by simp
  qed
qed

section \<open>Properties\<close>

text \<open>Claim C5. Offline verification is exact: \<open>Verify\<close> reports VALID exactly for the records that have
  a known version, a chain that links and verifies entry by entry, the head hash of that
  chain, at least one co-signature, every co-signature under a key that hashes to its signer
  and over this room and head (with the declared meaning, when one is recorded), and sound
  approval proofs, each anchored in the one artifact entry with its proposal id; a valid
  record's signers are its co-signers, sorted, and its head is the recomputed one.\<close>

theorem Verify_exact:
  "(vr_Valid (fst (Verify c r)) \<longleftrightarrow> valid_record c r) \<and>
   (valid_record c r \<longrightarrow> vr_Signers (fst (Verify c r)) = sort (keys (sr_Signatures r)) \<and>
      vr_HeadHash (fst (Verify c r)) = hex_encode (headOf c (sr_Entries r)) \<and> snd (Verify c r) = None)"
  using Verify_Valid by (auto elim: Verify_accepts simp: sortedMapKeys_def)

text \<open>The record of an empty chain, sealed by one participant.\<close>

definition toy_sealed :: SealedRecord where
  "toy_sealed = NewSealedRecord ''2026-01-01T00:00:00Z'' ''ops'' (au_ID (toy_author CHR ''a'')) [] zeroHash
     [(au_ID (toy_author CHR ''a''), toy_key CHR ''a'' @ SealSigningBytes ''ops'' zeroHash)]
     [(au_ID (toy_author CHR ''a''), toy_key CHR ''a'')]"

lemma toy_sealed_valid: "valid_record toy toy_sealed"
  by (simp add: valid_record_def toy_sealed_def NewSealedRecord_def newSealedRecord_def recordVersion_def chain_ok_def
      linked_def headOf_def mvals_def seal_ok_def sealPreimage_def toy_def toy_author_def toy_key_def PublicKeySize_def)

theorem Verify_exact_witness:
  "vr_Valid (fst (Verify toy toy_sealed)) \<and> vr_Signers (fst (Verify toy toy_sealed)) = [''SHA256:'' @ toy_key CHR ''a'']"
proof -
  have "keys (sr_Signatures toy_sealed) = [''SHA256:'' @ toy_key CHR ''a'']"
    by (simp add: toy_sealed_def NewSealedRecord_def newSealedRecord_def mvals_def toy_author_def)
  then show ?thesis using Verify_exact [of toy toy_sealed] toy_sealed_valid by simp
qed

end
