(* ===== verification/Attest.thy ===== *)
theory Attest
  imports Prelude Sealed
begin

text \<open>
  The attestations of \<^verbatim>\<open>src/tui/attest/\<close> that stand on their own: the signed roster (\<^verbatim>\<open>roster.go\<close>) and the
  scuttle receipt (\<^verbatim>\<open>receipt.go\<close>), with the helpers of \<^verbatim>\<open>attest.go\<close>. Both are co-signed by a set of
  participants and verified by the same loop over the sorted signers; \<open>cosigned\<close> is that
  loop's contract. Clock readings are arguments; \<open>sort.Slice\<close> is a stable sort here (the
  roster's hash does not depend on the order of members with one fingerprint).
\<close>

section \<open>Helpers\<close>

definition b64map :: "(string, bytes) gomap \<Rightarrow> (string, string) gomap" where
  "b64map m = mvals std_encode m"

definition sortedKeys :: "(string, string) gomap \<Rightarrow> string list" where
  "sortedKeys m = sort (keys m)"

text \<open>\<open>strings.Join\<close>\<close>

fun join :: "string \<Rightarrow> string list \<Rightarrow> string" where
  "join sep [] = []"
| "join sep [x] = x"
| "join sep (x # y # ys) = x @ sep @ join sep (y # ys)"

section \<open>Co-signatures\<close>

datatype cosig_error =
    NoKey string
  | KeyMalformed string
  | KeyNotFingerprint string
  | SigNotBase64 string
  | SigInvalid string

definition checkCosig :: "Prims \<Rightarrow> bytes \<Rightarrow> (string, string) gomap \<Rightarrow> (string, string) gomap \<Rightarrow> string \<Rightarrow> cosig_error option" where
  "checkCosig c pre sigs skeys fpr =
    (case mget skeys fpr of
       None \<Rightarrow> Some (NoKey fpr)
     | Some keyB64 \<Rightarrow>
        (case std_decode keyB64 of
           None \<Rightarrow> Some (KeyMalformed fpr)
         | Some key \<Rightarrow>
            (if length key \<noteq> PublicKeySize then Some (KeyMalformed fpr)
             else if pr_fingerprint c key \<noteq> fpr then Some (KeyNotFingerprint fpr)
             else case std_decode (case mget sigs fpr of Some s \<Rightarrow> s | None \<Rightarrow> []) of
               None \<Rightarrow> Some (SigNotBase64 fpr)
             | Some sig \<Rightarrow> (if \<not> pr_verify c key pre sig then Some (SigInvalid fpr) else None))))"

fun checkCosigs :: "Prims \<Rightarrow> bytes \<Rightarrow> (string, string) gomap \<Rightarrow> (string, string) gomap \<Rightarrow> string list \<Rightarrow> string list \<Rightarrow>
    cosig_error + string list" where
  "checkCosigs c pre sigs skeys [] signers = Inr signers"
| "checkCosigs c pre sigs skeys (fpr # fprs) signers =
    (case checkCosig c pre sigs skeys fpr of
       Some err \<Rightarrow> Inl err
     | None \<Rightarrow> checkCosigs c pre sigs skeys fprs (signers @ [fpr]))"

section \<open>Roster\<close>

definition RosterVersion :: string where "RosterVersion = ''v1''"

record RosterMember =
  rm_Name :: string
  rm_Fpr :: string
  rm_Verified :: bool

record RosterAttestation =
  ra_Version :: string
  ra_Room :: string
  ra_Epoch :: "64 word"
  ra_AttestedAt :: string
  ra_AttestedBy :: string
  ra_Members :: "RosterMember list"
  ra_SetHash :: string
  ra_Signatures :: "(string, string) gomap"
  ra_SignerKeys :: "(string, string) gomap"

definition SetHash :: "Prims \<Rightarrow> string list \<Rightarrow> bytes" where
  "SetHash c fprs = pr_sha256 c (join [CHR 0x0A] (sort fprs))"

definition NewRoster :: "Prims \<Rightarrow> string \<Rightarrow> string \<Rightarrow> 64 word \<Rightarrow> string \<Rightarrow> RosterMember list \<Rightarrow> (string, bytes) gomap \<Rightarrow>
    (string, bytes) gomap \<Rightarrow> RosterAttestation" where
  "NewRoster c now room epoch attestedBy members sigs skeys =
    (let ms = sort_key rm_Fpr members
     in \<lparr>ra_Version = RosterVersion, ra_Room = room, ra_Epoch = epoch, ra_AttestedAt = now, ra_AttestedBy = attestedBy,
         ra_Members = ms, ra_SetHash = hex_encode (SetHash c (map rm_Fpr ms)), ra_Signatures = b64map sigs,
         ra_SignerKeys = b64map skeys\<rparr>)"

datatype roster_reason =
    RosterVersionUnsupported string
  | SetHashMismatch string string
  | RosterUnsigned
  | RosterCosig cosig_error

record RosterResult =
  rr_Valid :: bool
  rr_Room :: string
  rr_Epoch :: "64 word"
  rr_Members :: nat
  rr_Signers :: "string list"
  rr_SetHash :: string
  rr_Reason :: "roster_reason option"

datatype hex_error = SetHashNotHex | ReceiptHashNotHex

definition VerifyRoster :: "Prims \<Rightarrow> RosterAttestation \<Rightarrow> RosterResult \<times> hex_error option" where
  "VerifyRoster c r =
    (let res = \<lparr>rr_Valid = False, rr_Room = ra_Room r, rr_Epoch = ra_Epoch r, rr_Members = length (ra_Members r),
           rr_Signers = [], rr_SetHash = ra_SetHash r, rr_Reason = None\<rparr>
     in if ra_Version r \<noteq> RosterVersion then (res\<lparr>rr_Reason := Some (RosterVersionUnsupported (ra_Version r))\<rparr>, None)
        else let want = hex_encode (SetHash c (map rm_Fpr (ra_Members r)))
        in if want \<noteq> ra_SetHash r then (res\<lparr>rr_Reason := Some (SetHashMismatch (ra_SetHash r) want)\<rparr>, None)
        else case hex_decode (ra_SetHash r) of
          None \<Rightarrow> (res, Some SetHashNotHex)
        | Some setHash \<Rightarrow>
           (if length (ra_Signatures r) = 0 then (res\<lparr>rr_Reason := Some RosterUnsigned\<rparr>, None)
            else case checkCosigs c (RosterSigningBytes (ra_Room r) (ra_Epoch r) setHash) (ra_Signatures r) (ra_SignerKeys r)
                (sortedKeys (ra_Signatures r)) [] of
              Inl err \<Rightarrow> (res\<lparr>rr_Reason := Some (RosterCosig err)\<rparr>, None)
            | Inr signers \<Rightarrow> (res\<lparr>rr_Signers := sort signers, rr_Valid := True\<rparr>, None)))"

section \<open>Scuttle receipt\<close>

definition ReceiptVersion :: string where "ReceiptVersion = ''v1''"

record EpochRange =
  er_First :: "64 word"
  er_Last :: "64 word"

record ReceiptCore =
  rc_Version :: string
  rc_Room :: string
  rc_EpochRange :: EpochRange
  rc_Reason :: string
  rc_ScuttledAt :: string
  rc_ScuttledBy :: string
  rc_MemberFprs :: "string list"
  rc_KeysZeroized :: bool

text \<open>\<open>json.Marshal\<close> of an empty slice made by \<open>append([]string(nil), ...)\<close> is \<open>null\<close>.\<close>

definition json_ReceiptCore :: "ReceiptCore \<Rightarrow> json" where
  "json_ReceiptCore r = JObj
    [(''netherchat_receipt'', JStr (rc_Version r)),
     (''room'', JStr (rc_Room r)),
     (''epoch_range'', JObj [(''first'', JInt (uint (er_First (rc_EpochRange r)))), (''last'', JInt (uint (er_Last (rc_EpochRange r))))]),
     (''reason'', JStr (rc_Reason r)),
     (''scuttled_at'', JStr (rc_ScuttledAt r)),
     (''scuttled_by'', JStr (rc_ScuttledBy r)),
     (''member_fprs'', if rc_MemberFprs r = [] then JNull else JArr (map JStr (rc_MemberFprs r))),
     (''keys_zeroized'', JBool (rc_KeysZeroized r))]"

definition CoreHash :: "Prims \<Rightarrow> ReceiptCore \<Rightarrow> bytes" where
  "CoreHash c core =
    (let cc = core\<lparr>rc_Version := ReceiptVersion, rc_MemberFprs := sort (rc_MemberFprs core)\<rparr>
     in pr_sha256 c (pr_marshal c (json_ReceiptCore cc)))"

record ScuttleReceipt =
  sc_Core :: ReceiptCore
  sc_ReceiptHash :: string
  sc_Signatures :: "(string, string) gomap"
  sc_SignerKeys :: "(string, string) gomap"

definition NewReceipt :: "Prims \<Rightarrow> ReceiptCore \<Rightarrow> (string, bytes) gomap \<Rightarrow> (string, bytes) gomap \<Rightarrow> ScuttleReceipt" where
  "NewReceipt c core sigs skeys =
    (let core = core\<lparr>rc_Version := ReceiptVersion, rc_MemberFprs := sort (rc_MemberFprs core)\<rparr>
     in \<lparr>sc_Core = core, sc_ReceiptHash = hex_encode (CoreHash c core), sc_Signatures = b64map sigs, sc_SignerKeys = b64map skeys\<rparr>)"

datatype receipt_reason =
    ReceiptVersionUnsupported string
  | NotZeroized
  | ReceiptHashMismatch string string
  | ReceiptUnsigned
  | ReceiptCosig cosig_error

record ReceiptResult =
  rs_Valid :: bool
  rs_Room :: string
  rs_Reason :: string
  rs_ScuttledAt :: string
  rs_Signers :: "string list"
  rs_ReceiptHash :: string
  rs_Error :: "receipt_reason option"

definition VerifyReceipt :: "Prims \<Rightarrow> ScuttleReceipt \<Rightarrow> ReceiptResult \<times> hex_error option" where
  "VerifyReceipt c r =
    (let core = sc_Core r;
         res = \<lparr>rs_Valid = False, rs_Room = rc_Room core, rs_Reason = rc_Reason core, rs_ScuttledAt = rc_ScuttledAt core,
           rs_Signers = [], rs_ReceiptHash = sc_ReceiptHash r, rs_Error = None\<rparr>
     in if rc_Version core \<noteq> ReceiptVersion then (res\<lparr>rs_Error := Some (ReceiptVersionUnsupported (rc_Version core))\<rparr>, None)
        else if \<not> rc_KeysZeroized core then (res\<lparr>rs_Error := Some NotZeroized\<rparr>, None)
        else let h = hex_encode (CoreHash c core)
        in if h \<noteq> sc_ReceiptHash r then (res\<lparr>rs_Error := Some (ReceiptHashMismatch (sc_ReceiptHash r) h)\<rparr>, None)
        else case hex_decode (sc_ReceiptHash r) of
          None \<Rightarrow> (res, Some ReceiptHashNotHex)
        | Some hashBytes \<Rightarrow>
           (if length (sc_Signatures r) = 0 then (res\<lparr>rs_Error := Some ReceiptUnsigned\<rparr>, None)
            else case checkCosigs c (ScuttleReceiptSigningBytes hashBytes) (sc_Signatures r) (sc_SignerKeys r)
                (sortedKeys (sc_Signatures r)) [] of
              Inl err \<Rightarrow> (res\<lparr>rs_Error := Some (ReceiptCosig err)\<rparr>, None)
            | Inr signers \<Rightarrow> (res\<lparr>rs_Signers := sort signers, rs_Valid := True\<rparr>, None)))"

section \<open>What verification means\<close>

definition cosigned :: "Prims \<Rightarrow> bytes \<Rightarrow> (string, string) gomap \<Rightarrow> (string, string) gomap \<Rightarrow> string \<Rightarrow> bool" where
  "cosigned c pre sigs skeys fpr \<longleftrightarrow> (\<exists>keyB sigB key sig. mget skeys fpr = Some keyB \<and> std_decode keyB = Some key \<and>
     length key = PublicKeySize \<and> pr_fingerprint c key = fpr \<and> mget sigs fpr = Some sigB \<and>
     std_decode sigB = Some sig \<and> pr_verify c key pre sig)"

lemma checkCosig_None: "fpr \<in> set (keys sigs) \<Longrightarrow> checkCosig c pre sigs skeys fpr = None \<longleftrightarrow> cosigned c pre sigs skeys fpr"
  by (auto simp: checkCosig_def cosigned_def key_iff_mget simp del: set_map split: option.splits)

lemma checkCosigs_Inr:
  "checkCosigs c pre sigs skeys fs ss = Inr out \<longleftrightarrow> (\<forall>f \<in> set fs. checkCosig c pre sigs skeys f = None) \<and> out = ss @ fs"
  by (induction c pre sigs skeys fs ss rule: checkCosigs.induct) (auto split: option.splits)

lemma checkCosigs_ok:
  "checkCosigs c pre sigs skeys (sortedKeys sigs) [] = Inr out \<longleftrightarrow>
    (\<forall>fpr \<in> set (keys sigs). cosigned c pre sigs skeys fpr) \<and> out = sort (keys sigs)"
  unfolding checkCosigs_Inr sortedKeys_def set_sort using checkCosig_None by (metis append_Nil)

definition roster_ok :: "Prims \<Rightarrow> RosterAttestation \<Rightarrow> bool" where
  "roster_ok c r \<longleftrightarrow> ra_Version r = RosterVersion \<and> ra_SetHash r = hex_encode (SetHash c (map rm_Fpr (ra_Members r))) \<and>
     ra_Signatures r \<noteq> [] \<and> (\<forall>fpr \<in> set (keys (ra_Signatures r)).
       cosigned c (RosterSigningBytes (ra_Room r) (ra_Epoch r) (SetHash c (map rm_Fpr (ra_Members r)))) (ra_Signatures r) (ra_SignerKeys r) fpr)"

definition receipt_ok :: "Prims \<Rightarrow> ScuttleReceipt \<Rightarrow> bool" where
  "receipt_ok c r \<longleftrightarrow> rc_Version (sc_Core r) = ReceiptVersion \<and> rc_KeysZeroized (sc_Core r) \<and>
     sc_ReceiptHash r = hex_encode (CoreHash c (sc_Core r)) \<and> sc_Signatures r \<noteq> [] \<and>
     (\<forall>fpr \<in> set (keys (sc_Signatures r)).
       cosigned c (ScuttleReceiptSigningBytes (CoreHash c (sc_Core r))) (sc_Signatures r) (sc_SignerKeys r) fpr)"

lemma VerifyRoster_Valid:
  "rr_Valid (fst (VerifyRoster c r)) \<longleftrightarrow> roster_ok c r"
  "roster_ok c r \<Longrightarrow> rr_Signers (fst (VerifyRoster c r)) = sort (keys (ra_Signatures r))"
proof -
  define H where "H = SetHash c (map rm_Fpr (ra_Members r))"
  define K where "K = checkCosigs c (RosterSigningBytes (ra_Room r) (ra_Epoch r) H) (ra_Signatures r) (ra_SignerKeys r) (sortedKeys (ra_Signatures r)) []"
  define A where "A \<longleftrightarrow> (\<forall>fpr \<in> set (keys (ra_Signatures r)). cosigned c (RosterSigningBytes (ra_Room r) (ra_Epoch r) H) (ra_Signatures r) (ra_SignerKeys r) fpr)"
  have K: "K = Inr out \<longleftrightarrow> A \<and> out = sort (keys (ra_Signatures r))" for out
    unfolding K_def A_def by (rule checkCosigs_ok)
  have ok: "roster_ok c r \<longleftrightarrow> ra_Version r = RosterVersion \<and> ra_SetHash r = hex_encode H \<and> ra_Signatures r \<noteq> [] \<and> A"
    unfolding roster_ok_def H_def A_def  by (rule refl)
  have "rr_Valid (fst (VerifyRoster c r)) = roster_ok c r \<and> (roster_ok c r \<longrightarrow> rr_Signers (fst (VerifyRoster c r)) = sort (keys (ra_Signatures r)))"
  proof (cases "ra_SetHash r = hex_encode H")
    case False
    then show ?thesis unfolding ok by (simp add: VerifyRoster_def Let_def H_def eq_commute)
  next
    case True
    then have d: "hex_decode (ra_SetHash r) = Some H" by simp
    show ?thesis
    proof (cases K)
      case (Inl e)
      then have "\<not> A" using K [of "sort (keys (ra_Signatures r))"] by simp
      then show ?thesis using Inl unfolding ok K_def by (simp add: VerifyRoster_def Let_def H_def [symmetric] True d [unfolded True])
    next
      case (Inr out)
      then have "A" "out = sort (keys (ra_Signatures r))" using K by simp_all
      then show ?thesis using Inr unfolding ok K_def
        by (simp add: VerifyRoster_def Let_def H_def [symmetric] True sorted_sort_id)
    qed
  qed
  then show "rr_Valid (fst (VerifyRoster c r)) \<longleftrightarrow> roster_ok c r" "roster_ok c r \<Longrightarrow> rr_Signers (fst (VerifyRoster c r)) = sort (keys (ra_Signatures r))"
    by blast+
qed

lemma VerifyReceipt_Valid:
  "rs_Valid (fst (VerifyReceipt c r)) \<longleftrightarrow> receipt_ok c r"
  "receipt_ok c r \<Longrightarrow> rs_Signers (fst (VerifyReceipt c r)) = sort (keys (sc_Signatures r))"
proof -
  define H where "H = CoreHash c (sc_Core r)"
  define K where "K = checkCosigs c (ScuttleReceiptSigningBytes H) (sc_Signatures r) (sc_SignerKeys r) (sortedKeys (sc_Signatures r)) []"
  define A where "A \<longleftrightarrow> (\<forall>fpr \<in> set (keys (sc_Signatures r)). cosigned c (ScuttleReceiptSigningBytes H) (sc_Signatures r) (sc_SignerKeys r) fpr)"
  have K: "K = Inr out \<longleftrightarrow> A \<and> out = sort (keys (sc_Signatures r))" for out
    unfolding K_def A_def by (rule checkCosigs_ok)
  have ok: "receipt_ok c r \<longleftrightarrow> rc_Version (sc_Core r) = ReceiptVersion \<and> rc_KeysZeroized (sc_Core r) \<and> sc_ReceiptHash r = hex_encode H \<and> sc_Signatures r \<noteq> [] \<and> A"
    unfolding receipt_ok_def H_def A_def conj_assoc by (rule refl)
  have "rs_Valid (fst (VerifyReceipt c r)) = receipt_ok c r \<and> (receipt_ok c r \<longrightarrow> rs_Signers (fst (VerifyReceipt c r)) = sort (keys (sc_Signatures r)))"
  proof (cases "sc_ReceiptHash r = hex_encode H")
    case False
    then show ?thesis unfolding ok by (simp add: VerifyReceipt_def Let_def H_def eq_commute)
  next
    case True
    then have d: "hex_decode (sc_ReceiptHash r) = Some H" by simp
    show ?thesis
    proof (cases K)
      case (Inl e)
      then have "\<not> A" using K [of "sort (keys (sc_Signatures r))"] by simp
      then show ?thesis using Inl unfolding ok K_def by (simp add: VerifyReceipt_def Let_def H_def [symmetric] True d [unfolded True])
    next
      case (Inr out)
      then have "A" "out = sort (keys (sc_Signatures r))" using K by simp_all
      then show ?thesis using Inr unfolding ok K_def
        by (simp add: VerifyReceipt_def Let_def H_def [symmetric] True sorted_sort_id)
    qed
  qed
  then show "rs_Valid (fst (VerifyReceipt c r)) \<longleftrightarrow> receipt_ok c r" "receipt_ok c r \<Longrightarrow> rs_Signers (fst (VerifyReceipt c r)) = sort (keys (sc_Signatures r))"
    by blast+
qed

lemma sort_mset_cong: "mset xs = mset ys \<Longrightarrow> sort xs = sort ys"
  by (metis sorted_list_of_multiset_mset)

lemma SetHash_cong: "mset fs = mset gs \<Longrightarrow> SetHash c fs = SetHash c gs"
  unfolding SetHash_def by (drule sort_mset_cong) simp

lemma CoreHash_sorted: "CoreHash c (core\<lparr>rc_Version := v, rc_MemberFprs := sort (rc_MemberFprs core)\<rparr>) = CoreHash c core"
  by (simp add: CoreHash_def sorted_sort_id)

text \<open>Everyone who signed holds a well-formed key, and the signature is over these bytes.\<close>

definition all_sign :: "Prims \<Rightarrow> bytes \<Rightarrow> (string, bytes) gomap \<Rightarrow> (string, bytes) gomap \<Rightarrow> bool" where
  "all_sign c pre sigs skeys \<longleftrightarrow> (\<forall>fpr sig. mget sigs fpr = Some sig \<longrightarrow> (\<exists>pub. mget skeys fpr = Some pub \<and>
     length pub = PublicKeySize \<and> pr_fingerprint c pub = fpr \<and> pr_verify c pub pre sig))"

lemma mget_b64map [simp]: "mget (b64map m) k = map_option std_encode (mget m k)"
  by (induction m) (auto simp: b64map_def mvals_def)

lemma keys_b64map [simp]: "keys (b64map m) = keys m"
  by (induction m) (auto simp: b64map_def mvals_def)

lemma b64map_Nil [simp]: "b64map m = [] \<longleftrightarrow> m = []"
  by (simp add: b64map_def mvals_def)

lemma all_sign_cosigned:
  assumes "all_sign c pre sigs skeys" "fpr \<in> set (keys (b64map sigs))"
  shows "cosigned c pre (b64map sigs) (b64map skeys) fpr"
proof -
  obtain sig where sig: "mget sigs fpr = Some sig" using assms(2) unfolding keys_b64map key_iff_mget by blast
  with assms(1) obtain pub where "mget skeys fpr = Some pub" "length pub = PublicKeySize" "pr_fingerprint c pub = fpr" "pr_verify c pub pre sig"
    unfolding all_sign_def by blast
  with sig show ?thesis unfolding cosigned_def by (intro exI [of _ "std_encode pub"] exI [of _ "std_encode sig"] exI [of _ pub] exI [of _ sig]) simp
qed

lemma NewRoster_ok:
  assumes "sigs \<noteq> []" "all_sign c (RosterSigningBytes room epoch (SetHash c (map rm_Fpr ms))) sigs skeys"
  shows "roster_ok c (NewRoster c now room epoch by ms sigs skeys)"
proof -
  have h: "SetHash c (map rm_Fpr (sort_key rm_Fpr ms)) = SetHash c (map rm_Fpr ms)" by (rule SetHash_cong) (simp only: mset_map mset_sort)
  have "\<forall>fpr \<in> set (keys (b64map sigs)). cosigned c (RosterSigningBytes room epoch (SetHash c (map rm_Fpr ms))) (b64map sigs) (b64map skeys) fpr"
    using all_sign_cosigned [OF assms(2)] by (rule ballI)
  then show ?thesis using assms(1) unfolding roster_ok_def NewRoster_def Let_def RosterAttestation.simps h by (simp only: b64map_Nil simp_thms)
qed

lemma NewReceipt_ok:
  assumes "sigs \<noteq> []" "rc_KeysZeroized core" "all_sign c (ScuttleReceiptSigningBytes (CoreHash c core)) sigs skeys"
  shows "receipt_ok c (NewReceipt c core sigs skeys)"
proof -
  have "\<forall>fpr \<in> set (keys (b64map sigs)). cosigned c (ScuttleReceiptSigningBytes (CoreHash c core)) (b64map sigs) (b64map skeys) fpr"
    using all_sign_cosigned [OF assms(3)] by (rule ballI)
  then show ?thesis using assms(1,2) unfolding receipt_ok_def NewReceipt_def Let_def ScuttleReceipt.simps CoreHash_sorted
    by (simp del: set_map)
qed

section \<open>Properties\<close>

text \<open>Rosters and scuttle receipts verify exactly when they are what they claim: the roster's
  set hash is that of its members and every signature on it covers this room, epoch and
  set; the receipt attests destroyed keys, its hash is that of its content and every
  signature covers it; each signature is under a key that hashes to its signer. What
  \<open>NewRoster\<close> and \<open>NewReceipt\<close> assemble from such signatures verifies, with exactly the
  co-signers as signers, and the set hash does not depend on the order of the members.\<close>

theorem attestations_exact:
  "(rr_Valid (fst (VerifyRoster c r)) \<longleftrightarrow> roster_ok c r) \<and> (rs_Valid (fst (VerifyReceipt c q)) \<longleftrightarrow> receipt_ok c q) \<and>
   (sigs \<noteq> [] \<and> all_sign c (RosterSigningBytes room epoch (SetHash c (map rm_Fpr ms))) sigs skeys \<and>
      ra = NewRoster c now room epoch by ms sigs skeys \<longrightarrow>
      rr_Valid (fst (VerifyRoster c ra)) \<and> rr_Signers (fst (VerifyRoster c ra)) = sort (keys sigs)) \<and>
   (sigs \<noteq> [] \<and> rc_KeysZeroized core \<and> all_sign c (ScuttleReceiptSigningBytes (CoreHash c core)) sigs skeys \<and>
      sc = NewReceipt c core sigs skeys \<longrightarrow>
      rs_Valid (fst (VerifyReceipt c sc)) \<and> rs_Signers (fst (VerifyReceipt c sc)) = sort (keys sigs)) \<and>
   (mset fs = mset gs \<longrightarrow> SetHash c fs = SetHash c gs)"
proof -
  have "ra_Signatures (NewRoster c now room epoch by ms sigs skeys) = b64map sigs"
    "sc_Signatures (NewReceipt c core sigs skeys) = b64map sigs"
    by (simp_all add: NewRoster_def NewReceipt_def Let_def)
  then show ?thesis
    unfolding VerifyRoster_Valid VerifyReceipt_Valid
    using VerifyRoster_Valid(2) NewRoster_ok VerifyReceipt_Valid(2) NewReceipt_ok SetHash_cong [of fs gs c] keys_b64map
    by metis
qed

definition toy_members :: "RosterMember list" where
  "toy_members = [\<lparr>rm_Name = ''b'', rm_Fpr = ''SHA256:b'', rm_Verified = True\<rparr>, \<lparr>rm_Name = ''a'', rm_Fpr = ''SHA256:a'', rm_Verified = False\<rparr>]"

theorem attestations_exact_witness:
  "rr_Valid (fst (VerifyRoster toy (NewRoster toy ''now'' ''ops'' 7 ''SHA256:a'' toy_members
     [(''SHA256:'' @ toy_key CHR ''a'', toy_key CHR ''a'' @ RosterSigningBytes ''ops'' 7 (SetHash toy (map rm_Fpr toy_members)))]
     [(''SHA256:'' @ toy_key CHR ''a'', toy_key CHR ''a'')])))"
proof -
  let ?p = "RosterSigningBytes ''ops'' 7 (SetHash toy (map rm_Fpr toy_members))"
  let ?s = "[(''SHA256:'' @ toy_key CHR ''a'', toy_key CHR ''a'' @ ?p)]" and ?k = "[(''SHA256:'' @ toy_key CHR ''a'', toy_key CHR ''a'')]"
  have "all_sign toy ?p ?s ?k" by (simp add: all_sign_def toy_def toy_key_def PublicKeySize_def)
  then show ?thesis
    using attestations_exact [where c = toy and sigs = ?s and skeys = ?k and ms = toy_members and room = "''ops''" and epoch = 7] by blast
qed

end
