(* ===== verification/Identity.thy ===== *)
theory Identity
  imports Prelude Attest
begin

text \<open>
  The identity layer, \<^verbatim>\<open>src/tui/attest/identity.go\<close>, \<^verbatim>\<open>revocation.go\<close> and \<^verbatim>\<open>identity_display.go\<close>: issuer-signed
  statements that bind a key to a principal, revocation statements, their verification
  against the keys the caller pins, and which name a surface may draw for a key.

  An instant is an integer with 0 the zero \<open>time.Time\<close>; the outcome codes and classes are
  datatypes, with a constructor for strings outside the enumeration; a human sentence is a
  constructor with the values it quotes; a nil pointer is \<open>None\<close>. The two verifiers share one
  loop over the pinned keys, which is one definition here (\<open>pinLoop\<close>). Decoding follows
  \<open>encoding/json\<close> with unknown fields refused.
\<close>

section \<open>Outcome codes\<close>

datatype IdentityReason =
    NoReason
  | ReasonNoIssuerPinned | ReasonNoPinnedIssuerVerified | ReasonNotYetValid | ReasonExpired | ReasonRevoked
  | ReasonUnsupportedVersion | ReasonUnsupportedAlgorithm | ReasonSubjectMismatch | ReasonMalformedArtifact
  | ReasonMalformedSerial | ReasonMalformedSubject | ReasonMalformedPrincipal | ReasonMalformedPrincipalType
  | ReasonMalformedRoles | ReasonMalformedIssuer | ReasonMalformedTime | ReasonInvertedWindow | ReasonIssuerDidNotSign
  | ReasonSignerKeyMalformed | ReasonSignerKeyMismatch | ReasonSignatureMalformed | ReasonSignatureInvalid
  | ReasonRevocationUnverifiable
  | OtherReason string

datatype IdentityReasonClass = NoClass | ClassUnconfigured | ClassUnanchored | ClassLifecycle | ClassMalformed | ClassForged

definition ClassOf :: "IdentityReason \<Rightarrow> IdentityReasonClass" where
  "ClassOf r =
    (if r = NoReason then NoClass
     else if r = ReasonNoIssuerPinned then ClassUnconfigured
     else if r = ReasonNoPinnedIssuerVerified then ClassUnanchored
     else if r \<in> {ReasonNotYetValid, ReasonExpired, ReasonRevoked} then ClassLifecycle
     else if r = ReasonSubjectMismatch then ClassMalformed
     else if r \<in> {ReasonSignatureInvalid, ReasonRevocationUnverifiable} then ClassForged
     else ClassMalformed)"

definition severity :: "IdentityReason \<Rightarrow> nat" where
  "severity r =
    (if r = ReasonSignatureInvalid then 4
     else if r = ReasonSignerKeyMismatch then 3
     else if r = ReasonSignerKeyMalformed then 2
     else if r = ReasonSignatureMalformed then 1
     else 0)"

record keyOutcome =
  ko_fpr :: string
  ko_reason :: IdentityReason

datatype roles_problem = RolesEmpty | RoleEmptyAt nat | RoleRepeated string

datatype detail =
    NoDetail
  | VersionDetail string | AlgorithmDetail string | EmptySerial | NotAFingerprint string | EmptyPrincipal | EmptyPrincipalType
  | RolesDetail roles_problem | NotRFC3339 string | Inverted string string | NotSignedBy string | NothingChecked
  | NoneSigned nat | Outcomes "keyOutcome list" | VerifiedBySome nat nat "keyOutcome list"
  | OpensLater string string | ClosedBefore string string | StatementUnverified string | SerialListed string string
  | EmptyStatementID | RevokedSerialEmpty nat | RevokedAtBad nat string
  | AboutAnother string string | Unchecked | ReasonText IdentityReason | NotAnArtifact nat | BindingMissing | ParseDetail

section \<open>Artifacts\<close>

definition IdentityVersion :: string where "IdentityVersion = ''v2''"
definition AlgorithmEd25519 :: string where "AlgorithmEd25519 = ''ed25519''"
definition IdentitySchema :: string where "IdentitySchema = ''netherchat.identity/v1''"
definition fingerprintPrefix :: string where "fingerprintPrefix = ''SHA256:''"
definition fingerprintBodyLen :: nat where "fingerprintBodyLen = 43"
definition RevocationVersion :: string where "RevocationVersion = ''v1''"

record IdentityAttestation =
  ia_Version :: string
  ia_Serial :: string
  ia_Subject :: string
  ia_Principal :: string
  ia_DisplayName :: string
  ia_PrincipalType :: string
  ia_Roles :: "string list"
  ia_IssuedAt :: string
  ia_ExpiresAt :: string
  ia_Algorithm :: string
  ia_Issuer :: string
  ia_Signatures :: "(string, string) gomap"
  ia_SignerKeys :: "(string, string) gomap"

record IdentitySpec =
  is_Serial :: string
  is_Subject :: string
  is_Principal :: string
  is_DisplayName :: string
  is_PrincipalType :: string
  is_Roles :: "string list"
  is_ExpiresAt :: string
  is_Algorithm :: string
  is_Issuer :: string

definition NewIdentityAttestation :: "string \<Rightarrow> IdentitySpec \<Rightarrow> (string, bytes) gomap \<Rightarrow> (string, bytes) gomap \<Rightarrow> IdentityAttestation" where
  "NewIdentityAttestation now spec sigs skeys =
    \<lparr>ia_Version = IdentityVersion, ia_Serial = is_Serial spec, ia_Subject = is_Subject spec, ia_Principal = is_Principal spec,
     ia_DisplayName = is_DisplayName spec, ia_PrincipalType = is_PrincipalType spec, ia_Roles = sort (is_Roles spec),
     ia_IssuedAt = now, ia_ExpiresAt = is_ExpiresAt spec, ia_Algorithm = is_Algorithm spec, ia_Issuer = is_Issuer spec,
     ia_Signatures = b64map sigs, ia_SignerKeys = b64map skeys\<rparr>"

definition WithSignatures :: "(string, bytes) gomap \<Rightarrow> (string, bytes) gomap \<Rightarrow> IdentityAttestation \<Rightarrow> IdentityAttestation" where
  "WithSignatures sigs skeys a = a\<lparr>ia_Signatures := b64map sigs, ia_SignerKeys := b64map skeys\<rparr>"

definition identityBytes :: "IdentityAttestation \<Rightarrow> bytes" where
  "identityBytes a = IdentitySigningBytes (ia_Serial a) (ia_Subject a) (ia_Principal a) (ia_DisplayName a) (ia_PrincipalType a)
     (ia_Roles a) (ia_IssuedAt a) (ia_ExpiresAt a) (ia_Algorithm a) (ia_Issuer a)"

record RevokedSerial =
  rv_Serial :: string
  rv_RevokedAt :: string
  rv_Reason :: string

record RevocationStatement =
  rt_Version :: string
  rt_Issuer :: string
  rt_StatementID :: string
  rt_Number :: "64 word"
  rt_IssuedAt :: string
  rt_NextUpdate :: string
  rt_Revoked :: "RevokedSerial list"
  rt_Signatures :: "(string, string) gomap"
  rt_SignerKeys :: "(string, string) gomap"

record RevocationSpec =
  rp_Issuer :: string
  rp_StatementID :: string
  rp_Number :: "64 word"
  rp_NextUpdate :: string
  rp_Revoked :: "RevokedSerial list"

definition NewRevocation :: "string \<Rightarrow> RevocationSpec \<Rightarrow> (string, bytes) gomap \<Rightarrow> (string, bytes) gomap \<Rightarrow> RevocationStatement" where
  "NewRevocation now spec sigs skeys =
    \<lparr>rt_Version = RevocationVersion, rt_Issuer = rp_Issuer spec, rt_StatementID = rp_StatementID spec, rt_Number = rp_Number spec,
     rt_IssuedAt = now, rt_NextUpdate = rp_NextUpdate spec, rt_Revoked = rp_Revoked spec, rt_Signatures = b64map sigs,
     rt_SignerKeys = b64map skeys\<rparr>"

definition RevocationWithSignatures :: "(string, bytes) gomap \<Rightarrow> (string, bytes) gomap \<Rightarrow> RevocationStatement \<Rightarrow> RevocationStatement" where
  "RevocationWithSignatures sigs skeys s = s\<lparr>rt_Signatures := b64map sigs, rt_SignerKeys := b64map skeys\<rparr>"

text \<open>The three slices have the length of the revoked list, so the layout never panics.\<close>

definition revocationBytes :: "RevocationStatement \<Rightarrow> bytes" where
  "revocationBytes s =
    the (RevocationSigningBytes (rt_Issuer s) (rt_StatementID s) (rt_Number s) (rt_IssuedAt s) (rt_NextUpdate s)
      (map rv_Serial (rt_Revoked s)) (map rv_RevokedAt (rt_Revoked s)) (map rv_Reason (rt_Revoked s)))"

section \<open>Structural checks\<close>

fun rolesLoop :: "nat \<Rightarrow> string list \<Rightarrow> string list \<Rightarrow> roles_problem option" where
  "rolesLoop i seen [] = None"
| "rolesLoop i seen (r # rs) =
    (if r = [] then Some (RoleEmptyAt i)
     else if r \<in> set seen then Some (RoleRepeated r)
     else rolesLoop (Suc i) (r # seen) rs)"

definition rolesProblem :: "string list \<Rightarrow> roles_problem option" where
  "rolesProblem roles = (if length roles = 0 then Some RolesEmpty else rolesLoop 0 [] roles)"

text \<open>\<open>RawStdEncoding\<close>: standard base 64 without padding. A padding sign is refused, and a
  final group of two or three digits stands for one or two bytes.\<close>

definition raw_decode :: "string \<Rightarrow> bytes option" where
  "raw_decode s =
    (let t = filter (\<lambda>ch. ch \<noteq> CHR 0x0A \<and> ch \<noteq> CHR 0x0D) s
     in if eq_sign \<in> set t \<or> length t mod 4 = 1 then None else b64_quanta (t @ replicate ((4 - length t mod 4) mod 4) eq_sign))"

definition isFingerprint :: "string \<Rightarrow> bool" where
  "isFingerprint s =
    (if take (length fingerprintPrefix) s \<noteq> fingerprintPrefix then False
     else let body = drop (length fingerprintPrefix) s
     in if length body \<noteq> fingerprintBodyLen then False
     else case raw_decode body of None \<Rightarrow> False | Some raw \<Rightarrow> length raw = sha256_Size)"

section \<open>The pinned keys\<close>

text \<open>One turn of the loop: skipped, verified, or a failure to report.\<close>

datatype pin = Skipped | Verified string | Failed keyOutcome

definition checkPin :: "Prims \<Rightarrow> bytes \<Rightarrow> (string, string) gomap \<Rightarrow> (string, string) gomap \<Rightarrow> bytes \<Rightarrow> pin" where
  "checkPin c pre sigs skeys pinned =
    (let fpr = pr_fingerprint c pinned
     in case mget sigs fpr of
          None \<Rightarrow> Skipped
        | Some sigB64 \<Rightarrow>
           (case (case mget skeys fpr of
                    None \<Rightarrow> NoReason
                  | Some keyB64 \<Rightarrow>
                     (case std_decode keyB64 of
                        None \<Rightarrow> ReasonSignerKeyMalformed
                      | Some embedded \<Rightarrow>
                         (if length embedded \<noteq> PublicKeySize then ReasonSignerKeyMalformed
                          else if pr_fingerprint c embedded \<noteq> fpr then ReasonSignerKeyMismatch
                          else NoReason))) of
              NoReason \<Rightarrow>
                (case std_decode sigB64 of
                   None \<Rightarrow> Failed \<lparr>ko_fpr = fpr, ko_reason = ReasonSignatureMalformed\<rparr>
                 | Some sig \<Rightarrow>
                    (if \<not> pr_verify c pinned pre sig then Failed \<lparr>ko_fpr = fpr, ko_reason = ReasonSignatureInvalid\<rparr>
                     else Verified fpr))
            | reason \<Rightarrow> Failed \<lparr>ko_fpr = fpr, ko_reason = reason\<rparr>))"

fun pinLoop :: "Prims \<Rightarrow> bytes \<Rightarrow> (string, string) gomap \<Rightarrow> (string, string) gomap \<Rightarrow> bytes list \<Rightarrow> string list \<Rightarrow> keyOutcome list \<Rightarrow>
    string list \<times> keyOutcome list" where
  "pinLoop c pre sigs skeys [] verifiedBy outcomes = (sort verifiedBy, sort_key ko_fpr outcomes)"
| "pinLoop c pre sigs skeys (k # ks) verifiedBy outcomes =
    (case checkPin c pre sigs skeys k of
       Skipped \<Rightarrow> pinLoop c pre sigs skeys ks verifiedBy outcomes
     | Failed out \<Rightarrow> pinLoop c pre sigs skeys ks verifiedBy (outcomes @ [out])
     | Verified fpr \<Rightarrow> pinLoop c pre sigs skeys ks (verifiedBy @ [fpr]) outcomes)"

fun worstOf :: "keyOutcome \<Rightarrow> keyOutcome list \<Rightarrow> keyOutcome" where
  "worstOf worst [] = worst"
| "worstOf worst (out # os) = worstOf (if severity (ko_reason out) > severity (ko_reason worst) then out else worst) os"

fun badKey :: "nat \<Rightarrow> bytes list \<Rightarrow> (nat \<times> nat) option" where
  "badKey i [] = None"
| "badKey i (k # ks) = (if length k \<noteq> PublicKeySize then Some (i, length k) else badKey (Suc i) ks)"

section \<open>Revocation statements\<close>

record RevocationResult =
  rz_Valid :: bool
  rz_Issuer :: string
  rz_StatementID :: string
  rz_Number :: "64 word"
  rz_IssuedAt :: string
  rz_NextUpdate :: string
  rz_Serials :: nat
  rz_VerifiedBy :: "string list"
  rz_Reason :: IdentityReason
  rz_ReasonClass :: IdentityReasonClass
  rz_Detail :: detail

definition revFail :: "IdentityReason \<Rightarrow> detail \<Rightarrow> RevocationResult \<Rightarrow> RevocationResult" where
  "revFail r d res = res\<lparr>rz_Valid := False, rz_Reason := r, rz_ReasonClass := ClassOf r, rz_Detail := d\<rparr>"

datatype call_error = NilArtifact | IssuerKeySize nat nat | ZeroTime

fun revokedProblem :: "Prims \<Rightarrow> nat \<Rightarrow> RevokedSerial list \<Rightarrow> (IdentityReason \<times> detail) option" where
  "revokedProblem c i [] = None"
| "revokedProblem c i (r # rs) =
    (if rv_Serial r = [] then Some (ReasonMalformedSerial, RevokedSerialEmpty i)
     else if pr_parse_time c (rv_RevokedAt r) = None then Some (ReasonMalformedTime, RevokedAtBad i (rv_RevokedAt r))
     else revokedProblem c (Suc i) rs)"

text \<open>The checks before any signature is looked at.\<close>

definition statementProblem :: "Prims \<Rightarrow> RevocationStatement \<Rightarrow> (IdentityReason \<times> detail) option" where
  "statementProblem c s =
    (if rt_Version s \<noteq> RevocationVersion then Some (ReasonUnsupportedVersion, VersionDetail (rt_Version s))
     else if \<not> isFingerprint (rt_Issuer s) then Some (ReasonMalformedIssuer, NotAFingerprint (rt_Issuer s))
     else if rt_StatementID s = [] then Some (ReasonMalformedSerial, EmptyStatementID)
     else if pr_parse_time c (rt_IssuedAt s) = None then Some (ReasonMalformedTime, NotRFC3339 (rt_IssuedAt s))
     else if rt_NextUpdate s \<noteq> [] \<and> pr_parse_time c (rt_NextUpdate s) = None then Some (ReasonMalformedTime, NotRFC3339 (rt_NextUpdate s))
     else case revokedProblem c 0 (rt_Revoked s) of
       Some p \<Rightarrow> Some p
     | None \<Rightarrow> (if mget (rt_Signatures s) (rt_Issuer s) = None then Some (ReasonIssuerDidNotSign, NotSignedBy (rt_Issuer s)) else None))"

definition VerifyRevocation :: "Prims \<Rightarrow> RevocationStatement option \<Rightarrow> bytes list \<Rightarrow> call_error + RevocationResult" where
  "VerifyRevocation c st issuerKeys =
    (case st of
       None \<Rightarrow> Inl NilArtifact
     | Some s \<Rightarrow>
        (case badKey 0 issuerKeys of
           Some (i, n) \<Rightarrow> Inl (IssuerKeySize i n)
         | None \<Rightarrow>
            (let res = \<lparr>rz_Valid = False, rz_Issuer = rt_Issuer s, rz_StatementID = rt_StatementID s, rz_Number = rt_Number s,
                   rz_IssuedAt = rt_IssuedAt s, rz_NextUpdate = rt_NextUpdate s, rz_Serials = length (rt_Revoked s), rz_VerifiedBy = [],
                   rz_Reason = NoReason, rz_ReasonClass = NoClass, rz_Detail = NoDetail\<rparr>
             in case statementProblem c s of
                  Some (r, d) \<Rightarrow> Inr (revFail r d res)
                | None \<Rightarrow>
                   (if length issuerKeys = 0 then Inr (revFail ReasonNoIssuerPinned NothingChecked res)
                    else let (verifiedBy, outcomes) = pinLoop c (revocationBytes s) (rt_Signatures s) (rt_SignerKeys s) issuerKeys [] [];
                             res = res\<lparr>rz_VerifiedBy := verifiedBy\<rparr>
                         in if length verifiedBy = 0 then
                              (case outcomes of
                                 [] \<Rightarrow> Inr (revFail ReasonNoPinnedIssuerVerified (NoneSigned (length issuerKeys)) res)
                               | w # ws \<Rightarrow> Inr (revFail (ko_reason (worstOf w ws)) (Outcomes outcomes) res))
                            else
                              (let res = (if length outcomes > 0
                                 then res\<lparr>rz_Detail := VerifiedBySome (length verifiedBy) (length verifiedBy + length outcomes) outcomes\<rparr> else res)
                               in Inr (res\<lparr>rz_Valid := True\<rparr>))))))"

record RevocationCheck =
  ck_StatementID :: string
  ck_Number :: "64 word"
  ck_IssuedAt :: string
  ck_NextUpdate :: string
  ck_Issuer :: string
  ck_CoversIssuer :: bool
  ck_Listed :: bool
  ck_Stale :: bool

record IdentityOptions =
  io_IssuerKeys :: "bytes list"
  io_At :: int
  io_Revocations :: "RevocationStatement option list"

definition statementName :: "RevocationStatement \<Rightarrow> string" where
  "statementName s = (if rt_StatementID s = [] then ''(unnamed statement)'' else rt_StatementID s)"

definition checkOf :: "Prims \<Rightarrow> IdentityAttestation \<Rightarrow> int \<Rightarrow> RevocationStatement \<Rightarrow> RevocationCheck" where
  "checkOf c a at s =
    (let covers = rt_Issuer s = ia_Issuer a
     in \<lparr>ck_StatementID = rt_StatementID s, ck_Number = rt_Number s, ck_IssuedAt = rt_IssuedAt s, ck_NextUpdate = rt_NextUpdate s,
         ck_Issuer = rt_Issuer s, ck_CoversIssuer = covers, ck_Listed = covers \<and> list_ex (\<lambda>r. rv_Serial r = ia_Serial a) (rt_Revoked s),
         ck_Stale = (rt_NextUpdate s \<noteq> [] \<and> (case pr_parse_time c (rt_NextUpdate s) of Some next \<Rightarrow> at > next | None \<Rightarrow> False))\<rparr>)"

fun revLoop :: "Prims \<Rightarrow> IdentityAttestation \<Rightarrow> IdentityOptions \<Rightarrow> RevocationStatement option list \<Rightarrow> RevocationCheck list \<Rightarrow> string \<Rightarrow> string \<Rightarrow>
    RevocationCheck list \<times> string \<times> string" where
  "revLoop c a opts [] checks revokedBy unverifiable = (checks, revokedBy, unverifiable)"
| "revLoop c a opts (None # ss) checks revokedBy unverifiable = revLoop c a opts ss checks revokedBy unverifiable"
| "revLoop c a opts (Some s # ss) checks revokedBy unverifiable =
    (if (case VerifyRevocation c (Some s) (io_IssuerKeys opts) of Inl _ \<Rightarrow> True | Inr res \<Rightarrow> \<not> rz_Valid res)
     then revLoop c a opts ss checks revokedBy (if unverifiable = [] then statementName s else unverifiable)
     else let chk = checkOf c a (io_At opts) s
          in revLoop c a opts ss (checks @ [chk]) (if ck_Listed chk \<and> revokedBy = [] then statementName s else revokedBy) unverifiable)"

definition checkRevocations :: "Prims \<Rightarrow> IdentityAttestation \<Rightarrow> IdentityOptions \<Rightarrow> RevocationCheck list \<times> string \<times> string" where
  "checkRevocations c a opts = revLoop c a opts (io_Revocations opts) [] [] []"

section \<open>Identity verification\<close>

record IdentityResult =
  ir_Valid :: bool
  ir_Subject :: string
  ir_Principal :: string
  ir_DisplayName :: string
  ir_PrincipalType :: string
  ir_Roles :: "string list"
  ir_Serial :: string
  ir_Issuer :: string
  ir_VerifiedBy :: "string list"
  ir_NotBefore :: string
  ir_NotAfter :: string
  ir_EvaluatedAt :: string
  ir_Revocation :: "RevocationCheck list"
  ir_Reason :: IdentityReason
  ir_ReasonClass :: IdentityReasonClass
  ir_Detail :: detail

definition idFail :: "IdentityReason \<Rightarrow> detail \<Rightarrow> IdentityResult \<Rightarrow> IdentityResult" where
  "idFail r d res = res\<lparr>ir_Valid := False, ir_Reason := r, ir_ReasonClass := ClassOf r, ir_Detail := d\<rparr>"

text \<open>Steps 1 to 3: version, algorithm, structure; the two ends of the window, when nothing is wrong.\<close>

definition artifactProblem :: "Prims \<Rightarrow> IdentityAttestation \<Rightarrow> (IdentityReason \<times> detail) + int \<times> int" where
  "artifactProblem c a =
    (if ia_Version a \<noteq> IdentityVersion then Inl (ReasonUnsupportedVersion, VersionDetail (ia_Version a))
     else if ia_Algorithm a \<noteq> AlgorithmEd25519 then Inl (ReasonUnsupportedAlgorithm, AlgorithmDetail (ia_Algorithm a))
     else if ia_Serial a = [] then Inl (ReasonMalformedSerial, EmptySerial)
     else if \<not> isFingerprint (ia_Subject a) then Inl (ReasonMalformedSubject, NotAFingerprint (ia_Subject a))
     else if ia_Principal a = [] then Inl (ReasonMalformedPrincipal, EmptyPrincipal)
     else if ia_PrincipalType a = [] then Inl (ReasonMalformedPrincipalType, EmptyPrincipalType)
     else case rolesProblem (ia_Roles a) of
       Some p \<Rightarrow> Inl (ReasonMalformedRoles, RolesDetail p)
     | None \<Rightarrow>
        (if \<not> isFingerprint (ia_Issuer a) then Inl (ReasonMalformedIssuer, NotAFingerprint (ia_Issuer a))
         else case pr_parse_time c (ia_IssuedAt a) of
           None \<Rightarrow> Inl (ReasonMalformedTime, NotRFC3339 (ia_IssuedAt a))
         | Some notBefore \<Rightarrow>
            (case pr_parse_time c (ia_ExpiresAt a) of
               None \<Rightarrow> Inl (ReasonMalformedTime, NotRFC3339 (ia_ExpiresAt a))
             | Some notAfter \<Rightarrow>
                (if notAfter < notBefore then Inl (ReasonInvertedWindow, Inverted (ia_ExpiresAt a) (ia_IssuedAt a))
                 else Inr (notBefore, notAfter)))))"

definition newResult :: "Prims \<Rightarrow> IdentityAttestation \<Rightarrow> IdentityOptions \<Rightarrow> IdentityResult" where
  "newResult c a opts =
    \<lparr>ir_Valid = False, ir_Subject = ia_Subject a, ir_Principal = ia_Principal a, ir_DisplayName = ia_DisplayName a,
     ir_PrincipalType = ia_PrincipalType a, ir_Roles = ia_Roles a, ir_Serial = ia_Serial a, ir_Issuer = ia_Issuer a, ir_VerifiedBy = [],
     ir_NotBefore = ia_IssuedAt a, ir_NotAfter = ia_ExpiresAt a, ir_EvaluatedAt = pr_format_time c (io_At opts), ir_Revocation = [],
     ir_Reason = NoReason, ir_ReasonClass = NoClass, ir_Detail = NoDetail\<rparr>"

text \<open>Steps 7 and 8: the window and the revocations.\<close>

definition judge :: "Prims \<Rightarrow> IdentityAttestation \<Rightarrow> IdentityOptions \<Rightarrow> int \<times> int \<Rightarrow> IdentityResult \<Rightarrow> IdentityResult" where
  "judge c a opts w res =
    (if io_At opts < fst w then idFail ReasonNotYetValid (OpensLater (ia_IssuedAt a) (ir_EvaluatedAt res)) res
     else if io_At opts > snd w then idFail ReasonExpired (ClosedBefore (ia_ExpiresAt a) (ir_EvaluatedAt res)) res
     else if length (io_Revocations opts) > 0 then
       (let (checks, revokedBy, unverifiable) = checkRevocations c a opts;
            res = res\<lparr>ir_Revocation := checks\<rparr>
        in if unverifiable \<noteq> [] then idFail ReasonRevocationUnverifiable (StatementUnverified unverifiable) res
           else if revokedBy \<noteq> [] then idFail ReasonRevoked (SerialListed (ia_Serial a) revokedBy) res
           else res\<lparr>ir_Valid := True\<rparr>)
     else res\<lparr>ir_Valid := True\<rparr>)"

definition VerifyIdentity :: "Prims \<Rightarrow> IdentityAttestation option \<Rightarrow> IdentityOptions \<Rightarrow> call_error + IdentityResult" where
  "VerifyIdentity c att opts =
    (case att of
       None \<Rightarrow> Inl NilArtifact
     | Some a \<Rightarrow>
        (case badKey 0 (io_IssuerKeys opts) of
           Some (i, n) \<Rightarrow> Inl (IssuerKeySize i n)
         | None \<Rightarrow>
            (if io_At opts = 0 then Inl ZeroTime
             else let res = newResult c a opts
             in case artifactProblem c a of
                  Inl (r, d) \<Rightarrow> Inr (idFail r d res)
                | Inr w \<Rightarrow>
                   (if mget (ia_Signatures a) (ia_Issuer a) = None then Inr (idFail ReasonIssuerDidNotSign (NotSignedBy (ia_Issuer a)) res)
                    else if length (io_IssuerKeys opts) = 0 then Inr (idFail ReasonNoIssuerPinned NothingChecked res)
                    else let (verifiedBy, outcomes) = pinLoop c (identityBytes a) (ia_Signatures a) (ia_SignerKeys a) (io_IssuerKeys opts) [] [];
                             res = res\<lparr>ir_VerifiedBy := verifiedBy\<rparr>
                         in if length verifiedBy = 0 then
                              (case outcomes of
                                 [] \<Rightarrow> Inr (idFail ReasonNoPinnedIssuerVerified (NoneSigned (length (io_IssuerKeys opts))) res)
                               | x # xs \<Rightarrow> Inr (idFail (ko_reason (worstOf x xs)) (Outcomes outcomes) res))
                            else
                              (let res = (if length outcomes > 0
                                 then res\<lparr>ir_Detail := VerifiedBySome (length verifiedBy) (length verifiedBy + length outcomes) outcomes\<rparr> else res)
                               in Inr (judge c a opts w res))))))"

section \<open>What a verdict rests on\<close>

text \<open>A pinned key vouches: the artifact names its fingerprint, an embedded key, if any, is
  consistent with it, and the signature verifies under the pinned key.\<close>

definition vouches :: "Prims \<Rightarrow> bytes \<Rightarrow> (string, string) gomap \<Rightarrow> (string, string) gomap \<Rightarrow> bytes \<Rightarrow> bool" where
  "vouches c pre sigs skeys k \<longleftrightarrow>
    (\<exists>sigB sig. mget sigs (pr_fingerprint c k) = Some sigB \<and> std_decode sigB = Some sig \<and> pr_verify c k pre sig) \<and>
    (\<forall>keyB. mget skeys (pr_fingerprint c k) = Some keyB \<longrightarrow>
       (\<exists>e. std_decode keyB = Some e \<and> length e = PublicKeySize \<and> pr_fingerprint c e = pr_fingerprint c k))"

text \<open>A pinned key contradicts: a readable signature under its name does not verify.\<close>

definition contradicts :: "Prims \<Rightarrow> bytes \<Rightarrow> (string, string) gomap \<Rightarrow> bytes \<Rightarrow> bool" where
  "contradicts c pre sigs k \<longleftrightarrow>
    (\<exists>sigB sig. mget sigs (pr_fingerprint c k) = Some sigB \<and> std_decode sigB = Some sig \<and> \<not> pr_verify c k pre sig)"

definition statement_form :: "Prims \<Rightarrow> RevocationStatement \<Rightarrow> bool" where
  "statement_form c s \<longleftrightarrow> rt_Version s = RevocationVersion \<and> isFingerprint (rt_Issuer s) \<and> rt_StatementID s \<noteq> [] \<and>
     pr_parse_time c (rt_IssuedAt s) \<noteq> None \<and> (rt_NextUpdate s \<noteq> [] \<longrightarrow> pr_parse_time c (rt_NextUpdate s) \<noteq> None) \<and>
     (\<forall>r \<in> set (rt_Revoked s). rv_Serial r \<noteq> [] \<and> pr_parse_time c (rv_RevokedAt r) \<noteq> None) \<and>
     mget (rt_Signatures s) (rt_Issuer s) \<noteq> None"

definition statement_ok :: "Prims \<Rightarrow> bytes list \<Rightarrow> RevocationStatement \<Rightarrow> bool" where
  "statement_ok c ks s \<longleftrightarrow> statement_form c s \<and>
     (\<exists>k \<in> set ks. vouches c (revocationBytes s) (rt_Signatures s) (rt_SignerKeys s) k)"

definition window_of :: "Prims \<Rightarrow> IdentityAttestation \<Rightarrow> (int \<times> int) option" where
  "window_of c a = (case (pr_parse_time c (ia_IssuedAt a), pr_parse_time c (ia_ExpiresAt a)) of
     (Some nb, Some na) \<Rightarrow> (if na < nb then None else Some (nb, na)) | _ \<Rightarrow> None)"

definition identity_form :: "IdentityAttestation \<Rightarrow> bool" where
  "identity_form a \<longleftrightarrow> ia_Version a = IdentityVersion \<and> ia_Algorithm a = AlgorithmEd25519 \<and> ia_Serial a \<noteq> [] \<and>
     isFingerprint (ia_Subject a) \<and> ia_Principal a \<noteq> [] \<and> ia_PrincipalType a \<noteq> [] \<and> ia_Roles a \<noteq> [] \<and> [] \<notin> set (ia_Roles a) \<and>
     distinct (ia_Roles a) \<and> isFingerprint (ia_Issuer a)"

text \<open>Withdrawn: a supplied statement of the same issuer lists the serial.\<close>

definition listed :: "IdentityAttestation \<Rightarrow> RevocationStatement \<Rightarrow> bool" where
  "listed a s \<longleftrightarrow> rt_Issuer s = ia_Issuer a \<and> ia_Serial a \<in> rv_Serial ` set (rt_Revoked s)"

definition attested :: "Prims \<Rightarrow> IdentityAttestation \<Rightarrow> IdentityOptions \<Rightarrow> bool" where
  "attested c a opts \<longleftrightarrow> identity_form a \<and> mget (ia_Signatures a) (ia_Issuer a) \<noteq> None \<and>
     (\<exists>k \<in> set (io_IssuerKeys opts). vouches c (identityBytes a) (ia_Signatures a) (ia_SignerKeys a) k) \<and>
     (\<exists>nb na. window_of c a = Some (nb, na) \<and> nb \<le> io_At opts \<and> io_At opts \<le> na) \<and>
     (\<forall>s. Some s \<in> set (io_Revocations opts) \<longrightarrow> statement_ok c (io_IssuerKeys opts) s \<and> \<not> listed a s)"

definition call_ok :: "IdentityOptions \<Rightarrow> bool" where
  "call_ok opts \<longleftrightarrow> list_all (\<lambda>k. length k = PublicKeySize) (io_IssuerKeys opts) \<and> io_At opts \<noteq> 0"

lemma badKey_None: "badKey i ks = None \<longleftrightarrow> list_all (\<lambda>k. length k = PublicKeySize) ks"
  by (induction i ks rule: badKey.induct) auto

lemma rolesLoop_None: "rolesLoop i seen rs = None \<longleftrightarrow> [] \<notin> set rs \<and> distinct rs \<and> set rs \<inter> set seen = {}"
  by (induction i seen rs rule: rolesLoop.induct) auto

lemma revokedProblem_None:
  "revokedProblem c i rs = None \<longleftrightarrow> (\<forall>r \<in> set rs. rv_Serial r \<noteq> [] \<and> pr_parse_time c (rv_RevokedAt r) \<noteq> None)"
  by (induction c i rs rule: revokedProblem.induct) auto

lemma statementProblem_None: "statementProblem c s = None \<longleftrightarrow> statement_form c s"
  unfolding statementProblem_def statement_form_def
  using revokedProblem_None [of c 0 "rt_Revoked s"] by (cases "revokedProblem c 0 (rt_Revoked s)") (simp_all del: not_None_eq)

lemma artifactProblem_Inr: "artifactProblem c a = Inr w \<longleftrightarrow> identity_form a \<and> window_of c a = Some w"
  unfolding artifactProblem_def identity_form_def window_of_def rolesProblem_def
  using rolesLoop_None [of 0 "[]" "ia_Roles a"]
  by (cases "rolesLoop 0 [] (ia_Roles a)") (auto split: option.splits)

lemma checkPin_Verified: "checkPin c pre sigs skeys k = Verified f \<longleftrightarrow> vouches c pre sigs skeys k \<and> f = pr_fingerprint c k"
  unfolding checkPin_def vouches_def Let_def by (auto split: option.splits)

lemma checkPin_Failed:
  "checkPin c pre sigs skeys k = Failed out \<Longrightarrow> ko_fpr out = pr_fingerprint c k \<and> \<not> vouches c pre sigs skeys k \<and>
    ko_reason out \<in> {ReasonSignerKeyMalformed, ReasonSignerKeyMismatch, ReasonSignatureMalformed, ReasonSignatureInvalid} \<and>
    (ko_reason out = ReasonSignatureInvalid \<longrightarrow> contradicts c pre sigs k)"
  unfolding checkPin_def vouches_def contradicts_def Let_def by (auto split: option.splits if_splits)

text \<open>What the loop over the pinned keys collects.\<close>

definition vouchers :: "Prims \<Rightarrow> bytes \<Rightarrow> (string, string) gomap \<Rightarrow> (string, string) gomap \<Rightarrow> bytes list \<Rightarrow> string list" where
  "vouchers c pre sigs skeys ks = concat (map (\<lambda>k. case checkPin c pre sigs skeys k of Verified f \<Rightarrow> [f] | _ \<Rightarrow> []) ks)"

definition failures :: "Prims \<Rightarrow> bytes \<Rightarrow> (string, string) gomap \<Rightarrow> (string, string) gomap \<Rightarrow> bytes list \<Rightarrow> keyOutcome list" where
  "failures c pre sigs skeys ks = concat (map (\<lambda>k. case checkPin c pre sigs skeys k of Failed out \<Rightarrow> [out] | _ \<Rightarrow> []) ks)"

lemma sort_key_Nil [simp]: "sort_key f xs = [] \<longleftrightarrow> xs = []"
  by (metis set_empty set_sort)

lemma pinLoop_eq:
  "pinLoop c pre sigs skeys ks v outs = (sort (v @ vouchers c pre sigs skeys ks), sort_key ko_fpr (outs @ failures c pre sigs skeys ks))"
  by (induction c pre sigs skeys ks v outs rule: pinLoop.induct) (simp_all add: vouchers_def failures_def split: pin.splits)

lemma set_vouchers: "set (vouchers c pre sigs skeys ks) = pr_fingerprint c ` {k \<in> set ks. vouches c pre sigs skeys k}"
proof -
  have "set (case checkPin c pre sigs skeys k of Verified f \<Rightarrow> [f] | _ \<Rightarrow> []) = (if vouches c pre sigs skeys k then {pr_fingerprint c k} else {})" for k
    using checkPin_Verified [of c pre sigs skeys k] by (cases "checkPin c pre sigs skeys k") auto
  then show ?thesis unfolding vouchers_def by auto
qed

lemma vouchers_Nil: "vouchers c pre sigs skeys ks = [] \<longleftrightarrow> \<not> (\<exists>k \<in> set ks. vouches c pre sigs skeys k)"
  unfolding set_empty [symmetric] set_vouchers by auto

lemma set_failures: "out \<in> set (failures c pre sigs skeys ks) \<longleftrightarrow> (\<exists>k \<in> set ks. checkPin c pre sigs skeys k = Failed out)"
proof -
  have "out \<in> set (case checkPin c pre sigs skeys k of Failed out \<Rightarrow> [out] | _ \<Rightarrow> []) \<longleftrightarrow> checkPin c pre sigs skeys k = Failed out" for k
    by (cases "checkPin c pre sigs skeys k") auto
  then show ?thesis unfolding failures_def by simp
qed

lemma worstOf_in: "worstOf w os \<in> insert w (set os)"
  by (induction w os rule: worstOf.induct) auto

text \<open>The verdict of a loop in which nobody vouches.\<close>

lemma worst_failure:
  assumes "sort_key ko_fpr (failures c pre sigs skeys ks) = x # xs"
  shows "\<exists>k \<in> set ks. checkPin c pre sigs skeys k = Failed (worstOf x xs)"
proof -
  have "worstOf x xs \<in> set (sort_key ko_fpr (failures c pre sigs skeys ks))" using worstOf_in [of x xs] assms by simp
  then show ?thesis by (simp only: set_sort set_failures)
qed

lemma VerifyRevocation_Valid:
  assumes "list_all (\<lambda>k. length k = PublicKeySize) ks"
  shows "\<exists>res. VerifyRevocation c (Some s) ks = Inr res \<and> (rz_Valid res \<longleftrightarrow> statement_ok c ks s)"
proof -
  have b: "badKey 0 ks = None" using assms badKey_None by blast
  show ?thesis
  proof (cases "statementProblem c s")
    case (Some p)
    then have "\<not> statement_form c s" using statementProblem_None [of c s] by simp
    then show ?thesis using Some b by (cases p) (simp add: VerifyRevocation_def revFail_def statement_ok_def)
  next
    case None
    then have form: "statement_form c s" using statementProblem_None by blast
    let ?v = "vouchers c (revocationBytes s) (rt_Signatures s) (rt_SignerKeys s) ks"
      and ?o = "sort_key ko_fpr (failures c (revocationBytes s) (rt_Signatures s) (rt_SignerKeys s) ks)"
    have ok: "statement_ok c ks s \<longleftrightarrow> ?v \<noteq> []" using form vouchers_Nil unfolding statement_ok_def by blast
    show ?thesis
    proof (cases "ks = []")
      case False
      then show ?thesis unfolding ok using b None
        by (cases ?o; cases "?v = []") (simp_all add: VerifyRevocation_def pinLoop_eq revFail_def Let_def)
    qed (use ok b None in \<open>simp add: VerifyRevocation_def revFail_def vouchers_def\<close>)
  qed
qed

lemma revLoop_spec:
  "revLoop c a opts ss checks rb uv = (checks', rb', uv') \<Longrightarrow> list_all (\<lambda>k. length k = PublicKeySize) (io_IssuerKeys opts) \<Longrightarrow>
    (uv' = [] \<longleftrightarrow> uv = [] \<and> (\<forall>s. Some s \<in> set ss \<longrightarrow> statement_ok c (io_IssuerKeys opts) s)) \<and>
    (uv' = [] \<longrightarrow> (rb' = [] \<longleftrightarrow> rb = [] \<and> (\<forall>s. Some s \<in> set ss \<longrightarrow> \<not> listed a s)))"
proof (induction c a opts ss checks rb uv rule: revLoop.induct)
  case (3 c a opts s ss checks rb uv)
  have n: "statementName s \<noteq> []" by (simp add: statementName_def)
  obtain res where r: "VerifyRevocation c (Some s) (io_IssuerKeys opts) = Inr res" "rz_Valid res \<longleftrightarrow> statement_ok c (io_IssuerKeys opts) s"
    using VerifyRevocation_Valid "3.prems"(2) by blast
  have l: "ck_Listed (checkOf c a (io_At opts) s) \<longleftrightarrow> listed a s"
    by (force simp: checkOf_def Let_def listed_def list_ex_iff)
  show ?case
  proof (cases "statement_ok c (io_IssuerKeys opts) s")
    case True
    then show ?thesis using "3.IH"(2) [OF _ refl] "3.prems" r l n by (auto simp: Let_def split: if_splits)
  next
    case False
    then show ?thesis using "3.IH"(1) "3.prems" r n by (auto split: if_splits)
  qed
qed auto

lemma judge_spec:
  fixes c :: Prims and a :: IdentityAttestation and w :: "int \<times> int"
  assumes "list_all (\<lambda>k. length k = PublicKeySize) (io_IssuerKeys opts)" "ir_Reason res = NoReason" "ir_ReasonClass res = NoClass"
  defines "out \<equiv> judge c a opts w res"
  shows "ir_Valid out \<longleftrightarrow> fst w \<le> io_At opts \<and> io_At opts \<le> snd w \<and>
      (\<forall>s. Some s \<in> set (io_Revocations opts) \<longrightarrow> statement_ok c (io_IssuerKeys opts) s \<and> \<not> listed a s)"
    and "ir_Reason out = NoReason \<longleftrightarrow> ir_Valid out"
    and "ir_ReasonClass out = ClassOf (ir_Reason out)"
    and "ir_ReasonClass out = ClassForged \<Longrightarrow> \<exists>s. Some s \<in> set (io_Revocations opts) \<and> \<not> statement_ok c (io_IssuerKeys opts) s"
    and "ir_VerifiedBy out = ir_VerifiedBy res \<and> ir_Principal out = ir_Principal res \<and> ir_DisplayName out = ir_DisplayName res \<and>
      ir_Roles out = ir_Roles res \<and> ir_Subject out = ir_Subject res \<and> ir_Serial out = ir_Serial res \<and> ir_Issuer out = ir_Issuer res"
proof -
  obtain ch rb uv where l: "revLoop c a opts (io_Revocations opts) [] [] [] = (ch, rb, uv)" by (metis prod_cases3)
  note L = revLoop_spec [OF l assms(1)]
  have cl: "ClassOf ReasonRevocationUnverifiable = ClassForged" "ClassOf ReasonNotYetValid = ClassLifecycle"
      "ClassOf ReasonExpired = ClassLifecycle" "ClassOf ReasonRevoked = ClassLifecycle" "ClassOf NoReason = NoClass"
    by (simp_all add: ClassOf_def)
  note J = out_def judge_def checkRevocations_def l idFail_def Let_def
  show "ir_Valid out \<longleftrightarrow> fst w \<le> io_At opts \<and> io_At opts \<le> snd w \<and>
      (\<forall>s. Some s \<in> set (io_Revocations opts) \<longrightarrow> statement_ok c (io_IssuerKeys opts) s \<and> \<not> listed a s)"
    using L by (auto simp: J)
  show "ir_Reason out = NoReason \<longleftrightarrow> ir_Valid out" using assms(2) by (simp add: J)
  show "ir_ReasonClass out = ClassOf (ir_Reason out)" using assms(2,3) cl by (simp add: J)
  show "ir_ReasonClass out = ClassForged \<Longrightarrow> \<exists>s. Some s \<in> set (io_Revocations opts) \<and> \<not> statement_ok c (io_IssuerKeys opts) s"
    using assms(3) L cl by (auto simp: J split: if_splits)
  show "ir_VerifiedBy out = ir_VerifiedBy res \<and> ir_Principal out = ir_Principal res \<and> ir_DisplayName out = ir_DisplayName res \<and>
      ir_Roles out = ir_Roles res \<and> ir_Subject out = ir_Subject res \<and> ir_Serial out = ir_Serial res \<and> ir_Issuer out = ir_Issuer res"
    by (simp add: J)
qed

definition malformed_reasons :: "IdentityReason set" where
  "malformed_reasons = {ReasonUnsupportedVersion, ReasonUnsupportedAlgorithm, ReasonMalformedSerial, ReasonMalformedSubject,
     ReasonMalformedPrincipal, ReasonMalformedPrincipalType, ReasonMalformedRoles, ReasonMalformedIssuer, ReasonMalformedTime,
     ReasonInvertedWindow}"

lemma malformed_class: "r \<in> malformed_reasons \<Longrightarrow> ClassOf r = ClassMalformed \<and> r \<noteq> NoReason"
  by (auto simp: malformed_reasons_def ClassOf_def)

lemma artifactProblem_Inl: "artifactProblem c a = Inl p \<Longrightarrow> fst p \<in> malformed_reasons"
  unfolding artifactProblem_def malformed_reasons_def by (simp split: if_splits option.splits) auto

lemma detail_of: "r\<lparr>ir_Detail := e\<rparr> = r \<Longrightarrow> \<exists>d. (if P then r\<lparr>ir_Detail := D\<rparr> else r) = r\<lparr>ir_Detail := d\<rparr>"
  by metis

lemma VerifyIdentity_fails:
  assumes "call_ok opts" "\<not> (identity_form a \<and> window_of c a \<noteq> None \<and> mget (ia_Signatures a) (ia_Issuer a) \<noteq> None \<and> io_IssuerKeys opts \<noteq> [])"
  shows "\<exists>r d. VerifyIdentity c (Some a) opts = Inr (idFail r d (newResult c a opts)) \<and> r \<noteq> NoReason \<and>
    ClassOf r \<in> {ClassUnconfigured, ClassMalformed}"
proof -
  have b: "badKey 0 (io_IssuerKeys opts) = None" "io_At opts \<noteq> 0" using assms(1) by (simp_all add: call_ok_def badKey_None)
  show ?thesis
  proof (cases "artifactProblem c a")
    case (Inl p)
    have "fst p \<noteq> NoReason \<and> ClassOf (fst p) \<in> {ClassUnconfigured, ClassMalformed}"
      using artifactProblem_Inl [OF Inl] malformed_class by auto
    moreover have "VerifyIdentity c (Some a) opts = Inr (idFail (fst p) (snd p) (newResult c a opts))"
      using Inl b by (cases p) (simp add: VerifyIdentity_def)
    ultimately show ?thesis by blast
  next
    case (Inr w)
    then have n: "mget (ia_Signatures a) (ia_Issuer a) = None \<or> io_IssuerKeys opts = []" using assms(2) artifactProblem_Inr by auto
    have cl: "ClassOf ReasonIssuerDidNotSign = ClassMalformed" "ClassOf ReasonNoIssuerPinned = ClassUnconfigured"
      by (simp_all add: ClassOf_def)
    show ?thesis
    proof (cases "mget (ia_Signatures a) (ia_Issuer a)")
      case None
      then have "VerifyIdentity c (Some a) opts = Inr (idFail ReasonIssuerDidNotSign (NotSignedBy (ia_Issuer a)) (newResult c a opts))"
        using Inr b by (simp add: VerifyIdentity_def)
      then show ?thesis using cl by blast
    next
      case (Some sig)
      then have "VerifyIdentity c (Some a) opts = Inr (idFail ReasonNoIssuerPinned NothingChecked (newResult c a opts))"
        using Inr b n by (simp add: VerifyIdentity_def)
      then show ?thesis using cl by blast
    qed
  qed
qed

lemma VerifyIdentity_judges:
  assumes "call_ok opts" "identity_form a" "window_of c a = Some w" "mget (ia_Signatures a) (ia_Issuer a) \<noteq> None" "io_IssuerKeys opts \<noteq> []"
    and "vouchers c (identityBytes a) (ia_Signatures a) (ia_SignerKeys a) (io_IssuerKeys opts) \<noteq> []"
  obtains d where "VerifyIdentity c (Some a) opts = Inr (judge c a opts w ((newResult c a opts)\<lparr>ir_VerifiedBy :=
    sort (vouchers c (identityBytes a) (ia_Signatures a) (ia_SignerKeys a) (io_IssuerKeys opts)), ir_Detail := d\<rparr>))"
proof -
  have b: "badKey 0 (io_IssuerKeys opts) = None" "io_At opts \<noteq> 0" using assms(1) by (simp_all add: call_ok_def badKey_None)
  have w: "artifactProblem c a = Inr w" using assms(2,3) artifactProblem_Inr by blast
  let ?v = "vouchers c (identityBytes a) (ia_Signatures a) (ia_SignerKeys a) (io_IssuerKeys opts)"
    and ?o = "sort_key ko_fpr (failures c (identityBytes a) (ia_Signatures a) (ia_SignerKeys a) (io_IssuerKeys opts))"
  let ?r = "(newResult c a opts)\<lparr>ir_VerifiedBy := sort ?v\<rparr>"
  have e: "?r\<lparr>ir_Detail := NoDetail\<rparr> = ?r" by (simp add: newResult_def)
  have v: "VerifyIdentity c (Some a) opts = Inr (judge c a opts w (if length ?o > 0
      then ?r\<lparr>ir_Detail := VerifiedBySome (length ?v) (length ?v + length ?o) ?o\<rparr> else ?r))"
    using b w assms(4-6) by (simp add: VerifyIdentity_def pinLoop_eq Let_def del: not_None_eq)
  from detail_of [OF e, of "length ?o > 0" "VerifiedBySome (length ?v) (length ?v + length ?o) ?o"]
  obtain d where "(if length ?o > 0 then ?r\<lparr>ir_Detail := VerifiedBySome (length ?v) (length ?v + length ?o) ?o\<rparr> else ?r) = ?r\<lparr>ir_Detail := d\<rparr>" ..
  with v show ?thesis using that [of d] by (simp only:)
qed

lemma VerifyIdentity_unvouched:
  assumes "call_ok opts" "identity_form a" "window_of c a = Some w" "mget (ia_Signatures a) (ia_Issuer a) \<noteq> None" "io_IssuerKeys opts \<noteq> []"
    and "vouchers c (identityBytes a) (ia_Signatures a) (ia_SignerKeys a) (io_IssuerKeys opts) = []"
  shows "\<exists>r d. VerifyIdentity c (Some a) opts = Inr (idFail r d (newResult c a opts)) \<and> r \<noteq> NoReason \<and>
    (ClassOf r = ClassForged \<longrightarrow> (\<exists>k \<in> set (io_IssuerKeys opts). contradicts c (identityBytes a) (ia_Signatures a) k))"
proof -
  have b: "badKey 0 (io_IssuerKeys opts) = None" "io_At opts \<noteq> 0" using assms(1) by (simp_all add: call_ok_def badKey_None)
  have w: "artifactProblem c a = Inr w" using assms(2,3) artifactProblem_Inr by blast
  let ?o = "sort_key ko_fpr (failures c (identityBytes a) (ia_Signatures a) (ia_SignerKeys a) (io_IssuerKeys opts))"
  have e: "(newResult c a opts)\<lparr>ir_VerifiedBy := []\<rparr> = newResult c a opts" by (simp add: newResult_def)
  show ?thesis
  proof (cases ?o)
    case Nil
    then have "VerifyIdentity c (Some a) opts = Inr (idFail ReasonNoPinnedIssuerVerified (NoneSigned (length (io_IssuerKeys opts))) (newResult c a opts))"
      using b w assms(4-6) e by (simp add: VerifyIdentity_def pinLoop_eq Let_def del: not_None_eq)
    moreover have "ClassOf ReasonNoPinnedIssuerVerified \<noteq> ClassForged" by (simp add: ClassOf_def)
    ultimately show ?thesis by blast
  next
    case (Cons x xs)
    then obtain k where k: "k \<in> set (io_IssuerKeys opts)" "checkPin c (identityBytes a) (ia_Signatures a) (ia_SignerKeys a) k = Failed (worstOf x xs)"
      using worst_failure by blast
    let ?r = "ko_reason (worstOf x xs)"
    have "VerifyIdentity c (Some a) opts = Inr (idFail ?r (Outcomes ?o) (newResult c a opts))"
      using b w assms(4-6) e Cons by (simp add: VerifyIdentity_def pinLoop_eq Let_def del: not_None_eq)
    moreover have "?r \<noteq> NoReason" "ClassOf ?r = ClassForged \<longrightarrow> contradicts c (identityBytes a) (ia_Signatures a) k"
      using checkPin_Failed [OF k(2)] by (auto simp: ClassOf_def split: if_splits)
    ultimately show ?thesis using k(1) by blast
  qed
qed

text \<open>The fields a result echoes.\<close>

definition echoes :: "IdentityAttestation \<Rightarrow> IdentityResult \<Rightarrow> bool" where
  "echoes a res \<longleftrightarrow> ir_Subject res = ia_Subject a \<and> ir_Principal res = ia_Principal a \<and> ir_DisplayName res = ia_DisplayName a \<and>
     ir_Roles res = ia_Roles a \<and> ir_Serial res = ia_Serial a \<and> ir_Issuer res = ia_Issuer a"

definition forgery :: "Prims \<Rightarrow> IdentityAttestation \<Rightarrow> IdentityOptions \<Rightarrow> bool" where
  "forgery c a opts \<longleftrightarrow>
    (\<exists>k \<in> set (io_IssuerKeys opts). contradicts c (identityBytes a) (ia_Signatures a) k) \<or>
    (\<exists>s. Some s \<in> set (io_Revocations opts) \<and> \<not> statement_ok c (io_IssuerKeys opts) s)"

lemma VerifyIdentity_verdict:
  assumes "call_ok opts"
  shows "\<exists>res. VerifyIdentity c (Some a) opts = Inr res \<and> (ir_Valid res \<longleftrightarrow> attested c a opts) \<and>
    (ir_Reason res = NoReason \<longleftrightarrow> ir_Valid res) \<and> ir_ReasonClass res = ClassOf (ir_Reason res) \<and> echoes a res \<and>
    (ir_ReasonClass res = ClassForged \<longrightarrow> forgery c a opts) \<and>
    (io_IssuerKeys opts = [] \<longrightarrow> ir_ReasonClass res \<in> {ClassUnconfigured, ClassMalformed}) \<and>
    (ir_Valid res \<longrightarrow> sorted (ir_VerifiedBy res) \<and> set (ir_VerifiedBy res) =
      pr_fingerprint c ` {k \<in> set (io_IssuerKeys opts). vouches c (identityBytes a) (ia_Signatures a) (ia_SignerKeys a) k})"
proof -
  let ?v = "vouchers c (identityBytes a) (ia_Signatures a) (ia_SignerKeys a) (io_IssuerKeys opts)"
  have F: "\<not> ir_Valid (idFail r d res)" "ir_Reason (idFail r d res) = r" "ir_ReasonClass (idFail r d res) = ClassOf r"
      "echoes a (idFail r d (newResult c a opts))" for r d res
    by (simp_all add: idFail_def echoes_def newResult_def)
  consider (form) "\<not> (identity_form a \<and> window_of c a \<noteq> None \<and> mget (ia_Signatures a) (ia_Issuer a) \<noteq> None \<and> io_IssuerKeys opts \<noteq> [])"
    | (ok) w where "identity_form a" "window_of c a = Some w" "mget (ia_Signatures a) (ia_Issuer a) \<noteq> None" "io_IssuerKeys opts \<noteq> []"
    by blast
  then show ?thesis
  proof cases
    case form
    then have "\<not> attested c a opts" unfolding attested_def by auto
    with VerifyIdentity_fails [OF assms form] F show ?thesis by (metis IdentityReasonClass.distinct(11) IdentityReasonClass.distinct(27) insertE singletonD IdentityReasonClass.simps)
  next
    case ok
    show ?thesis
    proof (cases "?v = []")
      case True
      then have "\<not> attested c a opts" using vouchers_Nil unfolding attested_def by blast
      with VerifyIdentity_unvouched [OF assms ok True] F ok(4) show ?thesis unfolding forgery_def by metis
    next
      case False
      obtain d where v: "VerifyIdentity c (Some a) opts = Inr (judge c a opts w ((newResult c a opts)\<lparr>ir_VerifiedBy := sort ?v, ir_Detail := d\<rparr>))"
        using VerifyIdentity_judges [OF assms ok False] .
      let ?r = "(newResult c a opts)\<lparr>ir_VerifiedBy := sort ?v, ir_Detail := d\<rparr>"
      have n: "ir_Reason ?r = NoReason" "ir_ReasonClass ?r = NoClass" by (simp_all add: newResult_def)
      have l: "list_all (\<lambda>k. length k = PublicKeySize) (io_IssuerKeys opts)" using assms by (simp add: call_ok_def)
      note J = judge_spec [OF l n, of c a w]
      have "ir_Valid (judge c a opts w ?r) \<longleftrightarrow> attested c a opts"
        using J(1) ok False vouchers_Nil [of c "identityBytes a" "ia_Signatures a" "ia_SignerKeys a" "io_IssuerKeys opts"]
        unfolding attested_def by (cases w) auto
      moreover have "echoes a (judge c a opts w ?r)" using J(5) by (simp add: echoes_def newResult_def)
      moreover have "sorted (ir_VerifiedBy (judge c a opts w ?r))" "set (ir_VerifiedBy (judge c a opts w ?r)) =
          pr_fingerprint c ` {k \<in> set (io_IssuerKeys opts). vouches c (identityBytes a) (ia_Signatures a) (ia_SignerKeys a) k}"
        using J(5) set_vouchers by simp_all
      ultimately show ?thesis using v J(2,3,4) ok(4) unfolding forgery_def by blast
    qed
  qed
qed

section \<open>The order of the pinned keys\<close>

lemma mset_concat_map: "mset (concat (map f xs)) = (\<Sum>x \<in># mset xs. mset (f x))"
  by (induction xs) auto

lemma failures_inj:
  assumes "inj_on (pr_fingerprint c) (set ks)"
  shows "inj_on ko_fpr (set (failures c pre sigs skeys ks))"
proof (rule inj_onI)
  fix x y
  assume x: "x \<in> set (failures c pre sigs skeys ks)" and y: "y \<in> set (failures c pre sigs skeys ks)" and eq: "ko_fpr x = ko_fpr y"
  obtain k where k: "k \<in> set ks" "checkPin c pre sigs skeys k = Failed x" using x set_failures by blast
  obtain l where l: "l \<in> set ks" "checkPin c pre sigs skeys l = Failed y" using y set_failures by blast
  have "pr_fingerprint c k = pr_fingerprint c l" using checkPin_Failed [OF k(2)] checkPin_Failed [OF l(2)] eq by simp
  then have "k = l" by (rule inj_onD [OF assms _ k(1) l(1)])
  then show "x = y" using k(2) l(2) by simp
qed

lemma pinLoop_perm:
  assumes "mset ks = mset ls" "inj_on (pr_fingerprint c) (set ks)"
  shows "pinLoop c pre sigs skeys ks [] [] = pinLoop c pre sigs skeys ls [] []"
proof -
  have v: "mset (vouchers c pre sigs skeys ks) = mset (vouchers c pre sigs skeys ls)"
    unfolding vouchers_def mset_concat_map assms(1) ..
  have f: "mset (failures c pre sigs skeys ks) = mset (failures c pre sigs skeys ls)"
    unfolding failures_def mset_concat_map assms(1) ..
  have "sort_key ko_fpr (failures c pre sigs skeys ks) = sort_key ko_fpr (failures c pre sigs skeys ls)"
    using f by (intro sort_key_inj_key_eq [OF _ failures_inj [OF assms(2)]]) simp_all
  then show ?thesis by (simp only: pinLoop_eq append_Nil sort_mset_cong [OF v])
qed

lemma badKey_perm: "mset ks = mset ls \<Longrightarrow> badKey i ks = None \<longleftrightarrow> badKey i ls = None"
  unfolding badKey_None list_all_iff by (metis set_mset_mset)

lemma VerifyRevocation_perm:
  assumes "mset ks = mset ls" "inj_on (pr_fingerprint c) (set ks)" "badKey 0 ks = None"
  shows "VerifyRevocation c st ks = VerifyRevocation c st ls"
proof -
  have b: "badKey 0 ls = None" using assms(1,3) badKey_perm by blast
  have len: "length ks = length ls" using assms(1) by (rule mset_eq_length)
  show ?thesis unfolding VerifyRevocation_def assms(3) b pinLoop_perm [OF assms(1,2)] len ..
qed

lemma revLoop_perm:
  assumes "mset ks = mset (io_IssuerKeys opts)" "inj_on (pr_fingerprint c) (set ks)" "badKey 0 ks = None"
  shows "revLoop c a (opts\<lparr>io_IssuerKeys := ks\<rparr>) ss ch rb uv = revLoop c a opts ss ch rb uv"
  using assms
  by (induction c a opts ss ch rb uv rule: revLoop.induct) (simp_all add: VerifyRevocation_perm Let_def)

section \<open>Properties\<close>

text \<open>A sample issuer: fingerprints are the base 64 of the key, and an instant is the length of its text.\<close>

definition id_prims :: Prims where
  "id_prims = toy\<lparr>pr_fingerprint := \<lambda>k. ''SHA256:'' @ b64_encode False False k\<rparr>"

definition id_fpr :: string where
  "id_fpr = ''SHA256:'' @ b64_encode False False (toy_key CHR ''a'')"

definition id_unsigned :: IdentityAttestation where
  "id_unsigned = NewIdentityAttestation ''t'' \<lparr>is_Serial = ''s1'', is_Subject = id_fpr, is_Principal = ''rosa@acme'', is_DisplayName = ''Rosa'',
     is_PrincipalType = ''person'', is_Roles = [''ops''], is_ExpiresAt = ''ttttt'', is_Algorithm = AlgorithmEd25519, is_Issuer = id_fpr\<rparr> [] []"

definition id_sample :: IdentityAttestation where
  "id_sample = WithSignatures [(id_fpr, toy_key CHR ''a'' @ identityBytes id_unsigned)] [(id_fpr, toy_key CHR ''a'')] id_unsigned"

definition id_opts :: IdentityOptions where
  "id_opts = \<lparr>io_IssuerKeys = [toy_key CHR ''a'', toy_key CHR ''b''], io_At = 3, io_Revocations = [None]\<rparr>"

lemma id_fpr_ok: "isFingerprint id_fpr"
  by code_simp

lemma id_call_ok: "call_ok id_opts"
  by (simp add: call_ok_def id_opts_def toy_key_def PublicKeySize_def)

lemma id_sample_attested: "attested id_prims id_sample id_opts"
proof -
  have "vouches id_prims (identityBytes id_sample) (ia_Signatures id_sample) (ia_SignerKeys id_sample) (toy_key CHR ''a'')"
    by (simp add: vouches_def id_sample_def WithSignatures_def b64map_def mvals_def id_prims_def id_fpr_def toy_def toy_key_def
        PublicKeySize_def identityBytes_def)
  moreover have "identity_form id_sample"
    using id_fpr_ok by (simp add: identity_form_def id_sample_def WithSignatures_def id_unsigned_def NewIdentityAttestation_def)
  ultimately show ?thesis
    by (simp add: attested_def id_opts_def window_of_def id_sample_def WithSignatures_def id_unsigned_def NewIdentityAttestation_def
        id_prims_def toy_def b64map_def mvals_def)
qed

text \<open>Claim C26. A verdict on an identity is exact: with well-formed pinned keys and a time, \<open>VerifyIdentity\<close>
  returns, and says valid exactly when the artifact is well formed, the issuer it names has
  signed it, some pinned key vouches for the bytes (never a key the artifact brings along),
  the window contains the given time, every supplied revocation statement verifies and none
  of the same issuer lists the serial. The reason is empty exactly for a valid result, and
  a valid result names precisely the pinned keys that vouch.\<close>

theorem VerifyIdentity_exact:
  assumes "call_ok opts"
  shows "\<exists>res. VerifyIdentity c (Some a) opts = Inr res \<and> (ir_Valid res \<longleftrightarrow> attested c a opts) \<and>
    (ir_Reason res = NoReason \<longleftrightarrow> ir_Valid res) \<and> echoes a res \<and>
    (ir_Valid res \<longrightarrow> sorted (ir_VerifiedBy res) \<and> set (ir_VerifiedBy res) =
      pr_fingerprint c ` {k \<in> set (io_IssuerKeys opts). vouches c (identityBytes a) (ia_Signatures a) (ia_SignerKeys a) k})"
  using VerifyIdentity_verdict [OF assms, of c a] by blast

theorem VerifyIdentity_exact_witness:
  "\<exists>res. VerifyIdentity id_prims (Some id_sample) id_opts = Inr res \<and> ir_Valid res \<and> ir_DisplayName res = ''Rosa''"
proof -
  have "ia_DisplayName id_sample = ''Rosa''"
    by (simp add: id_sample_def WithSignatures_def id_unsigned_def NewIdentityAttestation_def)
  then show ?thesis using VerifyIdentity_exact [OF id_call_ok, of id_prims id_sample] id_sample_attested
    by (auto simp: echoes_def)
qed

text \<open>The word forged is never used lightly: a result of class forged means that some pinned
  key contradicts the artifact (a readable signature under its name does not verify) or
  that a supplied revocation statement does not verify; and without a pinned key the
  outcome is a statement about the caller's configuration or about the form of the
  artifact, never a verdict on the subject.\<close>

theorem forged_means_forged:
  assumes "call_ok opts" "VerifyIdentity c (Some a) opts = Inr res"
  shows "(ir_ReasonClass res = ClassForged \<longrightarrow> forgery c a opts) \<and>
    (io_IssuerKeys opts = [] \<longrightarrow> \<not> ir_Valid res \<and> ir_ReasonClass res \<in> {ClassUnconfigured, ClassMalformed})"
  using VerifyIdentity_verdict [OF assms(1), of c a] assms(2) by (auto simp: attested_def)

theorem forged_means_forged_witness:
  "\<exists>res. VerifyIdentity id_prims (Some id_sample) (id_opts\<lparr>io_IssuerKeys := []\<rparr>) = Inr res \<and>
     ir_ReasonClass res \<in> {ClassUnconfigured, ClassMalformed}"
proof -
  have c: "call_ok (id_opts\<lparr>io_IssuerKeys := []\<rparr>)" by (simp add: call_ok_def id_opts_def)
  obtain res where r: "VerifyIdentity id_prims (Some id_sample) (id_opts\<lparr>io_IssuerKeys := []\<rparr>) = Inr res"
    using VerifyIdentity_verdict [OF c, of id_prims id_sample] by blast
  from forged_means_forged [OF c r] r show ?thesis by simp
qed

text \<open>The order in which the caller lists its pinned keys does not matter: the whole result of
  identity verification, and of revocation verification, is the same for every permutation
  of the keys, provided no two pinned keys share a fingerprint.\<close>

theorem pin_order_irrelevant:
  assumes "mset ks = mset (io_IssuerKeys opts)" "call_ok opts" "inj_on (pr_fingerprint c) (set ks)"
  shows "VerifyIdentity c att (opts\<lparr>io_IssuerKeys := ks\<rparr>) = VerifyIdentity c att opts \<and>
    VerifyRevocation c st ks = VerifyRevocation c st (io_IssuerKeys opts)"
proof -
  have b: "badKey 0 (io_IssuerKeys opts) = None" using assms(2) by (simp add: call_ok_def badKey_None)
  then have b': "badKey 0 ks = None" using assms(1) badKey_perm by blast
  have j: "judge c a (opts\<lparr>io_IssuerKeys := ks\<rparr>) w res = judge c a opts w res" for a w res
    unfolding judge_def checkRevocations_def using revLoop_perm [OF assms(1,3) b'] by simp
  have n: "newResult c a (opts\<lparr>io_IssuerKeys := ks\<rparr>) = newResult c a opts" for a by (simp add: newResult_def)
  have len: "length ks = length (io_IssuerKeys opts)" using assms(1) by (rule mset_eq_length)
  have o: "io_IssuerKeys (opts\<lparr>io_IssuerKeys := ks\<rparr>) = ks" "io_At (opts\<lparr>io_IssuerKeys := ks\<rparr>) = io_At opts" by simp_all
  have "VerifyIdentity c att (opts\<lparr>io_IssuerKeys := ks\<rparr>) = VerifyIdentity c att opts"
    unfolding VerifyIdentity_def o b b' n j pinLoop_perm [OF assms(1,3)] len ..
  then show ?thesis using VerifyRevocation_perm [OF assms(1,3) b'] by simp
qed

theorem pin_order_irrelevant_witness:
  "VerifyIdentity id_prims (Some id_sample) (id_opts\<lparr>io_IssuerKeys := [toy_key CHR ''b'', toy_key CHR ''a'']\<rparr>) =
     VerifyIdentity id_prims (Some id_sample) id_opts"
proof -
  have "pr_fingerprint id_prims (toy_key CHR ''a'') \<noteq> pr_fingerprint id_prims (toy_key CHR ''b'')" by code_simp
  then have "inj_on (pr_fingerprint id_prims) (set [toy_key CHR ''b'', toy_key CHR ''a''])" by auto
  moreover have "mset [toy_key CHR ''b'', toy_key CHR ''a''] = mset (io_IssuerKeys id_opts)" by (simp add: id_opts_def)
  ultimately show ?thesis using pin_order_irrelevant [OF _ id_call_ok] by blast
qed

end
