(* ===== verification/Files.thy ===== *)
theory Files
  imports Prelude Identity
begin

text \<open>
  Reading the artifacts back from disk: \<open>Parse\<close> of \<^verbatim>\<open>src/tui/record/sealed.go\<close> and \<open>ParseIdentity\<close>,
  \<open>ParseRevocation\<close>, \<open>ParseRoster\<close>, \<open>ParseReceipt\<close> of \<^verbatim>\<open>src/tui/attest/\<close>. All five decode one JSON document
  with unknown fields refused and then ask the decoder whether more follows. The lexer is
  the library's (\<open>pr_scan\<close>); the mapping of a document to the Go structs is written out.

  A slot of an array that is filled twice in one document keeps its earlier value where the
  later array has \<open>null\<close>, as the Go decoder does for one repetition.
\<close>

section \<open>Strict decoding\<close>

fun strict_object :: "(string \<times> 's field_decoder) list \<Rightarrow> (string \<times> json) list \<Rightarrow> 's \<Rightarrow> 's option" where
  "strict_object fs [] s = Some s"
| "strict_object fs ((key, v) # kvs) s =
     (case find_field fs key of
        None \<Rightarrow> None
      | Some d \<Rightarrow> (case d s v of None \<Rightarrow> None | Some s' \<Rightarrow> strict_object fs kvs s'))"

fun strict_struct :: "(string \<times> 's field_decoder) list \<Rightarrow> 's \<Rightarrow> json \<Rightarrow> 's option" where
  "strict_struct fs s JNull = Some s"
| "strict_struct fs s (JObj kvs) = strict_object fs kvs s"
| "strict_struct fs s _ = None"

text \<open>Slices: each element is decoded over the slot that is there, or over a zero value.\<close>

fun decode_slots :: "('a \<Rightarrow> json \<Rightarrow> 'a option) \<Rightarrow> 'a \<Rightarrow> 'a list \<Rightarrow> json list \<Rightarrow> 'a list option" where
  "decode_slots d z old [] = Some []"
| "decode_slots d z old (j # js) =
     (case d (case old of [] \<Rightarrow> z | x # _ \<Rightarrow> x) j of
        None \<Rightarrow> None
      | Some x \<Rightarrow> map_option ((#) x) (decode_slots d z (tl old) js))"

fun slice_field :: "('a \<Rightarrow> json \<Rightarrow> 'a option) \<Rightarrow> 'a \<Rightarrow> ('s \<Rightarrow> 'a list) \<Rightarrow> ('a list \<Rightarrow> 's \<Rightarrow> 's) \<Rightarrow> 's field_decoder" where
  "slice_field d z get upd s (JArr js) = map_option (\<lambda>xs. upd xs s) (decode_slots d z (get s) js)"
| "slice_field d z get upd s JNull = Some (upd [] s)"
| "slice_field d z get upd s _ = None"

fun string_slot :: "string \<Rightarrow> json \<Rightarrow> string option" where
  "string_slot old (JStr x) = Some x"
| "string_slot old JNull = Some old"
| "string_slot old _ = None"

text \<open>Maps: every value is decoded over a zero value and stored; a repeated key overwrites.\<close>

fun decode_entries :: "(json \<Rightarrow> 'v option) \<Rightarrow> (string \<times> json) list \<Rightarrow> (string, 'v) gomap \<Rightarrow> (string, 'v) gomap option" where
  "decode_entries d [] m = Some m"
| "decode_entries d ((k, j) # kvs) m = (case d j of None \<Rightarrow> None | Some v \<Rightarrow> decode_entries d kvs (mput k v m))"

fun map_field :: "(json \<Rightarrow> 'v option) \<Rightarrow> ('s \<Rightarrow> (string, 'v) gomap) \<Rightarrow> ((string, 'v) gomap \<Rightarrow> 's \<Rightarrow> 's) \<Rightarrow> 's field_decoder" where
  "map_field d get upd s (JObj kvs) = map_option (\<lambda>m. upd m s) (decode_entries d kvs (get s))"
| "map_field d get upd s JNull = Some (upd [] s)"
| "map_field d get upd s _ = None"

definition struct_field :: "(string \<times> 'a field_decoder) list \<Rightarrow> ('s \<Rightarrow> 'a) \<Rightarrow> ('a \<Rightarrow> 's \<Rightarrow> 's) \<Rightarrow> 's field_decoder" where
  "struct_field fs get upd s j = map_option (\<lambda>x. upd x s) (strict_struct fs (get s) j)"

definition raw_field :: "(bytes \<Rightarrow> 's \<Rightarrow> 's) \<Rightarrow> 's field_decoder" where
  "raw_field upd = bytes_field (\<lambda>b. upd (case b of None \<Rightarrow> [] | Some x \<Rightarrow> x))"

section \<open>The decoder\<close>

datatype parse_error = BadDocument | TrailingData

definition is_space :: "char \<Rightarrow> bool" where
  "is_space ch \<longleftrightarrow> ch \<in> {CHR '' '', CHR 0x09, CHR 0x0A, CHR 0x0D}"

text \<open>\<open>Decoder.More\<close>: another element follows, unless the next character closes one.\<close>

definition More :: "string \<Rightarrow> bool" where
  "More rest = (case dropWhile is_space rest of [] \<Rightarrow> False | ch # _ \<Rightarrow> ch \<noteq> CHR '']'' \<and> ch \<noteq> CHR ''}'')"

definition parseFile :: "Prims \<Rightarrow> (json \<Rightarrow> 'a option) \<Rightarrow> string \<Rightarrow> parse_error + 'a" where
  "parseFile c dec b =
    (case pr_scan c b of
       None \<Rightarrow> Inl BadDocument
     | Some (j, rest) \<Rightarrow>
        (case dec j of
           None \<Rightarrow> Inl BadDocument
         | Some x \<Rightarrow> (if More rest then Inl TrailingData else Inr x)))"

section \<open>The artifacts\<close>

definition zero_identity :: IdentityAttestation where
  "zero_identity = \<lparr>ia_Version = [], ia_Serial = [], ia_Subject = [], ia_Principal = [], ia_DisplayName = [], ia_PrincipalType = [],
     ia_Roles = [], ia_IssuedAt = [], ia_ExpiresAt = [], ia_Algorithm = [], ia_Issuer = [], ia_Signatures = [], ia_SignerKeys = []\<rparr>"

definition decode_identity :: "json \<Rightarrow> IdentityAttestation option" where
  "decode_identity = strict_struct
     [(''netherchat_identity'', str_field (\<lambda>x s. s\<lparr>ia_Version := x\<rparr>)),
      (''serial'', str_field (\<lambda>x s. s\<lparr>ia_Serial := x\<rparr>)),
      (''subject'', str_field (\<lambda>x s. s\<lparr>ia_Subject := x\<rparr>)),
      (''principal'', str_field (\<lambda>x s. s\<lparr>ia_Principal := x\<rparr>)),
      (''display_name'', str_field (\<lambda>x s. s\<lparr>ia_DisplayName := x\<rparr>)),
      (''principal_type'', str_field (\<lambda>x s. s\<lparr>ia_PrincipalType := x\<rparr>)),
      (''roles'', slice_field string_slot [] ia_Roles (\<lambda>x s. s\<lparr>ia_Roles := x\<rparr>)),
      (''issued_at'', str_field (\<lambda>x s. s\<lparr>ia_IssuedAt := x\<rparr>)),
      (''expires_at'', str_field (\<lambda>x s. s\<lparr>ia_ExpiresAt := x\<rparr>)),
      (''algorithm'', str_field (\<lambda>x s. s\<lparr>ia_Algorithm := x\<rparr>)),
      (''issuer'', str_field (\<lambda>x s. s\<lparr>ia_Issuer := x\<rparr>)),
      (''signatures'', map_field json_string ia_Signatures (\<lambda>x s. s\<lparr>ia_Signatures := x\<rparr>)),
      (''signer_keys'', map_field json_string ia_SignerKeys (\<lambda>x s. s\<lparr>ia_SignerKeys := x\<rparr>))]
     zero_identity"

definition ParseIdentity :: "Prims \<Rightarrow> string \<Rightarrow> parse_error + IdentityAttestation" where
  "ParseIdentity c b = parseFile c decode_identity b"

text \<open>A map is written with its keys sorted; \<open>nil\<close> roles are \<open>null\<close>, which is how an empty list built by
  appending to \<open>nil\<close> prints.\<close>

definition json_strings :: "(string, string) gomap \<Rightarrow> json" where
  "json_strings m = JObj (map (\<lambda>k. (k, JStr (the (mget m k)))) (sort (keys m)))"

definition json_identity :: "IdentityAttestation \<Rightarrow> json" where
  "json_identity a = JObj
    ([(''netherchat_identity'', JStr (ia_Version a)), (''serial'', JStr (ia_Serial a)), (''subject'', JStr (ia_Subject a)),
      (''principal'', JStr (ia_Principal a))] @ omit_str ''display_name'' (ia_DisplayName a) @
     [(''principal_type'', JStr (ia_PrincipalType a)), (''roles'', if ia_Roles a = [] then JNull else JArr (map JStr (ia_Roles a))),
      (''issued_at'', JStr (ia_IssuedAt a)), (''expires_at'', JStr (ia_ExpiresAt a)), (''algorithm'', JStr (ia_Algorithm a)),
      (''issuer'', JStr (ia_Issuer a)), (''signatures'', json_strings (ia_Signatures a)), (''signer_keys'', json_strings (ia_SignerKeys a))])"

definition MarshalIdentity :: "Prims \<Rightarrow> IdentityAttestation \<Rightarrow> string" where
  "MarshalIdentity c a = pr_indent c (json_identity a)"

definition revoked_fields :: "(string \<times> RevokedSerial field_decoder) list" where
  "revoked_fields =
     [(''serial'', str_field (\<lambda>x s. s\<lparr>rv_Serial := x\<rparr>)),
      (''revoked_at'', str_field (\<lambda>x s. s\<lparr>rv_RevokedAt := x\<rparr>)),
      (''reason'', str_field (\<lambda>x s. s\<lparr>rv_Reason := x\<rparr>))]"

definition decode_revocation :: "json \<Rightarrow> RevocationStatement option" where
  "decode_revocation = strict_struct
     [(''netherchat_revocation'', str_field (\<lambda>x s. s\<lparr>rt_Version := x\<rparr>)),
      (''issuer'', str_field (\<lambda>x s. s\<lparr>rt_Issuer := x\<rparr>)),
      (''statement_id'', str_field (\<lambda>x s. s\<lparr>rt_StatementID := x\<rparr>)),
      (''number'', uint64_field (\<lambda>x s. s\<lparr>rt_Number := x\<rparr>)),
      (''issued_at'', str_field (\<lambda>x s. s\<lparr>rt_IssuedAt := x\<rparr>)),
      (''next_update'', str_field (\<lambda>x s. s\<lparr>rt_NextUpdate := x\<rparr>)),
      (''revoked'', slice_field (strict_struct revoked_fields) \<lparr>rv_Serial = [], rv_RevokedAt = [], rv_Reason = []\<rparr>
         rt_Revoked (\<lambda>x s. s\<lparr>rt_Revoked := x\<rparr>)),
      (''signatures'', map_field json_string rt_Signatures (\<lambda>x s. s\<lparr>rt_Signatures := x\<rparr>)),
      (''signer_keys'', map_field json_string rt_SignerKeys (\<lambda>x s. s\<lparr>rt_SignerKeys := x\<rparr>))]
     \<lparr>rt_Version = [], rt_Issuer = [], rt_StatementID = [], rt_Number = 0, rt_IssuedAt = [], rt_NextUpdate = [], rt_Revoked = [],
      rt_Signatures = [], rt_SignerKeys = []\<rparr>"

definition ParseRevocation :: "Prims \<Rightarrow> string \<Rightarrow> parse_error + RevocationStatement" where
  "ParseRevocation c b = parseFile c decode_revocation b"

definition member_fields :: "(string \<times> RosterMember field_decoder) list" where
  "member_fields =
     [(''name'', str_field (\<lambda>x s. s\<lparr>rm_Name := x\<rparr>)),
      (''fpr'', str_field (\<lambda>x s. s\<lparr>rm_Fpr := x\<rparr>)),
      (''verified'', bool_field (\<lambda>x s. s\<lparr>rm_Verified := x\<rparr>))]"

definition decode_roster :: "json \<Rightarrow> RosterAttestation option" where
  "decode_roster = strict_struct
     [(''netherchat_roster'', str_field (\<lambda>x s. s\<lparr>ra_Version := x\<rparr>)),
      (''room'', str_field (\<lambda>x s. s\<lparr>ra_Room := x\<rparr>)),
      (''epoch'', uint64_field (\<lambda>x s. s\<lparr>ra_Epoch := x\<rparr>)),
      (''attested_at'', str_field (\<lambda>x s. s\<lparr>ra_AttestedAt := x\<rparr>)),
      (''attested_by'', str_field (\<lambda>x s. s\<lparr>ra_AttestedBy := x\<rparr>)),
      (''members'', slice_field (strict_struct member_fields) \<lparr>rm_Name = [], rm_Fpr = [], rm_Verified = False\<rparr>
         ra_Members (\<lambda>x s. s\<lparr>ra_Members := x\<rparr>)),
      (''set_hash'', str_field (\<lambda>x s. s\<lparr>ra_SetHash := x\<rparr>)),
      (''signatures'', map_field json_string ra_Signatures (\<lambda>x s. s\<lparr>ra_Signatures := x\<rparr>)),
      (''signer_keys'', map_field json_string ra_SignerKeys (\<lambda>x s. s\<lparr>ra_SignerKeys := x\<rparr>))]
     \<lparr>ra_Version = [], ra_Room = [], ra_Epoch = 0, ra_AttestedAt = [], ra_AttestedBy = [], ra_Members = [], ra_SetHash = [],
      ra_Signatures = [], ra_SignerKeys = []\<rparr>"

definition ParseRoster :: "Prims \<Rightarrow> string \<Rightarrow> parse_error + RosterAttestation" where
  "ParseRoster c b = parseFile c decode_roster b"

definition epoch_fields :: "(string \<times> EpochRange field_decoder) list" where
  "epoch_fields =
     [(''first'', uint64_field (\<lambda>x s. s\<lparr>er_First := x\<rparr>)),
      (''last'', uint64_field (\<lambda>x s. s\<lparr>er_Last := x\<rparr>))]"

text \<open>The core is embedded: its fields appear beside the receipt's own.\<close>

definition in_core :: "(ReceiptCore \<Rightarrow> ReceiptCore) \<Rightarrow> ScuttleReceipt \<Rightarrow> ScuttleReceipt" where
  "in_core f s = s\<lparr>sc_Core := f (sc_Core s)\<rparr>"

definition decode_receipt :: "json \<Rightarrow> ScuttleReceipt option" where
  "decode_receipt = strict_struct
     [(''netherchat_receipt'', str_field (\<lambda>x. in_core (\<lambda>s. s\<lparr>rc_Version := x\<rparr>))),
      (''room'', str_field (\<lambda>x. in_core (\<lambda>s. s\<lparr>rc_Room := x\<rparr>))),
      (''epoch_range'', struct_field epoch_fields (\<lambda>s. rc_EpochRange (sc_Core s)) (\<lambda>x. in_core (\<lambda>s. s\<lparr>rc_EpochRange := x\<rparr>))),
      (''reason'', str_field (\<lambda>x. in_core (\<lambda>s. s\<lparr>rc_Reason := x\<rparr>))),
      (''scuttled_at'', str_field (\<lambda>x. in_core (\<lambda>s. s\<lparr>rc_ScuttledAt := x\<rparr>))),
      (''scuttled_by'', str_field (\<lambda>x. in_core (\<lambda>s. s\<lparr>rc_ScuttledBy := x\<rparr>))),
      (''member_fprs'', slice_field string_slot [] (\<lambda>s. rc_MemberFprs (sc_Core s)) (\<lambda>x. in_core (\<lambda>s. s\<lparr>rc_MemberFprs := x\<rparr>))),
      (''keys_zeroized'', bool_field (\<lambda>x. in_core (\<lambda>s. s\<lparr>rc_KeysZeroized := x\<rparr>))),
      (''receipt_hash'', str_field (\<lambda>x s. s\<lparr>sc_ReceiptHash := x\<rparr>)),
      (''signatures'', map_field json_string sc_Signatures (\<lambda>x s. s\<lparr>sc_Signatures := x\<rparr>)),
      (''signer_keys'', map_field json_string sc_SignerKeys (\<lambda>x s. s\<lparr>sc_SignerKeys := x\<rparr>))]
     \<lparr>sc_Core = \<lparr>rc_Version = [], rc_Room = [], rc_EpochRange = \<lparr>er_First = 0, er_Last = 0\<rparr>, rc_Reason = [], rc_ScuttledAt = [],
        rc_ScuttledBy = [], rc_MemberFprs = [], rc_KeysZeroized = False\<rparr>,
      sc_ReceiptHash = [], sc_Signatures = [], sc_SignerKeys = []\<rparr>"

definition ParseReceipt :: "Prims \<Rightarrow> string \<Rightarrow> parse_error + ScuttleReceipt" where
  "ParseReceipt c b = parseFile c decode_receipt b"

section \<open>The sealed record\<close>

definition link_fields :: "(string \<times> Link field_decoder) list" where
  "link_fields =
     [(''hash'', str_field (\<lambda>x s. s\<lparr>ln_Hash := x\<rparr>)),
      (''rel'', str_field (\<lambda>x s. s\<lparr>ln_Relation := x\<rparr>))]"

definition zero_Entry :: Entry where
  "zero_Entry = \<lparr>en_Seq = 0, en_TS = 0, en_AuthorID = [], en_AuthorName = [], en_AuthorKey = [], en_Kind = [], en_Actionee = [],
     en_Body = [], en_PrevHash = [], en_Sig = [], en_Schema = [], en_SchemaVer = [], en_Links = [], en_Replayed = False\<rparr>"

definition entry_fields :: "(string \<times> Entry field_decoder) list" where
  "entry_fields =
     [(''seq'', uint64_field (\<lambda>x s. s\<lparr>en_Seq := x\<rparr>)),
      (''ts'', int_field (\<lambda>x s. s\<lparr>en_TS := word_of_int x\<rparr>)),
      (''author_id'', str_field (\<lambda>x s. s\<lparr>en_AuthorID := x\<rparr>)),
      (''author_name'', str_field (\<lambda>x s. s\<lparr>en_AuthorName := x\<rparr>)),
      (''author_key'', raw_field (\<lambda>x s. s\<lparr>en_AuthorKey := x\<rparr>)),
      (''kind'', str_field (\<lambda>x s. s\<lparr>en_Kind := x\<rparr>)),
      (''actionee'', str_field (\<lambda>x s. s\<lparr>en_Actionee := x\<rparr>)),
      (''body'', str_field (\<lambda>x s. s\<lparr>en_Body := x\<rparr>)),
      (''prev_hash'', raw_field (\<lambda>x s. s\<lparr>en_PrevHash := x\<rparr>)),
      (''sig'', raw_field (\<lambda>x s. s\<lparr>en_Sig := x\<rparr>)),
      (''schema'', str_field (\<lambda>x s. s\<lparr>en_Schema := x\<rparr>)),
      (''schema_version'', str_field (\<lambda>x s. s\<lparr>en_SchemaVer := x\<rparr>)),
      (''links'', slice_field (strict_struct link_fields) \<lparr>ln_Hash = [], ln_Relation = []\<rparr> en_Links (\<lambda>x s. s\<lparr>en_Links := x\<rparr>)),
      (''replayed'', bool_field (\<lambda>x s. s\<lparr>en_Replayed := x\<rparr>))]"

definition endorsement_fields :: "(string \<times> Endorsement field_decoder) list" where
  "endorsement_fields =
     [(''meaning'', str_field (\<lambda>x s. s\<lparr>ed_Meaning := x\<rparr>)),
      (''name'', str_field (\<lambda>x s. s\<lparr>ed_Name := x\<rparr>)),
      (''signed_at'', str_field (\<lambda>x s. s\<lparr>ed_SignedAt := x\<rparr>))]"

definition proof_fields :: "(string \<times> ApprovalProof field_decoder) list" where
  "proof_fields =
     [(''approver_fpr'', str_field (\<lambda>x s. s\<lparr>pf_ApproverFpr := x\<rparr>)),
      (''approver_key'', str_field (\<lambda>x s. s\<lparr>pf_ApproverKey := x\<rparr>)),
      (''sig'', str_field (\<lambda>x s. s\<lparr>pf_Sig := x\<rparr>)),
      (''role'', str_field (\<lambda>x s. s\<lparr>pf_Role := x\<rparr>))]"

fun decode_proofs :: "json \<Rightarrow> ApprovalProof list option" where
  "decode_proofs (JArr js) = decode_slots (strict_struct proof_fields) \<lparr>pf_ApproverFpr = [], pf_ApproverKey = [], pf_Sig = [], pf_Role = []\<rparr> [] js"
| "decode_proofs JNull = Some []"
| "decode_proofs _ = None"

definition decode_record :: "json \<Rightarrow> SealedRecord option" where
  "decode_record = strict_struct
     [(''netherchat_record'', str_field (\<lambda>x s. s\<lparr>sr_Version := x\<rparr>)),
      (''room'', str_field (\<lambda>x s. s\<lparr>sr_Room := x\<rparr>)),
      (''sealed_at'', str_field (\<lambda>x s. s\<lparr>sr_SealedAt := x\<rparr>)),
      (''sealed_by'', str_field (\<lambda>x s. s\<lparr>sr_SealedBy := x\<rparr>)),
      (''entries'', slice_field (strict_struct entry_fields) zero_Entry sr_Entries (\<lambda>x s. s\<lparr>sr_Entries := x\<rparr>)),
      (''head_hash'', str_field (\<lambda>x s. s\<lparr>sr_HeadHash := x\<rparr>)),
      (''signatures'', map_field json_string sr_Signatures (\<lambda>x s. s\<lparr>sr_Signatures := x\<rparr>)),
      (''signer_keys'', map_field json_string sr_SignerKeys (\<lambda>x s. s\<lparr>sr_SignerKeys := x\<rparr>)),
      (''endorsements'', map_field (strict_struct endorsement_fields \<lparr>ed_Meaning = [], ed_Name = [], ed_SignedAt = []\<rparr>)
         sr_Endorsements (\<lambda>x s. s\<lparr>sr_Endorsements := x\<rparr>)),
      (''artifact_approvals'', map_field decode_proofs sr_ArtifactApprovals (\<lambda>x s. s\<lparr>sr_ArtifactApprovals := x\<rparr>))]
     \<lparr>sr_Version = [], sr_Room = [], sr_SealedAt = [], sr_SealedBy = [], sr_Entries = [], sr_HeadHash = [], sr_Signatures = [],
      sr_SignerKeys = [], sr_Endorsements = [], sr_ArtifactApprovals = []\<rparr>"

definition ParseRecord :: "Prims \<Rightarrow> string \<Rightarrow> parse_error + SealedRecord" where
  "ParseRecord c b = parseFile c decode_record b"

definition VerifyBytes :: "Prims \<Rightarrow> string \<Rightarrow> parse_error + VerifyResult \<times> verify_error option" where
  "VerifyBytes c b = (case ParseRecord c b of Inl err \<Rightarrow> Inl err | Inr rec \<Rightarrow> Inr (Verify c rec))"

section \<open>Round trip\<close>

lemma decode_entries_strings:
  "\<exists>m'. decode_entries json_string (map (\<lambda>k. (k, JStr (f k))) ks) m = Some m' \<and>
    (\<forall>x. mget m' x = (if x \<in> set ks then Some (f x) else mget m x))"
proof (induction ks arbitrary: m)
  case (Cons k ks)
  then obtain m' where "decode_entries json_string (map (\<lambda>k. (k, JStr (f k))) ks) (mput k (f k) m) = Some m'"
      "\<forall>x. mget m' x = (if x \<in> set ks then Some (f x) else mget (mput k (f k) m) x)" by blast
  then show ?case by (intro exI [of _ m']) auto
qed simp

lemma decode_strings:
  obtains m' where "decode_entries json_string (map (\<lambda>k. (k, JStr (the (mget m k)))) (sort (keys m))) [] = Some m'" "mget m' = mget m"
proof -
  from decode_entries_strings [of "\<lambda>k. the (mget m k)" "sort (keys m)" "[]"]
  obtain m' where m': "decode_entries json_string (map (\<lambda>k. (k, JStr (the (mget m k)))) (sort (keys m))) [] = Some m'"
      "\<forall>x. mget m' x = (if x \<in> set (keys m) then Some (the (mget m x)) else None)" by (auto simp del: set_map)
  have "mget m' x = mget m x" for x
    using m'(2) mget_None_iff [of m x] by (cases "mget m x") (auto simp del: set_map simp: mget_Some_key)
  then show ?thesis using that m'(1) by blast
qed

lemma strict_object_plain:
  "list_all (\<lambda>f. plain_name (fst f)) fs \<Longrightarrow> list_all (\<lambda>f. plain_name (fst f)) kvs \<Longrightarrow>
   strict_object fs kvs s = (if list_all (\<lambda>f. map_of fs (fst f) \<noteq> None) kvs then decode_plain fs kvs s else strict_object fs kvs s)"
  by (induction fs kvs s rule: decode_plain.induct) (auto simp: find_field_map_of split: option.splits)

lemma strict_struct_plain:
  "list_all (\<lambda>f. plain_name (fst f)) fs \<Longrightarrow> list_all (\<lambda>f. plain_name (fst f) \<and> map_of fs (fst f) \<noteq> None) kvs \<Longrightarrow>
   strict_struct fs s (JObj kvs) = decode_plain fs kvs s"
  using strict_object_plain [of fs kvs s] by (simp add: list_all_iff)

lemma string_slots: "decode_slots string_slot [] [] (map JStr rs) = Some rs"
  by (induction rs) auto

text \<open>The same artifact, with its maps perhaps listed in another order.\<close>

definition same_identity :: "IdentityAttestation \<Rightarrow> IdentityAttestation \<Rightarrow> bool" where
  "same_identity a b \<longleftrightarrow> b = a\<lparr>ia_Signatures := ia_Signatures b, ia_SignerKeys := ia_SignerKeys b\<rparr> \<and>
     mget (ia_Signatures b) = mget (ia_Signatures a) \<and> mget (ia_SignerKeys b) = mget (ia_SignerKeys a)"

lemma decode_json_identity: "\<exists>b. decode_identity (json_identity a) = Some b \<and> same_identity a b"
proof -
  obtain sigs where sigs: "decode_entries json_string (map (\<lambda>k. (k, JStr (the (mget (ia_Signatures a) k)))) (sort (keys (ia_Signatures a)))) [] = Some sigs"
    "mget sigs = mget (ia_Signatures a)" by (rule decode_strings)
  obtain sk where sk: "decode_entries json_string (map (\<lambda>k. (k, JStr (the (mget (ia_SignerKeys a) k)))) (sort (keys (ia_SignerKeys a)))) [] = Some sk"
    "mget sk = mget (ia_SignerKeys a)" by (rule decode_strings)
  have "decode_identity (json_identity a) = Some (a\<lparr>ia_Signatures := sigs, ia_SignerKeys := sk\<rparr>)"
    using sigs(1) sk(1) string_slots [of "ia_Roles a"]
    by (cases "ia_DisplayName a = []"; cases "ia_Roles a = []")
      (simp_all add: decode_identity_def json_identity_def json_strings_def zero_identity_def strict_struct_plain omit_str_def del: strict_struct.simps(2))
  then show ?thesis using sigs(2) sk(2) by (auto simp: same_identity_def)
qed

subsection \<open>Verification does not see the order of a map\<close>

lemma checkPin_cong:
  assumes "mget s = mget s'" "mget k = mget k'"
  shows "checkPin c pre s k = checkPin c pre s' k'"
  unfolding checkPin_def assms ..

lemma pinLoop_cong:
  assumes "mget s = mget s'" "mget k = mget k'"
  shows "pinLoop c pre s k ks v outs = pinLoop c pre s' k' ks v outs"
  unfolding pinLoop_eq vouchers_def failures_def checkPin_cong [OF assms] ..

lemma revLoop_maps: "revLoop c (a\<lparr>ia_Signatures := x, ia_SignerKeys := y\<rparr>) opts ss ch rb uv = revLoop c a opts ss ch rb uv"
  by (induction c a opts ss ch rb uv rule: revLoop.induct) (simp_all add: checkOf_def)

lemma VerifyIdentity_same:
  assumes "same_identity a b"
  shows "VerifyIdentity c (Some b) opts = VerifyIdentity c (Some a) opts"
proof -
  obtain x y where b: "b = a\<lparr>ia_Signatures := x, ia_SignerKeys := y\<rparr>" and m: "mget x = mget (ia_Signatures a)" "mget y = mget (ia_SignerKeys a)"
    using assms unfolding same_identity_def by (metis IdentityAttestation.select_convs IdentityAttestation.surjective IdentityAttestation.update_convs)
  have f: "ia_Version b = ia_Version a" "ia_Algorithm b = ia_Algorithm a" "ia_Serial b = ia_Serial a" "ia_Subject b = ia_Subject a"
      "ia_Principal b = ia_Principal a" "ia_DisplayName b = ia_DisplayName a" "ia_PrincipalType b = ia_PrincipalType a"
      "ia_Roles b = ia_Roles a" "ia_IssuedAt b = ia_IssuedAt a" "ia_ExpiresAt b = ia_ExpiresAt a" "ia_Issuer b = ia_Issuer a"
      "ia_Signatures b = x" "ia_SignerKeys b = y"
    by (simp_all add: b)
  have 1: "artifactProblem c b = artifactProblem c a" "newResult c b opts = newResult c a opts" "identityBytes b = identityBytes a"
    unfolding artifactProblem_def newResult_def identityBytes_def f by (rule refl)+
  have 2: "judge c b opts w res = judge c a opts w res" for w res
    unfolding judge_def checkRevocations_def f revLoop_maps [where a = a and x = x and y = y, folded b] ..
  show ?thesis unfolding VerifyIdentity_def option.case 1 2 f pinLoop_cong [OF m] m ..
qed

section \<open>Properties\<close>

text \<open>An identity file reads back as what was written: the document \<open>Marshal\<close> prints, when the
  lexer returns it, parses to the same artifact, field by field, with the same signatures
  and keys under every name (only the order inside the two maps may differ), so that it
  gets the same verdict for every pin set and time.\<close>

theorem identity_file_round_trip:
  assumes "pr_scan c (MarshalIdentity c a) = Some (json_identity a, [])"
  shows "\<exists>b. ParseIdentity c (MarshalIdentity c a) = Inr b \<and> same_identity a b \<and>
    (\<forall>opts. VerifyIdentity c (Some b) opts = VerifyIdentity c (Some a) opts)"
proof -
  obtain b where b: "decode_identity (json_identity a) = Some b" "same_identity a b" using decode_json_identity by blast
  then have "ParseIdentity c (MarshalIdentity c a) = Inr b"
    using assms by (simp add: ParseIdentity_def parseFile_def More_def)
  then show ?thesis using b(2) VerifyIdentity_same by blast
qed

text \<open>A lexer for one text: the printed sample.\<close>

definition file_prims :: Prims where
  "file_prims = id_prims\<lparr>pr_indent := \<lambda>_. ''identity.json'',
     pr_scan := \<lambda>b. if take 13 b = ''identity.json'' then Some (json_identity id_sample, drop 13 b) else None\<rparr>"

lemma file_prims_scan: "pr_scan file_prims (MarshalIdentity file_prims id_sample) = Some (json_identity id_sample, [])"
  by (simp add: file_prims_def MarshalIdentity_def)

theorem identity_file_round_trip_witness:
  "\<exists>b. ParseIdentity file_prims (MarshalIdentity file_prims id_sample) = Inr b \<and> same_identity id_sample b"
  using identity_file_round_trip [OF file_prims_scan] by blast

text \<open>The trailing-data check has a gap: whatever follows a document is accepted as long as its
  first character is a closing bracket or brace.\<close>

theorem trailing_closer_accepted:
  "\<exists>b. ParseIdentity file_prims (MarshalIdentity file_prims id_sample @ ''} and more'') = Inr b \<and> same_identity id_sample b"
proof -
  obtain b where b: "decode_identity (json_identity id_sample) = Some b" "same_identity id_sample b" using decode_json_identity by blast
  moreover have "More ''} and more'' = False" by code_simp
  ultimately show ?thesis by (simp add: ParseIdentity_def parseFile_def file_prims_def MarshalIdentity_def)
qed

end
