(* ===== verification/GoText.thy ===== *)
theory GoText
  imports Prelude
begin

text \<open>
  The text functions of the Go library the client uses: decimal numbers (\<open>strconv\<close>,
  \<open>fmt\<close>'s \<open>%d\<close> and \<open>%02d\<close>), \<open>strings.TrimSpace\<close>, \<open>HasPrefix\<close>, \<open>TrimPrefix\<close> and \<open>Split\<close>, and
  \<open>time.Duration.String\<close>. A string is its UTF-8 bytes.
\<close>

section \<open>Decimal numbers\<close>

definition digit :: "nat \<Rightarrow> char" where
  "digit n = char_of (48 + n)"

fun nat_string :: "nat \<Rightarrow> string" where
  "nat_string n = (if n < 10 then [digit n] else nat_string (n div 10) @ [digit (n mod 10)])"

declare nat_string.simps [simp del]

definition itoa :: "int \<Rightarrow> string" where
  "itoa i = (if i < 0 then CHR ''-'' # nat_string (nat (- i)) else nat_string (nat i))"

definition is_digit :: "char \<Rightarrow> bool" where
  "is_digit c \<longleftrightarrow> 48 \<le> (of_char c :: nat) \<and> (of_char c :: nat) \<le> 57"

definition digits_value :: "string \<Rightarrow> nat" where
  "digits_value s = foldl (\<lambda>n c. n * 10 + (of_char c - 48)) 0 s"

text \<open>\<open>strconv.Atoi\<close>: an optional sign, digits, and a value that fits.\<close>

definition atoi :: "string \<Rightarrow> int option" where
  "atoi s =
    (let (neg, ds) = (case s of c # cs \<Rightarrow> if c = CHR ''-'' then (True, cs) else if c = CHR ''+'' then (False, cs) else (False, s)
                               | [] \<Rightarrow> (False, s))
     in if ds = [] \<or> \<not> list_all is_digit ds then None
        else let v = int (digits_value ds); v = (if neg then - v else v)
        in if - (2 ^ 63) \<le> v \<and> v < 2 ^ 63 then Some v else None)"

text \<open>\<open>%02d\<close>\<close>

definition two_digits :: "nat \<Rightarrow> string" where
  "two_digits n = (if n < 10 then CHR ''0'' # nat_string n else nat_string n)"

section \<open>Strings\<close>

definition has_prefix :: "string \<Rightarrow> string \<Rightarrow> bool" where
  "has_prefix p s \<longleftrightarrow> take (length p) s = p"

definition trim_prefix :: "string \<Rightarrow> string \<Rightarrow> string" where
  "trim_prefix p s = (if has_prefix p s then drop (length p) s else s)"

text \<open>Split at every occurrence of a one-byte separator.\<close>

fun split_at :: "char \<Rightarrow> string \<Rightarrow> string list" where
  "split_at x [] = [[]]"
| "split_at x (c # cs) = (if c = x then [] # split_at x cs
     else case split_at x cs of [] \<Rightarrow> [[c]] | p # ps \<Rightarrow> (c # p) # ps)"

text \<open>The encodings of the code points Unicode counts as white space.\<close>

definition spaces :: "string list" where
  "spaces = [[CHR 0x09], [CHR 0x0A], [CHR 0x0B], [CHR 0x0C], [CHR 0x0D], [CHR 0x20], [CHR 0xC2, CHR 0x85], [CHR 0xC2, CHR 0xA0],
     [CHR 0xE1, CHR 0x9A, CHR 0x80]]
    @ map (\<lambda>n. [CHR 0xE2, CHR 0x80, char_of (n :: nat)]) ([128..<139] @ [168, 169, 175])
    @ [[CHR 0xE2, CHR 0x81, CHR 0x9F], [CHR 0xE3, CHR 0x80, CHR 0x80]]"

lemma spaces_not_Nil: "x \<in> set spaces \<Longrightarrow> x \<noteq> []"
  by (auto simp: spaces_def)

function trim_left :: "string list \<Rightarrow> string \<Rightarrow> string" where
  "trim_left ws s = (case find (\<lambda>x. x \<noteq> [] \<and> has_prefix x s) ws of None \<Rightarrow> s | Some x \<Rightarrow> trim_left ws (drop (length x) s))"
  by pat_completeness auto
termination
proof (relation "measure (length \<circ> snd)", simp)
  fix ws s x
  assume "find (\<lambda>x. x \<noteq> [] \<and> has_prefix x s) ws = Some x"
  then have "x \<noteq> []" "take (length x) s = x" by (auto simp: find_Some_iff has_prefix_def)
  then show "((ws, drop (length x) s), (ws, s)) \<in> measure (length \<circ> snd)" by (cases s) auto
qed

declare trim_left.simps [simp del]

definition trim_space :: "string \<Rightarrow> string" where
  "trim_space s = rev (trim_left (map rev spaces) (rev (trim_left spaces s)))"

section \<open>Durations\<close>

text \<open>A fraction of \<open>prec\<close> digits without its trailing zeros; nothing when it is zero.\<close>

fun frac_digits :: "nat \<Rightarrow> nat \<Rightarrow> string" where
  "frac_digits 0 v = []"
| "frac_digits (Suc p) v = frac_digits p (v div 10) @ [digit (v mod 10)]"

definition fmt_frac :: "nat \<Rightarrow> nat \<Rightarrow> string" where
  "fmt_frac prec v =
    (let ds = rev (dropWhile (\<lambda>c. c = CHR ''0'') (rev (frac_digits prec v))) in if ds = [] then [] else CHR ''.'' # ds)"

definition duration_string :: "duration \<Rightarrow> string" where
  "duration_string d =
    (let u = nat \<bar>d\<bar>;
         body =
          (if u = 0 then ''0s''
           else if u < 1000 then nat_string u @ ''ns''
           else if u < 1000000 then nat_string (u div 1000) @ fmt_frac 3 (u mod 1000) @ [CHR 0xC2, CHR 0xB5] @ ''s''
           else if u < 1000000000 then nat_string (u div 1000000) @ fmt_frac 6 (u mod 1000000) @ ''ms''
           else let secs = u div 1000000000;
                    s = nat_string (secs mod 60) @ fmt_frac 9 (u mod 1000000000) @ ''s'';
                    mins = secs div 60;
                    hours = mins div 60
                in (if hours > 0 then nat_string hours @ ''h'' else []) @ (if mins > 0 then nat_string (mins mod 60) @ ''m'' else []) @ s)
     in if d < 0 then CHR ''-'' # body else body)"

section \<open>Numbers read back\<close>

lemma of_char_digit: "n < 10 \<Longrightarrow> (of_char (digit n) :: nat) = 48 + n"
  by (simp add: digit_def)

lemma digits_value_snoc: "digits_value (s @ [c]) = digits_value s * 10 + (of_char c - 48)"
  by (simp add: digits_value_def)

lemma nat_string_value: "digits_value (nat_string n) = n"
proof (induction n rule: nat_string.induct)
  case (1 n)
  show ?case
  proof (cases "n < 10")
    case True
    then show ?thesis by (subst nat_string.simps) (simp add: digits_value_def of_char_digit)
  next
    case False
    then have "digits_value (nat_string n) = digits_value (nat_string (n div 10)) * 10 + n mod 10"
      by (subst nat_string.simps) (simp add: digits_value_snoc of_char_digit)
    also have "\<dots> = n" using 1 [OF False] by simp
    finally show ?thesis .
  qed
qed

lemma nat_string_digits: "list_all is_digit (nat_string n) \<and> nat_string n \<noteq> []"
proof (induction n rule: nat_string.induct)
  case (1 n)
  have "is_digit (digit (n mod 10))" by (simp add: is_digit_def of_char_digit)
  moreover have "n < 10 \<Longrightarrow> n mod 10 = n" by simp
  ultimately show ?case using 1 nat_string.simps [of n] by (cases "n < 10") auto
qed

lemma digits_value_zero: "digits_value (CHR ''0'' # s) = digits_value s"
  by (simp add: digits_value_def)

lemma two_digits_value: "digits_value (two_digits n) = n \<and> list_all is_digit (two_digits n) \<and> two_digits n \<noteq> []"
  using nat_string_value nat_string_digits [of n] by (auto simp: two_digits_def digits_value_zero is_digit_def)

lemma not_digit: "\<not> is_digit (CHR ''-'')" "\<not> is_digit (CHR ''+'')" "\<not> is_digit (CHR '':'')"
  by (simp_all add: is_digit_def)

lemma atoi_digits: "list_all is_digit s \<Longrightarrow> s \<noteq> [] \<Longrightarrow> int (digits_value s) < 2 ^ 63 \<Longrightarrow> atoi s = Some (int (digits_value s))"
  using not_digit by (cases s) (auto simp: atoi_def Let_def)

lemma atoi_two_digits: "int n < 2 ^ 63 \<Longrightarrow> atoi (two_digits n) = Some (int n)"
  using atoi_digits [of "two_digits n"] two_digits_value [of n] by simp

lemma split_at_none: "x \<notin> set s \<Longrightarrow> split_at x s = [s]"
  by (induction s) auto

lemma split_at_append: "x \<notin> set s \<Longrightarrow> split_at x (s @ x # t) = s # split_at x t"
  by (induction s) auto

lemma digits_no_sep: "list_all is_digit s \<Longrightarrow> CHR '':'' \<notin> set s"
  using not_digit(3) by (auto simp: list_all_iff)

end
