(* ===== verification/Alerts.thy ===== *)
theory Alerts
  imports Prelude Signing Config Wire Files GoText Hub
begin

text \<open>
  Inbound alerts, \<^verbatim>\<open>src/server/internal/alert/alert.go\<close>, and the routing rules they are matched
  against, \<^verbatim>\<open>src/server/internal/route/route.go\<close>: the schema and its bounds, the per-source
  credentials, the freshness window, the rate limits, and the matcher.

  What is not in the repository is a parameter. \<open>Limiter\<close> is the token bucket of
  \<^verbatim>\<open>golang.org/x/time/rate\<close>, over a type of buckets: a bucket is made from a number of events per
  a number of seconds (the code divides the two as floats) and a burst, and \<open>Allow\<close> reads the
  clock. \<open>Engine\<close> holds HMAC-SHA256, the regular expressions, the text of a number with a
  fraction or an exponent, and the conversion of a float outside the range of \<open>int64\<close>, which
  Go leaves to the implementation. The guards are \<open>None\<close> for the nil receiver.
\<close>

record 'l Limiter =
  lm_new :: "int \<Rightarrow> int \<Rightarrow> int \<Rightarrow> 'l"   \<comment> \<open>events, per seconds, burst\<close>
  lm_allow :: "go_time \<Rightarrow> 'l \<Rightarrow> 'l \<times> bool"

record Engine =
  en_hmac :: "bytes \<Rightarrow> bytes \<Rightarrow> bytes"   \<comment> \<open>key, message\<close>
  en_regexp :: "string \<Rightarrow> string \<Rightarrow> bool option"   \<comment> \<open>\<open>None\<close>: does not compile\<close>
  en_float :: "string \<Rightarrow> string option"   \<comment> \<open>\<open>None\<close>: out of range\<close>
  en_wide :: "int \<Rightarrow> int"

section \<open>The schema\<close>

definition MaxSummaryBytes :: nat where "MaxSummaryBytes = 1024"
definition MaxFieldBytes :: nat where "MaxFieldBytes = 256"
definition defaultRatePerMinute :: int where "defaultRatePerMinute = 60"
definition defaultSpawnPerHour :: int where "defaultSpawnPerHour = 20"

record AlertV1 =
  al_Source :: string
  al_Severity :: string
  al_Kind :: string
  al_Summary :: string
  al_Ref :: string
  al_TS :: int
  al_Signature :: string

datatype alert_error =
    Undecodable Files.parse_error
  | FieldsRequired
  | TooLong string nat   \<comment> \<open>the field and its bound\<close>
  | MissingSignature
  | SignatureNotHex
  | SignatureMismatch
  | InvalidToken
  | NoCredentials

definition Validate :: "AlertV1 \<Rightarrow> alert_error option" where
  "Validate a =
    (if al_Source a = [] \<or> al_Severity a = [] \<or> al_Kind a = [] then Some FieldsRequired
     else if length (al_Source a) > MaxFieldBytes then Some (TooLong ''source'' MaxFieldBytes)
     else if length (al_Severity a) > MaxFieldBytes then Some (TooLong ''severity'' MaxFieldBytes)
     else if length (al_Kind a) > MaxFieldBytes then Some (TooLong ''kind'' MaxFieldBytes)
     else if length (al_Ref a) > MaxFieldBytes then Some (TooLong ''ref'' MaxFieldBytes)
     else if length (al_Summary a) > MaxSummaryBytes then Some (TooLong ''summary'' MaxSummaryBytes)
     else None)"

definition decode_alert :: "json \<Rightarrow> AlertV1 option" where
  "decode_alert = strict_struct
     [(''source'', str_field (\<lambda>x s. s\<lparr>al_Source := x\<rparr>)),
      (''severity'', str_field (\<lambda>x s. s\<lparr>al_Severity := x\<rparr>)),
      (''kind'', str_field (\<lambda>x s. s\<lparr>al_Kind := x\<rparr>)),
      (''summary'', str_field (\<lambda>x s. s\<lparr>al_Summary := x\<rparr>)),
      (''ref'', str_field (\<lambda>x s. s\<lparr>al_Ref := x\<rparr>)),
      (''ts'', int_field (\<lambda>x s. s\<lparr>al_TS := x\<rparr>)),
      (''signature'', str_field (\<lambda>x s. s\<lparr>al_Signature := x\<rparr>))]
     \<lparr>al_Source = [], al_Severity = [], al_Kind = [], al_Summary = [], al_Ref = [], al_TS = 0, al_Signature = []\<rparr>"

definition ParseAlert :: "Prims \<Rightarrow> bytes \<Rightarrow> alert_error + AlertV1" where
  "ParseAlert c raw =
    (case parseFile c decode_alert raw of
       Inl e \<Rightarrow> Inl (Undecodable e)
     | Inr a \<Rightarrow> (case Validate a of Some e \<Rightarrow> Inl e | None \<Rightarrow> Inr a))"

definition ToMatchMap :: "AlertV1 \<Rightarrow> (string \<times> json) list" where
  "ToMatchMap a =
     [(''source'', JStr (al_Source a)), (''severity'', JStr (al_Severity a)), (''kind'', JStr (al_Kind a)),
      (''summary'', JStr (al_Summary a)), (''ref'', JStr (al_Ref a))]"

definition NoticeLine :: "AlertV1 \<Rightarrow> string" where
  "NoticeLine a =
    (let s = ''['' @ al_Severity a @ ''] '' @ al_Source a @ ''/'' @ al_Kind a;
         s = (if al_Summary a \<noteq> [] then s @ '': '' @ al_Summary a else s)
     in if al_Ref a \<noteq> [] then s @ '' (ref '' @ al_Ref a @ '')'' else s)"

section \<open>Credentials\<close>

definition signed_bytes :: "AlertV1 \<Rightarrow> bytes" where
  "signed_bytes a = AlertSigningBytes (al_Source a) (al_Severity a) (al_Kind a) (al_Summary a) (al_Ref a) (word_of_int (al_TS a))"

definition verifyHMAC :: "Engine \<Rightarrow> string \<Rightarrow> AlertV1 \<Rightarrow> alert_error option" where
  "verifyHMAC g secret a =
    (if al_Signature a = [] then Some MissingSignature
     else case hex_decode (al_Signature a) of
            None \<Rightarrow> Some SignatureNotHex
          | Some got \<Rightarrow> (if got \<noteq> en_hmac g secret (signed_bytes a) then Some SignatureMismatch else None))"

definition Authenticate :: "Engine \<Rightarrow> SourceConfig \<Rightarrow> AlertV1 \<Rightarrow> string \<Rightarrow> alert_error option" where
  "Authenticate g src a headerToken =
    (case (if sc_HMACSecret src \<noteq> [] then verifyHMAC g (sc_HMACSecret src) a else None) of
       Some e \<Rightarrow> Some e
     | None \<Rightarrow>
        (if sc_Token src \<noteq> [] \<and> headerToken \<noteq> sc_Token src then Some InvalidToken
         else if sc_HMACSecret src = [] \<and> sc_Token src = [] then Some NoCredentials
         else None))"

section \<open>Guards\<close>

record 'l Guards =
  gu_rate :: "(string, 'l) gomap"
  gu_spawn :: "(string, 'l) gomap"
  gu_warned :: "(string, bool) gomap"

definition NewGuards :: "'l Guards" where
  "NewGuards = \<lparr>gu_rate = [], gu_spawn = [], gu_warned = []\<rparr>"

text \<open>The bucket of a name, made on first use.\<close>

definition limiter :: "'l Limiter \<Rightarrow> (string, 'l) gomap \<Rightarrow> string \<Rightarrow> int \<Rightarrow> int \<Rightarrow> int \<Rightarrow> 'l" where
  "limiter lm into name events secs burst =
    (let burst = (if burst < 1 then 1 else burst)
     in case mget into name of Some l \<Rightarrow> l | None \<Rightarrow> lm_new lm events secs burst)"

definition spend :: "'l Limiter \<Rightarrow> go_time \<Rightarrow> string \<Rightarrow> int \<Rightarrow> int \<Rightarrow> (string, 'l) gomap \<Rightarrow> (string, 'l) gomap \<times> bool" where
  "spend lm now name per secs into =
    (let (l, ok) = lm_allow lm now (limiter lm into name per secs per) in (mput name l into, ok))"

definition spend_rate :: "'l Limiter \<Rightarrow> go_time \<Rightarrow> string \<Rightarrow> int \<Rightarrow> 'l Guards option \<Rightarrow> 'l Guards option \<times> bool" where
  "spend_rate lm now name per g =
    (case g of
       None \<Rightarrow> (None, True)
     | Some g \<Rightarrow> (let (m, ok) = spend lm now name per 60 (gu_rate g) in (Some (g\<lparr>gu_rate := m\<rparr>), ok)))"

definition spend_spawn :: "'l Limiter \<Rightarrow> go_time \<Rightarrow> string \<Rightarrow> int \<Rightarrow> 'l Guards option \<Rightarrow> 'l Guards option \<times> bool" where
  "spend_spawn lm now name per g =
    (case g of
       None \<Rightarrow> (None, True)
     | Some g \<Rightarrow> (let (m, ok) = spend lm now name per 3600 (gu_spawn g) in (Some (g\<lparr>gu_spawn := m\<rparr>), ok)))"

definition AllowRequest :: "'l Limiter \<Rightarrow> go_time \<Rightarrow> SourceConfig \<Rightarrow> 'l Guards option \<Rightarrow> 'l Guards option \<times> bool" where
  "AllowRequest lm now src =
     spend_rate lm now (sc_Name src) (if sc_RatePerMinute src \<le> 0 then defaultRatePerMinute else sc_RatePerMinute src)"

definition AllowSpawn :: "'l Limiter \<Rightarrow> go_time \<Rightarrow> SourceConfig \<Rightarrow> 'l Guards option \<Rightarrow> 'l Guards option \<times> bool" where
  "AllowSpawn lm now src =
     spend_spawn lm now (sc_Name src) (if sc_SpawnPerHour src \<le> 0 then defaultSpawnPerHour else sc_SpawnPerHour src)"

definition tokenKey :: "Prims \<Rightarrow> string \<Rightarrow> string" where
  "tokenKey c token = hex_encode (pr_sha256 c token)"

definition unauth_key :: string where "unauth_key = ''wh-unauth''"

definition AllowWebhookUnauth :: "'l Limiter \<Rightarrow> go_time \<Rightarrow> int \<Rightarrow> 'l Guards option \<Rightarrow> 'l Guards option \<times> bool" where
  "AllowWebhookUnauth lm now perMin =
     spend_rate lm now unauth_key (if perMin \<le> 0 then DefaultWebhookUnauthRatePerMinute else perMin)"

definition AllowWebhookRequest :: "Prims \<Rightarrow> 'l Limiter \<Rightarrow> go_time \<Rightarrow> string \<Rightarrow> int \<Rightarrow> 'l Guards option \<Rightarrow> 'l Guards option \<times> bool" where
  "AllowWebhookRequest c lm now token perMin =
     spend_rate lm now (''wh-rate:'' @ tokenKey c token) (if perMin \<le> 0 then DefaultWebhookRatePerMinute else perMin)"

definition AllowWebhookSpawn :: "Prims \<Rightarrow> 'l Limiter \<Rightarrow> go_time \<Rightarrow> string \<Rightarrow> int \<Rightarrow> 'l Guards option \<Rightarrow> 'l Guards option \<times> bool" where
  "AllowWebhookSpawn c lm now token perHour =
     spend_spawn lm now (''wh-spawn:'' @ tokenKey c token) (if perHour \<le> 0 then DefaultWebhookSpawnPerHour else perHour)"

subsection \<open>Freshness\<close>

definition resolveDuration :: "duration \<Rightarrow> duration \<Rightarrow> duration \<Rightarrow> duration" where
  "resolveDuration override global builtin = (if override > 0 then override else if global > 0 then global else builtin)"

definition warnOnce :: "string \<Rightarrow> 'l Guards \<Rightarrow> 'l Guards \<times> string" where
  "warnOnce name g =
    (if mget (gu_warned g) name = Some True then (g, [])
     else (g\<lparr>gu_warned := mput name True (gu_warned g)\<rparr>, ''freshness inactive: source sends no timestamp''))"

definition AllowFresh :: "go_time \<Rightarrow> SourceConfig \<Rightarrow> int \<Rightarrow> FreshnessConfig \<Rightarrow> 'l Guards option \<Rightarrow> 'l Guards option \<times> bool \<times> string \<times> string" where
  "AllowFresh now src ts def g =
    (case g of
       None \<Rightarrow> (None, True, [], [])
     | Some g \<Rightarrow>
        (if sc_HMACSecret src = [] then (Some g, True, [], [])
         else if ts = 0 then
           (if sc_RequireFresh src then (Some g, False, ''missing timestamp'', [])
            else let (g, warn) = warnOnce (sc_Name src) g in (Some g, True, [], warn))
         else
           (let window = resolveDuration (sc_FreshnessWindow src) (fr_Window def) DefaultFreshnessWindow;
                skew = resolveDuration (sc_FreshnessFutureSkew src) (fr_FutureSkew def) DefaultFreshnessFutureSkew;
                age = i64 (unix now - ts)
            in if age > whole_seconds window then (Some g, False, ''stale timestamp'', [])
               else if i64 (- age) > whole_seconds skew then (Some g, False, ''future timestamp'', [])
               else (Some g, True, [], []))))"

section \<open>Routing rules\<close>

definition regexMeta :: string where
  "regexMeta = ''.*+?()[]{}|^$'' @ [CHR 0x5C]"

definition matchValue :: "Engine \<Rightarrow> string \<Rightarrow> string \<Rightarrow> bool" where
  "matchValue g pattern actual =
    (if list_ex (\<lambda>ch. ch \<in> set regexMeta) pattern then en_regexp g (''^(?:'' @ pattern @ '')$'') actual = Some True
     else pattern = actual)"

text \<open>An object decoded into a Go map keeps the last value of a key.\<close>

definition field_of :: "(string \<times> json) list \<Rightarrow> string \<Rightarrow> json option" where
  "field_of kvs key = mget (rev kvs) key"

fun descend :: "json \<Rightarrow> string list \<Rightarrow> json option" where
  "descend cur [] = Some cur"
| "descend (JObj m) (p # ps) = (case field_of m p of None \<Rightarrow> None | Some v \<Rightarrow> descend v ps)"
| "descend _ (p # ps) = None"

definition lookup :: "(string \<times> json) list \<Rightarrow> string \<Rightarrow> json option" where
  "lookup doc path = descend (JObj doc) (split_at CHR ''.'' path)"

text \<open>The \<open>float64\<close> nearest to an integer: 53 significant bits, ties to even.\<close>

fun bit_length :: "nat \<Rightarrow> nat" where
  "bit_length n = (if n = 0 then 0 else Suc (bit_length (n div 2)))"

declare bit_length.simps [simp del]

definition nearest_float :: "nat \<Rightarrow> nat" where
  "nearest_float m =
    (let e = bit_length m - 53; q = m div 2 ^ e; r = 2 * (m mod 2 ^ e)
     in (if r > 2 ^ e \<or> r = 2 ^ e \<and> odd q then Suc q else q) * 2 ^ e)"

definition float_of_int :: "int \<Rightarrow> int" where
  "float_of_int n = sgn n * int (nearest_float (nat \<bar>n\<bar>))"

fun toString :: "Engine \<Rightarrow> json \<Rightarrow> string option" where
  "toString g (JStr s) = Some s"
| "toString g (JBool b) = Some (if b then ''true'' else ''false'')"
| "toString g (JInt n) = (let t = float_of_int n in Some (itoa (if int64 t then t else en_wide g t)))"
| "toString g (JFloat s) = en_float g s"
| "toString g _ = None"

definition matches :: "Engine \<Rightarrow> RouteConfig \<Rightarrow> (string \<times> json) list \<Rightarrow> bool" where
  "matches g r doc = list_all (\<lambda>(field, pattern).
     case lookup doc field of
       None \<Rightarrow> False
     | Some actual \<Rightarrow> (case toString g actual of None \<Rightarrow> False | Some s \<Rightarrow> matchValue g pattern s)) (ro_Match r)"

fun match_from :: "Engine \<Rightarrow> nat \<Rightarrow> RouteConfig list \<Rightarrow> (string \<times> json) list \<Rightarrow> (nat \<times> RouteConfig) option" where
  "match_from g i [] doc = None"
| "match_from g i (r # rs) doc =
    (if ro_Action r = ''break-glass'' \<and> matches g r doc then Some (i, r) else match_from g (Suc i) rs doc)"

definition Match :: "Engine \<Rightarrow> RouteConfig list \<Rightarrow> (string \<times> json) list \<Rightarrow> (nat \<times> RouteConfig) option" where
  "Match g routes doc = match_from g 0 routes doc"

section \<open>What the parts decide\<close>

lemma Validate_None: "Validate a = None \<longleftrightarrow> al_Source a \<noteq> [] \<and> al_Severity a \<noteq> [] \<and> al_Kind a \<noteq> [] \<and>
    list_all (\<lambda>x. length x \<le> MaxFieldBytes) [al_Source a, al_Severity a, al_Kind a, al_Ref a] \<and> length (al_Summary a) \<le> MaxSummaryBytes"
  by (auto simp: Validate_def)

definition hmac_ok :: "Engine \<Rightarrow> string \<Rightarrow> AlertV1 \<Rightarrow> bool" where
  "hmac_ok g secret a \<longleftrightarrow> al_Signature a \<noteq> [] \<and> hex_decode (al_Signature a) = Some (en_hmac g secret (signed_bytes a))"

text \<open>Every credential a source declares, and at least one of them.\<close>

definition credentials_ok :: "Engine \<Rightarrow> SourceConfig \<Rightarrow> AlertV1 \<Rightarrow> string \<Rightarrow> bool" where
  "credentials_ok g src a token \<longleftrightarrow> (sc_HMACSecret src \<noteq> [] \<or> sc_Token src \<noteq> []) \<and>
     (sc_HMACSecret src \<noteq> [] \<longrightarrow> hmac_ok g (sc_HMACSecret src) a) \<and> (sc_Token src \<noteq> [] \<longrightarrow> token = sc_Token src)"

lemma verifyHMAC_None: "verifyHMAC g secret a = None \<longleftrightarrow> hmac_ok g secret a"
  by (auto simp: verifyHMAC_def hmac_ok_def split: option.split)

lemma Authenticate_None: "Authenticate g src a token = None \<longleftrightarrow> credentials_ok g src a token"
  using verifyHMAC_None [of g "sc_HMACSecret src" a]
  by (cases "verifyHMAC g (sc_HMACSecret src) a") (auto simp: Authenticate_def credentials_ok_def)

text \<open>The window as it is meant, and as the wrapping subtraction has it.\<close>

definition window_of :: "SourceConfig \<Rightarrow> FreshnessConfig \<Rightarrow> int" where
  "window_of src def = whole_seconds (resolveDuration (sc_FreshnessWindow src) (fr_Window def) DefaultFreshnessWindow)"

definition skew_of :: "SourceConfig \<Rightarrow> FreshnessConfig \<Rightarrow> int" where
  "skew_of src def = whole_seconds (resolveDuration (sc_FreshnessFutureSkew src) (fr_FutureSkew def) DefaultFreshnessFutureSkew)"

definition fresh :: "go_time \<Rightarrow> SourceConfig \<Rightarrow> FreshnessConfig \<Rightarrow> int \<Rightarrow> bool" where
  "fresh now src def ts \<longleftrightarrow> sc_HMACSecret src = [] \<or> ts = 0 \<and> \<not> sc_RequireFresh src \<or>
     ts \<noteq> 0 \<and> (unix now - window_of src def \<le> ts \<and> ts \<le> unix now + skew_of src def \<or> ts = unix now - 2 ^ 63)"

lemma resolved_positive: "0 < b \<Longrightarrow> 0 < resolveDuration x y b"
  by (simp add: resolveDuration_def)

lemma window_range:
  assumes "sc_FreshnessWindow src < 2 ^ 63" "fr_Window def < 2 ^ 63"
  shows "0 \<le> window_of src def \<and> window_of src def < 2 ^ 60"
  using assms by (auto simp: window_of_def whole_seconds_def resolveDuration_def config_defaults second_def minute_def sgn_if)

lemma skew_range:
  assumes "sc_FreshnessFutureSkew src < 2 ^ 63" "fr_FutureSkew def < 2 ^ 63"
  shows "0 \<le> skew_of src def \<and> skew_of src def < 2 ^ 60"
  using assms by (auto simp: skew_of_def whole_seconds_def resolveDuration_def config_defaults second_def minute_def sgn_if)

definition freshness_sized :: "SourceConfig \<Rightarrow> FreshnessConfig \<Rightarrow> bool" where
  "freshness_sized src def \<longleftrightarrow> sc_FreshnessWindow src < 2 ^ 63 \<and> fr_Window def < 2 ^ 63 \<and>
     sc_FreshnessFutureSkew src < 2 ^ 63 \<and> fr_FutureSkew def < 2 ^ 63"

lemma i64_shift: "2 ^ 63 \<le> x \<Longrightarrow> x < 2 ^ 64 + 2 ^ 63 \<Longrightarrow> i64 x = x - 2 ^ 64"
  using mod_pos_pos_trivial [of "x + 2 ^ 63 - 2 ^ 64" "2 ^ 64"] minus_mod_self2 [of "x + 2 ^ 63" "2 ^ 64"] by (simp add: i64_def)

lemma age_window:
  fixes u ts w k :: int
  assumes "0 \<le> u" "u < 2 ^ 62" "- (2 ^ 63) \<le> ts" "ts < 2 ^ 63" "0 \<le> w" "w < 2 ^ 60" "0 \<le> k" "k < 2 ^ 60"
  shows "\<not> i64 (u - ts) > w \<and> \<not> i64 (- i64 (u - ts)) > k \<longleftrightarrow> u - w \<le> ts \<and> ts \<le> u + k \<or> ts = u - 2 ^ 63"
proof (cases "u - ts < 2 ^ 63")
  case True
  then have a: "i64 (u - ts) = u - ts" using assms by (intro i64_id) auto
  have "i64 (- (u - ts)) = ts - u" using assms True by (simp add: i64_id)
  with a True show ?thesis using assms by auto
next
  case False
  then have a: "i64 (u - ts) = u - ts - 2 ^ 64" using assms i64_shift [of "u - ts"] by simp
  show ?thesis
  proof (cases "u - ts = 2 ^ 63")
    case True
    then have "ts = u - 2 ^ 63" by simp
    then show ?thesis using assms by (simp add: i64_def)
  next
    case n: False
    then have "i64 (- (u - ts - 2 ^ 64)) = 2 ^ 64 - (u - ts)" using assms False by (simp add: i64_id)
    then show ?thesis using a assms False n by auto
  qed
qed

lemma AllowFresh_exact:
  assumes "freshness_sized src def" "0 \<le> unix now" "unix now < 2 ^ 62" "int64 ts"
  shows "fst (snd (AllowFresh now src ts def (Some g))) \<longleftrightarrow> fresh now src def ts"
proof -
  have "\<not> i64 (unix now - ts) > window_of src def \<and> \<not> i64 (- i64 (unix now - ts)) > skew_of src def \<longleftrightarrow>
      unix now - window_of src def \<le> ts \<and> ts \<le> unix now + skew_of src def \<or> ts = unix now - 2 ^ 63"
    using assms window_range [of src def] skew_range [of src def] by (intro age_window) (auto simp: freshness_sized_def int64_def)
  then show ?thesis
    by (auto simp: AllowFresh_def fresh_def Let_def window_of_def skew_of_def split: prod.split)
qed

text \<open>A freshness check never touches a bucket.\<close>

lemma AllowFresh_keeps:
  "map_option gu_rate (fst (AllowFresh now src ts def g)) = map_option gu_rate g"
  "map_option gu_spawn (fst (AllowFresh now src ts def g)) = map_option gu_spawn g"
  by (auto simp: AllowFresh_def warnOnce_def Let_def split: option.split)

text \<open>Spending from one bucket leaves every other as it was.\<close>

definition bucket :: "'l Guards option \<Rightarrow> string \<Rightarrow> 'l option" where
  "bucket g name = (case g of None \<Rightarrow> None | Some g \<Rightarrow> mget (gu_rate g) name)"

lemma spend_rate_other: "name' \<noteq> name \<Longrightarrow> bucket (fst (spend_rate lm now name per g)) name' = bucket g name'"
  by (auto simp: bucket_def spend_rate_def spend_def split_beta Let_def split: option.split)

lemma spend_rate_spawn: "map_option gu_spawn (fst (spend_rate lm now name per g)) = map_option gu_spawn g"
  "map_option gu_warned (fst (spend_rate lm now name per g)) = map_option gu_warned g"
  by (auto simp: spend_rate_def split_beta Let_def split: option.split)

lemma spend_rate_verdict:
  assumes "bucket g name = bucket g' name" "g = None \<longleftrightarrow> g' = None"
  shows "snd (spend_rate lm now name per g) = snd (spend_rate lm now name per g')"
  using assms by (auto simp: spend_rate_def spend_def limiter_def bucket_def split_beta Let_def split: option.split)

lemma spend_spawn_verdict:
  "map_option gu_spawn g = map_option gu_spawn g' \<Longrightarrow> snd (spend_spawn lm now name per g) = snd (spend_spawn lm now name per g')"
  by (auto simp: spend_spawn_def split_beta Let_def split: option.split)

text \<open>The matcher takes the first rule that applies.\<close>

lemma match_from_Some:
  "match_from g i rs doc = Some (j, r) \<longleftrightarrow> (\<exists>k < length rs. j = i + k \<and> r = rs ! k \<and> ro_Action r = ''break-glass'' \<and> matches g r doc \<and>
     (\<forall>l < k. \<not> (ro_Action (rs ! l) = ''break-glass'' \<and> matches g (rs ! l) doc)))"
proof (induction g i rs doc rule: match_from.induct)
  case (2 g i r0 rs doc)
  show ?case
  proof (cases "ro_Action r0 = ''break-glass'' \<and> matches g r0 doc")
    case True
    then show ?thesis by (auto simp: less_Suc_eq_0_disj)
  next
    case False
    then show ?thesis using 2 by (simp add: Ex_less_Suc2 All_less_Suc2) auto
  qed
qed simp

end
