(* ===== verification/Bodies.thy ===== *)
theory Bodies
  imports Prelude Wire Files
begin

text \<open>
  The payloads a client writes and reads: the bodies of the end-to-end encrypted frames
  (\<^verbatim>\<open>src/protocol/ext.go\<close>, \<^verbatim>\<open>artifact.go\<close>, \<^verbatim>\<open>file.go\<close>, \<^verbatim>\<open>stream.go\<close>), the server frames a client decodes
  (\<^verbatim>\<open>src/protocol/protocol.go\<close>) and a record entry as it travels (\<^verbatim>\<open>src/tui/record/record.go\<close>). Encoders follow
  the struct tags and decoders \<open>json.Unmarshal\<close>, as in \<open>Wire\<close>; every body interprets the
  \<open>payload\<close> contract of that theory.
\<close>

section \<open>Bodies of encrypted frames\<close>

fun json_strs :: "string list option \<Rightarrow> json" where
  "json_strs None = JNull"
| "json_strs (Some xs) = JArr (map JStr xs)"

record ExecRequestBody =
  xr_ID :: string
  xr_Cmd :: string

definition json_ExecRequestBody :: "ExecRequestBody \<Rightarrow> json" where
  "json_ExecRequestBody b = JObj [(''id'', JStr (xr_ID b)), (''cmd'', JStr (xr_Cmd b))]"

definition decode_ExecRequestBody :: "json \<Rightarrow> ExecRequestBody option" where
  "decode_ExecRequestBody = decode_struct
     [(''id'', str_field (\<lambda>x s. s\<lparr>xr_ID := x\<rparr>)),
      (''cmd'', str_field (\<lambda>x s. s\<lparr>xr_Cmd := x\<rparr>))]
     \<lparr>xr_ID = [], xr_Cmd = []\<rparr>"

record ExecResultBody =
  xs_ID :: string
  xs_Cmd :: string
  xs_Allowed :: bool
  xs_ExitCode :: int
  xs_Output :: string

definition json_ExecResultBody :: "ExecResultBody \<Rightarrow> json" where
  "json_ExecResultBody b = JObj ([(''id'', JStr (xs_ID b)), (''cmd'', JStr (xs_Cmd b)), (''allowed'', JBool (xs_Allowed b))]
     @ omit_int ''exit_code'' (xs_ExitCode b)
     @ omit_str ''output'' (xs_Output b))"

definition decode_ExecResultBody :: "json \<Rightarrow> ExecResultBody option" where
  "decode_ExecResultBody = decode_struct
     [(''id'', str_field (\<lambda>x s. s\<lparr>xs_ID := x\<rparr>)),
      (''cmd'', str_field (\<lambda>x s. s\<lparr>xs_Cmd := x\<rparr>)),
      (''allowed'', bool_field (\<lambda>x s. s\<lparr>xs_Allowed := x\<rparr>)),
      (''exit_code'', int_field (\<lambda>x s. s\<lparr>xs_ExitCode := x\<rparr>)),
      (''output'', str_field (\<lambda>x s. s\<lparr>xs_Output := x\<rparr>))]
     \<lparr>xs_ID = [], xs_Cmd = [], xs_Allowed = False, xs_ExitCode = 0, xs_Output = []\<rparr>"

record AckBody =
  ak_Tag :: string

definition json_AckBody :: "AckBody \<Rightarrow> json" where
  "json_AckBody b = JObj [(''tag'', JStr (ak_Tag b))]"

definition decode_AckBody :: "json \<Rightarrow> AckBody option" where
  "decode_AckBody = decode_struct
     [(''tag'', str_field (\<lambda>x s. s\<lparr>ak_Tag := x\<rparr>))]
     \<lparr>ak_Tag = []\<rparr>"

record HandoffBody =
  ho_ToID :: string
  ho_ToName :: string

definition json_HandoffBody :: "HandoffBody \<Rightarrow> json" where
  "json_HandoffBody b = JObj ([(''to_id'', JStr (ho_ToID b))]
     @ omit_str ''to_name'' (ho_ToName b))"

definition decode_HandoffBody :: "json \<Rightarrow> HandoffBody option" where
  "decode_HandoffBody = decode_struct
     [(''to_id'', str_field (\<lambda>x s. s\<lparr>ho_ToID := x\<rparr>)),
      (''to_name'', str_field (\<lambda>x s. s\<lparr>ho_ToName := x\<rparr>))]
     \<lparr>ho_ToID = [], ho_ToName = []\<rparr>"

record SealRequestBody =
  sq_HeadHash :: "bytes option"

definition json_SealRequestBody :: "SealRequestBody \<Rightarrow> json" where
  "json_SealRequestBody b = JObj [(''head_hash'', json_bytes (sq_HeadHash b))]"

definition decode_SealRequestBody :: "json \<Rightarrow> SealRequestBody option" where
  "decode_SealRequestBody = decode_struct
     [(''head_hash'', bytes_field (\<lambda>x s. s\<lparr>sq_HeadHash := x\<rparr>))]
     \<lparr>sq_HeadHash = None\<rparr>"

record SealAckBody =
  sa_HeadHash :: "bytes option"
  sa_Sig :: "bytes option"
  sa_Meaning :: string
  sa_SignerName :: string
  sa_SignedAt :: string

definition json_SealAckBody :: "SealAckBody \<Rightarrow> json" where
  "json_SealAckBody b = JObj ([(''head_hash'', json_bytes (sa_HeadHash b)), (''sig'', json_bytes (sa_Sig b))]
     @ omit_str ''meaning'' (sa_Meaning b)
     @ omit_str ''signer_name'' (sa_SignerName b)
     @ omit_str ''signed_at'' (sa_SignedAt b))"

definition decode_SealAckBody :: "json \<Rightarrow> SealAckBody option" where
  "decode_SealAckBody = decode_struct
     [(''head_hash'', bytes_field (\<lambda>x s. s\<lparr>sa_HeadHash := x\<rparr>)),
      (''sig'', bytes_field (\<lambda>x s. s\<lparr>sa_Sig := x\<rparr>)),
      (''meaning'', str_field (\<lambda>x s. s\<lparr>sa_Meaning := x\<rparr>)),
      (''signer_name'', str_field (\<lambda>x s. s\<lparr>sa_SignerName := x\<rparr>)),
      (''signed_at'', str_field (\<lambda>x s. s\<lparr>sa_SignedAt := x\<rparr>))]
     \<lparr>sa_HeadHash = None, sa_Sig = None, sa_Meaning = [], sa_SignerName = [], sa_SignedAt = []\<rparr>"

record RosterRequestBody =
  rq_SetHash :: "bytes option"
  rq_RoomID :: string
  rq_Epoch :: "64 word"
  rq_ExpiresUnix :: int

definition json_RosterRequestBody :: "RosterRequestBody \<Rightarrow> json" where
  "json_RosterRequestBody b = JObj [(''set_hash'', json_bytes (rq_SetHash b)), (''room_id'', JStr (rq_RoomID b)),
      (''epoch'', JInt (uint (rq_Epoch b))), (''expires_unix'', JInt (rq_ExpiresUnix b))]"

definition decode_RosterRequestBody :: "json \<Rightarrow> RosterRequestBody option" where
  "decode_RosterRequestBody = decode_struct
     [(''set_hash'', bytes_field (\<lambda>x s. s\<lparr>rq_SetHash := x\<rparr>)),
      (''room_id'', str_field (\<lambda>x s. s\<lparr>rq_RoomID := x\<rparr>)),
      (''epoch'', uint64_field (\<lambda>x s. s\<lparr>rq_Epoch := x\<rparr>)),
      (''expires_unix'', int_field (\<lambda>x s. s\<lparr>rq_ExpiresUnix := x\<rparr>))]
     \<lparr>rq_SetHash = None, rq_RoomID = [], rq_Epoch = 0, rq_ExpiresUnix = 0\<rparr>"

record RosterAckBody =
  rk_SetHash :: "bytes option"
  rk_SignerFpr :: string
  rk_Sig :: "bytes option"

definition json_RosterAckBody :: "RosterAckBody \<Rightarrow> json" where
  "json_RosterAckBody b = JObj [(''set_hash'', json_bytes (rk_SetHash b)), (''signer_fpr'', JStr (rk_SignerFpr b)),
      (''sig'', json_bytes (rk_Sig b))]"

definition decode_RosterAckBody :: "json \<Rightarrow> RosterAckBody option" where
  "decode_RosterAckBody = decode_struct
     [(''set_hash'', bytes_field (\<lambda>x s. s\<lparr>rk_SetHash := x\<rparr>)),
      (''signer_fpr'', str_field (\<lambda>x s. s\<lparr>rk_SignerFpr := x\<rparr>)),
      (''sig'', bytes_field (\<lambda>x s. s\<lparr>rk_Sig := x\<rparr>))]
     \<lparr>rk_SetHash = None, rk_SignerFpr = [], rk_Sig = None\<rparr>"

record ScuttleReceiptRequestBody =
  qr_ReceiptHash :: "bytes option"
  qr_RoomID :: string
  qr_Reason :: string
  qr_TS :: int
  qr_EpochFirst :: "64 word"
  qr_EpochLast :: "64 word"

definition json_ScuttleReceiptRequestBody :: "ScuttleReceiptRequestBody \<Rightarrow> json" where
  "json_ScuttleReceiptRequestBody b = JObj [(''receipt_hash'', json_bytes (qr_ReceiptHash b)), (''room_id'', JStr (qr_RoomID b)),
      (''reason'', JStr (qr_Reason b)), (''ts'', JInt (qr_TS b)),
      (''epoch_first'', JInt (uint (qr_EpochFirst b))), (''epoch_last'', JInt (uint (qr_EpochLast b)))]"

definition decode_ScuttleReceiptRequestBody :: "json \<Rightarrow> ScuttleReceiptRequestBody option" where
  "decode_ScuttleReceiptRequestBody = decode_struct
     [(''receipt_hash'', bytes_field (\<lambda>x s. s\<lparr>qr_ReceiptHash := x\<rparr>)),
      (''room_id'', str_field (\<lambda>x s. s\<lparr>qr_RoomID := x\<rparr>)),
      (''reason'', str_field (\<lambda>x s. s\<lparr>qr_Reason := x\<rparr>)),
      (''ts'', int_field (\<lambda>x s. s\<lparr>qr_TS := x\<rparr>)),
      (''epoch_first'', uint64_field (\<lambda>x s. s\<lparr>qr_EpochFirst := x\<rparr>)),
      (''epoch_last'', uint64_field (\<lambda>x s. s\<lparr>qr_EpochLast := x\<rparr>))]
     \<lparr>qr_ReceiptHash = None, qr_RoomID = [], qr_Reason = [], qr_TS = 0, qr_EpochFirst = 0, qr_EpochLast = 0\<rparr>"

record ScuttleReceiptAckBody =
  sk_ReceiptHash :: "bytes option"
  sk_SignerFpr :: string
  sk_Sig :: "bytes option"

definition json_ScuttleReceiptAckBody :: "ScuttleReceiptAckBody \<Rightarrow> json" where
  "json_ScuttleReceiptAckBody b = JObj [(''receipt_hash'', json_bytes (sk_ReceiptHash b)), (''signer_fpr'', JStr (sk_SignerFpr b)),
      (''sig'', json_bytes (sk_Sig b))]"

definition decode_ScuttleReceiptAckBody :: "json \<Rightarrow> ScuttleReceiptAckBody option" where
  "decode_ScuttleReceiptAckBody = decode_struct
     [(''receipt_hash'', bytes_field (\<lambda>x s. s\<lparr>sk_ReceiptHash := x\<rparr>)),
      (''signer_fpr'', str_field (\<lambda>x s. s\<lparr>sk_SignerFpr := x\<rparr>)),
      (''sig'', bytes_field (\<lambda>x s. s\<lparr>sk_Sig := x\<rparr>))]
     \<lparr>sk_ReceiptHash = None, sk_SignerFpr = [], sk_Sig = None\<rparr>"

record ActionRequestBody =
  aq_RequestID :: string
  aq_Action :: string
  aq_ParamsHash :: string
  aq_Params :: string
  aq_RequesterFpr :: string
  aq_Room :: string
  aq_QuorumNeeded :: int
  aq_ExpiresUnix :: int
  aq_Nonce :: string

definition json_ActionRequestBody :: "ActionRequestBody \<Rightarrow> json" where
  "json_ActionRequestBody b = JObj [(''request_id'', JStr (aq_RequestID b)), (''action'', JStr (aq_Action b)),
      (''params_hash'', JStr (aq_ParamsHash b)), (''params'', JStr (aq_Params b)),
      (''requester_fpr'', JStr (aq_RequesterFpr b)), (''room'', JStr (aq_Room b)),
      (''quorum_needed'', JInt (aq_QuorumNeeded b)), (''expires_unix'', JInt (aq_ExpiresUnix b)),
      (''nonce'', JStr (aq_Nonce b))]"

definition decode_ActionRequestBody :: "json \<Rightarrow> ActionRequestBody option" where
  "decode_ActionRequestBody = decode_struct
     [(''request_id'', str_field (\<lambda>x s. s\<lparr>aq_RequestID := x\<rparr>)),
      (''action'', str_field (\<lambda>x s. s\<lparr>aq_Action := x\<rparr>)),
      (''params_hash'', str_field (\<lambda>x s. s\<lparr>aq_ParamsHash := x\<rparr>)),
      (''params'', str_field (\<lambda>x s. s\<lparr>aq_Params := x\<rparr>)),
      (''requester_fpr'', str_field (\<lambda>x s. s\<lparr>aq_RequesterFpr := x\<rparr>)),
      (''room'', str_field (\<lambda>x s. s\<lparr>aq_Room := x\<rparr>)),
      (''quorum_needed'', int_field (\<lambda>x s. s\<lparr>aq_QuorumNeeded := x\<rparr>)),
      (''expires_unix'', int_field (\<lambda>x s. s\<lparr>aq_ExpiresUnix := x\<rparr>)),
      (''nonce'', str_field (\<lambda>x s. s\<lparr>aq_Nonce := x\<rparr>))]
     \<lparr>aq_RequestID = [], aq_Action = [], aq_ParamsHash = [], aq_Params = [], aq_RequesterFpr = [], aq_Room = [],
      aq_QuorumNeeded = 0, aq_ExpiresUnix = 0, aq_Nonce = []\<rparr>"

record ActionApprovalBody =
  aa_RequestID :: string
  aa_ParamsHash :: string
  aa_ApproverFpr :: string
  aa_Sig :: "bytes option"
  aa_Meaning :: string
  aa_Name :: string
  aa_SignedAt :: string

definition json_ActionApprovalBody :: "ActionApprovalBody \<Rightarrow> json" where
  "json_ActionApprovalBody b = JObj ([(''request_id'', JStr (aa_RequestID b)), (''params_hash'', JStr (aa_ParamsHash b)),
      (''approver_fpr'', JStr (aa_ApproverFpr b)), (''sig'', json_bytes (aa_Sig b))]
     @ omit_str ''meaning'' (aa_Meaning b)
     @ omit_str ''name'' (aa_Name b)
     @ omit_str ''signed_at'' (aa_SignedAt b))"

definition decode_ActionApprovalBody :: "json \<Rightarrow> ActionApprovalBody option" where
  "decode_ActionApprovalBody = decode_struct
     [(''request_id'', str_field (\<lambda>x s. s\<lparr>aa_RequestID := x\<rparr>)),
      (''params_hash'', str_field (\<lambda>x s. s\<lparr>aa_ParamsHash := x\<rparr>)),
      (''approver_fpr'', str_field (\<lambda>x s. s\<lparr>aa_ApproverFpr := x\<rparr>)),
      (''sig'', bytes_field (\<lambda>x s. s\<lparr>aa_Sig := x\<rparr>)),
      (''meaning'', str_field (\<lambda>x s. s\<lparr>aa_Meaning := x\<rparr>)),
      (''name'', str_field (\<lambda>x s. s\<lparr>aa_Name := x\<rparr>)),
      (''signed_at'', str_field (\<lambda>x s. s\<lparr>aa_SignedAt := x\<rparr>))]
     \<lparr>aa_RequestID = [], aa_ParamsHash = [], aa_ApproverFpr = [], aa_Sig = None, aa_Meaning = [], aa_Name = [],
      aa_SignedAt = []\<rparr>"

record ActionVetoBody =
  av_RequestID :: string
  av_VetoerFpr :: string
  av_Reason :: string

definition json_ActionVetoBody :: "ActionVetoBody \<Rightarrow> json" where
  "json_ActionVetoBody b = JObj ([(''request_id'', JStr (av_RequestID b)), (''vetoer_fpr'', JStr (av_VetoerFpr b))]
     @ omit_str ''reason'' (av_Reason b))"

definition decode_ActionVetoBody :: "json \<Rightarrow> ActionVetoBody option" where
  "decode_ActionVetoBody = decode_struct
     [(''request_id'', str_field (\<lambda>x s. s\<lparr>av_RequestID := x\<rparr>)),
      (''vetoer_fpr'', str_field (\<lambda>x s. s\<lparr>av_VetoerFpr := x\<rparr>)),
      (''reason'', str_field (\<lambda>x s. s\<lparr>av_Reason := x\<rparr>))]
     \<lparr>av_RequestID = [], av_VetoerFpr = [], av_Reason = []\<rparr>"

record ArtifactProposalBody =
  pp_ProposalID :: string
  pp_Source :: string
  pp_ArtifactRef :: string
  pp_ArtifactHash :: string
  pp_Summary :: string
  pp_ProposerFpr :: string
  pp_Quorum :: int
  pp_ProposedAt :: string
  pp_ExpiresUnix :: int
  pp_Nonce :: string

definition json_ArtifactProposalBody :: "ArtifactProposalBody \<Rightarrow> json" where
  "json_ArtifactProposalBody b = JObj ([(''proposal_id'', JStr (pp_ProposalID b)), (''source'', JStr (pp_Source b)),
      (''artifact_ref'', JStr (pp_ArtifactRef b)), (''artifact_hash'', JStr (pp_ArtifactHash b))]
     @ omit_str ''summary'' (pp_Summary b)
     @ [(''proposer_fpr'', JStr (pp_ProposerFpr b)), (''quorum'', JInt (pp_Quorum b)),
      (''proposed_at'', JStr (pp_ProposedAt b)), (''expires_unix'', JInt (pp_ExpiresUnix b)),
      (''nonce'', JStr (pp_Nonce b))])"

definition decode_ArtifactProposalBody :: "json \<Rightarrow> ArtifactProposalBody option" where
  "decode_ArtifactProposalBody = decode_struct
     [(''proposal_id'', str_field (\<lambda>x s. s\<lparr>pp_ProposalID := x\<rparr>)),
      (''source'', str_field (\<lambda>x s. s\<lparr>pp_Source := x\<rparr>)),
      (''artifact_ref'', str_field (\<lambda>x s. s\<lparr>pp_ArtifactRef := x\<rparr>)),
      (''artifact_hash'', str_field (\<lambda>x s. s\<lparr>pp_ArtifactHash := x\<rparr>)),
      (''summary'', str_field (\<lambda>x s. s\<lparr>pp_Summary := x\<rparr>)),
      (''proposer_fpr'', str_field (\<lambda>x s. s\<lparr>pp_ProposerFpr := x\<rparr>)),
      (''quorum'', int_field (\<lambda>x s. s\<lparr>pp_Quorum := x\<rparr>)),
      (''proposed_at'', str_field (\<lambda>x s. s\<lparr>pp_ProposedAt := x\<rparr>)),
      (''expires_unix'', int_field (\<lambda>x s. s\<lparr>pp_ExpiresUnix := x\<rparr>)),
      (''nonce'', str_field (\<lambda>x s. s\<lparr>pp_Nonce := x\<rparr>))]
     \<lparr>pp_ProposalID = [], pp_Source = [], pp_ArtifactRef = [], pp_ArtifactHash = [], pp_Summary = [],
      pp_ProposerFpr = [], pp_Quorum = 0, pp_ProposedAt = [], pp_ExpiresUnix = 0, pp_Nonce = []\<rparr>"

record ArtifactApprovalBody =
  pa_ProposalID :: string
  pa_ArtifactHash :: string
  pa_ApproverFpr :: string
  pa_Sig :: "bytes option"
  pa_Attestation :: "bytes option"
  pa_Role :: string

definition json_ArtifactApprovalBody :: "ArtifactApprovalBody \<Rightarrow> json" where
  "json_ArtifactApprovalBody b = JObj ([(''proposal_id'', JStr (pa_ProposalID b)), (''artifact_hash'', JStr (pa_ArtifactHash b)),
      (''approver_fpr'', JStr (pa_ApproverFpr b)), (''sig'', json_bytes (pa_Sig b))]
     @ omit_bytes ''attestation'' (pa_Attestation b)
     @ omit_str ''role'' (pa_Role b))"

definition decode_ArtifactApprovalBody :: "json \<Rightarrow> ArtifactApprovalBody option" where
  "decode_ArtifactApprovalBody = decode_struct
     [(''proposal_id'', str_field (\<lambda>x s. s\<lparr>pa_ProposalID := x\<rparr>)),
      (''artifact_hash'', str_field (\<lambda>x s. s\<lparr>pa_ArtifactHash := x\<rparr>)),
      (''approver_fpr'', str_field (\<lambda>x s. s\<lparr>pa_ApproverFpr := x\<rparr>)),
      (''sig'', bytes_field (\<lambda>x s. s\<lparr>pa_Sig := x\<rparr>)),
      (''attestation'', bytes_field (\<lambda>x s. s\<lparr>pa_Attestation := x\<rparr>)),
      (''role'', str_field (\<lambda>x s. s\<lparr>pa_Role := x\<rparr>))]
     \<lparr>pa_ProposalID = [], pa_ArtifactHash = [], pa_ApproverFpr = [], pa_Sig = None, pa_Attestation = None,
      pa_Role = []\<rparr>"

record ArtifactRejectionBody =
  aj_ProposalID :: string
  aj_RejecterFpr :: string
  aj_Reason :: string

definition json_ArtifactRejectionBody :: "ArtifactRejectionBody \<Rightarrow> json" where
  "json_ArtifactRejectionBody b = JObj ([(''proposal_id'', JStr (aj_ProposalID b)), (''rejecter_fpr'', JStr (aj_RejecterFpr b))]
     @ omit_str ''reason'' (aj_Reason b))"

definition decode_ArtifactRejectionBody :: "json \<Rightarrow> ArtifactRejectionBody option" where
  "decode_ArtifactRejectionBody = decode_struct
     [(''proposal_id'', str_field (\<lambda>x s. s\<lparr>aj_ProposalID := x\<rparr>)),
      (''rejecter_fpr'', str_field (\<lambda>x s. s\<lparr>aj_RejecterFpr := x\<rparr>)),
      (''reason'', str_field (\<lambda>x s. s\<lparr>aj_Reason := x\<rparr>))]
     \<lparr>aj_ProposalID = [], aj_RejecterFpr = [], aj_Reason = []\<rparr>"

record FileOfferMeta =
  fm_TransferID :: string
  fm_Filename :: string
  fm_Size :: int
  fm_Chunks :: int
  fm_SHA256 :: string

definition json_FileOfferMeta :: "FileOfferMeta \<Rightarrow> json" where
  "json_FileOfferMeta b = JObj [(''transfer_id'', JStr (fm_TransferID b)), (''filename'', JStr (fm_Filename b)),
      (''size'', JInt (fm_Size b)), (''chunks'', JInt (fm_Chunks b)), (''sha256'', JStr (fm_SHA256 b))]"

definition decode_FileOfferMeta :: "json \<Rightarrow> FileOfferMeta option" where
  "decode_FileOfferMeta = decode_struct
     [(''transfer_id'', str_field (\<lambda>x s. s\<lparr>fm_TransferID := x\<rparr>)),
      (''filename'', str_field (\<lambda>x s. s\<lparr>fm_Filename := x\<rparr>)),
      (''size'', int_field (\<lambda>x s. s\<lparr>fm_Size := x\<rparr>)),
      (''chunks'', int_field (\<lambda>x s. s\<lparr>fm_Chunks := x\<rparr>)),
      (''sha256'', str_field (\<lambda>x s. s\<lparr>fm_SHA256 := x\<rparr>))]
     \<lparr>fm_TransferID = [], fm_Filename = [], fm_Size = 0, fm_Chunks = 0, fm_SHA256 = []\<rparr>"

record StreamUpdateBody =
  su_StreamID :: string
  su_Name :: string
  su_Lines :: "string list option"
  su_Seq :: "64 word"
  su_TS :: int

definition json_StreamUpdateBody :: "StreamUpdateBody \<Rightarrow> json" where
  "json_StreamUpdateBody b = JObj [(''stream_id'', JStr (su_StreamID b)), (''name'', JStr (su_Name b)), (''lines'', json_strs (su_Lines b)),
      (''seq'', JInt (uint (su_Seq b))), (''ts'', JInt (su_TS b))]"

definition decode_StreamUpdateBody :: "json \<Rightarrow> StreamUpdateBody option" where
  "decode_StreamUpdateBody = decode_struct
     [(''stream_id'', str_field (\<lambda>x s. s\<lparr>su_StreamID := x\<rparr>)),
      (''name'', str_field (\<lambda>x s. s\<lparr>su_Name := x\<rparr>)),
      (''lines'', strs_field (\<lambda>x s. s\<lparr>su_Lines := x\<rparr>)),
      (''seq'', uint64_field (\<lambda>x s. s\<lparr>su_Seq := x\<rparr>)),
      (''ts'', int_field (\<lambda>x s. s\<lparr>su_TS := x\<rparr>))]
     \<lparr>su_StreamID = [], su_Name = [], su_Lines = None, su_Seq = 0, su_TS = 0\<rparr>"

record StreamEndBody =
  st_StreamID :: string
  st_Reason :: string

definition json_StreamEndBody :: "StreamEndBody \<Rightarrow> json" where
  "json_StreamEndBody b = JObj [(''stream_id'', JStr (st_StreamID b)), (''reason'', JStr (st_Reason b))]"

definition decode_StreamEndBody :: "json \<Rightarrow> StreamEndBody option" where
  "decode_StreamEndBody = decode_struct
     [(''stream_id'', str_field (\<lambda>x s. s\<lparr>st_StreamID := x\<rparr>)),
      (''reason'', str_field (\<lambda>x s. s\<lparr>st_Reason := x\<rparr>))]
     \<lparr>st_StreamID = [], st_Reason = []\<rparr>"

section \<open>Frames from the server\<close>

definition json_Hello :: "Hello \<Rightarrow> json" where
  "json_Hello h = JObj ([(''protocol_version'', JInt (he_ProtocolVersion h)), (''room'', JStr (he_Room h)),
     (''name'', JStr (he_DisplayName h)), (''identity_key'', json_bytes (he_IdentityKey h)), (''kx_key'', json_bytes (he_KXKey h))]
     @ omit_str ''invite_token'' (he_InviteToken h) @ omit_bytes ''attestation'' (he_Attestation h))"

definition json_BreakGlass :: "BreakGlass \<Rightarrow> json" where
  "json_BreakGlass b = JObj [(''invitees'', json_strs (bg_Invitees b)), (''ttl_seconds'', JInt (bg_TTLSeconds b))]"

definition zero_Member :: Member where
  "zero_Member = \<lparr>mb_ID = [], mb_DisplayName = [], mb_IdentityKey = None, mb_KXKey = None, mb_Attestation = None\<rparr>"

definition wire_member_fields :: "(string \<times> Member field_decoder) list" where
  "wire_member_fields =
     [(''id'', str_field (\<lambda>x s. s\<lparr>mb_ID := x\<rparr>)),
      (''name'', str_field (\<lambda>x s. s\<lparr>mb_DisplayName := x\<rparr>)),
      (''identity_key'', bytes_field (\<lambda>x s. s\<lparr>mb_IdentityKey := x\<rparr>)),
      (''kx_key'', bytes_field (\<lambda>x s. s\<lparr>mb_KXKey := x\<rparr>)),
      (''attestation'', bytes_field (\<lambda>x s. s\<lparr>mb_Attestation := x\<rparr>))]"

definition policy_fields :: "(string \<times> RoomPolicy field_decoder) list" where
  "policy_fields =
     [(''invite_only'', bool_field (\<lambda>x s. s\<lparr>rp_InviteOnly := x\<rparr>)),
      (''webhook'', bool_field (\<lambda>x s. s\<lparr>rp_Webhook := x\<rparr>)),
      (''ttl_seconds'', int_field (\<lambda>x s. s\<lparr>rp_TTLSeconds := x\<rparr>))]"

text \<open>A struct inside a struct is decoded into the value already there.\<close>

definition sub_field :: "(string \<times> 'a field_decoder) list \<Rightarrow> ('s \<Rightarrow> 'a) \<Rightarrow> ('a \<Rightarrow> 's \<Rightarrow> 's) \<Rightarrow> 's field_decoder" where
  "sub_field fs get upd s j = map_option (\<lambda>x. upd x s) (decode_struct fs (get s) j)"

definition decode_Welcome :: "json \<Rightarrow> Welcome option" where
  "decode_Welcome = decode_struct
     [(''protocol_version'', int_field (\<lambda>x s. s\<lparr>we_ProtocolVersion := x\<rparr>)),
      (''your_id'', str_field (\<lambda>x s. s\<lparr>we_YourID := x\<rparr>)),
      (''room'', str_field (\<lambda>x s. s\<lparr>we_Room := x\<rparr>)),
      (''members'', slice_field (decode_struct wire_member_fields) zero_Member we_Members (\<lambda>x s. s\<lparr>we_Members := x\<rparr>)),
      (''you_are_first'', bool_field (\<lambda>x s. s\<lparr>we_YouAreFirst := x\<rparr>)),
      (''policy'', sub_field policy_fields we_Policy (\<lambda>x s. s\<lparr>we_Policy := x\<rparr>))]
     \<lparr>we_ProtocolVersion = 0, we_YourID = [], we_Room = [], we_Members = [], we_YouAreFirst = False,
      we_Policy = \<lparr>rp_InviteOnly = False, rp_Webhook = False, rp_TTLSeconds = 0\<rparr>\<rparr>"

definition decode_MemberJoined :: "json \<Rightarrow> Member option" where
  "decode_MemberJoined = decode_struct [(''member'', decode_struct wire_member_fields)] zero_Member"

definition decode_MemberLeft :: "json \<Rightarrow> string option" where
  "decode_MemberLeft = decode_struct [(''id'', str_field (\<lambda>x s. x))] []"

definition decode_KeyRequest :: "json \<Rightarrow> Member option" where
  "decode_KeyRequest = decode_struct [(''for_member'', decode_struct wire_member_fields)] zero_Member"

definition decode_ServerMessage :: "json \<Rightarrow> ServerMessage option" where
  "decode_ServerMessage = decode_struct
     [(''kind'', str_field (\<lambda>x s. s\<lparr>sm_Kind := x\<rparr>)),
      (''from'', str_field (\<lambda>x s. s\<lparr>sm_From := x\<rparr>)),
      (''text'', str_field (\<lambda>x s. s\<lparr>sm_Text := x\<rparr>)),
      (''at'', int_field (\<lambda>x s. s\<lparr>sm_At := x\<rparr>))]
     \<lparr>sm_Kind = [], sm_From = [], sm_Text = [], sm_At = 0\<rparr>"

definition decode_InviteResult :: "json \<Rightarrow> InviteResult option" where
  "decode_InviteResult = decode_struct
     [(''room'', str_field (\<lambda>x s. s\<lparr>iv_Room := x\<rparr>)),
      (''token'', str_field (\<lambda>x s. s\<lparr>iv_Token := x\<rparr>)),
      (''expires'', int_field (\<lambda>x s. s\<lparr>iv_Expires := x\<rparr>))]
     \<lparr>iv_Room = [], iv_Token = [], iv_Expires = 0\<rparr>"

definition invite_fields :: "(string \<times> BreakGlassInvite field_decoder) list" where
  "invite_fields =
     [(''name'', str_field (\<lambda>x s. s\<lparr>bi_Name := x\<rparr>)),
      (''token'', str_field (\<lambda>x s. s\<lparr>bi_Token := x\<rparr>))]"

definition decode_BreakGlassResult :: "json \<Rightarrow> BreakGlassResult option" where
  "decode_BreakGlassResult = decode_struct
     [(''room'', str_field (\<lambda>x s. s\<lparr>br_Room := x\<rparr>)),
      (''ttl_seconds'', int_field (\<lambda>x s. s\<lparr>br_TTLSeconds := x\<rparr>)),
      (''expires'', int_field (\<lambda>x s. s\<lparr>br_Expires := x\<rparr>)),
      (''host_token'', str_field (\<lambda>x s. s\<lparr>br_HostToken := x\<rparr>)),
      (''invites'', slice_field (decode_struct invite_fields) \<lparr>bi_Name = [], bi_Token = []\<rparr> br_Invites
         (\<lambda>x s. s\<lparr>br_Invites := x\<rparr>))]
     \<lparr>br_Room = [], br_TTLSeconds = 0, br_Expires = 0, br_HostToken = [], br_Invites = []\<rparr>"

record RouteFired =
  rf_Room :: string
  rf_TriggerRule :: int
  rf_Invitees :: "string list option"
  rf_TTLSeconds :: int
  rf_At :: int

definition decode_RouteFired :: "json \<Rightarrow> RouteFired option" where
  "decode_RouteFired = decode_struct
     [(''room'', str_field (\<lambda>x s. s\<lparr>rf_Room := x\<rparr>)),
      (''trigger_rule'', int_field (\<lambda>x s. s\<lparr>rf_TriggerRule := x\<rparr>)),
      (''invitees'', strs_field (\<lambda>x s. s\<lparr>rf_Invitees := x\<rparr>)),
      (''ttl_seconds'', int_field (\<lambda>x s. s\<lparr>rf_TTLSeconds := x\<rparr>)),
      (''at'', int_field (\<lambda>x s. s\<lparr>rf_At := x\<rparr>))]
     \<lparr>rf_Room = [], rf_TriggerRule = 0, rf_Invitees = None, rf_TTLSeconds = 0, rf_At = 0\<rparr>"

definition decode_Error :: "json \<Rightarrow> (string \<times> string) option" where
  "decode_Error = decode_struct
     [(''code'', str_field (\<lambda>x s. (x, snd s))), (''message'', str_field (\<lambda>x s. (fst s, x)))] ([], [])"

section \<open>A record entry on the wire\<close>

text \<open>Links are written only when there are any; a slice that is not nil is written even when
  empty. Reading is lenient: keys the struct does not have are ignored, inside links too.\<close>

definition json_Link :: "Link \<Rightarrow> json" where
  "json_Link l = JObj [(''hash'', JStr (ln_Hash l)), (''rel'', JStr (ln_Relation l))]"

definition json_Entry :: "Entry \<Rightarrow> json" where
  "json_Entry e = JObj ([(''seq'', JInt (uint (en_Seq e))), (''ts'', JInt (sint (en_TS e))), (''author_id'', JStr (en_AuthorID e)),
      (''author_name'', JStr (en_AuthorName e)), (''author_key'', JStr (std_encode (en_AuthorKey e))), (''kind'', JStr (en_Kind e))]
     @ omit_str ''actionee'' (en_Actionee e)
     @ [(''body'', JStr (en_Body e)), (''prev_hash'', JStr (std_encode (en_PrevHash e))), (''sig'', JStr (std_encode (en_Sig e)))]
     @ omit_str ''schema'' (en_Schema e) @ omit_str ''schema_version'' (en_SchemaVer e)
     @ (if en_Links e = [] then [] else [(''links'', JArr (map json_Link (en_Links e)))])
     @ (if en_Replayed e then [(''replayed'', JBool True)] else []))"

definition decode_Entry :: "json \<Rightarrow> Entry option" where
  "decode_Entry = decode_struct
     (map (\<lambda>(n, d). if n = ''links''
         then (n, slice_field (decode_struct link_fields) \<lparr>ln_Hash = [], ln_Relation = []\<rparr> en_Links (\<lambda>x s. s\<lparr>en_Links := x\<rparr>))
         else (n, d)) entry_fields)
     zero_Entry"

definition json_ArtifactMeta :: "ArtifactMeta \<Rightarrow> json" where
  "json_ArtifactMeta m = JObj ([(''source'', JStr (am_Source m)), (''artifact_ref'', JStr (am_ArtifactRef m)),
      (''artifact_hash'', JStr (am_ArtifactHash m)), (''approver_fpr'', JStr (am_ApproverFpr m)),
      (''proposed_at'', JStr (am_ProposedAt m)), (''approved_at'', JStr (am_ApprovedAt m))]
     @ omit_str ''proposal_id'' (am_ProposalID m) @ omit_str ''nonce'' (am_Nonce m) @ omit_str ''proposer_fpr'' (am_ProposerFpr m))"

definition MarshalArtifactBody :: "Prims \<Rightarrow> ArtifactMeta \<Rightarrow> string" where
  "MarshalArtifactBody c m = pr_marshal c (json_ArtifactMeta m)"

section \<open>Round trips\<close>

lemma decode_all_strs [simp]: "decode_all json_string (map JStr xs) = Some xs"
  by (induction xs) simp_all

lemma strs_field_json [simp]: "strs_field upd s (json_strs x) = Some (upd x s)"
  by (cases x) simp_all

declare decode_struct.simps(2) [simp del]

interpretation xrb: payload json_ExecRequestBody decode_ExecRequestBody "\<lambda>_. True"
  by unfold_locales (simp add: json_ExecRequestBody_def decode_ExecRequestBody_def names)

interpretation xsb: payload json_ExecResultBody decode_ExecResultBody "\<lambda>b. int64 (xs_ExitCode b)"
  by unfold_locales (simp add: json_ExecResultBody_def decode_ExecResultBody_def names)

interpretation akb: payload json_AckBody decode_AckBody "\<lambda>_. True"
  by unfold_locales (simp add: json_AckBody_def decode_AckBody_def names)

interpretation hob: payload json_HandoffBody decode_HandoffBody "\<lambda>_. True"
  by unfold_locales (simp add: json_HandoffBody_def decode_HandoffBody_def names)

interpretation sqb: payload json_SealRequestBody decode_SealRequestBody "\<lambda>_. True"
  by unfold_locales (simp add: json_SealRequestBody_def decode_SealRequestBody_def names)

interpretation sab: payload json_SealAckBody decode_SealAckBody "\<lambda>_. True"
  by unfold_locales (simp add: json_SealAckBody_def decode_SealAckBody_def names)

interpretation rqb: payload json_RosterRequestBody decode_RosterRequestBody "\<lambda>b. int64 (rq_ExpiresUnix b)"
  by unfold_locales (simp add: json_RosterRequestBody_def decode_RosterRequestBody_def names)

interpretation rkb: payload json_RosterAckBody decode_RosterAckBody "\<lambda>_. True"
  by unfold_locales (simp add: json_RosterAckBody_def decode_RosterAckBody_def names)

interpretation qrb: payload json_ScuttleReceiptRequestBody decode_ScuttleReceiptRequestBody "\<lambda>b. int64 (qr_TS b)"
  by unfold_locales (simp add: json_ScuttleReceiptRequestBody_def decode_ScuttleReceiptRequestBody_def names)

interpretation skb: payload json_ScuttleReceiptAckBody decode_ScuttleReceiptAckBody "\<lambda>_. True"
  by unfold_locales (simp add: json_ScuttleReceiptAckBody_def decode_ScuttleReceiptAckBody_def names)

interpretation aqb: payload json_ActionRequestBody decode_ActionRequestBody "\<lambda>b. int64 (aq_QuorumNeeded b) \<and> int64 (aq_ExpiresUnix b)"
  by unfold_locales (simp add: json_ActionRequestBody_def decode_ActionRequestBody_def names)

interpretation aab: payload json_ActionApprovalBody decode_ActionApprovalBody "\<lambda>_. True"
  by unfold_locales (simp add: json_ActionApprovalBody_def decode_ActionApprovalBody_def names)

interpretation avb: payload json_ActionVetoBody decode_ActionVetoBody "\<lambda>_. True"
  by unfold_locales (simp add: json_ActionVetoBody_def decode_ActionVetoBody_def names)

interpretation ppb: payload json_ArtifactProposalBody decode_ArtifactProposalBody "\<lambda>b. int64 (pp_Quorum b) \<and> int64 (pp_ExpiresUnix b)"
  by unfold_locales (simp add: json_ArtifactProposalBody_def decode_ArtifactProposalBody_def names)

interpretation pab: payload json_ArtifactApprovalBody decode_ArtifactApprovalBody "\<lambda>b. pa_Attestation b \<noteq> Some []"
  by unfold_locales (auto simp: json_ArtifactApprovalBody_def decode_ArtifactApprovalBody_def names)

interpretation ajb: payload json_ArtifactRejectionBody decode_ArtifactRejectionBody "\<lambda>_. True"
  by unfold_locales (simp add: json_ArtifactRejectionBody_def decode_ArtifactRejectionBody_def names)

interpretation fmb: payload json_FileOfferMeta decode_FileOfferMeta "\<lambda>b. int64 (fm_Size b) \<and> int64 (fm_Chunks b)"
  by unfold_locales (simp add: json_FileOfferMeta_def decode_FileOfferMeta_def names)

interpretation sub: payload json_StreamUpdateBody decode_StreamUpdateBody "\<lambda>b. int64 (su_TS b)"
  by unfold_locales (simp add: json_StreamUpdateBody_def decode_StreamUpdateBody_def names)

interpretation stb: payload json_StreamEndBody decode_StreamEndBody "\<lambda>_. True"
  by unfold_locales (simp add: json_StreamEndBody_def decode_StreamEndBody_def names)

interpretation artifact_meta: payload json_ArtifactMeta decode_ArtifactMeta "\<lambda>_. True"
  by unfold_locales (simp add: json_ArtifactMeta_def decode_ArtifactMeta_def names zero_ArtifactMeta_def)

interpretation wire_member: payload json_Member "decode_struct wire_member_fields zero_Member" "\<lambda>m. mb_Attestation m \<noteq> Some []"
  by unfold_locales (auto simp: json_Member_def wire_member_fields_def zero_Member_def names split: option.splits)

lemma decode_slots_map:
  "(\<And>x. x \<in> set xs \<Longrightarrow> d z (e x) = Some x) \<Longrightarrow> decode_slots d z [] (map e xs) = Some xs"
  by (induction xs) simp_all

interpretation hello: payload json_Hello decode_Hello "\<lambda>h. int64 (he_ProtocolVersion h) \<and> he_Attestation h \<noteq> Some []"
  by unfold_locales (auto simp: json_Hello_def decode_Hello_def names split: option.splits)

interpretation member_joined: payload json_MemberJoined decode_MemberJoined "\<lambda>m. mb_Attestation m \<noteq> Some []"
  by unfold_locales (simp add: json_MemberJoined_def decode_MemberJoined_def names wire_member.dec_enc)

interpretation key_request: payload json_KeyRequest decode_KeyRequest "\<lambda>m. mb_Attestation m \<noteq> Some []"
  by unfold_locales (simp add: json_KeyRequest_def decode_KeyRequest_def names wire_member.dec_enc)

interpretation member_left: payload json_MemberLeft decode_MemberLeft "\<lambda>_. True"
  by unfold_locales (simp add: json_MemberLeft_def decode_MemberLeft_def names)

interpretation welcome_frame: payload json_Welcome decode_Welcome
  "\<lambda>w. int64 (we_ProtocolVersion w) \<and> int64 (rp_TTLSeconds (we_Policy w)) \<and> (\<forall>m \<in> set (we_Members w). mb_Attestation m \<noteq> Some [])"
proof (unfold_locales, elim conjE)
  fix w :: Welcome
  assume i: "int64 (we_ProtocolVersion w)" "int64 (rp_TTLSeconds (we_Policy w))"
    and m: "\<forall>m \<in> set (we_Members w). mb_Attestation m \<noteq> Some []"
  have "decode_slots (decode_struct wire_member_fields) zero_Member [] (map json_Member (we_Members w)) = Some (we_Members w)"
    using m by (intro decode_slots_map wire_member.dec_enc) blast
  moreover have "decode_struct policy_fields \<lparr>rp_InviteOnly = False, rp_Webhook = False, rp_TTLSeconds = 0\<rparr>
      (json_RoomPolicy (we_Policy w)) = Some (we_Policy w)"
    using i(2) by (simp add: policy_fields_def json_RoomPolicy_def names)
  ultimately show "decode_Welcome (json_Welcome w) = Some w"
    using i by (simp add: json_Welcome_def decode_Welcome_def sub_field_def names)
qed

lemma decode_Link: "decode_struct link_fields \<lparr>ln_Hash = [], ln_Relation = []\<rparr> (json_Link l) = Some l"
  by (simp add: link_fields_def json_Link_def names)

lemma sint_range: "- (2 ^ 63) \<le> sint (w :: 64 word) \<and> sint w < 2 ^ 63"
  using sint_ge [of w] sint_lt [of w] by simp

lemma ts_field: "int_field (\<lambda>x s. s\<lparr>en_TS := word_of_int x\<rparr>) s (JInt (sint w)) = Some (s\<lparr>en_TS := w\<rparr>)"
  using int_field_json [of "sint w"] sint_range [of w] by (simp add: int64_def)

lemma raw_field_json: "raw_field upd s (JStr (std_encode b)) = Some (upd b s)"
  by (simp add: raw_field_def)

interpretation record_entry: payload json_Entry decode_Entry "\<lambda>_. True"
proof unfold_locales
  fix e :: Entry
  have "decode_slots (decode_struct link_fields) \<lparr>ln_Hash = [], ln_Relation = []\<rparr> [] (map json_Link (en_Links e)) = Some (en_Links e)"
    by (intro decode_slots_map decode_Link)
  then show "decode_Entry (json_Entry e) = Some e"
    by (cases e) (simp add: json_Entry_def decode_Entry_def entry_fields_def zero_Entry_def names ts_field raw_field_json)
qed

end
