(* ===== verification/Api.thy ===== *)
theory Api
  imports Prelude Alerts Relay Bodies
begin

text \<open>
  The HTTP interface of the relay, \<^verbatim>\<open>src/server/internal/api/api.go\<close> and \<^verbatim>\<open>beacon.go\<close>: the webhook, the
  alert socket, the war rooms both can open, the status beacons and the read-only endpoints.

  A request is what the handlers read of it; a handler returns the state after it, the
  effects it asked of the hub and the response, or \<open>None\<close> where the search for a fresh room
  name does not end. Posting to a route's \<open>reply_url\<close> is fire and forget: the state keeps the
  list of what was posted. Logging is left out. Comparisons in constant time are equality.
\<close>

section \<open>State, requests and responses\<close>

record routeResponse =
  rsp_Room :: string
  rsp_Links :: "(string, string) gomap"

record spawnResult =
  sr_resp :: routeResponse
  sr_room :: EphRoom
  sr_invitees :: "string list"
  sr_ttl :: duration

record 'l API =
  ap_server :: Server
  ap_guards :: "'l Guards option"
  ap_wired :: bool   \<comment> \<open>neither the invite store nor the registry of war rooms is nil\<close>
  ap_posts :: "(string \<times> routeResponse) list"

record 'l Lib =
  lb_pr :: Prims
  lb_en :: Engine
  lb_lm :: "'l Limiter"

record Request =
  hr_Room :: string
  hr_Header :: string   \<comment> \<open>\<open>X-Netherchat-Token\<close>\<close>
  hr_Query :: string   \<comment> \<open>the query parameter \<open>token\<close>\<close>
  hr_Body :: bytes
  hr_TLS :: bool
  hr_Host :: string

datatype reply =
    Plain string
  | InvalidAlert alert_error
  | Accepted   \<comment> \<open>\<^verbatim>\<open>{"ok": true}\<close>\<close>
  | ErrorBody string
  | RouteBody routeResponse
  | AlertBody bool bool string "(string, string) gomap"   \<comment> \<open>accepted, spawned, room, links\<close>
  | BeaconBody string go_time
  | ValidBody "Config.parse_error option"
  | RoomsBody "RoomStat list"

type_synonym response = "int \<times> reply"

abbreviation ap_cfg :: "'l API \<Rightarrow> Config" where
  "ap_cfg a \<equiv> s_cfg (ap_server a)"

definition set_guards :: "'l Guards option \<Rightarrow> 'l API \<Rightarrow> 'l API" where
  "set_guards g a = a\<lparr>ap_guards := g\<rparr>"

definition request_token :: "Request \<Rightarrow> string" where
  "request_token r = (if hr_Header r \<noteq> [] then hr_Header r else hr_Query r)"

text \<open>\<open>http.MaxBytesReader\<close>: the whole body, or an error when it is longer than the limit.\<close>

definition read_body :: "nat \<Rightarrow> Request \<Rightarrow> bytes option" where
  "read_body limit r = (if length (hr_Body r) \<le> limit then Some (hr_Body r) else None)"

section \<open>Join links\<close>

definition webBase :: "Config \<Rightarrow> Request \<Rightarrow> string" where
  "webBase cfg r =
    (if sv_WebURL (cf_Server cfg) \<noteq> [] then sv_WebURL (cf_Server cfg)
     else (if hr_TLS r then ''https'' else ''http'') @ ''://'' @ hr_Host r)"

definition upper_hex :: "nat \<Rightarrow> char" where
  "upper_hex n = ''0123456789ABCDEF'' ! n"

definition unreserved :: "char \<Rightarrow> bool" where
  "unreserved ch \<longleftrightarrow> (let n = of_char ch :: nat in
     97 \<le> n \<and> n \<le> 122 \<or> 65 \<le> n \<and> n \<le> 90 \<or> 48 \<le> n \<and> n \<le> 57 \<or> ch \<in> {CHR ''-'', CHR ''_'', CHR ''.'', CHR ''~''})"

definition escape_char :: "char \<Rightarrow> string" where
  "escape_char ch =
    (if unreserved ch then [ch] else if ch = CHR '' '' then ''+''
     else [CHR ''%'', upper_hex (of_char ch div 16), upper_hex (of_char ch mod 16)])"

definition query_escape :: "string \<Rightarrow> string" where
  "query_escape s = concat (map escape_char s)"

definition trim_right :: "char \<Rightarrow> string \<Rightarrow> string" where
  "trim_right ch s = rev (dropWhile (\<lambda>x. x = ch) (rev s))"

definition joinLink :: "string \<Rightarrow> string \<Rightarrow> string \<Rightarrow> string" where
  "joinLink base room token =
     trim_right CHR ''/'' base @ ''/join?'' @ ''room='' @ query_escape room @ ''&token='' @ query_escape token"

section \<open>War rooms\<close>

definition clean_name :: "string \<Rightarrow> string" where
  "clean_name name = trim_prefix ''@'' (trim_space name)"

fun mint_links :: "Inputs \<Rightarrow> nat \<Rightarrow> string \<Rightarrow> string \<Rightarrow> duration \<Rightarrow> string list \<Rightarrow> Invites \<times> (string, string) gomap \<times> string list \<Rightarrow>
    Invites \<times> (string, string) gomap \<times> string list" where
  "mint_links inp i base room ttl [] acc = acc"
| "mint_links inp i base room ttl (n # ns) (ivs, links, invitees) =
    (let name = clean_name n
     in if name = [] then mint_links inp i base room ttl ns (ivs, links, invitees)
        else let (ivs, tok, _) = Generate (in_tokens inp i) (in_now inp) room ttl ivs
             in mint_links inp (Suc i) base room ttl ns (ivs, mput name (joinLink base room tok) links, invitees @ [name]))"

definition spawnWarRoom :: "Inputs \<Rightarrow> RouteConfig \<Rightarrow> string \<Rightarrow> string \<Rightarrow> string \<Rightarrow> 'l API \<Rightarrow> ('l API \<times> spawnResult option) option" where
  "spawnWarRoom inp rule by notice base a =
    (if \<not> ap_wired a then Some (a, None)
     else let ttl = ClampTTL (ro_TTL rule);
              prefix = (if ro_RoomPrefix rule = [] then ''inc'' else ro_RoomPrefix rule)
          in case CreateNamedNotice (in_names inp) 0 (in_now inp) ttl by prefix notice (s_ephemeral (ap_server a)) of
               None \<Rightarrow> None
             | Some (reg, room, _) \<Rightarrow>
                (let (ivs, links, invitees) = mint_links inp 0 base (er_Name room) ttl (ro_Invite rule) (s_invites (ap_server a), [], []);
                     resp = \<lparr>rsp_Room = er_Name room, rsp_Links = links\<rparr>
                 in Some (a\<lparr>ap_server := (ap_server a)\<lparr>s_ephemeral := reg, s_invites := ivs\<rparr>,
                      ap_posts := ap_posts a @ (if ro_ReplyURL rule \<noteq> [] then [(ro_ReplyURL rule, resp)] else [])\<rparr>,
                     Some \<lparr>sr_resp = resp, sr_room = room, sr_invitees = invitees, sr_ttl = ttl\<rparr>)))"

definition json_RouteFired :: "RouteFired \<Rightarrow> json" where
  "json_RouteFired r = JObj [(''room'', JStr (rf_Room r)), (''trigger_rule'', JInt (rf_TriggerRule r)),
     (''invitees'', (case rf_Invitees r of None \<Rightarrow> JNull | Some xs \<Rightarrow> JArr (map JStr xs))),
     (''ttl_seconds'', JInt (rf_TTLSeconds r)), (''at'', JInt (rf_At r))]"

definition fireRoute :: "Inputs \<Rightarrow> Request \<Rightarrow> string \<Rightarrow> nat \<Rightarrow> RouteConfig \<Rightarrow> 'l API \<Rightarrow> ('l API \<times> effect list \<times> response) option" where
  "fireRoute inp r intakeRoom idx rule a =
    (case spawnWarRoom inp rule (''webhook:'' @ intakeRoom) [] (webBase (ap_cfg a) r) a of
       None \<Rightarrow> None
     | Some (a, None) \<Rightarrow> Some (a, [], 500, ErrorBody ''auto-war-room is unavailable'')
     | Some (a, Some res) \<Rightarrow>
        (let fired = Encode OpRouteFired (json_RouteFired
               \<lparr>rf_Room = er_Name (sr_room res), rf_TriggerRule = int idx, rf_Invitees = Some (sr_invitees res),
                rf_TTLSeconds = whole_seconds (sr_ttl res), rf_At = unix (in_now inp)\<rparr>)
         in Some (a, Broadcast intakeRoom [] fired (s_hub (ap_server a)), 200, RouteBody (sr_resp res))))"

section \<open>The webhook\<close>

text \<open>\<open>json.Unmarshal\<close> into \<^verbatim>\<open>map[string]any\<close>: an object or \<open>null\<close>, all of whose numbers fit a \<open>float64\<close>.\<close>

fun numbers_ok :: "Engine \<Rightarrow> json \<Rightarrow> bool" where
  "numbers_ok g (JInt n) = (nearest_float (nat \<bar>n\<bar>) < 2 ^ 1024)"
| "numbers_ok g (JFloat s) = (en_float g s \<noteq> None)"
| "numbers_ok g (JArr js) = list_all (numbers_ok g) js"
| "numbers_ok g (JObj kvs) = list_all (\<lambda>kv. numbers_ok g (snd kv)) kvs"
| "numbers_ok g _ = True"

definition unmarshal_map :: "'l Lib \<Rightarrow> bytes \<Rightarrow> (string \<times> json) list option" where
  "unmarshal_map w raw =
    (case pr_json (lb_pr w) raw of
       Some JNull \<Rightarrow> Some []
     | Some (JObj kvs) \<Rightarrow> (if numbers_ok (lb_en w) (JObj kvs) then Some kvs else None)
     | _ \<Rightarrow> None)"

definition string_field :: "(string \<times> json) list \<Rightarrow> string \<Rightarrow> string" where
  "string_field doc key = (case field_of doc key of Some (JStr s) \<Rightarrow> s | _ \<Rightarrow> [])"

definition reject_unauth :: "'l Lib \<Rightarrow> Inputs \<Rightarrow> response \<Rightarrow> 'l API \<Rightarrow> ('l API \<times> effect list \<times> response) option" where
  "reject_unauth w inp resp a =
    (let (g, ok) = AllowWebhookUnauth (lb_lm w) (in_now inp) (WebhookUnauthRate (ap_cfg a)) (ap_guards a)
     in Some (set_guards g a, [], if ok then resp else (429, Plain ''too many requests'')))"

definition deliver_webhook :: "Inputs \<Rightarrow> string \<Rightarrow> (string \<times> json) list \<Rightarrow> 'l API \<Rightarrow> ('l API \<times> effect list \<times> response) option" where
  "deliver_webhook inp room doc a =
    (let text = string_field doc ''text''; from = string_field doc ''from''
     in if text = [] then Some (a, [], 400, Plain ''expected JSON {\"text\": \"...\", \"from\": \"...\"}'')
        else let from = (if from = [] then ''webhook'' else from);
                 env = Encode OpServerMessage (json_ServerMessage
                   \<lparr>sm_Kind = ''webhook'', sm_From = from, sm_Text = text, sm_At = unix (in_now inp)\<rparr>)
             in Some (a, Broadcast room [] env (s_hub (ap_server a)), 200, Accepted))"

definition webhook_authenticated :: "'l Lib \<Rightarrow> Inputs \<Rightarrow> Request \<Rightarrow> 'l API \<Rightarrow> ('l API \<times> effect list \<times> response) option" where
  "webhook_authenticated w inp r a =
    (let room = hr_Room r; policy = Room (ap_cfg a) room; token = request_token r;
         (g, ok) = AllowWebhookRequest (lb_pr w) (lb_lm w) (in_now inp) token (WebhookRate (ap_cfg a) policy) (ap_guards a);
         a = set_guards g a
     in if \<not> ok then Some (a, [], 429, Plain ''rate limit exceeded'')
        else case read_body 65536 r of
               None \<Rightarrow> Some (a, [], 413, Plain ''request body too large'')
             | Some raw \<Rightarrow>
                (case unmarshal_map w raw of
                   None \<Rightarrow> Some (a, [], 400, Plain ''expected a JSON object body'')
                 | Some doc \<Rightarrow>
                    (case Match (lb_en w) (cf_Routes (ap_cfg a)) doc of
                       None \<Rightarrow> deliver_webhook inp room doc a
                     | Some (idx, rule) \<Rightarrow>
                        (let (g, ok) = AllowWebhookSpawn (lb_pr w) (lb_lm w) (in_now inp) token (WebhookSpawn (ap_cfg a) policy) (ap_guards a);
                             a = set_guards g a
                         in if \<not> ok then Some (a, [], 429, Plain ''spawn cap exceeded'')
                            else fireRoute inp r room idx rule a))))"

definition webhook :: "'l Lib \<Rightarrow> Inputs \<Rightarrow> Request \<Rightarrow> 'l API \<Rightarrow> ('l API \<times> effect list \<times> response) option" where
  "webhook w inp r a =
    (let policy = Room (ap_cfg a) (hr_Room r)
     in if \<not> rm_Webhook policy then reject_unauth w inp (404, Plain ''webhooks are not enabled for this room'') a
        else if rm_WebhookToken policy = [] \<or> request_token r \<noteq> rm_WebhookToken policy
          then reject_unauth w inp (401, Plain ''invalid or missing webhook token'') a
        else webhook_authenticated w inp r a)"

section \<open>The alert socket\<close>

definition route_alert :: "'l Lib \<Rightarrow> Inputs \<Rightarrow> Request \<Rightarrow> SourceConfig \<Rightarrow> AlertV1 \<Rightarrow> 'l API \<Rightarrow> ('l API \<times> response) option" where
  "route_alert w inp r src al a =
    (case Match (lb_en w) (cf_Routes (ap_cfg a)) (ToMatchMap al) of
       None \<Rightarrow> Some (a, 200, AlertBody True False [] [])
     | Some (idx, rule) \<Rightarrow>
        (let (g, ok) = AllowSpawn (lb_lm w) (in_now inp) src (ap_guards a); a = set_guards g a
         in if \<not> ok then Some (a, 429, Plain ''spawn cap exceeded'')
            else case spawnWarRoom inp rule (''alert:'' @ al_Source al) (NoticeLine al) (webBase (ap_cfg a) r) a of
                   None \<Rightarrow> None
                 | Some (a, None) \<Rightarrow> Some (a, 500, ErrorBody ''auto-war-room is unavailable'')
                 | Some (a, Some res) \<Rightarrow> Some (a, 200, AlertBody True True (er_Name (sr_room res)) (rsp_Links (sr_resp res)))))"

definition alert :: "'l Lib \<Rightarrow> Inputs \<Rightarrow> Request \<Rightarrow> 'l API \<Rightarrow> ('l API \<times> response) option" where
  "alert w inp r a =
    (case read_body 65536 r of
       None \<Rightarrow> Some (a, 413, Plain ''request body too large'')
     | Some raw \<Rightarrow>
        (case ParseAlert (lb_pr w) raw of
           Inl e \<Rightarrow> Some (a, 400, InvalidAlert e)
         | Inr al \<Rightarrow>
            (case Source (ap_cfg a) (al_Source al) of
               None \<Rightarrow> Some (a, 401, Plain ''unknown or unauthenticated source'')
             | Some src \<Rightarrow>
                (let (g, ok) = AllowRequest (lb_lm w) (in_now inp) src (ap_guards a); a = set_guards g a
                 in if \<not> ok then Some (a, 429, Plain ''rate limit exceeded'')
                    else if Authenticate (lb_en w) src al (request_token r) \<noteq> None
                      then Some (a, 401, Plain ''unknown or unauthenticated source'')
                    else let (g, ok, reason, warn) = AllowFresh (in_now inp) src (al_TS al) (in_Freshness (cf_Ingest (ap_cfg a))) (ap_guards a);
                             a = set_guards g a
                         in if \<not> ok then Some (a, 400, Plain (''alert rejected: '' @ reason))
                            else route_alert w inp r src al a))))"

section \<open>Status beacons\<close>

definition maxBeaconBlob :: nat where "maxBeaconBlob = 16384"

definition beaconAuthorized :: "Request \<Rightarrow> string \<Rightarrow> bool" where
  "beaconAuthorized r want \<longleftrightarrow> want \<noteq> [] \<and> request_token r = want"

text \<open>The body's two fields, over their zero values.\<close>

definition decode_beacon :: "json \<Rightarrow> (string \<times> int) option" where
  "decode_beacon = decode_struct
     [(''ciphertext'', str_field (\<lambda>x s. (x, snd s))), (''ttl_seconds'', int_field (\<lambda>x s. (fst s, x)))] ([], 0)"

definition put_beacon :: "go_time \<Rightarrow> string \<Rightarrow> bytes \<Rightarrow> int \<Rightarrow> 'l API \<Rightarrow> 'l API" where
  "put_beacon now room ct seconds a =
     a\<lparr>ap_server := (ap_server a)\<lparr>s_beacons :=
       BSet now room ct (BeaconLifetime (Room (ap_cfg a) room) seconds) (s_beacons (ap_server a))\<rparr>\<rparr>"

definition beaconPut :: "'l Lib \<Rightarrow> go_time \<Rightarrow> Request \<Rightarrow> 'l API \<Rightarrow> 'l API \<times> response" where
  "beaconPut w now r a =
    (let room = hr_Room r; (want, enabled) = BeaconAuth (Room (ap_cfg a) room)
     in if \<not> enabled then (a, 404, Plain ''beacon is not enabled for this room'')
        else if \<not> beaconAuthorized r want then (a, 401, Plain ''invalid or missing beacon token'')
        else case read_body (maxBeaconBlob + 1024) r of
               None \<Rightarrow> (a, 413, Plain ''request body too large'')
             | Some raw \<Rightarrow>
                (case Option.bind (pr_json (lb_pr w) raw) decode_beacon of
                   None \<Rightarrow> (a, 400, Plain ''expected JSON {\"ciphertext\":\"<base64>\",\"ttl_seconds\":N}'')
                 | Some (text, seconds) \<Rightarrow>
                    (case std_decode text of
                       None \<Rightarrow> (a, 400, Plain ''ciphertext must be non-empty base64'')
                     | Some ct \<Rightarrow>
                        (if ct = [] then (a, 400, Plain ''ciphertext must be non-empty base64'')
                         else if length ct > maxBeaconBlob then (a, 413, Plain ''ciphertext too large'')
                         else (put_beacon now room ct seconds a, 200, Accepted)))))"

definition beaconGet :: "go_time \<Rightarrow> Request \<Rightarrow> 'l API \<Rightarrow> 'l API \<times> response" where
  "beaconGet now r a =
    (let (bs, e) = BGet now (hr_Room r) (s_beacons (ap_server a)); a = a\<lparr>ap_server := (ap_server a)\<lparr>s_beacons := bs\<rparr>\<rparr>
     in case e of
          None \<Rightarrow> (a, 404, Plain ''no beacon set for this room'')
        | Some e \<Rightarrow> (a, 200, BeaconBody (std_encode (be_Ciphertext e)) (be_UpdatedAt e)))"

definition beaconDelete :: "Request \<Rightarrow> 'l API \<Rightarrow> 'l API \<times> response" where
  "beaconDelete r a =
    (let room = hr_Room r; (want, enabled) = BeaconAuth (Room (ap_cfg a) room)
     in if \<not> enabled then (a, 404, Plain ''beacon is not enabled for this room'')
        else if \<not> beaconAuthorized r want then (a, 401, Plain ''invalid or missing beacon token'')
        else (a\<lparr>ap_server := (ap_server a)\<lparr>s_beacons := BDelete room (s_beacons (ap_server a))\<rparr>\<rparr>, 200, Accepted))"

section \<open>Read-only endpoints\<close>

definition configValidate :: "(bytes \<Rightarrow> Config \<Rightarrow> string option \<times> Config) \<Rightarrow> Request \<Rightarrow> response" where
  "configValidate toml r =
    (case read_body 262144 r of
       None \<Rightarrow> (413, Plain ''request body too large'')
     | Some raw \<Rightarrow> (200, ValidBody (snd (Config.Parse toml raw))))"

definition rooms_endpoint :: "'l API \<Rightarrow> response" where
  "rooms_endpoint a = (200, RoomsBody (Stats (s_hub (ap_server a))))"

section \<open>The event of a fired route\<close>

lemma route_names: "plain_name ''trigger_rule''"
  by code_simp

interpretation route_fired: payload json_RouteFired decode_RouteFired "\<lambda>r. int64 (rf_TriggerRule r) \<and> int64 (rf_TTLSeconds r) \<and> int64 (rf_At r)"
proof unfold_locales
  fix r :: RouteFired assume "int64 (rf_TriggerRule r) \<and> int64 (rf_TTLSeconds r) \<and> int64 (rf_At r)"
  then show "decode_RouteFired (json_RouteFired r) = Some r"
    by (cases "rf_Invitees r") (simp_all add: decode_RouteFired_def json_RouteFired_def names route_names del: decode_struct.simps(2))
qed

text \<open>What the observers of the intake room read is the room that was opened, and its people.\<close>

lemma send_all_env: "Send c env \<in> set (send_all ss e) \<Longrightarrow> env = e"
  by (induction ss e rule: send_all.induct) auto

lemma fireRoute_event:
  assumes "fireRoute inp r intake idx rule a = Some (a', es, 200, reply)" "Send c env \<in> set es" "int64 (int idx)" "int64 (unix (in_now inp))"
  shows "\<exists>res. reply = RouteBody (sr_resp res) \<and> spawnWarRoom inp rule (''webhook:'' @ intake) [] (webBase (ap_cfg a) r) a = Some (a', Some res) \<and>
    Decode decode_RouteFired env = Some \<lparr>rf_Room = er_Name (sr_room res), rf_TriggerRule = int idx, rf_Invitees = Some (sr_invitees res),
      rf_TTLSeconds = whole_seconds (sr_ttl res), rf_At = unix (in_now inp)\<rparr>"
proof -
  obtain res where res: "spawnWarRoom inp rule (''webhook:'' @ intake) [] (webBase (ap_cfg a) r) a = Some (a', Some res)" "reply = RouteBody (sr_resp res)"
    using assms(1) by (auto simp: fireRoute_def split: option.splits)
  let ?f = "\<lparr>rf_Room = er_Name (sr_room res), rf_TriggerRule = int idx, rf_Invitees = Some (sr_invitees res),
      rf_TTLSeconds = whole_seconds (sr_ttl res), rf_At = unix (in_now inp)\<rparr>"
  have "env = Encode OpRouteFired (json_RouteFired ?f)"
    using assms(1,2) res(1) by (auto simp: fireRoute_def Broadcast_def dest!: send_all_env)
  moreover have "sr_ttl res = ClampTTL (ro_TTL rule)"
    using res(1) by (auto simp: spawnWarRoom_def Let_def split_beta split: option.splits if_splits)
  then have "int64 (whole_seconds (sr_ttl res))"
    using ClampTTL_range [of "ro_TTL rule"] zdiv_mono1 [of "ClampTTL (ro_TTL rule)" 604800000000000 1000000000]
      pos_imp_zdiv_nonneg_iff [of 1000000000 "ClampTTL (ro_TTL rule)"]
    by (simp add: whole_seconds_def int64_def MinTTL_def MaxTTL_def hour_def minute_def second_def sgn_if)
  ultimately show ?thesis using res route_fired.Decode_Encode [of ?f OpRouteFired] assms(3,4) by simp
qed

section \<open>Alerts\<close>

lemma strict_object_keeps:
  assumes "\<And>name d s v s'. (name, d) \<in> set fs \<Longrightarrow> P s \<Longrightarrow> d s v = Some s' \<Longrightarrow> P s'"
  shows "P s \<Longrightarrow> strict_object fs kvs s = Some s' \<Longrightarrow> P s'"
proof (induction kvs arbitrary: s)
  case (Cons kv kvs)
  obtain key v where kv: "kv = (key, v)" by (cases kv)
  then obtain d s1 where d: "find_field fs key = Some d" "d s v = Some s1" "strict_object fs kvs s1 = Some s'"
    using Cons.prems by (auto split: option.splits)
  have "\<exists>name. (name, d) \<in> set fs" using d(1)
    by (induction fs key rule: find_field.induct) (auto simp: find_field.simps split: if_splits)
  then obtain name where "(name, d) \<in> set fs" ..
  from assms [OF this Cons.prems(1) d(2)] show ?case using Cons.IH d(3) by blast
qed simp

lemma int_field_int64: "int_field upd s v = Some s' \<Longrightarrow> s' = s \<or> (\<exists>x. int64 x \<and> s' = upd x s)"
  by (cases v) (auto simp: int_field.simps int64_def split: if_splits)

lemma str_field_cases: "str_field upd s v = Some s' \<Longrightarrow> s' = s \<or> (\<exists>x. s' = upd x s)"
  by (cases v) auto

lemma decode_alert_int64: "decode_alert j = Some a \<Longrightarrow> int64 (al_TS a)"
proof (cases j)
  case (JObj kvs)
  assume d: "decode_alert j = Some a"
  show ?thesis
    by (rule strict_object_keeps [where P = "\<lambda>a. int64 (al_TS a)", rotated 2])
      (use d JObj in \<open>auto simp: decode_alert_def int64_def dest!: int_field_int64 str_field_cases\<close>)
qed (auto simp: decode_alert_def int64_def)

lemma ParseAlert_Inr:
  assumes "ParseAlert c raw = Inr al"
  shows "Validate al = None" "int64 (al_TS al)"
  using assms decode_alert_int64
  by (auto simp: ParseAlert_def parseFile_def split: sum.splits option.splits if_splits)

lemma notice_bound: "Validate al = None \<Longrightarrow> length (NoticeLine al) \<le> 2061"
  by (auto simp: Validate_None NoticeLine_def Let_def MaxFieldBytes_def MaxSummaryBytes_def)

lemma set_guards_same [simp]:
  "ap_server (set_guards g a) = ap_server a" "ap_posts (set_guards g a) = ap_posts a"
  "ap_wired (set_guards g a) = ap_wired a" "ap_guards (set_guards g a) = g"
  by (simp_all add: set_guards_def)

lemma mint_links_ok: "invites_ok ivs \<Longrightarrow> invites_ok (fst (mint_links inp i base room ttl ns (ivs, links, invitees)))"
proof (induction ns arbitrary: i ivs links invitees)
  case (Cons n ns)
  then show ?case using Generate_ok [of ivs "in_tokens inp i" "in_now inp" room ttl] by (auto simp: Let_def split_beta)
qed simp

lemma rawurl_encode_Nil_iff: "rawurl_encode bs = [] \<longleftrightarrow> bs = []"
  unfolding rawurl_encode_def by (cases "(True, False, bs)" rule: b64_encode.cases) (auto simp: sextets_def)

lemma mint_links_invitees:
  "snd (snd (mint_links inp i base room ttl ns (ivs, links, invitees))) = invitees @ filter (\<lambda>n. n \<noteq> []) (map clean_name ns)"
  by (induction ns arbitrary: i ivs links invitees) (simp_all add: Let_def split_beta)

lemma mint_links_keys:
  "set (keys (fst (snd (mint_links inp i base room ttl ns (ivs, links, invitees))))) =
     set (keys links) \<union> set (filter (\<lambda>n. n \<noteq> []) (map clean_name ns))"
  by (induction ns arbitrary: i ivs links invitees) (auto simp: Let_def split_beta)

text \<open>Every link carries a token of this room that lasts as long as the room.\<close>

definition links_live :: "string \<Rightarrow> string \<Rightarrow> go_time \<Rightarrow> Invites \<Rightarrow> (string, string) gomap \<Rightarrow> bool" where
  "links_live base room till ivs links \<longleftrightarrow> (\<forall>n l. mget links n = Some l \<longrightarrow>
     (\<exists>tok. tok \<noteq> [] \<and> l = joinLink base room tok \<and> mget (tokens ivs) tok = Some \<lparr>ie_room = room, ie_expires = Some till\<rparr>))"

lemma mint_links_live:
  assumes "0 < ttl" "\<And>k. in_tokens inp k \<noteq> []"
  shows "links_live base room (in_now inp + ttl) ivs links \<Longrightarrow>
    links_live base room (in_now inp + ttl) (fst (mint_links inp i base room ttl ns (ivs, links, invitees)))
      (fst (snd (mint_links inp i base room ttl ns (ivs, links, invitees))))"
proof (induction ns arbitrary: i ivs links invitees)
  case (Cons n ns)
  let ?tok = "rawurl_encode (in_tokens inp i)"
  have "?tok \<noteq> []" using assms(2) [of i] by (metis rawurl_encode_Nil_iff)
  then have "links_live base room (in_now inp + ttl) (fst (Generate (in_tokens inp i) (in_now inp) room ttl ivs))
      (mput (clean_name n) (joinLink base room ?tok) links)"
    unfolding links_live_def
  proof (intro allI impI)
    fix m l
    assume l: "mget (mput (clean_name n) (joinLink base room ?tok) links) m = Some l"
    show "\<exists>tok. tok \<noteq> [] \<and> l = joinLink base room tok \<and> mget (tokens (fst (Generate (in_tokens inp i) (in_now inp) room ttl ivs))) tok =
        Some \<lparr>ie_room = room, ie_expires = Some (in_now inp + ttl)\<rparr>"
    proof (cases "m = clean_name n")
      case True
      with l \<open>?tok \<noteq> []\<close> assms(1) show ?thesis by (auto simp: Generate_def Let_def)
    next
      case False
      then obtain tok where "tok \<noteq> []" "l = joinLink base room tok" "mget (tokens ivs) tok = Some \<lparr>ie_room = room, ie_expires = Some (in_now inp + ttl)\<rparr>"
        using l Cons.prems by (auto simp: links_live_def)
      then show ?thesis using assms(1) by (intro exI [of _ tok]) (simp add: Generate_def Let_def)
    qed
  qed
  moreover have "fst (snd (Generate (in_tokens inp i) (in_now inp) room ttl ivs)) = ?tok" by (simp add: Generate_def Let_def)
  ultimately show ?case using Cons by (simp add: Let_def split_beta)
qed simp

lemma mint_links_others:
  assumes "\<And>k. tok \<noteq> rawurl_encode (in_tokens inp k)"
  shows "mget (tokens (fst (mint_links inp i base room ttl ns (ivs, links, invitees)))) tok = mget (tokens ivs) tok"
  using assms by (induction ns arbitrary: i ivs links invitees) (simp_all add: Let_def split_beta Generate_def)

lemma CreateNamedNotice_spec:
  assumes "CreateNamedNotice rnd i now ttl by prefix notice r = Some (r', room, j)"
  shows "GetRoom (er_Name room) r = None" "GetRoom (er_Name room) r' = Some room" "\<And>n. n \<noteq> er_Name room \<Longrightarrow> GetRoom n r' = GetRoom n r"
    "er_CreatedBy room = by" "er_Created room = now" "er_Deadline room = now + ClampTTL ttl" "er_Notice room = notice"
proof -
  from assms obtain r1 room1 where c: "CreateNamed rnd i now ttl by prefix r = Some (r1, room1, j)"
    by (auto simp: CreateNamedNotice_def Let_def split: option.splits prod.splits if_splits)
  from CreateNamed_spec [OF this] assms c
  show "GetRoom (er_Name room) r = None" "GetRoom (er_Name room) r' = Some room" "\<And>n. n \<noteq> er_Name room \<Longrightarrow> GetRoom n r' = GetRoom n r"
    "er_CreatedBy room = by" "er_Created room = now" "er_Deadline room = now + ClampTTL ttl" "er_Notice room = notice"
    by (auto simp: CreateNamedNotice_def GetRoom_def Let_def split: if_splits)
qed

lemma CreateNamedNotice_returns:
  assumes "GetRoom (newRoomName (rnd k) prefix) r = None" "prefix \<noteq> []"
  shows "\<exists>x. CreateNamedNotice rnd 0 now ttl by prefix notice r = Some x"
  using fresh_name_found [of "eph_rooms r" rnd k prefix 0] assms
  by (auto simp: CreateNamedNotice_def CreateNamed_def GetRoom_def Let_def split: option.split)

definition room_prefix :: "RouteConfig \<Rightarrow> string" where
  "room_prefix rule = (if ro_RoomPrefix rule = [] then ''inc'' else ro_RoomPrefix rule)"

text \<open>What a war room leaves behind.\<close>

lemma spawnWarRoom_spec:
  assumes "spawnWarRoom inp rule by notice base a = Some (a', Some res)"
  defines "room \<equiv> sr_room res" and "s \<equiv> ap_server a" and "s' \<equiv> ap_server a'"
  shows "\<exists>reg ivs. s' = s\<lparr>s_ephemeral := reg, s_invites := ivs\<rparr>" "rsp_Room (sr_resp res) = er_Name room"
    "GetRoom (er_Name room) (s_ephemeral s) = None" "GetRoom (er_Name room) (s_ephemeral s') = Some room"
    "\<And>n. n \<noteq> er_Name room \<Longrightarrow> GetRoom n (s_ephemeral s') = GetRoom n (s_ephemeral s)"
    "er_Deadline room = in_now inp + ClampTTL (ro_TTL rule)" "er_Notice room = notice" "er_CreatedBy room = by"
    "set (keys (rsp_Links (sr_resp res))) = set (filter (\<lambda>n. n \<noteq> []) (map clean_name (ro_Invite rule)))"
    "(\<And>k. in_tokens inp k \<noteq> []) \<Longrightarrow> links_live base (er_Name room) (er_Deadline room) (s_invites s') (rsp_Links (sr_resp res))"
    "\<And>tok. (\<And>k. tok \<noteq> rawurl_encode (in_tokens inp k)) \<Longrightarrow> mget (tokens (s_invites s')) tok = mget (tokens (s_invites s)) tok"
proof -
  let ?ttl = "ClampTTL (ro_TTL rule)"
  obtain reg rm j where c: "CreateNamedNotice (in_names inp) 0 (in_now inp) ?ttl by (room_prefix rule) notice (s_ephemeral s) = Some (reg, rm, j)"
    using assms(1) by (auto simp: spawnWarRoom_def room_prefix_def s_def Let_def split: option.splits if_splits)
  let ?m = "mint_links inp 0 base (er_Name rm) ?ttl (ro_Invite rule) (s_invites s, [], [])"
  have r: "room = rm" "rsp_Room (sr_resp res) = er_Name rm" "rsp_Links (sr_resp res) = fst (snd ?m)" "s' = s\<lparr>s_ephemeral := reg, s_invites := fst ?m\<rparr>"
    using assms(1) c by (auto simp: spawnWarRoom_def room_prefix_def room_def s_def s'_def Let_def split_beta split: if_splits)
  have t: "0 < ?ttl" "ClampTTL ?ttl = ?ttl" using ClampTTL_range [of "ro_TTL rule"] ClampTTL_range [of ?ttl]
    by (auto simp: ClampTTL_def MinTTL_def minute_def second_def MaxTTL_def hour_def)
  note sp = CreateNamedNotice_spec [OF c]
  show "\<exists>reg ivs. s' = s\<lparr>s_ephemeral := reg, s_invites := ivs\<rparr>" "rsp_Room (sr_resp res) = er_Name room" using r by auto
  show "GetRoom (er_Name room) (s_ephemeral s) = None" "GetRoom (er_Name room) (s_ephemeral s') = Some room"
    "\<And>n. n \<noteq> er_Name room \<Longrightarrow> GetRoom n (s_ephemeral s') = GetRoom n (s_ephemeral s)"
    "er_Notice room = notice" "er_CreatedBy room = by" using sp r by simp_all
  show d: "er_Deadline room = in_now inp + ?ttl" using sp t r by simp
  show "set (keys (rsp_Links (sr_resp res))) = set (filter (\<lambda>n. n \<noteq> []) (map clean_name (ro_Invite rule)))"
    using mint_links_keys [of inp 0 base "er_Name rm" ?ttl "ro_Invite rule" "s_invites s" "[]" "[]"] r by simp
  show "links_live base (er_Name room) (er_Deadline room) (s_invites s') (rsp_Links (sr_resp res))" if "\<And>k. in_tokens inp k \<noteq> []"
    using mint_links_live [OF t(1) that, of base "er_Name rm" "s_invites s" "[]" 0 "ro_Invite rule" "[]"] r d by (simp add: links_live_def)
  show "mget (tokens (s_invites s')) tok = mget (tokens (s_invites s)) tok" if "\<And>k. tok \<noteq> rawurl_encode (in_tokens inp k)" for tok
    using mint_links_others [of tok inp] that r by simp
qed

definition only_war_rooms :: "Server \<Rightarrow> Server \<Rightarrow> bool" where
  "only_war_rooms s s' \<longleftrightarrow> (\<exists>reg ivs. s' = s\<lparr>s_ephemeral := reg, s_invites := ivs\<rparr>)"

lemma only_war_rooms_refl [simp]: "only_war_rooms s s"
  unfolding only_war_rooms_def by (intro exI [of _ "s_ephemeral s"] exI [of _ "s_invites s"]) simp

lemma spawnWarRoom_keeps:
  assumes "spawnWarRoom inp rule by notice base a = Some (a', res)"
  shows "only_war_rooms (ap_server a) (ap_server a') \<and> ap_wired a' = ap_wired a \<and> ap_guards a' = ap_guards a \<and>
    (res = None \<longrightarrow> a' = a) \<and> (server_ok (ap_server a) \<longrightarrow> server_ok (ap_server a'))"
proof (cases "ap_wired a")
  case True
  let ?ttl = "ClampTTL (ro_TTL rule)"
  obtain reg rm j where c: "CreateNamedNotice (in_names inp) 0 (in_now inp) ?ttl by (room_prefix rule) notice (s_ephemeral (ap_server a)) = Some (reg, rm, j)"
    using assms True by (auto simp: spawnWarRoom_def room_prefix_def Let_def split: option.splits)
  let ?m = "mint_links inp 0 base (er_Name rm) ?ttl (ro_Invite rule) (s_invites (ap_server a), [], [])"
  have r: "ap_server a' = (ap_server a)\<lparr>s_ephemeral := reg, s_invites := fst ?m\<rparr>" "ap_wired a' = ap_wired a" "ap_guards a' = ap_guards a" "res \<noteq> None"
    using assms c True by (auto simp: spawnWarRoom_def room_prefix_def Let_def split_beta)
  have "server_ok (ap_server a')" if "server_ok (ap_server a)"
    using that r(1) mint_links_ok registry_ok_CreateNamedNotice [OF _ c] by (simp add: server_ok_def queue_def)
  with r show ?thesis unfolding only_war_rooms_def by blast
next
  case False
  then have "a' = a" "res = None" using assms by (auto simp: spawnWarRoom_def)
  then show ?thesis by simp
qed

lemma spawnWarRoom_returns:
  assumes "ap_wired a" "GetRoom (newRoomName (in_names inp k) (room_prefix rule)) (s_ephemeral (ap_server a)) = None"
  shows "\<exists>a' res. spawnWarRoom inp rule by notice base a = Some (a', Some res)"
proof -
  have p: "room_prefix rule \<noteq> []" by (simp add: room_prefix_def)
  show ?thesis using CreateNamedNotice_returns [of "in_names inp" k, OF assms(2) p, of "in_now inp" "ClampTTL (ro_TTL rule)" "by" notice] assms(1)
    by (auto simp: spawnWarRoom_def Let_def split_beta room_prefix_def)
qed

lemma Source_in: "Source cfg name = Some src \<Longrightarrow> src \<in> set (cf_Sources cfg) \<and> sc_Name src = name"
proof -
  have "find_source ss name = Some src \<Longrightarrow> src \<in> set ss \<and> sc_Name src = name" for ss
    by (induction ss name rule: find_source.induct) (auto split: if_splits)
  then show "Source cfg name = Some src \<Longrightarrow> src \<in> set (cf_Sources cfg) \<and> sc_Name src = name" by (simp add: Source_def)
qed

text \<open>What the alert socket answers to an accepted alert.\<close>

definition alert_served :: "'l Lib \<Rightarrow> go_time \<Rightarrow> AlertV1 \<Rightarrow> reply \<Rightarrow> 'l API \<Rightarrow> 'l API \<Rightarrow> bool" where
  "alert_served w now al reply a a' \<longleftrightarrow>
    (case Match (lb_en w) (cf_Routes (ap_cfg a)) (ToMatchMap al) of
       None \<Rightarrow> reply = AlertBody True False [] [] \<and> ap_server a' = ap_server a \<and> ap_posts a' = ap_posts a
     | Some (i, rule) \<Rightarrow> (\<exists>er links. reply = AlertBody True True (er_Name er) links \<and>
         GetRoom (er_Name er) (s_ephemeral (ap_server a)) = None \<and> GetRoom (er_Name er) (s_ephemeral (ap_server a')) = Some er \<and>
         er_Notice er = NoticeLine al \<and> length (NoticeLine al) \<le> 2061 \<and> er_CreatedBy er = ''alert:'' @ al_Source al \<and>
         er_Deadline er = now + ClampTTL (ro_TTL rule)))"

lemma alert_served_guards [simp]: "alert_served w now al reply (set_guards g a) a' = alert_served w now al reply a a'"
  by (simp add: alert_served_def split: option.split)

lemma route_alert_served:
  assumes "route_alert w inp r src al a = Some (a', status, reply)" "Validate al = None"
  shows "only_war_rooms (ap_server a) (ap_server a') \<and>
    (if status = 200 then alert_served w (in_now inp) al reply a a' else ap_server a' = ap_server a \<and> ap_posts a' = ap_posts a)"
proof (cases "Match (lb_en w) (cf_Routes (ap_cfg a)) (ToMatchMap al)")
  case None
  then have "a' = a" "status = 200" "reply = AlertBody True False [] []" using assms(1) by (auto simp: route_alert_def)
  then show ?thesis using None by (simp add: alert_served_def)
next
  case (Some m)
  obtain i rule where m: "m = (i, rule)" by (cases m)
  obtain g ok where g: "AllowSpawn (lb_lm w) (in_now inp) src (ap_guards a) = (g, ok)" by fastforce
  show ?thesis
  proof (cases ok)
    case False
    then have "a' = set_guards g a" "status = 429" using assms(1) Some m g by (auto simp: route_alert_def)
    then show ?thesis by simp
  next
    case True
    then obtain res where s: "spawnWarRoom inp rule (''alert:'' @ al_Source al) (NoticeLine al) (webBase (ap_cfg a) r) (set_guards g a) = Some (a', res)"
        "case res of None \<Rightarrow> status = 500 | Some x \<Rightarrow> status = 200 \<and> reply = AlertBody True True (er_Name (sr_room x)) (rsp_Links (sr_resp x))"
      using assms(1) Some m g by (auto simp: route_alert_def split: option.splits)
    note k = spawnWarRoom_keeps [OF s(1)]
    show ?thesis
    proof (cases res)
      case None
      then show ?thesis using k s(2) by auto
    next
      case (Some x)
      note sp = spawnWarRoom_spec(3,4,6,7,8) [OF s(1) [unfolded Some]]
      have "alert_served w (in_now inp) al reply a a'"
        using sp s(2) Some \<open>Match _ _ _ = Some m\<close> m notice_bound [OF assms(2)] by (auto simp: alert_served_def)
      then show ?thesis using k s(2) Some by simp
    qed
  qed
qed

definition freshness_of :: "'l API \<Rightarrow> FreshnessConfig" where
  "freshness_of a = in_Freshness (cf_Ingest (ap_cfg a))"


section \<open>Floods\<close>

definition webhook_ok :: "Config \<Rightarrow> Request \<Rightarrow> bool" where
  "webhook_ok cfg r \<longleftrightarrow> rm_Webhook (Room cfg (hr_Room r)) \<and> rm_WebhookToken (Room cfg (hr_Room r)) \<noteq> [] \<and>
     request_token r = rm_WebhookToken (Room cfg (hr_Room r))"

fun webhook_run :: "'l Lib \<Rightarrow> (Inputs \<times> Request) list \<Rightarrow> 'l API \<Rightarrow> 'l API option" where
  "webhook_run w [] a = Some a"
| "webhook_run w ((inp, r) # rs) a = (case webhook w inp r a of None \<Rightarrow> None | Some (a, _) \<Rightarrow> webhook_run w rs a)"

text \<open>What a handler does to everything but the buckets.\<close>

definition outcome :: "'l API \<times> effect list \<times> response \<Rightarrow> Server \<times> (string \<times> routeResponse) list \<times> effect list \<times> response" where
  "outcome x = (ap_server (fst x), ap_posts (fst x), snd x)"

lemma set_guards_twice [simp]: "set_guards g (set_guards h a) = set_guards g a"
  by (simp add: set_guards_def)

lemma set_guards_self: "set_guards (ap_guards a) a = a"
  by (simp add: set_guards_def)

lemma spawnWarRoom_guards:
  "spawnWarRoom inp rule by notice base (set_guards g a) = map_option (\<lambda>(x, res). (set_guards g x, res)) (spawnWarRoom inp rule by notice base a)"
  by (simp add: spawnWarRoom_def set_guards_def Let_def split_beta split: option.split)

lemma fireRoute_outcome: "map_option outcome (fireRoute inp r room i rule (set_guards g a)) = map_option outcome (fireRoute inp r room i rule a)"
  by (auto simp: fireRoute_def spawnWarRoom_guards outcome_def Let_def split: option.split)

lemma deliver_webhook_outcome: "map_option outcome (deliver_webhook inp room doc (set_guards g a)) = map_option outcome (deliver_webhook inp room doc a)"
  by (simp add: deliver_webhook_def outcome_def Let_def)

text \<open>Guards that agree on all but the bucket of rejected webhook requests.\<close>

definition agree :: "'l Guards option \<Rightarrow> 'l Guards option \<Rightarrow> bool" where
  "agree g h \<longleftrightarrow> (g = None \<longleftrightarrow> h = None) \<and> map_option gu_spawn g = map_option gu_spawn h \<and> map_option gu_warned g = map_option gu_warned h \<and>
     (\<forall>n. n \<noteq> unauth_key \<longrightarrow> bucket g n = bucket h n)"

lemma agree_unauth: "agree g (fst (AllowWebhookUnauth lm now per g))"
  by (auto simp: agree_def AllowWebhookUnauth_def spend_rate_other spend_rate_spawn) (auto simp: spend_rate_def split_beta split: option.splits)

lemma agree_trans: "agree f g \<Longrightarrow> agree g h \<Longrightarrow> agree f h"
  by (auto simp: agree_def)

lemma authenticated_outcome:
  assumes "agree g h"
  shows "map_option outcome (webhook_authenticated w inp r (set_guards g a)) = map_option outcome (webhook_authenticated w inp r (set_guards h a))"
proof -
  have key: "''wh-rate:'' @ tokenKey (lb_pr w) (request_token r) \<noteq> unauth_key" by (simp add: unauth_key_def)
  define A where "A x = AllowWebhookRequest (lb_pr w) (lb_lm w) (in_now inp) (request_token r) (WebhookRate (ap_cfg a) (Room (ap_cfg a) (hr_Room r))) x" for x
  define B where "B x = AllowWebhookSpawn (lb_pr w) (lb_lm w) (in_now inp) (request_token r) (WebhookSpawn (ap_cfg a) (Room (ap_cfg a) (hr_Room r))) x" for x
  have v: "snd (A g) = snd (A h)" using assms key by (auto simp: A_def AllowWebhookRequest_def agree_def intro!: spend_rate_verdict)
  have s: "snd (B (fst (A g))) = snd (B (fst (A h)))" using assms
    by (auto simp: A_def B_def AllowWebhookRequest_def AllowWebhookSpawn_def agree_def spend_rate_spawn intro!: spend_spawn_verdict)
  have e: "webhook_authenticated w inp r (set_guards x a) =
      (if \<not> snd (A x) then Some (set_guards (fst (A x)) a, [], 429, Plain ''rate limit exceeded'')
       else case read_body 65536 r of
              None \<Rightarrow> Some (set_guards (fst (A x)) a, [], 413, Plain ''request body too large'')
            | Some raw \<Rightarrow>
               (case unmarshal_map w raw of
                  None \<Rightarrow> Some (set_guards (fst (A x)) a, [], 400, Plain ''expected a JSON object body'')
                | Some doc \<Rightarrow>
                   (case Match (lb_en w) (cf_Routes (ap_cfg a)) doc of
                      None \<Rightarrow> deliver_webhook inp (hr_Room r) doc (set_guards (fst (A x)) a)
                    | Some (idx, rule) \<Rightarrow>
                       (if \<not> snd (B (fst (A x))) then Some (set_guards (fst (B (fst (A x)))) a, [], 429, Plain ''spawn cap exceeded'')
                        else fireRoute inp r (hr_Room r) idx rule (set_guards (fst (B (fst (A x)))) a)))))" for x
    by (simp add: webhook_authenticated_def A_def B_def Let_def split_beta split: option.split)
  show ?thesis unfolding e v s
    by (auto simp: fireRoute_outcome deliver_webhook_outcome outcome_def [of "(_, _)"] split: option.split)
qed

lemma unauth_webhook:
  assumes "\<not> webhook_ok (ap_cfg a) r"
  shows "\<exists>h status reply. webhook w inp r a = Some (set_guards h a, [], status, reply) \<and> agree (ap_guards a) h \<and> status \<in> {401, 404, 429}"
  using assms agree_unauth [of "ap_guards a"]
  by (auto simp: webhook_def webhook_ok_def reject_unauth_def Let_def split_beta)

lemma unauth_run:
  assumes "\<forall>(_, q) \<in> set rs. \<not> webhook_ok (ap_cfg a) q"
  shows "\<exists>h. webhook_run w rs a = Some (set_guards h a) \<and> agree (ap_guards a) h"
  using assms
proof (induction rs arbitrary: a)
  case Nil
  then show ?case by (intro exI [of _ "ap_guards a"]) (simp add: set_guards_self agree_def)
next
  case (Cons x rs)
  obtain inp q where x: "x = (inp, q)" by (cases x)
  obtain h status reply where h: "webhook w inp q a = Some (set_guards h a, [], status, reply)" "agree (ap_guards a) h"
    using unauth_webhook [of a q w inp] Cons.prems x by auto
  from Cons.IH [of "set_guards h a"] Cons.prems obtain k where "webhook_run w rs (set_guards h a) = Some (set_guards k a)" "agree h k" by auto
  then show ?case using h x agree_trans by auto
qed

text \<open>Claim C21. Rejected webhook requests cannot lock anyone out: after any number of requests to rooms
  without a webhook or with a wrong token, the relay differs only in the one bucket they
  share; the next request with the right token gets the same answer, sends the same frames
  and changes the same things as without the flood, and so does the rate check of every
  alert source, unless it is named like that bucket.\<close>

theorem flood_isolated:
  assumes "\<forall>(_, q) \<in> set rs. \<not> webhook_ok (ap_cfg a) q" "webhook_ok (ap_cfg a) r"
  shows "\<exists>h. webhook_run w rs a = Some (set_guards h a) \<and> agree (ap_guards a) h \<and>
    map_option outcome (webhook w inp r (set_guards h a)) = map_option outcome (webhook w inp r a) \<and>
    (\<forall>src now. sc_Name src \<noteq> unauth_key \<longrightarrow> snd (AllowRequest (lb_lm w) now src h) = snd (AllowRequest (lb_lm w) now src (ap_guards a)))"
proof -
  obtain h where h: "webhook_run w rs a = Some (set_guards h a)" "agree (ap_guards a) h" using unauth_run [OF assms(1)] by blast
  have w: "webhook w inp r (set_guards g a) = webhook_authenticated w inp r (set_guards g a)" for g
    using assms(2) by (simp add: webhook_def webhook_ok_def Let_def)
  have "map_option outcome (webhook w inp r (set_guards h a)) = map_option outcome (webhook w inp r a)"
    using authenticated_outcome [OF h(2), of w inp r a] w [of h] w [of "ap_guards a"] by (simp add: set_guards_self)
  moreover have "snd (AllowRequest (lb_lm w) now src h) = snd (AllowRequest (lb_lm w) now src (ap_guards a))" if "sc_Name src \<noteq> unauth_key" for src now
    using h(2) that by (auto simp: AllowRequest_def agree_def intro!: spend_rate_verdict)
  ultimately show ?thesis using h by blast
qed

section \<open>The way into a war room\<close>

lemma links_live_token:
  assumes "links_live base room till ivs links" "n \<in> set (keys links)"
  shows "\<exists>tok. tok \<noteq> [] \<and> mget links n = Some (joinLink base room tok) \<and> (\<forall>t \<le> till. live_tokens t ivs tok = Some room)"
  using assms by (fastforce simp: links_live_def key_iff_mget live_tokens_def expired_def simp del: set_map)

lemma admit_live_token:
  assumes "hello_of first = Some hello" "he_InviteToken hello \<noteq> []" "live_tokens t (s_invites s) (he_InviteToken hello) = Some (he_Room hello)"
  shows "snd (admit t first s) \<in> range Inr"
  using assms Redeem_result [of t "he_InviteToken hello" "he_Room hello" "s_invites s"]
  by (auto simp: admit_hello [OF assms(1)] Let_def split_beta)

text \<open>Claim C20. An incident room lets its people in: opening one succeeds as soon as one draw names a free
  room; the room closes after the clamped lifetime; exactly the named invitees get a link, and
  until the room closes the relay admits a well-formed hello for that room with the token of
  the link; whoever enters is sent the notice, if there is one.\<close>

theorem war_room_admits:
  assumes "ap_wired a" "server_ok (ap_server a)" "\<And>k. in_tokens inp k \<noteq> []"
    and "GetRoom (newRoomName (in_names inp k) (room_prefix rule)) (s_ephemeral (ap_server a)) = None"
  shows "\<exists>a' res. spawnWarRoom inp rule origin notice base a = Some (a', Some res) \<and> server_ok (ap_server a') \<and>
    only_war_rooms (ap_server a) (ap_server a') \<and> er_Deadline (sr_room res) = in_now inp + ClampTTL (ro_TTL rule) \<and>
    set (keys (rsp_Links (sr_resp res))) = set (filter (\<lambda>n. n \<noteq> []) (map clean_name (ro_Invite rule))) \<and>
    (\<forall>n \<in> set (keys (rsp_Links (sr_resp res))). \<exists>tok. mget (rsp_Links (sr_resp res)) n = Some (joinLink base (er_Name (sr_room res)) tok) \<and>
      (\<forall>t hello first. t \<le> er_Deadline (sr_room res) \<and> hello_of first = Some hello \<and> he_Room hello = er_Name (sr_room res) \<and> he_InviteToken hello = tok \<longrightarrow>
        snd (admit t first (ap_server a')) \<in> range Inr)) \<and>
    (notice \<noteq> [] \<longrightarrow> (\<forall>t c. spawn_notice t c (er_Name (sr_room res)) (ap_server a') = [Send c (Encode OpServerMessage (json_ServerMessage
       \<lparr>sm_Kind = ''alert'', sm_From = ''ingress'', sm_Text = notice, sm_At = unix t\<rparr>))]))"
proof -
  obtain a' res where s: "spawnWarRoom inp rule origin notice base a = Some (a', Some res)" using spawnWarRoom_returns [OF assms(1,4)] by blast
  note sp = spawnWarRoom_spec [OF s] and k = spawnWarRoom_keeps [OF s]
  have ok: "server_ok (ap_server a')" using k assms(2) by blast
  have adm: "snd (admit t first (ap_server a')) \<in> range Inr"
    if "hello_of first = Some hello" "he_InviteToken hello \<noteq> []" "live_tokens t (s_invites (ap_server a')) (he_InviteToken hello) = Some (he_Room hello)" for t first hello
    using admit_live_token that by blast
  have "\<exists>tok. mget (rsp_Links (sr_resp res)) n = Some (joinLink base (er_Name (sr_room res)) tok) \<and>
      (\<forall>t hello first. t \<le> er_Deadline (sr_room res) \<and> hello_of first = Some hello \<and> he_Room hello = er_Name (sr_room res) \<and> he_InviteToken hello = tok \<longrightarrow>
        snd (admit t first (ap_server a')) \<in> range Inr)" if "n \<in> set (keys (rsp_Links (sr_resp res)))" for n
    using links_live_token [OF sp(10) [OF assms(3)] that] adm by metis
  moreover have "spawn_notice t c (er_Name (sr_room res)) (ap_server a') = [Send c (Encode OpServerMessage (json_ServerMessage
       \<lparr>sm_Kind = ''alert'', sm_From = ''ingress'', sm_Text = notice, sm_At = unix t\<rparr>))]" if "notice \<noteq> []" for t c
    using sp(4,7) that by (simp add: spawn_notice_def)
  ultimately show ?thesis using s ok k sp(6,9) by blast
qed

section \<open>Beacons\<close>

lemma quanta_length: "b64_quanta s = Some b \<Longrightarrow> 4 * length b \<le> 3 * length s"
proof (induction s arbitrary: b rule: b64_quanta.induct)
  case (2 x y c d cs)
  have "4 * length b' \<le> 3 * length cs" if "b64_quanta cs = Some b'" "c \<noteq> eq_sign" "d \<noteq> eq_sign" "b64_val x \<noteq> None" "b64_val y \<noteq> None"
      "b64_val c \<noteq> None" "b64_val d \<noteq> None" for b'
    using 2 that by auto
  then show ?case using 2(2) by (auto split: option.splits if_splits)
qed auto

lemma std_decode_length: "std_decode s = Some b \<Longrightarrow> 4 * length b \<le> 3 * length s"
  using quanta_length [of "filter (\<lambda>c. c \<noteq> CHR 0x0A \<and> c \<noteq> CHR 0x0D) s" b] length_filter_le [of "\<lambda>c. c \<noteq> CHR 0x0A \<and> c \<noteq> CHR 0x0D" s]
  unfolding std_decode_def by linarith

text \<open>A base-64 text is no longer than the document it was read from: the reader replaces
  escapes by shorter text, and only bytes outside ASCII by longer.\<close>

definition reads_shorter :: "Prims \<Rightarrow> bool" where
  "reads_shorter c \<longleftrightarrow> (\<forall>raw j t n. pr_json c raw = Some j \<and> decode_beacon j = Some (t, n) \<and> std_decode t \<noteq> None \<longrightarrow> length t \<le> length raw)"

definition beacon_lifetime :: "Request \<Rightarrow> int \<Rightarrow> 'l API \<Rightarrow> duration" where
  "beacon_lifetime r seconds a = BeaconLifetime (Room (ap_cfg a) (hr_Room r)) seconds"

lemma beaconPut_cases:
  assumes "reads_shorter (lb_pr w)"
  shows "(\<exists>ct seconds. beaconPut w now r a = (put_beacon now (hr_Room r) ct seconds a, 200, Accepted) \<and> ct \<noteq> [] \<and> length ct \<le> 13056 \<and>
      beaconAuthorized r (fst (BeaconAuth (Room (ap_cfg a) (hr_Room r))))) \<or>
    (\<exists>status reply. beaconPut w now r a = (a, status, reply) \<and> status \<noteq> 200 \<and> reply \<noteq> Plain ''ciphertext too large'')"
proof -
  have "length ct \<le> 13056" if "length raw \<le> 17408" "pr_json (lb_pr w) raw = Some j" "decode_beacon j = Some (t, n)" "std_decode t = Some ct" for raw j t n ct
    using that assms std_decode_length [OF that(4)] by (force simp: reads_shorter_def)
  then show ?thesis
    by (fastforce simp: beaconPut_def Let_def split_beta read_body_def maxBeaconBlob_def bind_eq_Some_conv split: option.splits if_splits)
qed

text \<open>Claim C33. A status beacon is stored exactly as sent or not at all: a write changes the relay only with
  the room's token and a non-empty ciphertext, lives between a minute and a day, is served
  unchanged to every reader until then and to none after, and touches no other room. A
  ciphertext over 13056 bytes never arrives, since the limit on the body comes first: the
  limit of 16384 bytes the code checks afterwards is never the reason of a refusal.\<close>

theorem beacon_exact:
  assumes "reads_shorter (lb_pr w)" "beaconPut w now r a = (a', status, reply)"
  shows "if status = 200
    then \<exists>ct seconds. a' = put_beacon now (hr_Room r) ct seconds a \<and> ct \<noteq> [] \<and> length ct \<le> 13056 \<and>
      beaconAuthorized r (fst (BeaconAuth (Room (ap_cfg a) (hr_Room r)))) \<and> minute \<le> beacon_lifetime r seconds a \<and> beacon_lifetime r seconds a \<le> BeaconMaxTTL \<and>
      (\<forall>t q. snd (beaconGet t q a') =
        (if hr_Room q \<noteq> hr_Room r then snd (beaconGet t q a)
         else if t \<le> now + beacon_lifetime r seconds a then (200, BeaconBody (std_encode ct) now)
         else (404, Plain ''no beacon set for this room'')))
    else a' = a \<and> reply \<noteq> Plain ''ciphertext too large''"
proof -
  have g: "snd (beaconGet t q (put_beacon now (hr_Room r) ct seconds a)) =
        (if hr_Room q \<noteq> hr_Room r then snd (beaconGet t q a)
         else if t \<le> now + beacon_lifetime r seconds a then (200, BeaconBody (std_encode ct) now)
         else (404, Plain ''no beacon set for this room''))" for t q ct seconds
    by (simp add: beaconGet_def put_beacon_def BGet_def BSet_def beacon_lifetime_def split: option.split)
  have b: "minute \<le> beacon_lifetime r seconds a \<and> beacon_lifetime r seconds a \<le> BeaconMaxTTL" for seconds
    by (simp add: beacon_lifetime_def BeaconLifetime_def Let_def BeaconMaxTTL_def minute_def hour_def second_def)
  from beaconPut_cases [OF assms(1), of now r a] show ?thesis
  proof (elim disjE exE conjE)
    fix ct seconds
    assume "beaconPut w now r a = (put_beacon now (hr_Room r) ct seconds a, 200, Accepted)" "ct \<noteq> []" "length ct \<le> 13056"
      "beaconAuthorized r (fst (BeaconAuth (Room (ap_cfg a) (hr_Room r))))"
    with assms(2) g [where ct = ct and seconds = seconds] b [of seconds] show ?thesis by (simp, intro exI [of _ ct] exI [of _ seconds]) simp
  qed (use assms(2) in simp)
qed

section \<open>A sample relay\<close>

text \<open>Buckets that only count down, a keyed hash that is its key, and a reader of two documents.\<close>

definition toy_limiter :: "nat Limiter" where
  "toy_limiter = \<lparr>lm_new = (\<lambda>_ _ burst. nat burst), lm_allow = (\<lambda>_ n. (n - 1, n > 0))\<rparr>"

definition toy_engine :: Engine where
  "toy_engine = \<lparr>en_hmac = (\<lambda>k _. k), en_regexp = (\<lambda>_ _. None), en_float = (\<lambda>_. None), en_wide = (\<lambda>x. x)\<rparr>"

definition alert_doc :: json where
  "alert_doc = JObj [(''source'', JStr ''scanner''), (''severity'', JStr ''critical''), (''kind'', JStr ''leak''), (''ts'', JInt 1000),
     (''signature'', JStr ''6b'')]"

definition beacon_doc :: json where
  "beacon_doc = JObj [(''ciphertext'', JStr ''QUJD''), (''ttl_seconds'', JInt 600)]"

definition toy_lib :: "nat Lib" where
  "toy_lib = \<lparr>lb_pr = toy\<lparr>pr_scan := \<lambda>_. Some (alert_doc, []), pr_json := \<lambda>raw. if length raw < 4 then None else Some beacon_doc\<rparr>,
     lb_en = toy_engine, lb_lm = toy_limiter\<rparr>"

definition toy_source :: SourceConfig where
  "toy_source = \<lparr>sc_Name = ''scanner'', sc_Token = [], sc_HMACSecret = ''k'', sc_RatePerMinute = 0, sc_SpawnPerHour = 0, sc_RequireFresh = True,
     sc_FreshnessWindow = 0, sc_FreshnessFutureSkew = 0\<rparr>"

definition toy_rule :: RouteConfig where
  "toy_rule = \<lparr>ro_Match = [(''severity'', ''critical'')], ro_Action = ''break-glass'', ro_Invite = [''@ann'', ''bob''], ro_TTL = hour,
     ro_RoomPrefix = [], ro_ReplyURL = []\<rparr>"

definition toy_config :: Config where
  "toy_config = Default\<lparr>cf_Sources := [toy_source], cf_Routes := [toy_rule],
     cf_Rooms := [(''ops'', zero_room\<lparr>rm_Webhook := True, rm_WebhookToken := ''tok''\<rparr>)]\<rparr>"

definition toy_api :: "nat API" where
  "toy_api = \<lparr>ap_server = NewServer toy_config False None, ap_guards = Some NewGuards, ap_wired = True, ap_posts = []\<rparr>"

definition toy_request :: "string \<Rightarrow> Request" where
  "toy_request token = \<lparr>hr_Room = ''ops'', hr_Header = token, hr_Query = [], hr_Body = ''body'', hr_TLS = True, hr_Host = ''relay''\<rparr>"

definition toy_inputs :: "go_time \<Rightarrow> Inputs" where
  "toy_inputs now = \<lparr>in_now = now, in_names = (\<lambda>_. [CHR 0x3F, CHR 0x9A, CHR 0x2B, CHR 0x71]), in_tokens = (\<lambda>k. [char_of k])\<rparr>"

lemmas toy_defs = toy_lib_def toy_engine_def toy_limiter_def toy_api_def toy_config_def toy_source_def toy_request_def toy_inputs_def NewServer_def

lemma alert_names: "plain_name ''severity''" "plain_name ''ref''" "plain_name ''signature''"
  by code_simp+

lemma toy_alert:
  "ParseAlert (lb_pr toy_lib) ''body'' = Inr \<lparr>al_Source = ''scanner'', al_Severity = ''critical'', al_Kind = ''leak'', al_Summary = [], al_Ref = [],
     al_TS = 1000, al_Signature = ''6b''\<rparr>"
proof -
  have "int64 1000" by (simp add: int64_def)
  then have "decode_alert alert_doc = Some \<lparr>al_Source = ''scanner'', al_Severity = ''critical'', al_Kind = ''leak'', al_Summary = [], al_Ref = [],
     al_TS = 1000, al_Signature = ''6b''\<rparr>"
    by (simp add: decode_alert_def alert_doc_def strict_struct_plain alert_names del: strict_struct.simps(2))
  then show ?thesis by (simp add: ParseAlert_def parseFile_def toy_lib_def More_def Validate_def MaxFieldBytes_def MaxSummaryBytes_def)
qed

lemma toy_free_room: "GetRoom name (s_ephemeral (ap_server toy_api)) = None"
  by (simp add: toy_defs NewRegistry_def GetRoom_def)

theorem war_room_admits_witness:
  "\<exists>a' res. spawnWarRoom (toy_inputs 9) toy_rule ''alert:scanner'' ''[critical] scanner/leak'' ''https://relay'' toy_api = Some (a', Some res) \<and>
    server_ok (ap_server a') \<and> er_Deadline (sr_room res) = 9 + hour"
proof -
  have hub: "hub_ok (SetOnClose (NewHub toy_config))" using hub_ok_new [of toy_config] by (simp add: hub_ok_def SetOnClose_def)
  have ok: "server_ok (ap_server toy_api)"
    using invites_ok_new registry_ok_new tracker_ok_new hub
    by (simp add: toy_api_def server_ok_def NewServer_def queue_def beacons_ok_def NewBeacons_def) (simp add: SetOnClose_def NewHub_def)
  have t: "in_tokens (toy_inputs 9) k \<noteq> []" for k by (simp add: toy_inputs_def)
  have "ap_wired toy_api" by (simp add: toy_api_def)
  from war_room_admits [OF this ok t toy_free_room, where rule = toy_rule and origin = "''alert:scanner''" and notice = "''[critical] scanner/leak''" and base = "''https://relay''"]
  obtain a' res where "spawnWarRoom (toy_inputs 9) toy_rule ''alert:scanner'' ''[critical] scanner/leak'' ''https://relay'' toy_api = Some (a', Some res)"
      "server_ok (ap_server a')" "er_Deadline (sr_room res) = in_now (toy_inputs 9) + ClampTTL (ro_TTL toy_rule)" by blast
  moreover have "in_now (toy_inputs 9) + ClampTTL (ro_TTL toy_rule) = 9 + hour"
    by (simp add: toy_rule_def toy_inputs_def ClampTTL_def MinTTL_def MaxTTL_def hour_def minute_def second_def)
  ultimately show ?thesis by auto
qed


theorem flood_isolated_witness:
  "\<exists>h. webhook_run toy_lib [(toy_inputs 1, toy_request ''guess''), (toy_inputs 2, toy_request ''other'')] toy_api = Some (set_guards h toy_api) \<and>
    map_option outcome (webhook toy_lib (toy_inputs 3) (toy_request ''tok'') (set_guards h toy_api)) =
    map_option outcome (webhook toy_lib (toy_inputs 3) (toy_request ''tok'') toy_api)"
proof -
  have "\<forall>(_, q) \<in> set [(toy_inputs 1, toy_request ''guess''), (toy_inputs 2, toy_request ''other'')]. \<not> webhook_ok (ap_cfg toy_api) q"
    "webhook_ok (ap_cfg toy_api) (toy_request ''tok'')"
    by (simp_all add: webhook_ok_def toy_defs Room_def request_token_def)
  from flood_isolated [OF this] show ?thesis by blast
qed

theorem beacon_exact_witness:
  "fst (snd (beaconPut toy_lib 9 (toy_request ''tok'') toy_api)) = 200 \<and>
   snd (beaconGet 10 (toy_request []) (fst (beaconPut toy_lib 9 (toy_request ''tok'') toy_api))) = (200, BeaconBody ''QUJD'' 9)"
proof -
  have "int64 600" by (simp add: int64_def)
  then have d: "decode_beacon beacon_doc = Some (''QUJD'', 600)"
    by (simp add: decode_beacon_def beacon_doc_def names del: decode_struct.simps(2))
  then have r: "reads_shorter (lb_pr toy_lib)" by (auto simp: reads_shorter_def toy_lib_def split: if_splits)
  have q: "std_decode ''QUJD'' = Some ''ABC''" by code_simp
  have "BeaconAuth (Room (ap_cfg toy_api) ''ops'') = (''tok'', True)" "pr_json (lb_pr toy_lib) ''body'' = Some beacon_doc"
    by (simp_all add: toy_defs BeaconAuth_def Room_def zero_room_def)
  then have p: "beaconPut toy_lib 9 (toy_request ''tok'') toy_api = (put_beacon 9 ''ops'' ''ABC'' 600 toy_api, 200, Accepted)"
    using d q by (simp add: beaconPut_def beaconAuthorized_def toy_request_def read_body_def maxBeaconBlob_def request_token_def)
  from beacon_exact [OF r p] obtain ct seconds where c: "put_beacon 9 ''ops'' ''ABC'' 600 toy_api = put_beacon 9 ''ops'' ct seconds toy_api"
      "minute \<le> beacon_lifetime (toy_request ''tok'') seconds toy_api"
      "snd (beaconGet 10 (toy_request []) (put_beacon 9 ''ops'' ''ABC'' 600 toy_api)) = (200, BeaconBody (std_encode ct) 9)"
    by (auto simp: toy_request_def minute_def second_def)
  then have "ct = ''ABC''" by (auto simp: put_beacon_def BSet_def toy_defs NewBeacons_def)
  moreover have "std_encode ''ABC'' = ''QUJD''" by code_simp
  ultimately show ?thesis using c p by simp
qed

end
