(* ===== verification/Sealer.thy ===== *)
theory Sealer
  imports Prelude Sealed
begin

text \<open>
  The offline sealer, \<^verbatim>\<open>src/tui/record/sealer.go\<close>: it collects co-signatures, declared meanings and
  artifact approvals over a finished chain, checks each before recording it, and assembles
  the sealed record. The clock readings (\<open>SignAs\<close>, \<open>Finalize\<close>) are arguments.
\<close>

section \<open>State and operations\<close>

record Sealer =
  sl_room :: string
  sl_sealedBy :: string
  sl_entries :: "Entry list"
  sl_head :: bytes
  sl_sigs :: "(string, bytes) gomap"
  sl_keys :: "(string, bytes) gomap"
  sl_endorsements :: "(string, Endorsement) gomap"
  sl_approvals :: "(string, ApprovalProof list) gomap"

datatype sealer_error =
    SealKeySize nat
  | SealSigBad
  | SignFailed
  | ApprovalKeySize nat
  | RoleEmpty
  | NoArtifact string
  | NoNonceFor string
  | ApprovalSigBad
  | NoCosignatures

definition NewSealer :: "Prims \<Rightarrow> string \<Rightarrow> string \<Rightarrow> Entry list \<Rightarrow> Sealer" where
  "NewSealer c room sealedBy entries =
    \<lparr>sl_room = room, sl_sealedBy = sealedBy, sl_entries = entries, sl_head = headOf c entries, sl_sigs = [], sl_keys = [],
     sl_endorsements = [], sl_approvals = []\<rparr>"

definition SealerSigningBytes :: "Sealer \<Rightarrow> bytes" where
  "SealerSigningBytes s = SealSigningBytes (sl_room s) (sl_head s)"

definition EndorsementSigningBytes :: "Sealer \<Rightarrow> string \<Rightarrow> string \<Rightarrow> string \<Rightarrow> bytes" where
  "EndorsementSigningBytes s meaning signerName signedAt = SealSigningBytesV2 (sl_room s) meaning signerName signedAt (sl_head s)"

definition addVerified :: "Prims \<Rightarrow> bytes \<Rightarrow> bytes \<Rightarrow> bytes \<Rightarrow> Endorsement option \<Rightarrow> Sealer \<Rightarrow> sealer_error + Sealer \<times> string" where
  "addVerified c pub sig pre e s =
    (if length pub \<noteq> PublicKeySize then Inl (SealKeySize (length pub))
     else if \<not> pr_verify c pub pre sig then Inl SealSigBad
     else let fpr = Fingerprint c pub;
              s = s\<lparr>sl_sigs := mput fpr sig (sl_sigs s), sl_keys := mput fpr pub (sl_keys s)\<rparr>;
              s = (case e of Some en \<Rightarrow> s\<lparr>sl_endorsements := mput fpr en (sl_endorsements s)\<rparr> | None \<Rightarrow> s)
          in Inr (s, fpr))"

definition AddCosignature :: "Prims \<Rightarrow> bytes \<Rightarrow> bytes \<Rightarrow> Sealer \<Rightarrow> sealer_error + Sealer \<times> string" where
  "AddCosignature c pub sig s = addVerified c pub sig (SealerSigningBytes s) None s"

definition AddEndorsement :: "Prims \<Rightarrow> bytes \<Rightarrow> bytes \<Rightarrow> string \<Rightarrow> string \<Rightarrow> string \<Rightarrow> Sealer \<Rightarrow> sealer_error + Sealer \<times> string" where
  "AddEndorsement c pub sig meaning name signedAt s =
    addVerified c pub sig (EndorsementSigningBytes s meaning name signedAt)
      (Some \<lparr>ed_Meaning = meaning, ed_Name = name, ed_SignedAt = signedAt\<rparr>) s"

definition Sign :: "Prims \<Rightarrow> Author \<Rightarrow> Sealer \<Rightarrow> sealer_error + Sealer" where
  "Sign c a s =
    (case au_Sign a (SealerSigningBytes s) of
       None \<Rightarrow> Inl SignFailed
     | Some sig \<Rightarrow> (case AddCosignature c (au_Key a) sig s of Inl err \<Rightarrow> Inl err | Inr (s, _) \<Rightarrow> Inr s))"

definition SignAs :: "Prims \<Rightarrow> string \<Rightarrow> Author \<Rightarrow> string \<Rightarrow> Sealer \<Rightarrow> sealer_error + Sealer" where
  "SignAs c signedAt a meaning s =
    (case au_Sign a (EndorsementSigningBytes s meaning (au_Name a) signedAt) of
       None \<Rightarrow> Inl SignFailed
     | Some sig \<Rightarrow> (case AddEndorsement c (au_Key a) sig meaning (au_Name a) signedAt s of Inl err \<Rightarrow> Inl err | Inr (s, _) \<Rightarrow> Inr s))"

fun findProposal :: "Prims \<Rightarrow> string \<Rightarrow> Entry list \<Rightarrow> ArtifactMeta option" where
  "findProposal c pid [] = None"
| "findProposal c pid (e # es) =
    (if en_Kind e \<noteq> KindArtifact then findProposal c pid es
     else case ArtifactOf c e of
       Some m \<Rightarrow> (if am_ProposalID m = pid then Some m else findProposal c pid es)
     | None \<Rightarrow> findProposal c pid es)"

definition artifactMetaByProposal :: "Prims \<Rightarrow> Sealer \<Rightarrow> string \<Rightarrow> ArtifactMeta option" where
  "artifactMetaByProposal c s pid = findProposal c pid (sl_entries s)"

definition addProof :: "string \<Rightarrow> ApprovalProof \<Rightarrow> Sealer \<Rightarrow> Sealer" where
  "addProof pid p s =
    s\<lparr>sl_approvals := mput pid ((case mget (sl_approvals s) pid of Some ps \<Rightarrow> ps | None \<Rightarrow> []) @ [p]) (sl_approvals s)\<rparr>"

definition AddArtifactApproval :: "Prims \<Rightarrow> string \<Rightarrow> bytes \<Rightarrow> bytes \<Rightarrow> Sealer \<Rightarrow> sealer_error + Sealer \<times> string" where
  "AddArtifactApproval c pid pub sig s =
    (if length pub \<noteq> PublicKeySize then Inl (ApprovalKeySize (length pub))
     else case artifactMetaByProposal c s pid of
       None \<Rightarrow> Inl (NoArtifact pid)
     | Some m \<Rightarrow>
        (if am_Nonce m = [] then Inl (NoNonceFor pid)
         else let fpr = Fingerprint c pub;
                  pre = ArtifactApprovalSigningBytes pid (am_ArtifactHash m) fpr (am_Nonce m)
              in if \<not> pr_verify c pub pre sig then Inl ApprovalSigBad
                 else Inr (addProof pid \<lparr>pf_ApproverFpr = fpr, pf_ApproverKey = std_encode pub, pf_Sig = std_encode sig, pf_Role = []\<rparr> s, fpr)))"

definition approvalSigningBytesV2 :: "Prims \<Rightarrow> string \<Rightarrow> string \<Rightarrow> bytes \<Rightarrow> Sealer \<Rightarrow> sealer_error + bytes" where
  "approvalSigningBytesV2 c pid role pub s =
    (if length pub \<noteq> PublicKeySize then Inl (ApprovalKeySize (length pub))
     else if role = [] then Inl RoleEmpty
     else case artifactMetaByProposal c s pid of
       None \<Rightarrow> Inl (NoArtifact pid)
     | Some m \<Rightarrow>
        (if am_Nonce m = [] then Inl (NoNonceFor pid)
         else Inr (ArtifactApprovalSigningBytesV2 pid (am_ArtifactHash m) (Fingerprint c pub) (am_Nonce m) role)))"

definition AddArtifactApprovalV2 :: "Prims \<Rightarrow> string \<Rightarrow> string \<Rightarrow> bytes \<Rightarrow> bytes \<Rightarrow> Sealer \<Rightarrow> sealer_error + Sealer \<times> string" where
  "AddArtifactApprovalV2 c pid role pub sig s =
    (case approvalSigningBytesV2 c pid role pub s of
       Inl err \<Rightarrow> Inl err
     | Inr pre \<Rightarrow>
        (if \<not> pr_verify c pub pre sig then Inl ApprovalSigBad
         else let fpr = Fingerprint c pub
              in Inr (addProof pid \<lparr>pf_ApproverFpr = fpr, pf_ApproverKey = std_encode pub, pf_Sig = std_encode sig, pf_Role = role\<rparr> s, fpr)))"

definition Count :: "Sealer \<Rightarrow> nat" where
  "Count s = length (sl_sigs s)"

definition Finalize :: "string \<Rightarrow> Sealer \<Rightarrow> sealer_error + SealedRecord" where
  "Finalize sealedAt s =
    (if length (sl_sigs s) = 0 then Inl NoCosignatures
     else Inr (newSealedRecord sealedAt (sl_room s) (sl_sealedBy s) (sl_entries s) (sl_head s) (sl_sigs s) (sl_keys s)
       (sl_endorsements s) (sl_approvals s)))"

text \<open>A session with a sealer: calls in order, a failed call leaving it as it was.\<close>

datatype seal_call =
    Cosign bytes bytes
  | Endorse bytes bytes string string string
  | Approve string bytes bytes
  | ApproveV2 string string bytes bytes

fun seal_op :: "Prims \<Rightarrow> seal_call \<Rightarrow> Sealer \<Rightarrow> sealer_error + Sealer \<times> string" where
  "seal_op c (Cosign pub sig) = AddCosignature c pub sig"
| "seal_op c (Endorse pub sig meaning name signedAt) = AddEndorsement c pub sig meaning name signedAt"
| "seal_op c (Approve pid pub sig) = AddArtifactApproval c pid pub sig"
| "seal_op c (ApproveV2 pid role pub sig) = AddArtifactApprovalV2 c pid role pub sig"

definition seal_do :: "Prims \<Rightarrow> seal_call \<Rightarrow> Sealer \<Rightarrow> Sealer" where
  "seal_do c call s = (case seal_op c call s of Inl _ \<Rightarrow> s | Inr (s', _) \<Rightarrow> s')"

text \<open>The calls that keep a sealer consistent: no bare co-signature by someone who has declared
  a meaning, and no approval of the empty proposal id.\<close>

fun tidy_call :: "Prims \<Rightarrow> Sealer \<Rightarrow> seal_call \<Rightarrow> bool" where
  "tidy_call c s (Cosign pub sig) = (mget (sl_endorsements s) (Fingerprint c pub) = None)"
| "tidy_call c s (Endorse pub sig meaning name signedAt) = True"
| "tidy_call c s (Approve pid pub sig) = (pid \<noteq> [])"
| "tidy_call c s (ApproveV2 pid role pub sig) = (pid \<noteq> [])"

fun tidy :: "Prims \<Rightarrow> Sealer \<Rightarrow> seal_call list \<Rightarrow> bool" where
  "tidy c s [] = True"
| "tidy c s (x # xs) \<longleftrightarrow> tidy_call c s x \<and> tidy c (seal_do c x s) xs"

section \<open>What a sealer holds\<close>

definition cosig_preimage :: "Sealer \<Rightarrow> string \<Rightarrow> bytes" where
  "cosig_preimage s fpr =
    (case mget (sl_endorsements s) fpr of
       Some e \<Rightarrow> EndorsementSigningBytes s (ed_Meaning e) (ed_Name e) (ed_SignedAt e)
     | None \<Rightarrow> SealerSigningBytes s)"

definition sealer_ok :: "Prims \<Rightarrow> Sealer \<Rightarrow> bool" where
  "sealer_ok c s \<longleftrightarrow> sl_head s = headOf c (sl_entries s) \<and>
     (\<forall>fpr sig. mget (sl_sigs s) fpr = Some sig \<longrightarrow> (\<exists>pub. mget (sl_keys s) fpr = Some pub \<and> length pub = PublicKeySize \<and>
        pr_fingerprint c pub = fpr \<and> pr_verify c pub (cosig_preimage s fpr) sig)) \<and>
     (\<forall>pid ps. mget (sl_approvals s) pid = Some ps \<longrightarrow> pid \<noteq> [] \<and> (\<exists>m. findProposal c pid (sl_entries s) = Some m \<and>
        am_Nonce m \<noteq> [] \<and> (\<forall>p \<in> set ps. proof_ok c pid m p)))"

lemma sealer_ok_new: "sealer_ok c (NewSealer c room by es)"
  by (simp add: sealer_ok_def NewSealer_def)

lemma cosig_preimage_sigs [simp]:
  "cosig_preimage (s\<lparr>sl_sigs := a, sl_keys := b\<rparr>) = cosig_preimage s"
  "cosig_preimage (s\<lparr>sl_approvals := d\<rparr>) = cosig_preimage s"
  by (simp_all add: cosig_preimage_def EndorsementSigningBytes_def SealerSigningBytes_def fun_eq_iff split: option.splits)

lemma cosig_preimage_endorsed:
  "cosig_preimage (s\<lparr>sl_sigs := a, sl_keys := b, sl_endorsements := mput f e (sl_endorsements s)\<rparr>) x =
    (if x = f then EndorsementSigningBytes s (ed_Meaning e) (ed_Name e) (ed_SignedAt e) else cosig_preimage s x)"
  by (simp add: cosig_preimage_def EndorsementSigningBytes_def SealerSigningBytes_def split: option.splits)

lemma sealer_ok_cosign:
  assumes "sealer_ok c s" "AddCosignature c pub sig s = Inr (s', f)" "mget (sl_endorsements s) (Fingerprint c pub) = None"
  shows "sealer_ok c s'"
proof -
  from assms(2) have v: "length pub = PublicKeySize" "pr_verify c pub (SealerSigningBytes s) sig"
      "s' = s\<lparr>sl_sigs := mput (Fingerprint c pub) sig (sl_sigs s), sl_keys := mput (Fingerprint c pub) pub (sl_keys s)\<rparr>"
    by (auto simp: AddCosignature_def addVerified_def Let_def split: if_splits)
  have "cosig_preimage s (Fingerprint c pub) = SealerSigningBytes s" using assms(3) by (simp add: cosig_preimage_def)
  then show ?thesis using assms(1) v(1,2) unfolding v(3) sealer_ok_def by (auto simp: Fingerprint_def)
qed

lemma sealer_ok_endorse:
  assumes "sealer_ok c s" "AddEndorsement c pub sig meaning name at s = Inr (s', f)"
  shows "sealer_ok c s'"
proof -
  let ?f = "Fingerprint c pub" and ?e = "\<lparr>ed_Meaning = meaning, ed_Name = name, ed_SignedAt = at\<rparr>"
  from assms(2) have v: "length pub = PublicKeySize" "pr_verify c pub (EndorsementSigningBytes s meaning name at) sig"
      "s' = s\<lparr>sl_sigs := mput ?f sig (sl_sigs s), sl_keys := mput ?f pub (sl_keys s), sl_endorsements := mput ?f ?e (sl_endorsements s)\<rparr>"
    by (auto simp: AddEndorsement_def addVerified_def Let_def split: if_splits)
  then show ?thesis using assms(1) unfolding v(3) sealer_ok_def cosig_preimage_endorsed by (auto simp: Fingerprint_def)
qed

lemma sealer_ok_addProof:
  assumes "sealer_ok c s" "pid \<noteq> []" "findProposal c pid (sl_entries s) = Some m" "am_Nonce m \<noteq> []" "proof_ok c pid m p"
  shows "sealer_ok c (addProof pid p s)"
proof -
  have "\<forall>q \<in> set ps. proof_ok c pid m q" if "mget (sl_approvals s) pid = Some ps" for ps
    using assms(1,3) that unfolding sealer_ok_def by (metis option.inject)
  then show ?thesis using assms unfolding sealer_ok_def addProof_def by (cases "mget (sl_approvals s) pid") auto
qed

lemma sealer_ok_approve:
  assumes "sealer_ok c s" "AddArtifactApproval c pid pub sig s = Inr (s', f)" "pid \<noteq> []"
  shows "sealer_ok c s'"
  using assms(2) sealer_ok_addProof [OF assms(1,3)]
  by (auto simp: AddArtifactApproval_def artifactMetaByProposal_def Let_def proof_ok_def approvalPreimage_def Fingerprint_def
      split: if_splits option.splits)

lemma sealer_ok_approveV2:
  assumes "sealer_ok c s" "AddArtifactApprovalV2 c pid role pub sig s = Inr (s', f)" "pid \<noteq> []"
  shows "sealer_ok c s'"
  using assms(2) sealer_ok_addProof [OF assms(1,3)]
  by (auto simp: AddArtifactApprovalV2_def approvalSigningBytesV2_def artifactMetaByProposal_def Let_def proof_ok_def
      approvalPreimage_def Fingerprint_def split: if_splits option.splits sum.splits)

lemma sealer_ok_do: "sealer_ok c s \<Longrightarrow> tidy_call c s x \<Longrightarrow> sealer_ok c (seal_do c x s)"
  unfolding seal_do_def
  by (cases x) (auto split: sum.splits intro: sealer_ok_cosign sealer_ok_endorse sealer_ok_approve sealer_ok_approveV2)

lemma entries_do [simp]: "sl_entries (seal_do c x s) = sl_entries s"
  unfolding seal_do_def
  by (cases x) (auto split: sum.splits option.splits if_splits simp: AddCosignature_def AddEndorsement_def addVerified_def
      AddArtifactApproval_def AddArtifactApprovalV2_def approvalSigningBytesV2_def addProof_def Let_def)

lemma sealer_ok_session:
  "sealer_ok c s \<Longrightarrow> tidy c s xs \<Longrightarrow> sealer_ok c (fold (seal_do c) xs s) \<and> sl_entries (fold (seal_do c) xs s) = sl_entries s"
  by (induction xs arbitrary: s) (simp_all add: sealer_ok_do)

section \<open>What Finalize writes\<close>

lemma mget_mvals [simp]: "mget (mvals f m) k = map_option f (mget m k)"
  by (induction m) (auto simp: mvals_def)

lemma keys_mvals [simp]: "keys (mvals f m) = keys m"
  by (induction m) (auto simp: mvals_def)

lemma findProposal_indexed:
  "findProposal c pid es = Some m \<Longrightarrow> pid \<noteq> [] \<Longrightarrow> \<exists>author. mget (proposals c es) pid = Some (m, author)"
  by (induction c pid es rule: findProposal.induct)
    (auto simp: proposals_Cons ArtifactOf_def proposals_def split: option.splits if_splits)

lemma Finalize_fields:
  assumes "Finalize at s = Inr r"
  shows "sr_Entries r = sl_entries s" "sr_HeadHash r = hex_encode (sl_head s)" "sr_Signatures r = mvals std_encode (sl_sigs s)"
    "sr_SignerKeys r = mvals std_encode (sl_keys s)" "sr_ArtifactApprovals r = sl_approvals s" "sl_sigs s \<noteq> []"
    "sr_Version r \<in> {FormatVersion, FormatVersionV2}" "sealPreimage r (sl_head s) fpr = cosig_preimage s fpr"
  using assms by (auto simp: Finalize_def newSealedRecord_def recordVersion_def sealPreimage_def cosig_preimage_def
      EndorsementSigningBytes_def SealerSigningBytes_def split: if_splits option.splits)

lemma Finalize_valid:
  assumes "sealer_ok c s" "chain_ok c (sl_entries s)" "is_map (proposals c (sl_entries s))" "Finalize at s = Inr r"
  shows "valid_record c r"
proof -
  note F = Finalize_fields [OF assms(4)]
  have head: "sl_head s = headOf c (sl_entries s)" using assms(1) by (simp add: sealer_ok_def)
  have "seal_ok c r (sl_head s) fpr" if k: "fpr \<in> set (keys (sr_Signatures r))" for fpr
  proof -
    obtain sig where sig: "mget (sl_sigs s) fpr = Some sig" using k unfolding F keys_mvals key_iff_mget by blast
    with assms(1) obtain pub where "mget (sl_keys s) fpr = Some pub" "length pub = PublicKeySize"
        "pr_fingerprint c pub = fpr" "pr_verify c pub (cosig_preimage s fpr) sig"
      unfolding sealer_ok_def by blast
    with sig show ?thesis unfolding seal_ok_def F by simp
  qed
  moreover have "approvals_ok c r"
    using assms(1,3) findProposal_indexed unfolding approvals_ok_def sealer_ok_def F by metis
  ultimately show ?thesis using assms(2) F(6,7) unfolding valid_record_def F(1-5) head
    by (auto simp: mvals_def)
qed

lemma session_ok:
  assumes "tidy c (NewSealer c room by es) xs"
  defines "s \<equiv> fold (seal_do c) xs (NewSealer c room by es)"
  shows "sealer_ok c s" "sl_entries s = es"
  using sealer_ok_session [OF sealer_ok_new assms(1)] by (simp_all add: s_def NewSealer_def)

section \<open>Properties\<close>

text \<open>Claim C25. Sealing and verifying are inverse: after any session with a sealer over a valid chain
  with unambiguous proposal ids, in which nobody who declared a meaning co-signs bare later
  and no empty proposal id is approved (failed calls included), \<open>Finalize\<close> fails only for
  lack of a co-signature, and otherwise gives a record that \<open>Verify\<close> accepts, with exactly
  the collected co-signers as its signers.\<close>

theorem seal_round_trip:
  assumes "chain_ok c es" "is_map (proposals c es)" "tidy c (NewSealer c room by es) xs"
    and "s = fold (seal_do c) xs (NewSealer c room by es)"
  shows "if Count s = 0 then Finalize at s = Inl NoCosignatures
    else \<exists>r. Finalize at s = Inr r \<and> vr_Valid (fst (Verify c r)) \<and> vr_Signers (fst (Verify c r)) = sort (keys (sl_sigs s))"
proof (cases "Count s = 0")
  case False
  then obtain r where r: "Finalize at s = Inr r" by (simp add: Finalize_def Count_def)
  have v: "valid_record c r" using Finalize_valid [OF _ _ _ r] session_ok [OF assms(3)] assms(1,2,4) by simp
  have "vr_Signers (fst (Verify c r)) = sort (keys (sl_sigs s))"
    by (rule Verify_accepts [OF v]) (simp add: sortedMapKeys_def Finalize_fields(3) [OF r])
  with False r v Verify_Valid show ?thesis by auto
qed (simp add: Finalize_def Count_def)

text \<open>A chain with one artifact entry, recorded by \<open>a\<close>; \<open>b\<close> and \<open>a\<close> itself approve it.\<close>

definition toy_doc :: Prims where
  "toy_doc = toy\<lparr>pr_json := \<lambda>_. Some (JObj [(''artifact_hash'', JStr ''h''), (''proposal_id'', JStr ''p''), (''nonce'', JStr ''n'')])\<rparr>"

definition toy_artifact :: Chain where
  "toy_artifact = fst (the (Append toy_doc 1 (toy_author CHR ''a'') ((toy_note ''{}'')\<lparr>es_Kind := KindArtifact\<rparr>) []))"

definition toy_session :: "seal_call list" where
  "toy_session =
    [Cosign (toy_key CHR ''a'') (toy_key CHR ''a'' @ SealSigningBytes ''ops'' (headOf toy_doc toy_artifact)),
     Approve ''p'' (toy_key CHR ''b'') (toy_key CHR ''b'' @ ArtifactApprovalSigningBytes ''p'' ''h'' (au_ID (toy_author CHR ''b'')) ''n''),
     Approve ''p'' (toy_key CHR ''a'') (toy_key CHR ''a'' @ ArtifactApprovalSigningBytes ''p'' ''h'' (au_ID (toy_author CHR ''a'')) ''n'')]"

definition toy_sealer :: Sealer where
  "toy_sealer = fold (seal_do toy_doc) toy_session (NewSealer toy_doc ''ops'' (au_ID (toy_author CHR ''a'')) toy_artifact)"

definition toy_meta :: ArtifactMeta where
  "toy_meta = zero_ArtifactMeta\<lparr>am_ArtifactHash := ''h'', am_ProposalID := ''p'', am_Nonce := ''n''\<rparr>"

lemma toy_doc_simps [simp]:
  "pr_fingerprint toy_doc k = ''SHA256:'' @ k" "pr_verify toy_doc k m s \<longleftrightarrow> s = k @ m" "length (toy_key x) = PublicKeySize"
  "Fingerprint toy_doc k = ''SHA256:'' @ k" "toy_key x = toy_key y \<longleftrightarrow> x = y" "au_ID (toy_author x) = ''SHA256:'' @ toy_key x"
  by (simp_all add: toy_doc_def toy_def toy_key_def PublicKeySize_def Fingerprint_def toy_author_def)

lemma toy_artifact_entry:
  obtains e where "toy_artifact = [e]" "ArtifactOf toy_doc e = Some toy_meta" "en_Kind e = KindArtifact"
    "en_AuthorID e = ''SHA256:'' @ toy_key CHR ''a''" "chain_ok toy_doc toy_artifact"
proof -
  let ?s = "(toy_note ''{}'')\<lparr>es_Kind := KindArtifact\<rparr>"
  have h: "length (pr_sha256 toy_doc x) = 32" for x using toy_hash by (simp add: toy_doc_def)
  have a: "author_ok toy_doc (toy_author CHR ''a'')" using toy_author_ok [of "CHR ''a''"] by (simp add: author_ok_def toy_doc_def)
  have sp: "spec_ok ?s" by (simp add: spec_ok_def toy_note_def kinds)
  obtain e where E: "Append toy_doc 1 (toy_author CHR ''a'') ?s [] = Some ([] @ [e], e) \<and> VerifyEntry toy_doc e = None \<and>
      en_Seq e = word_of_nat (length ([] :: Chain)) \<and> en_PrevHash e = headOf toy_doc []"
    using Append_verifies [OF h a sp, of 1 "[]"] by (rule exE)
  note e = conjunct1 [OF E] conjunct2 [OF E]
  have f: "en_Kind e = KindArtifact" "en_AuthorID e = au_ID (toy_author CHR ''a'')"
    using e(1) by (auto simp: Append_def newEntry_def toy_author_def Let_def)
  have "decode_ArtifactMeta (JObj [(''artifact_hash'', JStr ''h''), (''proposal_id'', JStr ''p''), (''nonce'', JStr ''n'')]) = Some toy_meta"
    by (simp add: decode_ArtifactMeta_def toy_meta_def find_field_plain name_chars_def del: find_field.simps(2))
  then have p: "ParseArtifactBody toy_doc b = Some toy_meta" for b
    by (simp add: ParseArtifactBody_def toy_doc_def)
  have t: "toy_artifact = [e]" unfolding toy_artifact_def e(1) by simp
  have "chain_ok toy_doc ([] @ [e])" unfolding chain_ok_snoc using e(2) by (simp add: chain_ok_def linked_def)
  then show ?thesis using that [of e] t f p by (simp only: append_Nil ArtifactOf_def) simp
qed

lemma toy_tidy: "tidy toy_doc (NewSealer toy_doc ''ops'' (au_ID (toy_author CHR ''a'')) toy_artifact) toy_session"
  by (simp add: toy_session_def NewSealer_def)

lemma toy_proposals: "proposals toy_doc toy_artifact = [(''p'', toy_meta, ''SHA256:'' @ toy_key CHR ''a'')]"
proof -
  obtain e where e: "toy_artifact = [e]" "ArtifactOf toy_doc e = Some toy_meta" "en_AuthorID e = ''SHA256:'' @ toy_key CHR ''a''"
    by (rule toy_artifact_entry)
  show ?thesis unfolding proposals_def e(1) using e(2,3) by (simp add: toy_meta_def)
qed

lemma toy_findProposal: "findProposal toy_doc ''p'' toy_artifact = Some toy_meta"
proof -
  obtain e where e: "toy_artifact = [e]" "ArtifactOf toy_doc e = Some toy_meta" "en_Kind e = KindArtifact"
    by (rule toy_artifact_entry)
  show ?thesis unfolding e(1) using e(2,3) by (simp add: toy_meta_def)
qed

lemma toy_sealer_state:
  "sl_sigs toy_sealer = [(''SHA256:'' @ toy_key CHR ''a'', toy_key CHR ''a'' @ SealSigningBytes ''ops'' (headOf toy_doc toy_artifact))]"
  "map_option (map pf_ApproverFpr) (mget (sl_approvals toy_sealer) ''p'') = Some [''SHA256:'' @ toy_key CHR ''b'', ''SHA256:'' @ toy_key CHR ''a'']"
proof -
  have "artifactMetaByProposal toy_doc s ''p'' = Some toy_meta" if "sl_entries s = toy_artifact" for s
    by (simp add: artifactMetaByProposal_def that toy_findProposal)
  then show "sl_sigs toy_sealer = [(''SHA256:'' @ toy_key CHR ''a'', toy_key CHR ''a'' @ SealSigningBytes ''ops'' (headOf toy_doc toy_artifact))]"
    and "map_option (map pf_ApproverFpr) (mget (sl_approvals toy_sealer) ''p'') = Some [''SHA256:'' @ toy_key CHR ''b'', ''SHA256:'' @ toy_key CHR ''a'']"
    by (simp_all add: toy_sealer_def toy_session_def seal_do_def NewSealer_def AddCosignature_def addVerified_def SealerSigningBytes_def
        AddArtifactApproval_def addProof_def toy_meta_def Let_def)
qed

theorem seal_round_trip_witness:
  "\<exists>r. Finalize ''2026-01-01T00:00:00Z'' toy_sealer = Inr r \<and> vr_Valid (fst (Verify toy_doc r)) \<and>
     vr_Signers (fst (Verify toy_doc r)) = [''SHA256:'' @ toy_key CHR ''a'']"
proof -
  have c: "chain_ok toy_doc toy_artifact" by (rule toy_artifact_entry)
  have p: "is_map (proposals toy_doc toy_artifact)" by (simp add: toy_proposals)
  show ?thesis
    using seal_round_trip [OF c p toy_tidy toy_sealer_def, of "''2026-01-01T00:00:00Z''"] toy_sealer_state(1)
    by (simp add: Count_def)
qed

text \<open>Claim C11. The two-person law: for every proposal, the approvers a valid record surfaces are the
  authors of verified approval proofs over the artifact's signed hash and nonce, less the
  author of the entry and the recorded proposer, sorted and without repetition; the roles
  surfaced are the roles those same people signed, each (person, role) pair once.\<close>

theorem two_person_law:
  assumes "vr_Valid (fst (Verify c r))" "res = Some (fst (Verify c r))"
  shows "sorted (VerifiedArtifactApprovers res pid) \<and> distinct (VerifiedArtifactApprovers res pid) \<and>
    set (VerifiedArtifactApprovers res pid) = pf_ApproverFpr ` {p. second_person c r pid p} \<and>
    distinct (VerifiedArtifactApproverRoles res pid) \<and> set (VerifiedArtifactApproverRoles res pid) =
      (\<lambda>p. \<lparr>va_Fingerprint = pf_ApproverFpr p, va_Role = pf_Role p\<rparr>) ` {p. second_person c r pid p \<and> pf_Role p \<noteq> []}"
  using surfaced_exact [of c r pid] assms unfolding Verify_Valid by blast

lemma singleton_list: "distinct xs \<Longrightarrow> set xs = {a} \<Longrightarrow> xs = [a]"
  by (cases xs rule: list.exhaust) (auto simp: subset_singleton_iff)

theorem two_person_law_witness:
  "\<exists>r. Finalize ''2026-01-01T00:00:00Z'' toy_sealer = Inr r \<and>
     VerifiedArtifactApprovers (Some (fst (Verify toy_doc r))) ''p'' = [''SHA256:'' @ toy_key CHR ''b'']"
proof -
  have c: "chain_ok toy_doc toy_artifact" by (rule toy_artifact_entry)
  note S = session_ok [OF toy_tidy, folded toy_sealer_def]
  obtain r where r: "Finalize ''2026-01-01T00:00:00Z'' toy_sealer = Inr r" using toy_sealer_state(1) by (simp add: Finalize_def)
  note F = Finalize_fields [OF r]
  have v: "valid_record toy_doc r" using Finalize_valid [OF S(1) _ _ r] c S(2) by (simp add: toy_proposals)
  obtain ps where ps: "mget (sl_approvals toy_sealer) ''p'' = Some ps"
      "map pf_ApproverFpr ps = [''SHA256:'' @ toy_key CHR ''b'', ''SHA256:'' @ toy_key CHR ''a'']"
    using toy_sealer_state(2) by auto
  have "approvals_ok toy_doc r" using v ps(1) F(5) by (auto simp: valid_record_def)
  then have "\<forall>p \<in> set ps. proof_ok toy_doc ''p'' toy_meta p"
    using ps(1) unfolding approvals_ok_def F S(2) toy_proposals by fastforce
  then have "second_person toy_doc r ''p'' p \<longleftrightarrow> p \<in> set ps \<and> pf_ApproverFpr p \<noteq> ''SHA256:'' @ toy_key CHR ''a''" for p
    using ps unfolding second_person_def proofs_of_def F S(2) toy_proposals
    by (fastforce simp: toy_meta_def zero_ArtifactMeta_def proof_ok_def)
  then have sp: "{p. second_person toy_doc r ''p'' p} = {p \<in> set ps. pf_ApproverFpr p \<noteq> ''SHA256:'' @ toy_key CHR ''a''}" by blast
  obtain x y where xy: "ps = [x, y]" "pf_ApproverFpr x = ''SHA256:'' @ toy_key CHR ''b''" "pf_ApproverFpr y = ''SHA256:'' @ toy_key CHR ''a''"
    using ps(2) by auto
  have "{p. second_person toy_doc r ''p'' p} = {x}" unfolding sp xy(1) using xy(2,3) by auto
  then have img: "pf_ApproverFpr ` {p. second_person toy_doc r ''p'' p} = {''SHA256:'' @ toy_key CHR ''b''}" using xy(2) by simp
  have "vr_Valid (fst (Verify toy_doc r))" using v by (simp only: Verify_Valid)
  note L = two_person_law [OF this refl, of "''p''", unfolded img]
  show ?thesis using r singleton_list [OF conjunct1 [OF conjunct2 [OF L]] conjunct1 [OF conjunct2 [OF conjunct2 [OF L]]]] by blast
qed

text \<open>A hazard of the sealer: a participant who declares a meaning and afterwards co-signs
  bare is accepted both times, but the declared meaning stays recorded, so that the
  finalized record is rejected by \<open>Verify\<close>, unless the bare signature happens to verify
  over the meaning-bearing bytes too.\<close>

theorem stale_endorsement:
  assumes "AddEndorsement c pub sig meaning name at s = Inr (s1, f)" "AddCosignature c pub sig' s1 = Inr (s2, f')"
    and "\<not> pr_verify c pub (EndorsementSigningBytes s meaning name at) sig'" "s = NewSealer c room by es"
  shows "\<exists>r. Finalize sealedAt s2 = Inr r \<and> \<not> vr_Valid (fst (Verify c r))"
proof -
  let ?f = "Fingerprint c pub"
  let ?e = "\<lparr>ed_Meaning = meaning, ed_Name = name, ed_SignedAt = at\<rparr>"
  have s1: "s1 = s\<lparr>sl_sigs := mput ?f sig (sl_sigs s), sl_keys := mput ?f pub (sl_keys s), sl_endorsements := mput ?f ?e (sl_endorsements s)\<rparr>"
    using assms(1) by (auto simp: AddEndorsement_def addVerified_def Let_def split: if_splits)
  have s2: "s2 = s1\<lparr>sl_sigs := mput ?f sig' (sl_sigs s1), sl_keys := mput ?f pub (sl_keys s1)\<rparr>"
    using assms(2) by (auto simp: AddCosignature_def addVerified_def Let_def split: if_splits)
  have g: "mget (sl_sigs s2) ?f = Some sig'" "mget (sl_keys s2) ?f = Some pub" "sl_head s2 = headOf c es" "sl_entries s2 = es"
    "cosig_preimage s2 ?f = EndorsementSigningBytes s meaning name at"
    by (simp_all add: s2 s1 cosig_preimage_def EndorsementSigningBytes_def assms(4) NewSealer_def)
  have "sl_sigs s2 \<noteq> []" using g(1) by auto
  then obtain r where r: "Finalize sealedAt s2 = Inr r" by (simp add: Finalize_def)
  note F = Finalize_fields [OF r]
  have "?f \<in> set (keys (sr_Signatures r))" unfolding F keys_mvals using mget_Some_key [OF g(1)] .
  moreover have "\<not> seal_ok c r (headOf c es) ?f"
    using assms(3) F(8) [of ?f] unfolding seal_ok_def F(3,4) g(3,5) by (simp add: g(1,2))
  ultimately have "\<not> valid_record c r" unfolding valid_record_def F(1) g(4) by blast
  with r Verify_Valid show ?thesis by blast
qed

theorem stale_endorsement_witness:
  "\<exists>s1 s2 r. SignAs toy ''2026-01-01T00:00:00Z'' (toy_author CHR ''a'') ''approved'' (NewSealer toy ''ops'' ''a'' []) = Inr s1 \<and>
     Sign toy (toy_author CHR ''a'') s1 = Inr s2 \<and> Finalize ''2026-01-01T00:00:00Z'' s2 = Inr r \<and> \<not> vr_Valid (fst (Verify toy r))"
proof -
  let ?s = "NewSealer toy ''ops'' ''a'' []" and ?k = "toy_key CHR ''a''" and ?t = "''2026-01-01T00:00:00Z''"
  let ?v2 = "EndorsementSigningBytes ?s ''approved'' ''a'' ?t"
  have T: "length ?k = PublicKeySize" "pr_verify toy k m x \<longleftrightarrow> x = k @ m" "au_Key (toy_author CHR ''a'') = ?k"
      "au_Name (toy_author CHR ''a'') = ''a''" "au_Sign (toy_author CHR ''a'') m = Some (?k @ m)" for k m x
    by (simp_all add: toy_def toy_key_def toy_author_def PublicKeySize_def)
  obtain s1 f where s1: "AddEndorsement toy ?k (?k @ ?v2) ''approved'' ''a'' ?t ?s = Inr (s1, f)"
    using T(1) by (simp add: AddEndorsement_def addVerified_def T(2) Let_def)
  then have b: "SealerSigningBytes s1 = SealSigningBytes ''ops'' zeroHash"
    by (auto simp: AddEndorsement_def addVerified_def Let_def SealerSigningBytes_def NewSealer_def headOf_def split: if_splits)
  obtain s2 f' where s2: "AddCosignature toy ?k (?k @ SealerSigningBytes s1) s1 = Inr (s2, f')"
    using T(1) by (simp add: AddCosignature_def addVerified_def T(2) Let_def)
  have "SealSigningBytes ''ops'' zeroHash \<noteq> ?v2"
    using preimage_inj [of "SealV1 ''ops'' zeroHash" "SealV2 ''ops'' ''approved'' ''a'' ?t zeroHash"]
    by (auto simp: fits_def EndorsementSigningBytes_def NewSealer_def headOf_def)
  then have "\<not> pr_verify toy ?k ?v2 (?k @ SealerSigningBytes s1)" by (simp add: T(2) b)
  from stale_endorsement [OF s1 s2 this refl, of ?t] s1 s2 show ?thesis by (simp add: SignAs_def Sign_def T(3-5))
qed

end
