(* ===== verification/RecordIdentity.thy ===== *)
theory RecordIdentity
  imports Prelude Files
begin

text \<open>
  Identities on surfaces and inside records: which name may be drawn for a key
  (\<^verbatim>\<open>src/tui/attest/identity_display.go\<close>), and the attestation entries a sealed record carries
  (\<^verbatim>\<open>src/tui/record/identity.go\<close>). The result of \<open>VerifyWithIdentity\<close> is the plain result with the
  two identity fields added.
\<close>

section \<open>Which name to draw\<close>

datatype IdentityDisplayState =
    IdentityDisplayVerifiedNamed
  | IdentityDisplayVerifiedUnnamed
  | IdentityDisplayCarried
  | IdentityDisplayAsserted

text \<open>The UTF-8 bytes of the filled and the hollow diamond.\<close>

definition IdentityDisplayMark :: "IdentityDisplayState \<Rightarrow> string" where
  "IdentityDisplayMark s =
    (case s of
       IdentityDisplayVerifiedNamed \<Rightarrow> [CHR 0xE2, CHR 0x97, CHR 0x86]
     | IdentityDisplayVerifiedUnnamed \<Rightarrow> [CHR 0xE2, CHR 0x97, CHR 0x86]
     | IdentityDisplayCarried \<Rightarrow> [CHR 0xE2, CHR 0x97, CHR 0x87]
     | _ \<Rightarrow> [])"

record IdentityDisplay =
  id_State :: IdentityDisplayState
  id_Name :: string
  id_Principal :: string
  id_DisplayName :: string
  id_Issuer :: string
  id_Roles :: "string list"
  id_Reason :: IdentityReason
  id_ReasonClass :: IdentityReasonClass
  id_Detail :: detail

definition IdentityDisplayFor :: "string \<Rightarrow> string \<Rightarrow> IdentityAttestation option \<Rightarrow> IdentityResult option \<Rightarrow> IdentityDisplay" where
  "IdentityDisplayFor asserted subjectFpr carried res =
    (let out = \<lparr>id_State = IdentityDisplayAsserted, id_Name = asserted, id_Principal = [], id_DisplayName = [], id_Issuer = [],
           id_Roles = [], id_Reason = NoReason, id_ReasonClass = NoClass, id_Detail = NoDetail\<rparr>
     in if carried = None \<and> res = None then out
        else let out = (case carried of Some a \<Rightarrow> out\<lparr>id_Principal := ia_Principal a, id_DisplayName := ia_DisplayName a,
                           id_Issuer := ia_Issuer a, id_Roles := ia_Roles a\<rparr> | None \<Rightarrow> out);
                 out = out\<lparr>id_State := IdentityDisplayCarried\<rparr>
        in if (case carried of Some a \<Rightarrow> subjectFpr = [] \<or> ia_Subject a \<noteq> subjectFpr | None \<Rightarrow> False)
           then out\<lparr>id_Reason := ReasonSubjectMismatch, id_ReasonClass := ClassOf ReasonSubjectMismatch,
                  id_Detail := AboutAnother (ia_Subject (the carried)) (if subjectFpr = [] then ''(the caller named no key)'' else subjectFpr)\<rparr>
           else case res of
             None \<Rightarrow> out\<lparr>id_Detail := Unchecked\<rparr>
           | Some r \<Rightarrow>
              (let out = (if ir_Principal r \<noteq> [] then out\<lparr>id_Principal := ir_Principal r\<rparr> else out);
                   out = (if ir_Issuer r \<noteq> [] then out\<lparr>id_Issuer := ir_Issuer r\<rparr> else out);
                   out = (if length (ir_Roles r) > 0 then out\<lparr>id_Roles := ir_Roles r\<rparr> else out)
               in if \<not> ir_Valid r
                  then out\<lparr>id_Reason := ir_Reason r, id_ReasonClass := ir_ReasonClass r,
                         id_Detail := (if ir_Detail r = NoDetail then ReasonText (ir_Reason r) else ir_Detail r)\<rparr>
                  else let out = out\<lparr>id_DisplayName := ir_DisplayName r\<rparr>
                  in if ir_DisplayName r \<noteq> []
                     then out\<lparr>id_State := IdentityDisplayVerifiedNamed, id_Name := ir_DisplayName r\<rparr>
                     else out\<lparr>id_State := IdentityDisplayVerifiedUnnamed, id_Name := ir_Principal r\<rparr>))"

definition IdentityDisplayForBytes :: "Prims \<Rightarrow> string \<Rightarrow> string \<Rightarrow> bytes \<Rightarrow> IdentityResult option \<Rightarrow> IdentityDisplay" where
  "IdentityDisplayForBytes c asserted subjectFpr carried res =
    (if length carried = 0 then IdentityDisplayFor asserted subjectFpr None res
     else case ParseIdentity c carried of
       Inl _ \<Rightarrow> \<lparr>id_State = IdentityDisplayCarried, id_Name = asserted, id_Principal = [], id_DisplayName = [], id_Issuer = [],
           id_Roles = [], id_Reason = ReasonMalformedArtifact, id_ReasonClass = ClassOf ReasonMalformedArtifact,
           id_Detail = NotAnArtifact (length carried)\<rparr>
     | Inr a \<Rightarrow> IdentityDisplayFor asserted subjectFpr (Some a) res)"

section \<open>Attestation entries\<close>

definition IdentityEntrySpec :: "Prims \<Rightarrow> IdentityAttestation option \<Rightarrow> EntrySpec option" where
  "IdentityEntrySpec c att =
    (case att of
       None \<Rightarrow> None
     | Some a \<Rightarrow> Some \<lparr>es_Kind = KindTyped, es_Actionee = [], es_Body = MarshalIdentity c a, es_Schema = IdentitySchema,
         es_SchemaVer = [], es_Links = []\<rparr>)"

definition AppendIdentity :: "Prims \<Rightarrow> 64 word \<Rightarrow> Author \<Rightarrow> IdentityAttestation option \<Rightarrow> Chain \<Rightarrow> (Chain \<times> Entry) option" where
  "AppendIdentity c ts a att ch = (case IdentityEntrySpec c att of None \<Rightarrow> None | Some spec \<Rightarrow> Append c ts a spec ch)"

definition IsIdentityEntry :: "Entry \<Rightarrow> bool" where
  "IsIdentityEntry e \<longleftrightarrow> en_Kind e = KindTyped \<and> en_Schema e = IdentitySchema"

record VerifiedIdentity =
  vi_Subject :: string
  vi_Principal :: string
  vi_DisplayName :: string
  vi_PrincipalType :: string
  vi_Roles :: "string list"
  vi_Issuer :: string
  vi_VerifiedBy :: "string list"
  vi_Serial :: string
  vi_NotBefore :: string
  vi_NotAfter :: string

record IdentityOutcome =
  oc_Seq :: "64 word"
  oc_Subject :: string
  oc_Serial :: string
  oc_Valid :: bool
  oc_Reason :: IdentityReason
  oc_ReasonClass :: IdentityReasonClass
  oc_Detail :: detail

record IdentityVerifyResult =
  vw_Result :: VerifyResult
  vw_IdentityBindings :: "(string, VerifiedIdentity list) gomap"
  vw_IdentityOutcomes :: "IdentityOutcome list"

definition outcomeOf :: "Entry \<Rightarrow> IdentityResult \<Rightarrow> IdentityOutcome" where
  "outcomeOf e r = \<lparr>oc_Seq = en_Seq e, oc_Subject = ir_Subject r, oc_Serial = ir_Serial r, oc_Valid = ir_Valid r, oc_Reason = ir_Reason r,
     oc_ReasonClass = ir_ReasonClass r, oc_Detail = ir_Detail r\<rparr>"

definition malformedOutcome :: "Entry \<Rightarrow> IdentityOutcome" where
  "malformedOutcome e = \<lparr>oc_Seq = en_Seq e, oc_Subject = [], oc_Serial = [], oc_Valid = False, oc_Reason = ReasonMalformedArtifact,
     oc_ReasonClass = ClassOf ReasonMalformedArtifact, oc_Detail = ParseDetail\<rparr>"

definition bindingOf :: "IdentityResult \<Rightarrow> VerifiedIdentity" where
  "bindingOf r = \<lparr>vi_Subject = ir_Subject r, vi_Principal = ir_Principal r, vi_DisplayName = ir_DisplayName r,
     vi_PrincipalType = ir_PrincipalType r, vi_Roles = ir_Roles r, vi_Issuer = ir_Issuer r, vi_VerifiedBy = ir_VerifiedBy r,
     vi_Serial = ir_Serial r, vi_NotBefore = ir_NotBefore r, vi_NotAfter = ir_NotAfter r\<rparr>"

type_synonym binding_key = "string \<times> string \<times> string"

fun identityWalk :: "Prims \<Rightarrow> IdentityOptions \<Rightarrow> Entry list \<Rightarrow> binding_key list \<Rightarrow> (string, VerifiedIdentity list) gomap \<Rightarrow>
    IdentityOutcome list \<Rightarrow> call_error + (string, VerifiedIdentity list) gomap \<times> IdentityOutcome list" where
  "identityWalk c opts [] seen bindings outcomes = Inr (bindings, outcomes)"
| "identityWalk c opts (e # es) seen bindings outcomes =
    (if \<not> IsIdentityEntry e then identityWalk c opts es seen bindings outcomes
     else case ParseIdentity c (en_Body e) of
       Inl _ \<Rightarrow> identityWalk c opts es seen bindings (outcomes @ [malformedOutcome e])
     | Inr att \<Rightarrow>
        (case VerifyIdentity c (Some att) opts of
           Inl err \<Rightarrow> Inl err
         | Inr r \<Rightarrow>
            (let outcomes = outcomes @ [outcomeOf e r]
             in if \<not> ir_Valid r then identityWalk c opts es seen bindings outcomes
                else let k = (ir_Subject r, ir_Issuer r, ir_Serial r)
                in if k \<in> set seen then identityWalk c opts es seen bindings outcomes
                   else identityWalk c opts es (k # seen)
                     (mput (ir_Subject r) ((case mget bindings (ir_Subject r) of Some vs \<Rightarrow> vs | None \<Rightarrow> []) @ [bindingOf r]) bindings)
                     outcomes)))"

datatype identity_error = RecordError verify_error | IdentityCall call_error

definition sortBindings :: "VerifiedIdentity list \<Rightarrow> VerifiedIdentity list" where
  "sortBindings vs = sort_key (\<lambda>v. (vi_Issuer v, vi_Serial v)) vs"

definition VerifyWithIdentity :: "Prims \<Rightarrow> SealedRecord \<Rightarrow> IdentityOptions \<Rightarrow> IdentityVerifyResult option \<times> identity_error option" where
  "VerifyWithIdentity c r opts =
    (let (res, err) = Verify c r;
         plain = \<lparr>vw_Result = res, vw_IdentityBindings = [], vw_IdentityOutcomes = []\<rparr>
     in if err \<noteq> None \<or> \<not> vr_Valid res then (Some plain, map_option RecordError err)
        else if length (io_IssuerKeys opts) = 0 then (Some plain, None)
        else case badKey 0 (io_IssuerKeys opts) of
          Some (i, n) \<Rightarrow> (None, Some (IdentityCall (IssuerKeySize i n)))
        | None \<Rightarrow>
           (if io_At opts = 0 then (None, Some (IdentityCall ZeroTime))
            else case identityWalk c opts (sr_Entries r) [] [] [] of
              Inl e \<Rightarrow> (None, Some (IdentityCall e))
            | Inr (bindings, outcomes) \<Rightarrow>
                (Some (plain\<lparr>vw_IdentityBindings := mvals sortBindings bindings, vw_IdentityOutcomes := outcomes\<rparr>), None)))"

definition VerifyBytesWithIdentity :: "Prims \<Rightarrow> string \<Rightarrow> IdentityOptions \<Rightarrow>
    parse_error + IdentityVerifyResult option \<times> identity_error option" where
  "VerifyBytesWithIdentity c b opts = (case ParseRecord c b of Inl err \<Rightarrow> Inl err | Inr rec \<Rightarrow> Inr (VerifyWithIdentity c rec opts))"

definition VerifiedIdentitiesOf :: "IdentityVerifyResult option \<Rightarrow> string \<Rightarrow> VerifiedIdentity list" where
  "VerifiedIdentitiesOf res subject =
    (case res of None \<Rightarrow> [] | Some r \<Rightarrow> (case mget (vw_IdentityBindings r) subject of Some vs \<Rightarrow> vs | None \<Rightarrow> []))"

section \<open>Drawing one entry\<close>

fun findOutcome :: "64 word \<Rightarrow> IdentityOutcome list \<Rightarrow> IdentityOutcome option" where
  "findOutcome seq [] = None"
| "findOutcome seq (x # xs) = (if oc_Seq x = seq then Some x else findOutcome seq xs)"

fun findBinding :: "string \<Rightarrow> string \<Rightarrow> VerifiedIdentity list \<Rightarrow> VerifiedIdentity option" where
  "findBinding serial issuer [] = None"
| "findBinding serial issuer (b # bs) =
    (if vi_Serial b \<noteq> serial \<or> vi_Issuer b \<noteq> issuer then findBinding serial issuer bs else Some b)"

definition identityResultForEntry :: "IdentityVerifyResult option \<Rightarrow> Entry \<Rightarrow> IdentityAttestation \<Rightarrow> IdentityResult option" where
  "identityResultForEntry res e att =
    (case res of
       None \<Rightarrow> None
     | Some r \<Rightarrow>
        (case findOutcome (en_Seq e) (vw_IdentityOutcomes r) of
           None \<Rightarrow> None
         | Some oc \<Rightarrow>
            (let out = \<lparr>ir_Valid = oc_Valid oc, ir_Subject = ia_Subject att, ir_Principal = [], ir_DisplayName = [], ir_PrincipalType = [],
                   ir_Roles = [], ir_Serial = ia_Serial att, ir_Issuer = [], ir_VerifiedBy = [], ir_NotBefore = [], ir_NotAfter = [],
                   ir_EvaluatedAt = [], ir_Revocation = [], ir_Reason = oc_Reason oc, ir_ReasonClass = oc_ReasonClass oc, ir_Detail = oc_Detail oc\<rparr>
             in if \<not> oc_Valid oc then Some out
                else case findBinding (oc_Serial oc) (ia_Issuer att)
                    (case mget (vw_IdentityBindings r) (oc_Subject oc) of Some vs \<Rightarrow> vs | None \<Rightarrow> []) of
                  Some b \<Rightarrow> Some (out\<lparr>ir_Principal := vi_Principal b, ir_DisplayName := vi_DisplayName b, ir_PrincipalType := vi_PrincipalType b,
                      ir_Roles := vi_Roles b, ir_Issuer := vi_Issuer b, ir_Serial := vi_Serial b, ir_VerifiedBy := vi_VerifiedBy b,
                      ir_NotBefore := vi_NotBefore b, ir_NotAfter := vi_NotAfter b\<rparr>)
                | None \<Rightarrow> Some (out\<lparr>ir_Valid := False, ir_Reason := ReasonNoPinnedIssuerVerified,
                      ir_ReasonClass := ClassOf ReasonNoPinnedIssuerVerified, ir_Detail := BindingMissing\<rparr>))))"

definition IdentityDisplayForEntry :: "Prims \<Rightarrow> IdentityVerifyResult option \<Rightarrow> Entry \<Rightarrow> string \<Rightarrow> IdentityDisplay option" where
  "IdentityDisplayForEntry c res e asserted =
    (if \<not> IsIdentityEntry e then None
     else case ParseIdentity c (en_Body e) of
       Inl _ \<Rightarrow> Some (IdentityDisplayForBytes c asserted [] (en_Body e) None)
     | Inr att \<Rightarrow>
        (let asserted = (if asserted = [] then ia_Subject att else asserted)
         in Some (IdentityDisplayFor asserted (ia_Subject att) (Some att) (identityResultForEntry res e att))))"

section \<open>What is surfaced\<close>

abbreviation verified_state :: "IdentityDisplay \<Rightarrow> bool" where
  "verified_state d \<equiv> id_State d \<in> {IdentityDisplayVerifiedNamed, IdentityDisplayVerifiedUnnamed}"

definition entries_of :: "(string, VerifiedIdentity list) gomap \<Rightarrow> string \<Rightarrow> VerifiedIdentity list" where
  "entries_of m s = (case mget m s of Some vs \<Rightarrow> vs | None \<Rightarrow> [])"

lemma entries_of_mput [simp]: "entries_of (mput k vs m) s = (if s = k then vs else entries_of m s)"
  by (simp add: entries_of_def)

lemma entries_of_Nil [simp]: "entries_of [] s = []"
  by (simp add: entries_of_def)

definition triple :: "VerifiedIdentity \<Rightarrow> binding_key" where
  "triple b = (vi_Subject b, vi_Issuer b, vi_Serial b)"

text \<open>The binding one entry establishes, if it carries an attestation that verifies.\<close>

definition entry_binding :: "Prims \<Rightarrow> IdentityOptions \<Rightarrow> Entry \<Rightarrow> VerifiedIdentity option" where
  "entry_binding c opts e =
    (if \<not> IsIdentityEntry e then None
     else case ParseIdentity c (en_Body e) of
       Inl _ \<Rightarrow> None
     | Inr a \<Rightarrow> (case VerifyIdentity c (Some a) opts of Inl _ \<Rightarrow> None | Inr r \<Rightarrow> (if ir_Valid r then Some (bindingOf r) else None)))"

definition entry_outcome :: "Prims \<Rightarrow> IdentityOptions \<Rightarrow> Entry \<Rightarrow> IdentityOutcome list" where
  "entry_outcome c opts e =
    (if \<not> IsIdentityEntry e then []
     else case ParseIdentity c (en_Body e) of
       Inl _ \<Rightarrow> [malformedOutcome e]
     | Inr a \<Rightarrow> (case VerifyIdentity c (Some a) opts of Inl _ \<Rightarrow> [] | Inr r \<Rightarrow> [outcomeOf e r]))"

definition bindings_ok :: "binding_key list \<Rightarrow> (string, VerifiedIdentity list) gomap \<Rightarrow> bool" where
  "bindings_ok seen m \<longleftrightarrow> (\<forall>s. distinct (map triple (entries_of m s)) \<and> (\<forall>b \<in> set (entries_of m s). vi_Subject b = s)) \<and>
     (\<forall>k. k \<in> set seen \<longleftrightarrow> (\<exists>s. k \<in> triple ` set (entries_of m s)))"

text \<open>One entry's effect on the bindings.\<close>

definition add_binding :: "VerifiedIdentity option \<Rightarrow> binding_key list \<times> (string, VerifiedIdentity list) gomap \<Rightarrow>
    binding_key list \<times> (string, VerifiedIdentity list) gomap" where
  "add_binding b x =
    (case b of
       Some v \<Rightarrow> (if triple v \<in> set (fst x) then x
         else (triple v # fst x, mput (vi_Subject v) (entries_of (snd x) (vi_Subject v) @ [v]) (snd x)))
     | None \<Rightarrow> x)"

lemma walk_step:
  assumes "call_ok opts"
  shows "identityWalk c opts (e # es) seen m outs =
    (let (seen', m') = add_binding (entry_binding c opts e) (seen, m) in identityWalk c opts es seen' m' (outs @ entry_outcome c opts e))"
proof (cases "IsIdentityEntry e")
  case True
  show ?thesis
  proof (cases "ParseIdentity c (en_Body e)")
    case (Inr a)
    obtain r where "VerifyIdentity c (Some a) opts = Inr r" using VerifyIdentity_verdict [OF assms, of c a] by blast
    then show ?thesis using True Inr
      by (cases "ir_Valid r") (auto simp: entry_binding_def entry_outcome_def add_binding_def Let_def triple_def bindingOf_def entries_of_def)
  qed (use True in \<open>simp add: entry_binding_def entry_outcome_def add_binding_def\<close>)
qed (simp add: entry_binding_def entry_outcome_def add_binding_def)

lemma add_binding_ok:
  assumes "bindings_ok seen m" "add_binding b (seen, m) = (seen', m')"
  shows "bindings_ok seen' m'"
    and "v \<in> set (entries_of m' s) \<Longrightarrow> v \<in> set (entries_of m s) \<or> b = Some v"
    and "set (entries_of m s) \<subseteq> set (entries_of m' s)"
    and "b = Some v \<Longrightarrow> triple v \<in> triple ` set (entries_of m' (vi_Subject v))"
proof -
  consider (skip) "seen' = seen" "m' = m" "\<And>v. b = Some v \<Longrightarrow> triple v \<in> set seen"
    | (new) v where "b = Some v" "triple v \<notin> set seen" "seen' = triple v # seen"
      "m' = mput (vi_Subject v) (entries_of m (vi_Subject v) @ [v]) m"
    using assms(2) by (cases b) (auto simp: add_binding_def split: if_splits)
  note cases = this
  have sub: "triple x = triple v \<Longrightarrow> x \<in> set (entries_of m s) \<Longrightarrow> s = vi_Subject v" for x v s
    using assms(1) by (auto simp: bindings_ok_def triple_def)
  show "bindings_ok seen' m'"
    using cases
  proof cases
    case (new v)
    have E: "entries_of m' s = (if s = vi_Subject v then entries_of m s @ [v] else entries_of m s)" for s by (simp add: new(4))
    have T: "triple ` set (entries_of m' s) = triple ` set (entries_of m s) \<union> (if s = vi_Subject v then {triple v} else {})" for s
      by (simp add: E)
    have f: "triple v \<notin> triple ` set (entries_of m s)" for s using new(2) assms(1) unfolding bindings_ok_def by blast
    have "distinct (map triple (entries_of m' s)) \<and> (\<forall>b \<in> set (entries_of m' s). vi_Subject b = s)" for s
      using assms(1) f unfolding bindings_ok_def E by auto
    moreover have "k \<in> set seen' \<longleftrightarrow> (\<exists>s. k \<in> triple ` set (entries_of m' s))" for k
    proof -
      have "(\<exists>s. k \<in> triple ` set (entries_of m' s)) \<longleftrightarrow> k = triple v \<or> (\<exists>s. k \<in> triple ` set (entries_of m s))"
      proof
        assume "\<exists>s. k \<in> triple ` set (entries_of m' s)"
        then obtain s where "k \<in> triple ` set (entries_of m' s)" ..
        then show "k = triple v \<or> (\<exists>s. k \<in> triple ` set (entries_of m s))" unfolding T by (cases "s = vi_Subject v") auto
      next
        assume "k = triple v \<or> (\<exists>s. k \<in> triple ` set (entries_of m s))"
        then show "\<exists>s. k \<in> triple ` set (entries_of m' s)"
        proof
          assume "k = triple v"
          then show ?thesis unfolding T by (intro exI [of _ "vi_Subject v"]) simp
        next
          assume "\<exists>s. k \<in> triple ` set (entries_of m s)"
          then show ?thesis unfolding T by blast
        qed
      qed
      moreover have "k \<in> set seen \<longleftrightarrow> (\<exists>s. k \<in> triple ` set (entries_of m s))" using assms(1) unfolding bindings_ok_def by blast
      ultimately show ?thesis by (simp only: new(3) list.set insert_iff)
    qed
    ultimately show ?thesis unfolding bindings_ok_def by blast
  qed (use assms(1) in simp)
  show "v \<in> set (entries_of m' s) \<Longrightarrow> v \<in> set (entries_of m s) \<or> b = Some v"
    using cases by cases (auto split: if_splits)
  show "set (entries_of m s) \<subseteq> set (entries_of m' s)"
    using cases by cases auto
  show "triple v \<in> triple ` set (entries_of m' (vi_Subject v))" if "b = Some v"
    using cases
  proof cases
    case skip
    then have "triple v \<in> set seen" using that by blast
    then obtain s x where x: "x \<in> set (entries_of m s)" "triple x = triple v" using assms(1) unfolding bindings_ok_def by (metis imageE)
    then have "s = vi_Subject v" using sub by blast
    then show ?thesis using x skip(2) by (metis imageI)
  qed (use that in auto)
qed

lemma identityWalk_spec:
  assumes "call_ok opts"
  shows "bindings_ok seen m \<Longrightarrow> \<exists>m'. identityWalk c opts es seen m outs = Inr (m', outs @ concat (map (entry_outcome c opts) es)) \<and>
    (\<exists>seen'. bindings_ok seen' m') \<and>
    (\<forall>s. set (entries_of m s) \<subseteq> set (entries_of m' s)) \<and>
    (\<forall>s. \<forall>v \<in> set (entries_of m' s). v \<in> set (entries_of m s) \<or> (\<exists>e \<in> set es. entry_binding c opts e = Some v)) \<and>
    (\<forall>e \<in> set es. \<forall>v. entry_binding c opts e = Some v \<longrightarrow> triple v \<in> triple ` set (entries_of m' (vi_Subject v)))"
proof (induction es arbitrary: seen m outs)
  case (Cons e es)
  obtain s1 m1 where a: "add_binding (entry_binding c opts e) (seen, m) = (s1, m1)" by fastforce
  note A = add_binding_ok [OF Cons.prems a]
  obtain m' where m': "identityWalk c opts es s1 m1 (outs @ entry_outcome c opts e) =
        Inr (m', (outs @ entry_outcome c opts e) @ concat (map (entry_outcome c opts) es))"
      "\<exists>seen'. bindings_ok seen' m'" "\<forall>s. set (entries_of m1 s) \<subseteq> set (entries_of m' s)"
      "\<forall>s. \<forall>v \<in> set (entries_of m' s). v \<in> set (entries_of m1 s) \<or> (\<exists>e \<in> set es. entry_binding c opts e = Some v)"
      "\<forall>e \<in> set es. \<forall>v. entry_binding c opts e = Some v \<longrightarrow> triple v \<in> triple ` set (entries_of m' (vi_Subject v))"
    using Cons.IH [OF A(1), of "outs @ entry_outcome c opts e"] by blast
  have "identityWalk c opts (e # es) seen m outs = Inr (m', outs @ concat (map (entry_outcome c opts) (e # es)))"
    using m'(1) unfolding walk_step [OF assms] a by simp
  moreover have "\<forall>s. set (entries_of m s) \<subseteq> set (entries_of m' s)" using A(3) m'(3) by blast
  moreover have "\<forall>s. \<forall>v \<in> set (entries_of m' s). v \<in> set (entries_of m s) \<or> (\<exists>e' \<in> set (e # es). entry_binding c opts e' = Some v)"
    using A(2) m'(4) by (metis list.set_intros)
  moreover have "\<forall>e' \<in> set (e # es). \<forall>v. entry_binding c opts e' = Some v \<longrightarrow> triple v \<in> triple ` set (entries_of m' (vi_Subject v))"
    using A(4) m'(3,5) by (metis image_mono set_ConsD subsetD)
  ultimately show ?case using m'(2) by blast
qed auto

lemma VerifyWithIdentity_plain:
  assumes "\<not> vr_Valid (fst (Verify c r)) \<or> io_IssuerKeys opts = []"
  shows "VerifyWithIdentity c r opts =
    (Some \<lparr>vw_Result = fst (Verify c r), vw_IdentityBindings = [], vw_IdentityOutcomes = []\<rparr>, map_option RecordError (snd (Verify c r)))"
proof (cases "valid_record c r")
  case True
  then have "snd (Verify c r) = None" by (auto elim: Verify_accepts)
  then show ?thesis using assms by (auto simp: VerifyWithIdentity_def Let_def split: prod.splits)
next
  case False
  then have "\<not> vr_Valid (fst (Verify c r))" by (rule Verify_rejects)
  then show ?thesis by (auto simp: VerifyWithIdentity_def Let_def split: prod.splits)
qed

lemma entries_of_sorted: "set (entries_of (mvals sortBindings m) s) = set (entries_of m s)"
    "distinct (map triple (entries_of (mvals sortBindings m) s)) \<longleftrightarrow> distinct (map triple (entries_of m s))"
    "sorted (map (\<lambda>v. (vi_Issuer v, vi_Serial v)) (entries_of (mvals sortBindings m) s))"
proof -
  have e: "entries_of (mvals sortBindings m) s = sortBindings (entries_of m s)"
    by (induction m) (auto simp: entries_of_def mvals_def sortBindings_def)
  show "set (entries_of (mvals sortBindings m) s) = set (entries_of m s)" unfolding e by (simp add: sortBindings_def)
  have "mset (map triple (sortBindings (entries_of m s))) = mset (map triple (entries_of m s))" by (simp add: sortBindings_def)
  then show "distinct (map triple (entries_of (mvals sortBindings m) s)) \<longleftrightarrow> distinct (map triple (entries_of m s))"
    unfolding e by (metis mset_eq_imp_distinct_iff)
  show "sorted (map (\<lambda>v. (vi_Issuer v, vi_Serial v)) (entries_of (mvals sortBindings m) s))"
    unfolding e by (simp add: sortBindings_def)
qed

lemma VerifyWithIdentity_full:
  assumes "vr_Valid (fst (Verify c r))" "io_IssuerKeys opts \<noteq> []" "call_ok opts"
  shows "\<exists>w. VerifyWithIdentity c r opts = (Some w, None) \<and> vw_Result w = fst (Verify c r) \<and>
    vw_IdentityOutcomes w = concat (map (entry_outcome c opts) (sr_Entries r)) \<and>
    (\<forall>s. distinct (map triple (VerifiedIdentitiesOf (Some w) s)) \<and>
      (\<forall>v \<in> set (VerifiedIdentitiesOf (Some w) s). vi_Subject v = s \<and> (\<exists>e \<in> set (sr_Entries r). entry_binding c opts e = Some v))) \<and>
    (\<forall>e \<in> set (sr_Entries r). \<forall>v. entry_binding c opts e = Some v \<longrightarrow> triple v \<in> triple ` set (VerifiedIdentitiesOf (Some w) (vi_Subject v)))"
proof -
  have "bindings_ok [] []" by (simp add: bindings_ok_def)
  from identityWalk_spec [OF assms(3) this, of c "sr_Entries r" "[]"]
  obtain m seen where m: "identityWalk c opts (sr_Entries r) [] [] [] = Inr (m, concat (map (entry_outcome c opts) (sr_Entries r)))"
      "bindings_ok seen m" "\<forall>s. \<forall>v \<in> set (entries_of m s). \<exists>e \<in> set (sr_Entries r). entry_binding c opts e = Some v"
      "\<forall>e \<in> set (sr_Entries r). \<forall>v. entry_binding c opts e = Some v \<longrightarrow> triple v \<in> triple ` set (entries_of m (vi_Subject v))"
    by auto
  have v: "valid_record c r" using assms(1) by (simp only: Verify_Valid)
  then have n: "snd (Verify c r) = None" by (auto elim: Verify_accepts)
  have b: "badKey 0 (io_IssuerKeys opts) = None" "io_At opts \<noteq> 0" using assms(3) by (simp_all add: call_ok_def badKey_None)
  let ?w = "\<lparr>vw_Result = fst (Verify c r), vw_IdentityBindings = mvals sortBindings m,
    vw_IdentityOutcomes = concat (map (entry_outcome c opts) (sr_Entries r))\<rparr>"
  have "VerifyWithIdentity c r opts = (Some ?w, None)"
    using assms(1,2) n b m(1) by (auto simp: VerifyWithIdentity_def Let_def split: prod.splits)
  moreover have "VerifiedIdentitiesOf (Some ?w) s = entries_of (mvals sortBindings m) s" for s
    by (simp add: VerifiedIdentitiesOf_def entries_of_def)
  ultimately show ?thesis using m(2-4) unfolding bindings_ok_def
    by (intro exI [of _ ?w]) (simp add: entries_of_sorted)
qed

section \<open>Properties\<close>

text \<open>Identity surfacing never changes a record's validity: with a usable call the sealed
  record's own result is passed on unchanged; without a pinned issuer or for an invalid
  record nothing else is added; otherwise every attestation entry is reported in order,
  and the bindings listed for a key are exactly those of attestation entries that verify
  and are about that key, each (subject, issuer, serial) once.\<close>

theorem VerifyWithIdentity_additive:
  assumes "call_ok opts"
  shows "\<exists>w. fst (VerifyWithIdentity c r opts) = Some w \<and> vw_Result w = fst (Verify c r) \<and>
    (\<not> vr_Valid (fst (Verify c r)) \<or> io_IssuerKeys opts = [] \<longrightarrow> vw_IdentityBindings w = [] \<and> vw_IdentityOutcomes w = []) \<and>
    (vr_Valid (fst (Verify c r)) \<and> io_IssuerKeys opts \<noteq> [] \<longrightarrow>
      vw_IdentityOutcomes w = concat (map (entry_outcome c opts) (sr_Entries r)) \<and>
      (\<forall>s. distinct (map triple (VerifiedIdentitiesOf (Some w) s)) \<and>
        (\<forall>v \<in> set (VerifiedIdentitiesOf (Some w) s). vi_Subject v = s \<and> (\<exists>e \<in> set (sr_Entries r). entry_binding c opts e = Some v))) \<and>
      (\<forall>e \<in> set (sr_Entries r). \<forall>v. entry_binding c opts e = Some v \<longrightarrow>
        triple v \<in> triple ` set (VerifiedIdentitiesOf (Some w) (vi_Subject v))))"
proof (cases "\<not> vr_Valid (fst (Verify c r)) \<or> io_IssuerKeys opts = []")
  case True
  then show ?thesis using VerifyWithIdentity_plain [OF True] by auto
next
  case False
  then obtain w where "VerifyWithIdentity c r opts = (Some w, None)" "vw_Result w = fst (Verify c r)"
      "vw_IdentityOutcomes w = concat (map (entry_outcome c opts) (sr_Entries r))"
      "\<forall>s. distinct (map triple (VerifiedIdentitiesOf (Some w) s)) \<and>
        (\<forall>v \<in> set (VerifiedIdentitiesOf (Some w) s). vi_Subject v = s \<and> (\<exists>e \<in> set (sr_Entries r). entry_binding c opts e = Some v))"
      "\<forall>e \<in> set (sr_Entries r). \<forall>v. entry_binding c opts e = Some v \<longrightarrow> triple v \<in> triple ` set (VerifiedIdentitiesOf (Some w) (vi_Subject v))"
    using VerifyWithIdentity_full [OF _ _ assms] by blast
  with False show ?thesis by (intro exI [of _ w]) simp
qed

text \<open>A verified name is drawn exactly when a verification succeeded and the credential that came
  with the key, if one came, is about this very key; the name is then the one the issuer
  signed, or the principal when it signed none. In every other case the sender's own name
  is drawn, and the state says asserted only when neither credential nor result is there.
  (When a result is handed over without its credential, the fingerprint of the key being
  drawn is not consulted.)\<close>

theorem display_verified_exact:
  "(verified_state (IdentityDisplayFor asserted fpr carried res) \<longleftrightarrow>
     (\<exists>r. res = Some r \<and> ir_Valid r \<and> (\<forall>a. carried = Some a \<longrightarrow> fpr \<noteq> [] \<and> ia_Subject a = fpr))) \<and>
   id_Name (IdentityDisplayFor asserted fpr carried res) =
     (if verified_state (IdentityDisplayFor asserted fpr carried res)
      then (if ir_DisplayName (the res) \<noteq> [] then ir_DisplayName (the res) else ir_Principal (the res)) else asserted) \<and>
   (id_State (IdentityDisplayFor asserted fpr carried res) = IdentityDisplayAsserted \<longleftrightarrow> carried = None \<and> res = None)"
  by (cases carried; cases res) (simp_all add: IdentityDisplayFor_def Let_def)

theorem display_verified_exact_witness:
  "\<exists>res. VerifyIdentity id_prims (Some id_sample) id_opts = Inr res \<and>
     \<not> verified_state (IdentityDisplayFor ''mallory'' ''SHA256:m'' (Some id_sample) (Some res)) \<and>
     verified_state (IdentityDisplayFor ''mallory'' ''SHA256:m'' None (Some res)) \<and>
     id_Name (IdentityDisplayFor ''mallory'' ''SHA256:m'' None (Some res)) = ''Rosa''"
proof -
  obtain res where r: "VerifyIdentity id_prims (Some id_sample) id_opts = Inr res" "ir_Valid res" "echoes id_sample res"
    using VerifyIdentity_verdict [OF id_call_ok, of id_prims id_sample] id_sample_attested by blast
  have n: "ir_DisplayName res = ''Rosa''" using r(3)
    by (simp add: echoes_def id_sample_def WithSignatures_def id_unsigned_def NewIdentityAttestation_def)
  have "id_fpr \<noteq> ''SHA256:m''" by code_simp
  then have s: "ia_Subject id_sample \<noteq> ''SHA256:m''"
    by (simp add: id_sample_def WithSignatures_def id_unsigned_def NewIdentityAttestation_def)
  show ?thesis
    using r display_verified_exact [of "''mallory''" "''SHA256:m''" "Some id_sample" "Some res"]
      display_verified_exact [of "''mallory''" "''SHA256:m''" None "Some res"] n s
    by (intro exI [of _ res]) simp
qed

text \<open>A record that carries the sample credential.\<close>

definition id_author :: Author where
  "id_author = (toy_author CHR ''a'')\<lparr>au_ID := id_fpr\<rparr>"

definition id_chain :: Chain where
  "id_chain = fst (the (AppendIdentity file_prims 1 id_author (Some id_sample) []))"

definition id_record :: SealedRecord where
  "id_record = NewSealedRecord ''now'' ''ops'' id_fpr id_chain (headOf file_prims id_chain)
     [(id_fpr, toy_key CHR ''a'' @ SealSigningBytes ''ops'' (headOf file_prims id_chain))] [(id_fpr, toy_key CHR ''a'')]"

lemma file_prims_simps [simp]:
  "pr_fingerprint file_prims (toy_key CHR ''a'') = id_fpr" "pr_verify file_prims k m x \<longleftrightarrow> x = k @ m"
  "length (pr_sha256 file_prims y) = 32"
  by (simp_all add: file_prims_def id_prims_def id_fpr_def toy_def)

lemma id_chain_entry:
  obtains e where "id_chain = [e]" "IsIdentityEntry e" "en_Body e = MarshalIdentity file_prims id_sample" "chain_ok file_prims id_chain"
proof -
  define sp where "sp = \<lparr>es_Kind = KindTyped, es_Actionee = [], es_Body = MarshalIdentity file_prims id_sample, es_Schema = IdentitySchema,
         es_SchemaVer = [], es_Links = []\<rparr>"
  have "author_ok file_prims id_author"
    by (simp add: author_ok_def id_author_def toy_author_def toy_key_def PublicKeySize_def) (simp add: toy_key_def [symmetric])
  moreover have "spec_ok sp" by (simp add: sp_def spec_ok_def IdentitySchema_def)
  ultimately have "\<exists>e. Append file_prims 1 id_author sp [] = Some ([] @ [e], e) \<and> VerifyEntry file_prims e = None \<and>
      en_Seq e = word_of_nat (length ([] :: Chain)) \<and> en_PrevHash e = headOf file_prims []"
    by (intro Append_verifies) simp_all
  then obtain e where E: "Append file_prims 1 id_author sp [] = Some ([] @ [e], e) \<and> VerifyEntry file_prims e = None \<and>
      en_Seq e = word_of_nat (length ([] :: Chain)) \<and> en_PrevHash e = headOf file_prims []" ..
  note e = conjunct1 [OF E] conjunct2 [OF E]
  have f: "en_Kind e = KindTyped" "en_Schema e = IdentitySchema" "en_Body e = MarshalIdentity file_prims id_sample"
    using e(1) by (auto simp: Append_def newEntry_def sp_def Let_def split: option.splits)
  have t: "id_chain = [e]"
    unfolding id_chain_def AppendIdentity_def IdentityEntrySpec_def option.case sp_def [symmetric] e(1) by simp
  have "chain_ok file_prims ([] @ [e])" unfolding chain_ok_snoc using e(2) by (simp add: chain_ok_def linked_def)
  then show ?thesis using that [of e] t f by (simp add: IsIdentityEntry_def)
qed

lemma id_record_valid: "valid_record file_prims id_record"
proof -
  have c: "chain_ok file_prims id_chain" by (rule id_chain_entry)
  have "seal_ok file_prims id_record (headOf file_prims id_chain) id_fpr"
    by (simp add: seal_ok_def id_record_def NewSealedRecord_def newSealedRecord_def mvals_def sealPreimage_def toy_key_def PublicKeySize_def)
      (simp add: toy_key_def [symmetric])
  with c show ?thesis
    by (simp add: valid_record_def id_record_def NewSealedRecord_def newSealedRecord_def recordVersion_def mvals_def)
qed

theorem VerifyWithIdentity_additive_witness:
  "\<exists>w v. fst (VerifyWithIdentity file_prims id_record id_opts) = Some w \<and> v \<in> set (VerifiedIdentitiesOf (Some w) id_fpr)"
proof -
  obtain e where e: "id_chain = [e]" "IsIdentityEntry e" "en_Body e = MarshalIdentity file_prims id_sample" by (rule id_chain_entry)
  obtain b where b: "decode_identity (json_identity id_sample) = Some b" "same_identity id_sample b" using decode_json_identity by blast
  have p: "ParseIdentity file_prims (en_Body e) = Inr b"
    unfolding e(3) using b(1) file_prims_scan by (simp add: ParseIdentity_def parseFile_def More_def)
  have "attested file_prims id_sample id_opts"
    using id_sample_attested by (simp add: attested_def vouches_def window_of_def id_opts_def file_prims_def)
  then obtain r where r: "VerifyIdentity file_prims (Some b) id_opts = Inr r" "ir_Valid r" "echoes id_sample r"
    using VerifyIdentity_verdict [OF id_call_ok, of file_prims id_sample] VerifyIdentity_same [OF b(2), of file_prims id_opts] by auto
  have eb: "entry_binding file_prims id_opts e = Some (bindingOf r)" using e(2) p r by (simp add: entry_binding_def)
  have s: "vi_Subject (bindingOf r) = id_fpr" using r(3)
    by (simp add: bindingOf_def echoes_def id_sample_def WithSignatures_def id_unsigned_def NewIdentityAttestation_def)
  have "sr_Entries id_record = id_chain" by (simp add: id_record_def NewSealedRecord_def newSealedRecord_def)
  then have en: "e \<in> set (sr_Entries id_record)" unfolding e(1) by simp
  have v: "vr_Valid (fst (Verify file_prims id_record))" using id_record_valid by (simp only: Verify_Valid)
  have k: "io_IssuerKeys id_opts \<noteq> []" by (simp add: id_opts_def)
  from VerifyWithIdentity_additive [OF id_call_ok, of file_prims id_record] v k en eb s
  obtain w where "fst (VerifyWithIdentity file_prims id_record id_opts) = Some w"
      "triple (bindingOf r) \<in> triple ` set (VerifiedIdentitiesOf (Some w) id_fpr)" by metis
  then show ?thesis by blast
qed

text \<open>An attestation entry with an empty body is drawn as if no credential had arrived, although
  verification reports it as malformed.\<close>

lemma empty_entry_asserted:
  assumes "IsIdentityEntry e" "en_Body e = []" "pr_scan c [] = None"
  shows "map_option id_State (IdentityDisplayForEntry c res e asserted) = Some IdentityDisplayAsserted"
    and "entry_outcome c opts e = [malformedOutcome e]"
proof -
  have "ParseIdentity c [] = Inl BadDocument" using assms(3) by (simp add: ParseIdentity_def parseFile_def)
  then show "map_option id_State (IdentityDisplayForEntry c res e asserted) = Some IdentityDisplayAsserted"
    and "entry_outcome c opts e = [malformedOutcome e]"
    using assms(1,2) by (simp_all add: IdentityDisplayForEntry_def IdentityDisplayForBytes_def IdentityDisplayFor_def entry_outcome_def)
qed

end
