(* ===== verification/RoomKeys.thy ===== *)
theory RoomKeys
  imports Prelude Signing RecordChain
begin

unbundle bit_operations_syntax

text \<open>
  Client cryptography, \<^verbatim>\<open>src/tui/internal/crypto/\<close>: room keys, their epoch ratchet and wrapping, the message and
  chunk envelopes (\<^verbatim>\<open>group.go\<close>), the beacon key (\<^verbatim>\<open>beacon.go\<close>), the short authentication string
  (\<^verbatim>\<open>sas.go\<close>, \<^verbatim>\<open>pgpwords.go\<close>) and the identity that signs (\<^verbatim>\<open>identity.go\<close>).

  The primitives of \<open>golang.org/x/crypto\<close> are the fields of \<open>Cipher\<close>: the AEAD, the box and
  HKDF. Opening with a nonce that is not 24 bytes long panics in that library, so opening
  has a third outcome here. Reads of the system's random source are arguments, \<open>None\<close> being
  a read that fails. A \<open>[32]byte\<close> is a byte list of that length.
\<close>

section \<open>Primitives\<close>

record Cipher =
  ci_seal :: "bytes \<Rightarrow> bytes \<Rightarrow> bytes \<Rightarrow> bytes \<Rightarrow> bytes"   \<comment> \<open>key, nonce, plaintext, additional data\<close>
  ci_open :: "bytes \<Rightarrow> bytes \<Rightarrow> bytes \<Rightarrow> bytes \<Rightarrow> bytes option"
  ci_box :: "bytes \<Rightarrow> bytes \<Rightarrow> bytes \<Rightarrow> bytes \<Rightarrow> bytes"   \<comment> \<open>message, nonce, peer's public key, own private key\<close>
  ci_unbox :: "bytes \<Rightarrow> bytes \<Rightarrow> bytes \<Rightarrow> bytes \<Rightarrow> bytes option"
  ci_hkdf :: "bytes \<Rightarrow> bytes \<Rightarrow> nat \<Rightarrow> bytes"   \<comment> \<open>secret, info, length\<close>

definition NonceSizeX :: nat where "NonceSizeX = 24"

datatype aead_result = AeadPanic | AeadFail | AeadOk bytes

definition aead_Open :: "Cipher \<Rightarrow> bytes \<Rightarrow> bytes \<Rightarrow> bytes \<Rightarrow> bytes \<Rightarrow> aead_result" where
  "aead_Open ci key nonce ct ad =
    (if length nonce \<noteq> NonceSizeX then AeadPanic
     else case ci_open ci key nonce ct ad of None \<Rightarrow> AeadFail | Some pt \<Rightarrow> AeadOk pt)"

section \<open>Identity\<close>

record KeyIdentity =
  ki_SignPub :: bytes
  ki_KXPub :: bytes
  ki_KXPriv :: bytes
  ki_Source :: string
  ki_signer :: "(bytes \<Rightarrow> bytes option) option"

definition IdSign :: "KeyIdentity \<Rightarrow> bytes \<Rightarrow> bytes option" where
  "IdSign i message = (case ki_signer i of None \<Rightarrow> None | Some f \<Rightarrow> f message)"

definition IdFingerprint :: "Prims \<Rightarrow> KeyIdentity \<Rightarrow> string" where
  "IdFingerprint c i = Fingerprint c (ki_SignPub i)"

definition ToKX :: "bytes \<Rightarrow> bytes option" where
  "ToKX b = (if length b \<noteq> 32 then None else Some b)"

definition ToSignPub :: "bytes \<Rightarrow> bytes option" where
  "ToSignPub b = (if length b \<noteq> PublicKeySize then None else Some b)"

section \<open>Room keys\<close>

record RoomKey =
  rk_Epoch :: "64 word"
  rk_Key :: bytes

definition NewRoomKey :: "64 word \<Rightarrow> bytes option \<Rightarrow> RoomKey option" where
  "NewRoomKey epoch rnd = (case rnd of None \<Rightarrow> None | Some k \<Rightarrow> Some \<lparr>rk_Epoch = epoch, rk_Key = k\<rparr>)"

definition Ratchet :: "Cipher \<Rightarrow> RoomKey \<Rightarrow> RoomKey" where
  "Ratchet ci rk = \<lparr>rk_Epoch = rk_Epoch rk + 1, rk_Key = ci_hkdf ci (rk_Key rk) ''netherchat/epoch-ratchet/v1'' 32\<rparr>"

definition ZeroKey :: "RoomKey \<Rightarrow> RoomKey" where
  "ZeroKey rk = rk\<lparr>rk_Key := map (\<lambda>_. CHR 0x00) (rk_Key rk)\<rparr>"

definition WrapRoomKey :: "Cipher \<Rightarrow> KeyIdentity \<Rightarrow> RoomKey \<Rightarrow> bytes \<Rightarrow> bytes option \<Rightarrow> (bytes \<times> bytes) option" where
  "WrapRoomKey ci i rk recipientKX rnd =
    (case rnd of None \<Rightarrow> None | Some n \<Rightarrow> Some (n, ci_box ci (rk_Key rk) n recipientKX (ki_KXPriv i)))"

datatype unwrap_error = WrapNonceLength nat | BoxAuth | KeyLength nat

definition UnwrapRoomKey :: "Cipher \<Rightarrow> KeyIdentity \<Rightarrow> 64 word \<Rightarrow> bytes \<Rightarrow> bytes \<Rightarrow> bytes \<Rightarrow> unwrap_error + RoomKey" where
  "UnwrapRoomKey ci i epoch nonce wrapped senderKX =
    (if length nonce \<noteq> 24 then Inl (WrapNonceLength (length nonce))
     else case ci_unbox ci wrapped nonce senderKX (ki_KXPriv i) of
       None \<Rightarrow> Inl BoxAuth
     | Some opened \<Rightarrow>
        (if length opened \<noteq> 32 then Inl (KeyLength (length opened))
         else Inr \<lparr>rk_Epoch = epoch, rk_Key = opened\<rparr>))"

section \<open>Messages and chunks\<close>

definition epochAD :: "64 word \<Rightarrow> bytes" where
  "epochAD epoch = be64 epoch"

datatype seal_error = NonceRead | SignMessage

definition SealMessage :: "Cipher \<Rightarrow> KeyIdentity \<Rightarrow> RoomKey \<Rightarrow> string \<Rightarrow> string \<Rightarrow> bytes \<Rightarrow> bytes option \<Rightarrow>
    seal_error + bytes \<times> bytes \<times> bytes" where
  "SealMessage ci i rk roomID fromID plaintext rnd =
    (case rnd of
       None \<Rightarrow> Inl NonceRead
     | Some nonce \<Rightarrow>
        (let ciphertext = ci_seal ci (rk_Key rk) nonce plaintext (epochAD (rk_Epoch rk))
         in case IdSign i (SigningBytes roomID fromID (rk_Epoch rk) nonce ciphertext) of
              None \<Rightarrow> Inl SignMessage
            | Some signature \<Rightarrow> Inr (nonce, ciphertext, signature)))"

datatype open_result =
    Opened bytes bool   \<comment> \<open>plaintext, signed\<close>
  | SenderKeyInvalid
  | ErrBadSignature
  | EpochMismatch "64 word" "64 word"
  | DecryptFailed
  | OpenPanic

definition OpenMessage :: "Cipher \<Rightarrow> Prims \<Rightarrow> RoomKey \<Rightarrow> bytes \<Rightarrow> string \<Rightarrow> string \<Rightarrow> 64 word \<Rightarrow> bytes \<Rightarrow> bytes \<Rightarrow> bytes \<Rightarrow> open_result" where
  "OpenMessage ci c rk senderSignPub roomID fromID epoch nonce ciphertext sig =
    (if length sig > 0 \<and> length senderSignPub \<noteq> PublicKeySize then SenderKeyInvalid
     else if length sig > 0 \<and> \<not> pr_verify c senderSignPub (SigningBytes roomID fromID epoch nonce ciphertext) sig then ErrBadSignature
     else let signed = length sig > 0
     in if rk_Epoch rk \<noteq> epoch then EpochMismatch (rk_Epoch rk) epoch
        else case aead_Open ci (rk_Key rk) nonce ciphertext (epochAD epoch) of
          AeadPanic \<Rightarrow> OpenPanic
        | AeadFail \<Rightarrow> DecryptFailed
        | AeadOk plaintext \<Rightarrow> Opened plaintext signed)"

definition SealChunk :: "Cipher \<Rightarrow> RoomKey \<Rightarrow> bytes \<Rightarrow> bytes option \<Rightarrow> (bytes \<times> bytes) option" where
  "SealChunk ci rk plaintext rnd =
    (case rnd of None \<Rightarrow> None | Some nonce \<Rightarrow> Some (nonce, ci_seal ci (rk_Key rk) nonce plaintext (epochAD (rk_Epoch rk))))"

definition OpenChunk :: "Cipher \<Rightarrow> RoomKey \<Rightarrow> bytes \<Rightarrow> bytes \<Rightarrow> aead_result" where
  "OpenChunk ci rk nonce ciphertext = aead_Open ci (rk_Key rk) nonce ciphertext (epochAD (rk_Epoch rk))"

section \<open>Beacon\<close>

definition beaconKeyInfo :: string where "beaconKeyInfo = ''netherchat/beacon/v1''"

definition BeaconKey :: "Cipher \<Rightarrow> RoomKey \<Rightarrow> bytes" where
  "BeaconKey ci rk = ci_hkdf ci (rk_Key rk) beaconKeyInfo 32"

definition SealBeacon :: "Cipher \<Rightarrow> bytes \<Rightarrow> string \<Rightarrow> bytes option \<Rightarrow> bytes option" where
  "SealBeacon ci beaconKey status rnd =
    (case rnd of None \<Rightarrow> None | Some nonce \<Rightarrow> Some (nonce @ ci_seal ci beaconKey nonce status []))"

definition OpenBeacon :: "Cipher \<Rightarrow> bytes \<Rightarrow> bytes \<Rightarrow> string option" where
  "OpenBeacon ci beaconKey blob =
    (if length blob < NonceSizeX then None
     else case aead_Open ci beaconKey (take NonceSizeX blob) (drop NonceSizeX blob) [] of
       AeadOk pt \<Rightarrow> Some pt
     | _ \<Rightarrow> None)"

section \<open>Short authentication strings\<close>

definition pgpEven :: "string list" where
  "pgpEven = [
    ''aardvark'', ''absurd'', ''accrue'', ''acme'', ''adrift'', ''adult'', ''afflict'', ''ahead'',
    ''aimless'', ''Algol'', ''allow'', ''alone'', ''ammo'', ''ancient'', ''apple'', ''artist'',
    ''assume'', ''Athens'', ''atlas'', ''Aztec'', ''baboon'', ''backfield'', ''backward'', ''banjo'',
    ''beaming'', ''bedlamp'', ''beehive'', ''beeswax'', ''befriend'', ''Belfast'', ''berserk'', ''billiard'',
    ''bison'', ''blackjack'', ''blockade'', ''blowtorch'', ''bluebird'', ''bombast'', ''bookshelf'', ''brackish'',
    ''breadline'', ''breakup'', ''brickyard'', ''briefcase'', ''Burbank'', ''button'', ''buzzard'', ''cement'',
    ''chairlift'', ''chatter'', ''checkup'', ''chisel'', ''choking'', ''chopper'', ''Christmas'', ''clamshell'',
    ''classic'', ''classroom'', ''cleanup'', ''clockwork'', ''cobra'', ''commence'', ''concert'', ''cowbell'',
    ''crackdown'', ''cranky'', ''crowfoot'', ''crucial'', ''crumpled'', ''crusade'', ''cubic'', ''dashboard'',
    ''deadbolt'', ''deckhand'', ''dogsled'', ''dragnet'', ''drainage'', ''dreadful'', ''drifter'', ''dropper'',
    ''drumbeat'', ''drunken'', ''Dupont'', ''dwelling'', ''eating'', ''edict'', ''egghead'', ''eightball'',
    ''endorse'', ''endow'', ''enlist'', ''erase'', ''escape'', ''exceed'', ''eyeglass'', ''eyetooth'',
    ''facial'', ''fallout'', ''flagpole'', ''flatfoot'', ''flytrap'', ''fracture'', ''framework'', ''freedom'',
    ''frighten'', ''gazelle'', ''Geiger'', ''glitter'', ''glucose'', ''goggles'', ''goldfish'', ''gremlin'',
    ''guidance'', ''hamlet'', ''highchair'', ''hockey'', ''indoors'', ''indulge'', ''inverse'', ''involve'',
    ''island'', ''jawbone'', ''keyboard'', ''kickoff'', ''kiwi'', ''klaxon'', ''locale'', ''lockup'',
    ''merit'', ''minnow'', ''miser'', ''Mohawk'', ''mural'', ''music'', ''necklace'', ''Neptune'',
    ''newborn'', ''nightbird'', ''Oakland'', ''obtuse'', ''offload'', ''optic'', ''orca'', ''payday'',
    ''peachy'', ''pheasant'', ''physique'', ''playhouse'', ''Pluto'', ''preclude'', ''prefer'', ''preshrunk'',
    ''printer'', ''prowler'', ''pupil'', ''puppy'', ''python'', ''quadrant'', ''quiver'', ''quota'',
    ''ragtime'', ''ratchet'', ''rebirth'', ''reform'', ''regain'', ''reindeer'', ''rematch'', ''repay'',
    ''retouch'', ''revenge'', ''reward'', ''rhythm'', ''ribcage'', ''ringbolt'', ''robust'', ''rocker'',
    ''ruffled'', ''sailboat'', ''sawdust'', ''scallion'', ''scenic'', ''scorecard'', ''Scotland'', ''seabird'',
    ''select'', ''sentence'', ''shadow'', ''shamrock'', ''showgirl'', ''skullcap'', ''skydive'', ''slingshot'',
    ''slowdown'', ''snapline'', ''snapshot'', ''snowcap'', ''snowslide'', ''solo'', ''southward'', ''soybean'',
    ''spaniel'', ''spearhead'', ''spellbind'', ''spheroid'', ''spigot'', ''spindle'', ''spyglass'', ''stagehand'',
    ''stagnate'', ''stairway'', ''standard'', ''stapler'', ''steamship'', ''sterling'', ''stockman'', ''stopwatch'',
    ''stormy'', ''sugar'', ''surmount'', ''suspense'', ''sweatband'', ''swelter'', ''tactics'', ''talon'',
    ''tapeworm'', ''tempest'', ''tiger'', ''tissue'', ''tonic'', ''topmost'', ''tracker'', ''transit'',
    ''trauma'', ''treadmill'', ''Trojan'', ''trouble'', ''tumor'', ''tunnel'', ''tycoon'', ''uncut'',
    ''unearth'', ''unwind'', ''uproot'', ''upset'', ''upshot'', ''vapor'', ''village'', ''virus'',
    ''Vulcan'', ''waffle'', ''wallet'', ''watchword'', ''wayside'', ''willow'', ''woodlark'', ''Zulu'']"

definition pgpOdd :: "string list" where
  "pgpOdd = [
    ''adroitness'', ''adviser'', ''aftermath'', ''aggregate'', ''alkali'', ''almighty'', ''amulet'', ''amusement'',
    ''antenna'', ''applicant'', ''Apollo'', ''armistice'', ''article'', ''asteroid'', ''Atlantic'', ''atmosphere'',
    ''autopsy'', ''Babylon'', ''backwater'', ''barbecue'', ''belowground'', ''bifocals'', ''bodyguard'', ''bookseller'',
    ''borderline'', ''bottomless'', ''Bradbury'', ''bravado'', ''Brazilian'', ''breakaway'', ''Burlington'', ''businessman'',
    ''butterfat'', ''Camelot'', ''candidate'', ''cannonball'', ''Capricorn'', ''caravan'', ''caretaker'', ''celebrate'',
    ''cellulose'', ''certify'', ''chambermaid'', ''Cherokee'', ''Chicago'', ''clergyman'', ''coherence'', ''combustion'',
    ''commando'', ''company'', ''component'', ''concurrent'', ''confidence'', ''conformist'', ''congregate'', ''consensus'',
    ''consulting'', ''corporate'', ''corrosion'', ''councilman'', ''crossover'', ''crucifix'', ''cumbersome'', ''customer'',
    ''Dakota'', ''decadence'', ''December'', ''decimal'', ''designing'', ''detector'', ''detergent'', ''determine'',
    ''dictator'', ''dinosaur'', ''direction'', ''disable'', ''disbelief'', ''disruptive'', ''distortion'', ''document'',
    ''embezzle'', ''enchanting'', ''enrollment'', ''enterprise'', ''equation'', ''equipment'', ''escapade'', ''Eskimo'',
    ''everyday'', ''examine'', ''existence'', ''exodus'', ''fascinate'', ''filament'', ''finicky'', ''forever'',
    ''fortitude'', ''frequency'', ''gadgetry'', ''Galveston'', ''getaway'', ''glossary'', ''gossamer'', ''graduate'',
    ''gravity'', ''guitarist'', ''hamburger'', ''Hamilton'', ''handiwork'', ''hazardous'', ''headwaters'', ''hemisphere'',
    ''hesitate'', ''hideaway'', ''holiness'', ''hurricane'', ''hydraulic'', ''impartial'', ''impetus'', ''inception'',
    ''indigo'', ''inertia'', ''infancy'', ''inferno'', ''informant'', ''insincere'', ''insurgent'', ''integrate'',
    ''intention'', ''inventive'', ''Istanbul'', ''Jamaica'', ''Jupiter'', ''leprosy'', ''letterhead'', ''liberty'',
    ''maritime'', ''matchmaker'', ''maverick'', ''Medusa'', ''megaton'', ''microscope'', ''microwave'', ''midsummer'',
    ''millionaire'', ''miracle'', ''misnomer'', ''molasses'', ''molecule'', ''Montana'', ''monument'', ''mosquito'',
    ''narrative'', ''nebula'', ''newsletter'', ''Norwegian'', ''October'', ''Ohio'', ''onlooker'', ''opulent'',
    ''Orlando'', ''outfielder'', ''Pacific'', ''pandemic'', ''Pandora'', ''paperweight'', ''paragon'', ''paragraph'',
    ''paramount'', ''passenger'', ''pedigree'', ''Pegasus'', ''penetrate'', ''perceptive'', ''performance'', ''pharmacy'',
    ''phonetic'', ''photograph'', ''pioneer'', ''pocketful'', ''politeness'', ''positive'', ''potato'', ''processor'',
    ''provincial'', ''proximate'', ''puberty'', ''publisher'', ''pyramid'', ''quantity'', ''racketeer'', ''rebellion'',
    ''recipe'', ''recover'', ''repellent'', ''replica'', ''reproduce'', ''resistor'', ''responsive'', ''retraction'',
    ''retrieval'', ''retrospect'', ''revenue'', ''revival'', ''revolver'', ''sandalwood'', ''sardonic'', ''Saturday'',
    ''savagery'', ''scavenger'', ''sensation'', ''sociable'', ''souvenir'', ''specialist'', ''speculate'', ''stethoscope'',
    ''stupendous'', ''supportive'', ''surrender'', ''suspicious'', ''sympathy'', ''tambourine'', ''telephone'', ''therapist'',
    ''tobacco'', ''tolerance'', ''tomorrow'', ''torpedo'', ''tradition'', ''travesty'', ''trombonist'', ''truncated'',
    ''typewriter'', ''ultimate'', ''undaunted'', ''underfoot'', ''unicorn'', ''unify'', ''universe'', ''unravel'',
    ''upcoming'', ''vacancy'', ''vagabond'', ''vertigo'', ''Virginia'', ''visitor'', ''vocalist'', ''voyager'',
    ''warranty'', ''Waterloo'', ''whimsical'', ''Wichita'', ''Wilmington'', ''Wyoming'', ''yesteryear'', ''Yucatan'']"

definition to_lower :: "string \<Rightarrow> string" where
  "to_lower = map (\<lambda>c. let n = of_char c :: nat in if 65 \<le> n \<and> n \<le> 90 then char_of (n + 32) else c)"

definition sasInfo :: string where "sasInfo = ''netherchat-sas-v1''"

definition sasField :: "bytes \<Rightarrow> bytes \<Rightarrow> bytes" where
  "sasField buf b = (buf @ be64 (word_of_nat (length b))) @ b"

definition sasTranscript :: "bytes \<Rightarrow> bytes \<Rightarrow> bytes \<Rightarrow> bytes \<Rightarrow> bytes \<Rightarrow> bytes" where
  "sasTranscript selfSign selfKX peerSign peerKX roomKey =
    (let (loSign, loKX, hiSign, hiKX) =
           (if peerSign < selfSign then (peerSign, peerKX, selfSign, selfKX) else (selfSign, selfKX, peerSign, peerKX));
         t = sasField [] ''netherchat-sas-transcript-v1'';
         t = sasField t loSign;
         t = sasField t loKX;
         t = sasField t hiSign;
         t = sasField t hiKX;
         t = sasField t roomKey
     in t)"

definition sasByte :: "bytes \<Rightarrow> nat \<Rightarrow> nat" where
  "sasByte raw i = (of_char (raw ! i) :: nat) XOR of_char (raw ! (i + 5))"

definition SASWords :: "Cipher \<Rightarrow> Prims \<Rightarrow> bytes \<Rightarrow> bytes \<Rightarrow> bytes \<Rightarrow> bytes \<Rightarrow> bytes \<Rightarrow> string list" where
  "SASWords ci c selfSign selfKX peerSign peerKX roomKey =
    (let th = pr_sha256 c (sasTranscript selfSign selfKX peerSign peerKX roomKey);
         raw = ci_hkdf ci th sasInfo 10
     in map (\<lambda>i. let b = sasByte raw i in to_lower (if i mod 2 = 0 then pgpEven ! b else pgpOdd ! b)) [0..<5])"

section \<open>The contract of the primitives\<close>

text \<open>What the library documents of an AEAD and a box, as a client relies on it.\<close>

definition aead_ok :: "Cipher \<Rightarrow> bool" where
  "aead_ok ci \<longleftrightarrow> (\<forall>key nonce pt ad. length nonce = NonceSizeX \<longrightarrow> ci_open ci key nonce (ci_seal ci key nonce pt ad) ad = Some pt)"

text \<open>Two identities whose box keys agree: what one seals for the other, the other opens.\<close>

definition box_pair :: "Cipher \<Rightarrow> KeyIdentity \<Rightarrow> KeyIdentity \<Rightarrow> bool" where
  "box_pair ci a b \<longleftrightarrow> (\<forall>m n. length n = 24 \<longrightarrow>
     ci_unbox ci (ci_box ci m n (ki_KXPub b) (ki_KXPriv a)) n (ki_KXPub a) (ki_KXPriv b) = Some m)"

definition signs_ok :: "Prims \<Rightarrow> KeyIdentity \<Rightarrow> bool" where
  "signs_ok c i \<longleftrightarrow> length (ki_SignPub i) = PublicKeySize \<and>
     (\<forall>m. \<exists>s. IdSign i m = Some s \<and> s \<noteq> [] \<and> pr_verify c (ki_SignPub i) m s)"

lemma SealMessage_opens:
  assumes "aead_ok ci" "signs_ok c i" "length n = NonceSizeX"
  shows "\<exists>ct sig. SealMessage ci i rk room from pt (Some n) = Inr (n, ct, sig) \<and> sig \<noteq> [] \<and>
    OpenMessage ci c rk (ki_SignPub i) room from (rk_Epoch rk) n ct sig = Opened pt True"
proof -
  let ?ct = "ci_seal ci (rk_Key rk) n pt (epochAD (rk_Epoch rk))"
  obtain s where s: "IdSign i (SigningBytes room from (rk_Epoch rk) n ?ct) = Some s" "s \<noteq> []"
      "pr_verify c (ki_SignPub i) (SigningBytes room from (rk_Epoch rk) n ?ct) s"
    using assms(2) unfolding signs_ok_def by blast
  have "ci_open ci (rk_Key rk) n ?ct (epochAD (rk_Epoch rk)) = Some pt"
    using assms(1,3) unfolding aead_ok_def by blast
  then show ?thesis using s assms(2,3)
    by (intro exI [of _ ?ct] exI [of _ s]) (simp add: SealMessage_def OpenMessage_def aead_Open_def signs_ok_def)
qed

text \<open>What an opened message has passed.\<close>

lemma OpenMessage_Opened:
  "OpenMessage ci c rk pub room from epoch n ct sig = Opened pt sg \<longleftrightarrow>
    sg = (sig \<noteq> []) \<and> (sig \<noteq> [] \<longrightarrow> length pub = PublicKeySize \<and> pr_verify c pub (SigningBytes room from epoch n ct) sig) \<and>
    epoch = rk_Epoch rk \<and> length n = NonceSizeX \<and> ci_open ci (rk_Key rk) n ct (epochAD epoch) = Some pt"
  by (auto simp: OpenMessage_def aead_Open_def Let_def split: option.splits if_splits)

lemma OpenMessage_panics:
  "OpenMessage ci c rk pub room from epoch n ct sig = OpenPanic \<longleftrightarrow>
    (sig \<noteq> [] \<longrightarrow> length pub = PublicKeySize \<and> pr_verify c pub (SigningBytes room from epoch n ct) sig) \<and>
    epoch = rk_Epoch rk \<and> length n \<noteq> NonceSizeX"
  by (auto simp: OpenMessage_def aead_Open_def Let_def split: option.splits if_splits)

lemma frame_bytes_inj:
  assumes "SigningBytes a b e n ct = SigningBytes a' b' e' n' ct'" "fits a" "fits b" "fits n" "fits ct" "fits a'" "fits b'" "fits n'" "fits ct'"
  shows "a = a' \<and> b = b' \<and> e = e' \<and> n = n' \<and> ct = ct'"
proof -
  have "preimage (Msg a b e n ct) = preimage (Msg a' b' e' n' ct')" using assms(1) by simp
  then have "Msg a b e n ct = Msg a' b' e' n' ct'" using assms(2-) by (intro preimage_inj) simp_all
  then show ?thesis by simp
qed

section \<open>Word tables and transcripts\<close>

lemma pgp_lengths: "length pgpEven = 256" "length pgpOdd = 256"
  by (simp_all add: pgpEven_def pgpOdd_def)

lemma sasByte_bound: "sasByte raw i < 256"
proof -
  have "take_bit 8 (of_char a :: nat) = of_char a" for a :: char
    by (rule take_bit_nat_eq_self) simp
  then have "take_bit 8 (sasByte raw i) = sasByte raw i" by (simp add: sasByte_def)
  then show ?thesis using take_bit_nat_less_exp [of 8 "sasByte raw i"] by simp
qed

lemma sasTranscript_fields:
  "sasTranscript a ka b kb rk =
    (let (la, lk, ha, hk) = (if b < a then (b, kb, a, ka) else (a, ka, b, kb))
     in field ''netherchat-sas-transcript-v1'' @ field la @ field lk @ field ha @ field hk @ field rk)"
  by (simp add: sasTranscript_def sasField_def field_def Let_def)

lemma five_fields:
  assumes "field a @ field b @ field c @ field d @ field e = field a' @ field b' @ field c' @ field d' @ field e'"
    and "list_all fits [a, b, c, d, e, a', b', c', d', e']"
  shows "a = a' \<and> b = b' \<and> c = c' \<and> d = d' \<and> e = e'"
proof -
  have "a = a' \<and> field b @ field c @ field d @ field e = field b' @ field c' @ field d' @ field e'"
    using assms by (intro field.peel) simp_all
  moreover from this have "b = b' \<and> field c @ field d @ field e = field c' @ field d' @ field e'"
    using assms(2) by (intro field.peel) simp_all
  moreover from this have "c = c' \<and> field d @ field e = field d' @ field e'"
    using assms(2) by (intro field.peel) simp_all
  moreover from this have "d = d' \<and> field e = field e'"
    using assms(2) by (intro field.peel) simp_all
  ultimately show ?thesis using assms(2) field.enc_inj by auto
qed

lemma sasTranscript_commits:
  assumes "sasTranscript a ka b kb rk = sasTranscript a' ka' b' kb' rk'"
    and "list_all fits [a, ka, b, kb, rk, a', ka', b', kb', rk']"
  shows "{(a, ka), (b, kb)} = {(a', ka'), (b', kb')} \<and> rk = rk'"
proof -
  obtain la lk ha hk where l: "(if b < a then (b, kb, a, ka) else (a, ka, b, kb)) = (la, lk, ha, hk)" by (cases "b < a") auto
  obtain la' lk' ha' hk' where l': "(if b' < a' then (b', kb', a', ka') else (a', ka', b', kb')) = (la', lk', ha', hk')"
    by (cases "b' < a'") auto
  have s: "{(a, ka), (b, kb)} = {(la, lk), (ha, hk)}" "{(a', ka'), (b', kb')} = {(la', lk'), (ha', hk')}"
    using l l' by (auto split: if_splits)
  have f: "list_all fits [la, lk, ha, hk, rk, la', lk', ha', hk', rk']" using l l' assms(2) by (auto split: if_splits)
  have "field la @ field lk @ field ha @ field hk @ field rk = field la' @ field lk' @ field ha' @ field hk' @ field rk'"
    using assms(1) unfolding sasTranscript_fields l l' by simp
  then show ?thesis unfolding s using f by (auto dest: five_fields)
qed

lemma sasTranscript_sym: "a \<noteq> b \<Longrightarrow> sasTranscript a ka b kb rk = sasTranscript b kb a ka rk"
  unfolding sasTranscript_fields by (cases "b < a") auto

section \<open>Properties\<close>

text \<open>Two members who compare authentication strings compare the same thing: for different identity
  keys both ends of a session compute the same five words, each taken from the word tables
  (the index is always inside them), and the bytes the words are derived from determine the
  two key pairs and the room key, so that a substituted key or room key gives other bytes.\<close>

theorem sas_agrees:
  assumes "a \<noteq> b"
  shows "SASWords ci c a ka b kb rk = SASWords ci c b kb a ka rk \<and> length (SASWords ci c a ka b kb rk) = 5 \<and>
    set (SASWords ci c a ka b kb rk) \<subseteq> to_lower ` set (pgpEven @ pgpOdd) \<and>
    (list_all fits [a, ka, b, kb, rk, a', ka', b', kb', rk'] \<and> sasTranscript a ka b kb rk = sasTranscript a' ka' b' kb' rk' \<longrightarrow>
      {(a, ka), (b, kb)} = {(a', ka'), (b', kb')} \<and> rk = rk')"
proof (intro conjI impI)
  show "SASWords ci c a ka b kb rk = SASWords ci c b kb a ka rk"
    unfolding SASWords_def sasTranscript_sym [OF assms] ..
  show "length (SASWords ci c a ka b kb rk) = 5" by (simp add: SASWords_def Let_def)
  have "to_lower (if i mod 2 = 0 then pgpEven ! sasByte raw i else pgpOdd ! sasByte raw i) \<in> to_lower ` set (pgpEven @ pgpOdd)" for raw i
    using sasByte_bound [of raw i] by (auto simp: pgp_lengths intro!: imageI nth_mem)
  then show "set (SASWords ci c a ka b kb rk) \<subseteq> to_lower ` set (pgpEven @ pgpOdd)"
    by (auto simp: SASWords_def Let_def)
  assume "list_all fits [a, ka, b, kb, rk, a', ka', b', kb', rk'] \<and> sasTranscript a ka b kb rk = sasTranscript a' ka' b' kb' rk'"
  then have "{(a, ka), (b, kb)} = {(a', ka'), (b', kb')} \<and> rk = rk'" by (intro sasTranscript_commits) simp_all
  then show "{(a, ka), (b, kb)} = {(a', ka'), (b', kb')}" "rk = rk'" by simp_all
qed

text \<open>A sample cipher: sealing prefixes the key, nonce and additional data.\<close>

definition toy_cipher :: Cipher where
  "toy_cipher =
    \<lparr>ci_seal = (\<lambda>k n pt ad. k @ n @ ad @ pt),
     ci_open = (\<lambda>k n ct ad. if take (length (k @ n @ ad)) ct = k @ n @ ad then Some (drop (length (k @ n @ ad)) ct) else None),
     ci_box = (\<lambda>m n pub priv. n @ m), ci_unbox = (\<lambda>b n pub priv. if take (length n) b = n then Some (drop (length n) b) else None),
     ci_hkdf = (\<lambda>k info l. take l (rev info @ k @ replicate l (CHR ''h'')))\<rparr>"

definition toy_id :: "char \<Rightarrow> KeyIdentity" where
  "toy_id x = \<lparr>ki_SignPub = toy_key x, ki_KXPub = toy_key x, ki_KXPriv = toy_key x, ki_Source = ''generated'',
     ki_signer = Some (\<lambda>m. Some (toy_key x @ m))\<rparr>"

definition toy_nonce :: bytes where "toy_nonce = replicate 24 (CHR ''n'')"

lemma toy_cipher_ok: "aead_ok toy_cipher" "box_pair toy_cipher i j"
  by (simp_all add: aead_ok_def box_pair_def toy_cipher_def)

lemma toy_id_ok: "signs_ok toy (toy_id x)"
  by (simp add: signs_ok_def toy_id_def toy_def toy_key_def IdSign_def PublicKeySize_def)

lemma length_toy_nonce: "length toy_nonce = NonceSizeX"
  by (simp add: toy_nonce_def NonceSizeX_def)

theorem sas_agrees_witness:
  "SASWords toy_cipher toy ''a'' ''x'' ''b'' ''y'' ''k'' = SASWords toy_cipher toy ''b'' ''y'' ''a'' ''x'' ''k''"
  using sas_agrees [of "''a''" "''b''" toy_cipher toy "''x''" "''y''" "''k''" "''a''" "''x''" "''b''" "''y''" "''k''"] by simp



end
