(* ===== verification/ClientCore.thy ===== *)
theory ClientCore
  imports Prelude Bodies RoomKeys Sealer Attest RecordIdentity Config
begin

text \<open>
  The state of a client connection and what every feature of \<^verbatim>\<open>src/tui/client/\<close> does with it: the events of
  \<^verbatim>\<open>events.go\<close>, the \<open>Client\<close> struct of \<^verbatim>\<open>client.go\<close> with the per-feature state it holds, and the two ways out
  of it, \<open>emit\<close> and \<open>enqueue\<close>.

  One call into the client is one function on the state. The channels are lists in the
  state: \<open>cl_events\<close> holds what was emitted, \<open>cl_sendCh\<close> what was handed to the write loop,
  in order; the session is live (the context is not cancelled), so that a full channel only
  delays its sender. All clock readings of one call are one argument, in nanoseconds since
  1970, the zero time being 0. Random reads are numbered by \<open>cl_draws\<close>, and \<open>w_rand\<close> gives
  what the n-th read of that many bytes yields. A timer is the time it is set to fire at.
  Callbacks are the functions the code passes, by name (\<open>perform\<close>). A panic, which ends the
  process, is \<open>cl_crashed\<close>.
\<close>

section \<open>The world of a client\<close>

record World =
  w_pr :: Prims
  w_ci :: Cipher
  w_rand :: "nat \<Rightarrow> nat \<Rightarrow> bytes option"

definition unix :: "go_time \<Rightarrow> int" where
  "unix t = t div second"

section \<open>Constants of the protocol\<close>

definition ActionVanish :: string where "ActionVanish = ''vanish''"
definition ActionTTL :: string where "ActionTTL = ''ttl''"
definition ActionScuttle :: string where "ActionScuttle = ''scuttle''"
definition ActionScuttleArm :: string where "ActionScuttleArm = ''scuttle_arm''"
definition ActionScuttleAction :: string where "ActionScuttleAction = ''scuttle''"
definition ActionBreakGlass :: string where "ActionBreakGlass = ''break_glass''"
definition ActionRunbook :: string where "ActionRunbook = ''runbook''"
definition ScuttleManual :: string where "ScuttleManual = ''manual''"
definition MeaningApproved :: string where "MeaningApproved = ''approved''"

definition actionRequestTTL :: duration where "actionRequestTTL = 60 * second"
definition artifactProposalTTL :: duration where "artifactProposalTTL = 300 * second"
definition sealTimeout :: duration where "sealTimeout = 30 * second"

section \<open>Errors\<close>

datatype action_error =
    ActionDisabled string
  | RelaylessGate string int
  | QuorumTooSmall
  | NoPendingAction string
  | ActionResolved
  | OwnRequest
  | AlreadyApproved
  | ParamsMismatch
  | RequesterMismatch string
  | ApprovalHashMismatch string
  | ApproverMismatch string
  | ApprovalInvalid string

datatype proposal_error =
    ProposeIncomplete
  | NoPendingProposal string
  | ProposalResolved
  | OwnProposal
  | ProposalAlreadyApproved
  | NoArtifactHash
  | RoleWithoutCredential string
  | RoleAmbiguous "string list"
  | RoleNotNamed string "string list"
  | ProposerMismatch string
  | ArtifactHashMismatch string
  | ArtifactApproverMismatch string
  | ArtifactApprovalInvalid string

datatype record_error =
    EmptyRecord
  | NoActionee
  | NothingToMark
  | EntryRejected chain_error
  | NothingToSeal
  | SealDiverged
  | SealInProgress
  | SealUnplaced string
  | SealCosigInvalid string
  | NilAttestation
  | WrongSubject string string

datatype round_error =
    RosterInProgress
  | RosterDiffers string
  | RosterCosigInvalid string
  | ReceiptCosigInvalid string

datatype session_error =
    AckNeedsTag
  | NoSuchMember string
  | BadWelcome
  | HoldsNoKey
  | BadRecipientKey
  | WrapFailed
  | KeyFromUnknown string
  | UnwrapFailed unwrap_error
  | FromUnknown string string
  | SignatureFailed string
  | DecryptFrom string
  | ServerError string string

datatype file_error =
    ArtifactUnreadable
  | ArtifactTooLarge int int
  | OfferUnverified string
  | OfferUnsigned string
  | OfferMalformed
  | NameSanitized string string

datatype client_error =
    NoRoomKey
  | SealErr seal_error
  | SignErr
  | ActionErr action_error
  | ProposalErr proposal_error
  | RecordErr record_error
  | RoundErr round_error
  | SessionErr session_error
  | FileErr file_error
  | ArtifactEntryFailed client_error
  | CredentialEntryFailed string client_error
  | ReplayFailed "64 word" client_error

section \<open>Events\<close>

record ConnMember =
  cm_ID :: string
  cm_Name :: string
  cm_Fingerprint :: string
  cm_Attestation :: "bytes option"

datatype session_event =
    EvConnected string bool "ConnMember list" bool bool int   \<comment> \<open>SelfID, YouAreFirst, Members, InviteOnly, Webhook, TTLSeconds\<close>
  | EvServerMessage string string string go_time   \<comment> \<open>Kind, From, Text, At\<close>
  | EvControl string string bool int string   \<comment> \<open>Action, ByName, Self, TTLSeconds, Reason\<close>
  | EvInvite string string go_time   \<comment> \<open>Room, Token, Expires\<close>
  | EvBreakGlass string int go_time string "(string \<times> string) list"   \<comment> \<open>Room, TTLSeconds, Expires, HostToken, Invites\<close>
  | EvRouteFired string int "string list option" int go_time   \<comment> \<open>Room, TriggerRule, Invitees, TTLSeconds, At\<close>
  | EvKeyReady "64 word"
  | EvMessage string string string bool bool go_time   \<comment> \<open>FromID, FromName, Text, Self, Signed, At\<close>
  | EvMemberJoined string string string "bytes option"   \<comment> \<open>ID, Name, Fingerprint, Attestation\<close>
  | EvMemberLeft string string
  | EvDisconnected "string option"   \<comment> \<open>the reason the transport gives, if it gives one\<close>

datatype coordination_event =
    EvExecRequest string string string string string bool bool go_time   \<comment> \<open>ID, Cmd, FromID, FromName, FromFingerprint, Self, Signed, At\<close>
  | EvExecResult string string bool int string string string go_time   \<comment> \<open>ID, Cmd, Allowed, ExitCode, Output, FromName, FromFingerprint, At\<close>
  | EvAck string string string string bool go_time "bytes option" "bytes option" "bytes option"   \<comment> \<open>Tag, Actor, Fpr, Quorum, Self, At, Sig, SignBytes, Raw\<close>
  | EvHandoff string string string string bool go_time   \<comment> \<open>FromName, FromFpr, ToName, ToFpr, Self, At\<close>
  | EvClockStart string string bool go_time   \<comment> \<open>Actor, Fpr, Self, At\<close>
  | EvClockStop string string int bool go_time   \<comment> \<open>Actor, Fpr, ElapsedSeconds, Self, At\<close>

datatype record_event =
    EvRecordEntry Entry bool "bytes option" "bytes option" "bytes option"   \<comment> \<open>the entry's fields, Self, Sig, SignBytes, Raw\<close>
  | EvSealRequest string bool nat bool   \<comment> \<open>ByName, Matches, NumEntries, Self\<close>
  | EvSealAck string nat nat bool   \<comment> \<open>ByName, Count, Total, Self\<close>
  | EvSealComplete SealedRecord nat nat bool   \<comment> \<open>Record, Entries, Signers, Amended\<close>

datatype attest_event =
    EvRosterRequest string nat bool   \<comment> \<open>ByName, Members, Self\<close>
  | EvRosterAck string nat nat bool   \<comment> \<open>ByName, Count, Total, Self\<close>
  | EvRosterComplete RosterAttestation nat nat   \<comment> \<open>Attestation, Signers, Total\<close>
  | EvScuttleReceiptAck string nat nat bool   \<comment> \<open>ByName, Count, Total, Self\<close>
  | EvScuttleReceipt ScuttleReceipt

datatype action_event =
    EvActionRequest string string string string string string int int bool go_time
      \<comment> \<open>RequestID, Action, Params, ParamsHash, RequesterName, RequesterFpr, QuorumNeeded, ExpiresUnix, Self, At\<close>
  | EvActionApproval string string string string string nat int bool go_time
      \<comment> \<open>RequestID, Action, ApproverName, ApproverFpr, Meaning, Count, Needed, Self, At\<close>
  | EvActionExecuted string string string string int bool go_time
      \<comment> \<open>RequestID, Action, RequesterName, RequesterFpr, Quorum, Self, At\<close>
  | EvActionVetoed string string string string string bool go_time
      \<comment> \<open>RequestID, Action, VetoerName, VetoerFpr, Reason, Self, At\<close>
  | EvActionExpired string string nat int go_time   \<comment> \<open>RequestID, Action, ApprovalsReceived, QuorumNeeded, At\<close>

datatype artifact_event =
    EvArtifactProposed string string string string string string string int bool go_time
      \<comment> \<open>ProposalID, Source, ArtifactRef, ArtifactHash, Summary, ProposerName, ProposerFpr, Quorum, Self, At\<close>
  | EvArtifactApproved string string string string string nat int bool go_time bytes string bool
      \<comment> \<open>ProposalID, ArtifactRef, ArtifactHash, ApproverName, ApproverFpr, Count, Quorum, Self, At, Attestation, Role, RoleUnbacked\<close>
  | EvArtifactSealed string string string string "string list" go_time
      \<comment> \<open>ProposalID, Source, ArtifactRef, ArtifactHash, Approvers, At\<close>
  | EvArtifactRejected string string string string string bool go_time
      \<comment> \<open>ProposalID, ArtifactRef, RejecterName, RejecterFpr, Reason, Self, At\<close>
  | EvArtifactExpired string string go_time   \<comment> \<open>ProposalID, ArtifactRef, At\<close>

datatype file_event =
    EvFileOffer string string string int string go_time   \<comment> \<open>From, Fpr, Filename, Size, TransferID, At\<close>
  | EvFileProgress string string int int int int   \<comment> \<open>Filename, TransferID, SentChunks, TotalChunks, SentBytes, TotalBytes\<close>
  | EvFileSent string string int   \<comment> \<open>Filename, TransferID, Size\<close>
  | EvFileFailed string string string   \<comment> \<open>Filename, TransferID, Reason\<close>
  | EvFileComplete string string string int string bool string go_time   \<comment> \<open>From, Filename, Path, Size, TransferID, OK, Err, At\<close>

datatype stream_event =
    EvStreamUpdate string string string string "string list" "64 word" bool go_time   \<comment> \<open>StreamID, Name, From, Fpr, Lines, Seq, Self, At\<close>
  | EvStreamEnd string string string bool   \<comment> \<open>StreamID, Reason, From, Self\<close>

datatype Event =
    Session session_event
  | Coord coordination_event
  | Rec record_event
  | Att attest_event
  | Act action_event
  | Art artifact_event
  | Fil file_event
  | Str stream_event
  | EvError client_error

section \<open>The client\<close>

record memberInfo =
  mi_name :: string
  mi_signPub :: bytes
  mi_kxPub :: bytes
  mi_attestation :: "bytes option"

record icHolder =
  ic_id :: string
  ic_name :: string
  ic_fpr :: string

text \<open>What a privileged action runs when it is cleared to: the raw primitives of the client, or
  a function of the caller (a runbook, by its number).\<close>

datatype perform = ScuttleBurn | ArmCountdown int | BreakGlassSend "string list option" int | Callback nat

record trackedAction =
  ta_req :: ActionRequestBody
  ta_fromName :: string
  ta_approvers :: "string list"   \<comment> \<open>the keys of the set, in the order of arrival\<close>
  ta_approved :: bool
  ta_initiator :: bool
  ta_onApprove :: "perform option"
  ta_timer :: "go_time option"
  ta_resolved :: bool

record capturedApproval =
  ca_fpr :: string
  ca_key :: bytes
  ca_sig :: bytes
  ca_att :: bytes
  ca_role :: string
  ca_unbacked :: bool

record trackedProposal =
  tp_prop :: ArtifactProposalBody
  tp_fromName :: string
  tp_approvers :: "string list"   \<comment> \<open>the keys of the set\<close>
  tp_order :: "string list"
  tp_proofs :: "(string, capturedApproval) gomap"
  tp_approved :: bool
  tp_initiator :: bool
  tp_timer :: "go_time option"
  tp_resolved :: bool

record sealSnapshot =
  sn_head :: bytes
  sn_entries :: "Entry list"
  sn_sigs :: "(string, bytes) gomap"
  sn_keys :: "(string, bytes) gomap"
  sn_endorse :: "(string, Endorsement) gomap"

text \<open>The fields \<open>sealing\<close> to \<open>lastSeal\<close> of the client.\<close>

record SealState =
  se_sealing :: bool
  se_sealHead :: bytes
  se_sealEntries :: "Entry list"
  se_sealSigs :: "(string, bytes) gomap"
  se_sealKeys :: "(string, bytes) gomap"
  se_sealEndorse :: "(string, Endorsement) gomap"
  se_sealTimer :: "go_time option"
  se_pendingSealHead :: "bytes option"
  se_pendingSealName :: string
  se_lastSeal :: "sealSnapshot option"

record cosignRound =
  co_preimage :: bytes
  co_sigs :: "(string, bytes) gomap"
  co_keys :: "(string, bytes) gomap"
  co_timer :: "go_time option"

record rosterMeta =
  rt_epoch :: "64 word"
  rt_members :: "RosterMember list"
  rt_setHash :: bytes

text \<open>The fields \<open>firstEpoch\<close> to \<open>receiptDone\<close>; the only function ever queued on the receipt is
  the one that asks the server to burn the room.\<close>

datatype on_done = TriggerBurn

record ReceiptState =
  rc_firstEpoch :: "64 word"
  rc_firstEpochSet :: bool
  rc_receiptRound :: "cosignRound option"
  rc_receiptCore :: ReceiptCore
  rc_receiptHash :: bytes
  rc_receiptOnDone :: "on_done option"
  rc_receiptDone :: bool

record ClockState =
  ck_clockStart :: go_time
  ck_clockStop :: go_time
  ck_clockNotesAdded :: bool

record recvState =
  rv_meta :: FileOfferMeta
  rv_cleanName :: string
  rv_senderID :: string
  rv_senderName :: string
  rv_rk :: RoomKey
  rv_chunks :: "bytes list"
  rv_have :: "bool list"
  rv_received :: nat
  rv_bytes :: nat

text \<open>The two channels of an outgoing transfer, with what the read loop has put into them.\<close>

record sendState =
  sd_filename :: string
  sd_acks :: "int list"
  sd_aborts :: "string list"

record Client =
  cl_id :: KeyIdentity
  cl_room :: string
  cl_name :: string
  cl_inviteToken :: string
  cl_transport :: "string option"   \<comment> \<open>the peer id of the transport, empty for the relay; none before connecting\<close>
  cl_events :: "Event list"
  cl_sendCh :: "Envelope list"
  cl_draws :: nat
  cl_crashed :: bool
  cl_selfID :: string
  cl_members :: "(string, memberInfo) gomap"
  cl_order :: "string list"
  cl_rk :: "RoomKey option"
  cl_pending :: "(string \<times> Message) list"
  cl_acks :: "(string, string list) gomap"
  cl_ic :: icHolder
  cl_chain :: Chain
  cl_lastMsg :: "string \<times> string"   \<comment> \<open>from, text\<close>
  cl_seal :: SealState
  cl_roster :: "cosignRound option"
  cl_rosterMeta :: rosterMeta
  cl_receipt :: ReceiptState
  cl_sends :: "(string, sendState) gomap"
  cl_recvs :: "(string, recvState) gomap"
  cl_maxFileBytes :: int
  cl_actions :: "(string, trackedAction) gomap"
  cl_actionQuorum :: "(string, int) gomap"
  cl_fired :: "trackedAction list"   \<comment> \<open>a record of the model: the requests whose callback was run, as they were then\<close>
  cl_proposals :: "(string, trackedProposal) gomap"
  cl_selfCredential :: bytes
  cl_selfCredentialRoles :: "string list"
  cl_artifactProofs :: "(string, capturedApproval list) gomap"
  cl_clock :: ClockState

definition zero_seal :: SealState where
  "zero_seal = \<lparr>se_sealing = False, se_sealHead = [], se_sealEntries = [], se_sealSigs = [], se_sealKeys = [], se_sealEndorse = [],
     se_sealTimer = None, se_pendingSealHead = None, se_pendingSealName = [], se_lastSeal = None\<rparr>"

definition zero_rosterMeta :: rosterMeta where
  "zero_rosterMeta = \<lparr>rt_epoch = 0, rt_members = [], rt_setHash = []\<rparr>"

definition zero_receiptCore :: ReceiptCore where
  "zero_receiptCore = \<lparr>rc_Version = [], rc_Room = [], rc_EpochRange = \<lparr>er_First = 0, er_Last = 0\<rparr>, rc_Reason = [], rc_ScuttledAt = [],
     rc_ScuttledBy = [], rc_MemberFprs = [], rc_KeysZeroized = False\<rparr>"

definition zero_receipt :: ReceiptState where
  "zero_receipt = \<lparr>rc_firstEpoch = 0, rc_firstEpochSet = False, rc_receiptRound = None, rc_receiptCore = zero_receiptCore,
     rc_receiptHash = [], rc_receiptOnDone = None, rc_receiptDone = False\<rparr>"

definition zero_clock :: ClockState where
  "zero_clock = \<lparr>ck_clockStart = 0, ck_clockStop = 0, ck_clockNotesAdded = False\<rparr>"

definition no_ic :: icHolder where "no_ic = \<lparr>ic_id = [], ic_name = [], ic_fpr = []\<rparr>"

definition NewWithIdentity :: "string \<Rightarrow> string \<Rightarrow> KeyIdentity \<Rightarrow> Client" where
  "NewWithIdentity room name i =
    \<lparr>cl_id = i, cl_room = room, cl_name = name, cl_inviteToken = [], cl_transport = None, cl_events = [], cl_sendCh = [], cl_draws = 0,
     cl_crashed = False, cl_selfID = [], cl_members = [], cl_order = [], cl_rk = None, cl_pending = [], cl_acks = [], cl_ic = no_ic,
     cl_chain = [], cl_lastMsg = ([], []), cl_seal = zero_seal, cl_roster = None, cl_rosterMeta = zero_rosterMeta,
     cl_receipt = zero_receipt, cl_sends = [], cl_recvs = [], cl_maxFileBytes = DefaultMaxFileBytes, cl_actions = [],
     cl_actionQuorum = [], cl_fired = [], cl_proposals = [], cl_selfCredential = [], cl_selfCredentialRoles = [],
     cl_artifactProofs = [], cl_clock = zero_clock\<rparr>"

section \<open>Ways out\<close>

definition emit :: "Event \<Rightarrow> Client \<Rightarrow> Client" where
  "emit ev c = c\<lparr>cl_events := cl_events c @ [ev]\<rparr>"

definition enqueue :: "string \<Rightarrow> json \<Rightarrow> Client \<Rightarrow> Client" where
  "enqueue op j c = c\<lparr>cl_sendCh := cl_sendCh c @ [Encode op j]\<rparr>"

definition crash :: "Client \<Rightarrow> Client" where
  "crash c = c\<lparr>cl_crashed := True\<rparr>"

definition draw :: "World \<Rightarrow> nat \<Rightarrow> Client \<Rightarrow> bytes option \<times> Client" where
  "draw w n c = (w_rand w (cl_draws c) n, c\<lparr>cl_draws := Suc (cl_draws c)\<rparr>)"

text \<open>A failed read leaves the array zero.\<close>

definition newRequestID :: "World \<Rightarrow> Client \<Rightarrow> string \<times> Client" where
  "newRequestID w c = (let (r, c) = draw w 8 c in (hex_encode (case r of None \<Rightarrow> replicate 8 (CHR 0x00) | Some b \<Rightarrow> b), c))"

definition SelfFpr :: "World \<Rightarrow> Client \<Rightarrow> string" where
  "SelfFpr w c = IdFingerprint (w_pr w) (cl_id c)"

definition sealAndSend :: "World \<Rightarrow> string \<Rightarrow> bytes \<Rightarrow> Client \<Rightarrow> client_error option \<times> Client" where
  "sealAndSend w op plaintext c =
    (case cl_rk c of
       None \<Rightarrow> (Some NoRoomKey, c)
     | Some rk \<Rightarrow>
        (let (rnd, c) = draw w NonceSizeX c
         in case SealMessage (w_ci w) (cl_id c) rk (cl_room c) (cl_selfID c) plaintext rnd of
              Inl err \<Rightarrow> (Some (SealErr err), c)
            | Inr (nonce, ct, sig) \<Rightarrow>
               (None, enqueue op (json_Message \<lparr>ms_FromID = cl_selfID c, ms_Epoch = rk_Epoch rk, ms_Nonce = Some nonce,
                  ms_Ciphertext = Some ct, ms_Sig = Some sig\<rparr>) c)))"

text \<open>\<open>json.Marshal\<close> of a body and \<open>sealAndSend\<close>.\<close>

definition sendBody :: "World \<Rightarrow> string \<Rightarrow> json \<Rightarrow> Client \<Rightarrow> client_error option \<times> Client" where
  "sendBody w op body c = sealAndSend w op (pr_marshal (w_pr w) body) c"

definition rememberMessage :: "string \<Rightarrow> string \<Rightarrow> Client \<Rightarrow> Client" where
  "rememberMessage from text c = c\<lparr>cl_lastMsg := (from, text)\<rparr>"

section \<open>Policy\<close>

definition SetActionQuorum :: "(string, int) gomap \<Rightarrow> Client \<Rightarrow> Client" where
  "SetActionQuorum policy c = c\<lparr>cl_actionQuorum := policy\<rparr>"

definition quorumFor :: "string \<Rightarrow> Client \<Rightarrow> int" where
  "quorumFor action c = (case mget (cl_actionQuorum c) action of Some q \<Rightarrow> q | None \<Rightarrow> 1)"

definition canGateQuorum :: "Client \<Rightarrow> bool" where
  "canGateQuorum c = (case cl_transport c of None \<Rightarrow> False | Some peer \<Rightarrow> peer = [])"

section \<open>Membership\<close>

definition go_bytes :: "bytes option \<Rightarrow> bytes" where
  "go_bytes b = (case b of None \<Rightarrow> [] | Some x \<Rightarrow> x)"

definition fingerprintOf :: "World \<Rightarrow> bytes option \<Rightarrow> string" where
  "fingerprintOf w identityKey = (case ToSignPub (go_bytes identityKey) of None \<Rightarrow> [] | Some p \<Rightarrow> Fingerprint (w_pr w) p)"

definition addMemberLocked :: "Member \<Rightarrow> Client \<Rightarrow> Client" where
  "addMemberLocked m c =
    (case (ToSignPub (go_bytes (mb_IdentityKey m)), ToKX (go_bytes (mb_KXKey m))) of
       (Some signPub, Some kxPub) \<Rightarrow>
         c\<lparr>cl_members := mput (mb_ID m) \<lparr>mi_name = mb_DisplayName m, mi_signPub = signPub, mi_kxPub = kxPub,
             mi_attestation = mb_Attestation m\<rparr> (cl_members c)\<rparr>
     | _ \<Rightarrow> c)"

definition memberFprsLocked :: "World \<Rightarrow> Client \<Rightarrow> string list" where
  "memberFprsLocked w c = sort (SelfFpr w c # map (\<lambda>(_, m). Fingerprint (w_pr w) (mi_signPub m)) (cl_members c))"

text \<open>The oldest member holds the command; a member listed without usable keys is the zero
  \<open>memberInfo\<close> there.\<close>

definition oldestHolderLocked :: "World \<Rightarrow> Client \<Rightarrow> icHolder" where
  "oldestHolderLocked w c =
    (case cl_order c of
       [] \<Rightarrow> no_ic
     | i # _ \<Rightarrow>
        (if i = cl_selfID c then \<lparr>ic_id = i, ic_name = cl_name c, ic_fpr = SelfFpr w c\<rparr>
         else case mget (cl_members c) i of
           Some m \<Rightarrow> \<lparr>ic_id = i, ic_name = mi_name m, ic_fpr = Fingerprint (w_pr w) (mi_signPub m)\<rparr>
         | None \<Rightarrow> \<lparr>ic_id = i, ic_name = [], ic_fpr = Fingerprint (w_pr w) []\<rparr>))"

section \<open>What the ways out leave alone\<close>

named_theorems client "how the ways out of a client act on its state"

lemma emit_frame [simp, client]:
  "cl_id (emit ev c) = cl_id c" "cl_room (emit ev c) = cl_room c" "cl_name (emit ev c) = cl_name c"
  "cl_inviteToken (emit ev c) = cl_inviteToken c" "cl_transport (emit ev c) = cl_transport c"
  "cl_events (emit ev c) = cl_events c @ [ev]" "cl_sendCh (emit ev c) = cl_sendCh c" "cl_draws (emit ev c) = cl_draws c"
  "cl_crashed (emit ev c) = cl_crashed c" "cl_selfID (emit ev c) = cl_selfID c" "cl_members (emit ev c) = cl_members c"
  "cl_order (emit ev c) = cl_order c" "cl_rk (emit ev c) = cl_rk c" "cl_pending (emit ev c) = cl_pending c"
  "cl_acks (emit ev c) = cl_acks c" "cl_ic (emit ev c) = cl_ic c" "cl_chain (emit ev c) = cl_chain c"
  "cl_lastMsg (emit ev c) = cl_lastMsg c" "cl_seal (emit ev c) = cl_seal c" "cl_roster (emit ev c) = cl_roster c"
  "cl_rosterMeta (emit ev c) = cl_rosterMeta c" "cl_receipt (emit ev c) = cl_receipt c" "cl_sends (emit ev c) = cl_sends c"
  "cl_recvs (emit ev c) = cl_recvs c" "cl_maxFileBytes (emit ev c) = cl_maxFileBytes c"
  "cl_actions (emit ev c) = cl_actions c" "cl_actionQuorum (emit ev c) = cl_actionQuorum c"
  "cl_fired (emit ev c) = cl_fired c" "cl_proposals (emit ev c) = cl_proposals c"
  "cl_selfCredential (emit ev c) = cl_selfCredential c" "cl_selfCredentialRoles (emit ev c) = cl_selfCredentialRoles c"
  "cl_artifactProofs (emit ev c) = cl_artifactProofs c" "cl_clock (emit ev c) = cl_clock c"
  by (simp_all add: emit_def)

lemma enqueue_frame [simp, client]:
  "cl_id (enqueue op j c) = cl_id c" "cl_room (enqueue op j c) = cl_room c" "cl_name (enqueue op j c) = cl_name c"
  "cl_inviteToken (enqueue op j c) = cl_inviteToken c" "cl_transport (enqueue op j c) = cl_transport c"
  "cl_events (enqueue op j c) = cl_events c" "cl_sendCh (enqueue op j c) = cl_sendCh c @ [Encode op j]"
  "cl_draws (enqueue op j c) = cl_draws c" "cl_crashed (enqueue op j c) = cl_crashed c"
  "cl_selfID (enqueue op j c) = cl_selfID c" "cl_members (enqueue op j c) = cl_members c"
  "cl_order (enqueue op j c) = cl_order c" "cl_rk (enqueue op j c) = cl_rk c" "cl_pending (enqueue op j c) = cl_pending c"
  "cl_acks (enqueue op j c) = cl_acks c" "cl_ic (enqueue op j c) = cl_ic c" "cl_chain (enqueue op j c) = cl_chain c"
  "cl_lastMsg (enqueue op j c) = cl_lastMsg c" "cl_seal (enqueue op j c) = cl_seal c"
  "cl_roster (enqueue op j c) = cl_roster c" "cl_rosterMeta (enqueue op j c) = cl_rosterMeta c"
  "cl_receipt (enqueue op j c) = cl_receipt c" "cl_sends (enqueue op j c) = cl_sends c"
  "cl_recvs (enqueue op j c) = cl_recvs c" "cl_maxFileBytes (enqueue op j c) = cl_maxFileBytes c"
  "cl_actions (enqueue op j c) = cl_actions c" "cl_actionQuorum (enqueue op j c) = cl_actionQuorum c"
  "cl_fired (enqueue op j c) = cl_fired c" "cl_proposals (enqueue op j c) = cl_proposals c"
  "cl_selfCredential (enqueue op j c) = cl_selfCredential c"
  "cl_selfCredentialRoles (enqueue op j c) = cl_selfCredentialRoles c"
  "cl_artifactProofs (enqueue op j c) = cl_artifactProofs c" "cl_clock (enqueue op j c) = cl_clock c"
  by (simp_all add: enqueue_def)

lemma sealAndSend_shape: "\<exists>d s. snd (sealAndSend w op pt c) = c\<lparr>cl_draws := d, cl_sendCh := s\<rparr>"
proof (cases "cl_rk c")
  case None
  then have "snd (sealAndSend w op pt c) = c\<lparr>cl_draws := cl_draws c, cl_sendCh := cl_sendCh c\<rparr>" by (simp add: sealAndSend_def)
  then show ?thesis by (intro exI)
next
  case (Some rk)
  let ?m = "SealMessage (w_ci w) (cl_id c) rk (cl_room c) (cl_selfID c) pt (w_rand w (cl_draws c) NonceSizeX)"
  show ?thesis
  proof (cases ?m)
    case (Inl e)
    then have "snd (sealAndSend w op pt c) = c\<lparr>cl_draws := Suc (cl_draws c), cl_sendCh := cl_sendCh c\<rparr>"
      using Some by (simp add: sealAndSend_def draw_def)
    then show ?thesis by (intro exI)
  next
    case (Inr m)
    obtain n ct sig where "m = (n, ct, sig)" by (metis surj_pair)
    then have "snd (sealAndSend w op pt c) = c\<lparr>cl_draws := Suc (cl_draws c), cl_sendCh := cl_sendCh c @ [Encode op (json_Message
        \<lparr>ms_FromID = cl_selfID c, ms_Epoch = rk_Epoch rk, ms_Nonce = Some n, ms_Ciphertext = Some ct, ms_Sig = Some sig\<rparr>)]\<rparr>"
      using Some Inr by (simp add: sealAndSend_def draw_def enqueue_def)
    then show ?thesis by (intro exI)
  qed
qed

lemma sealAndSend_frame [simp, client]:
  "cl_id (snd (sealAndSend w op pt c)) = cl_id c" "cl_room (snd (sealAndSend w op pt c)) = cl_room c"
  "cl_name (snd (sealAndSend w op pt c)) = cl_name c" "cl_inviteToken (snd (sealAndSend w op pt c)) = cl_inviteToken c"
  "cl_transport (snd (sealAndSend w op pt c)) = cl_transport c" "cl_events (snd (sealAndSend w op pt c)) = cl_events c"
  "cl_crashed (snd (sealAndSend w op pt c)) = cl_crashed c" "cl_selfID (snd (sealAndSend w op pt c)) = cl_selfID c"
  "cl_members (snd (sealAndSend w op pt c)) = cl_members c" "cl_order (snd (sealAndSend w op pt c)) = cl_order c"
  "cl_rk (snd (sealAndSend w op pt c)) = cl_rk c" "cl_pending (snd (sealAndSend w op pt c)) = cl_pending c"
  "cl_acks (snd (sealAndSend w op pt c)) = cl_acks c" "cl_ic (snd (sealAndSend w op pt c)) = cl_ic c"
  "cl_chain (snd (sealAndSend w op pt c)) = cl_chain c" "cl_lastMsg (snd (sealAndSend w op pt c)) = cl_lastMsg c"
  "cl_seal (snd (sealAndSend w op pt c)) = cl_seal c" "cl_roster (snd (sealAndSend w op pt c)) = cl_roster c"
  "cl_rosterMeta (snd (sealAndSend w op pt c)) = cl_rosterMeta c" "cl_receipt (snd (sealAndSend w op pt c)) = cl_receipt c"
  "cl_sends (snd (sealAndSend w op pt c)) = cl_sends c" "cl_recvs (snd (sealAndSend w op pt c)) = cl_recvs c"
  "cl_maxFileBytes (snd (sealAndSend w op pt c)) = cl_maxFileBytes c"
  "cl_actions (snd (sealAndSend w op pt c)) = cl_actions c"
  "cl_actionQuorum (snd (sealAndSend w op pt c)) = cl_actionQuorum c" "cl_fired (snd (sealAndSend w op pt c)) = cl_fired c"
  "cl_proposals (snd (sealAndSend w op pt c)) = cl_proposals c"
  "cl_selfCredential (snd (sealAndSend w op pt c)) = cl_selfCredential c"
  "cl_selfCredentialRoles (snd (sealAndSend w op pt c)) = cl_selfCredentialRoles c"
  "cl_artifactProofs (snd (sealAndSend w op pt c)) = cl_artifactProofs c"
  "cl_clock (snd (sealAndSend w op pt c)) = cl_clock c"
  using sealAndSend_shape [of w op pt c] by (elim exE, simp)+

lemma sendBody_frame [simp, client]:
  "cl_id (snd (sendBody w op j c)) = cl_id c" "cl_room (snd (sendBody w op j c)) = cl_room c"
  "cl_name (snd (sendBody w op j c)) = cl_name c" "cl_inviteToken (snd (sendBody w op j c)) = cl_inviteToken c"
  "cl_transport (snd (sendBody w op j c)) = cl_transport c" "cl_events (snd (sendBody w op j c)) = cl_events c"
  "cl_crashed (snd (sendBody w op j c)) = cl_crashed c" "cl_selfID (snd (sendBody w op j c)) = cl_selfID c"
  "cl_members (snd (sendBody w op j c)) = cl_members c" "cl_order (snd (sendBody w op j c)) = cl_order c"
  "cl_rk (snd (sendBody w op j c)) = cl_rk c" "cl_pending (snd (sendBody w op j c)) = cl_pending c"
  "cl_acks (snd (sendBody w op j c)) = cl_acks c" "cl_ic (snd (sendBody w op j c)) = cl_ic c"
  "cl_chain (snd (sendBody w op j c)) = cl_chain c" "cl_lastMsg (snd (sendBody w op j c)) = cl_lastMsg c"
  "cl_seal (snd (sendBody w op j c)) = cl_seal c" "cl_roster (snd (sendBody w op j c)) = cl_roster c"
  "cl_rosterMeta (snd (sendBody w op j c)) = cl_rosterMeta c" "cl_receipt (snd (sendBody w op j c)) = cl_receipt c"
  "cl_sends (snd (sendBody w op j c)) = cl_sends c" "cl_recvs (snd (sendBody w op j c)) = cl_recvs c"
  "cl_maxFileBytes (snd (sendBody w op j c)) = cl_maxFileBytes c" "cl_actions (snd (sendBody w op j c)) = cl_actions c"
  "cl_actionQuorum (snd (sendBody w op j c)) = cl_actionQuorum c" "cl_fired (snd (sendBody w op j c)) = cl_fired c"
  "cl_proposals (snd (sendBody w op j c)) = cl_proposals c"
  "cl_selfCredential (snd (sendBody w op j c)) = cl_selfCredential c"
  "cl_selfCredentialRoles (snd (sendBody w op j c)) = cl_selfCredentialRoles c"
  "cl_artifactProofs (snd (sendBody w op j c)) = cl_artifactProofs c" "cl_clock (snd (sendBody w op j c)) = cl_clock c"
  by (simp_all add: sendBody_def)

text \<open>Sending fails without touching the queue, or queues one frame.\<close>

lemma sealAndSend_queue:
  "case fst (sealAndSend w op pt c) of
     Some _ \<Rightarrow> cl_sendCh (snd (sealAndSend w op pt c)) = cl_sendCh c
   | None \<Rightarrow> \<exists>rk n ct sig. cl_rk c = Some rk \<and>
       SealMessage (w_ci w) (cl_id c) rk (cl_room c) (cl_selfID c) pt (w_rand w (cl_draws c) NonceSizeX) = Inr (n, ct, sig) \<and>
       cl_sendCh (snd (sealAndSend w op pt c)) = cl_sendCh c @ [Encode op (json_Message
         \<lparr>ms_FromID = cl_selfID c, ms_Epoch = rk_Epoch rk, ms_Nonce = Some n, ms_Ciphertext = Some ct, ms_Sig = Some sig\<rparr>)]"
  by (auto simp: sealAndSend_def draw_def Let_def split: option.splits sum.splits)

lemma sealAndSend_needs_key: "cl_rk c = None \<Longrightarrow> sealAndSend w op pt c = (Some NoRoomKey, c)"
  by (simp add: sealAndSend_def)

lemma sendBody_queue:
  "\<exists>fs. cl_sendCh (snd (sendBody w op j c)) = cl_sendCh c @ fs \<and> (\<forall>f \<in> set fs. ev_Type f = op) \<and>
    length fs = (if fst (sendBody w op j c) = None then 1 else 0)"
proof (cases "fst (sendBody w op j c)")
  case None
  with sealAndSend_queue [where w = w and op = op and pt = "pr_marshal (w_pr w) j" and c = c] show ?thesis by (auto simp: sendBody_def Encode_def)
next
  case (Some e)
  with sealAndSend_queue [where w = w and op = op and pt = "pr_marshal (w_pr w) j" and c = c] show ?thesis by (auto simp: sendBody_def)
qed

lemma sendBody_needs_key: "fst (sendBody w op j c) = None \<Longrightarrow> cl_rk c \<noteq> None"
  by (cases "cl_rk c") (auto simp: sendBody_def sealAndSend_def)

end
