(* ===== verification/Rounds.thy ===== *)
theory Rounds
  imports Prelude ClientCore
begin

text \<open>
  Co-signing rounds of a client: the collector of \<^verbatim>\<open>src/tui/client/cosign.go\<close>, the signed roster of \<^verbatim>\<open>roster.go\<close> and the
  scuttle receipt of \<^verbatim>\<open>receipt.go\<close>, with the burn they end in (\<open>scuttleBurn\<close> of \<^verbatim>\<open>client.go\<close>). A round starts from
  the initiator's own signature, takes verified co-signatures of others, and is finished by
  the last member present or by its timer (\<open>finalizeRoster\<close>, \<open>finalizeReceipt\<close>), whichever
  comes first.
\<close>

section \<open>The collector\<close>

definition newCosignRound :: "bytes \<Rightarrow> string \<Rightarrow> bytes \<Rightarrow> bytes \<Rightarrow> cosignRound" where
  "newCosignRound pre selfFpr selfSig selfKey =
    \<lparr>co_preimage = pre, co_sigs = [(selfFpr, selfSig)], co_keys = [(selfFpr, selfKey)], co_timer = None\<rparr>"

definition co_add :: "string \<Rightarrow> bytes \<Rightarrow> bytes \<Rightarrow> cosignRound \<Rightarrow> cosignRound" where
  "co_add fpr key sig r = r\<lparr>co_sigs := mput fpr sig (co_sigs r), co_keys := mput fpr key (co_keys r)\<rparr>"

definition co_count :: "cosignRound \<Rightarrow> nat" where
  "co_count r = length (co_sigs r)"

definition co_stop :: "cosignRound \<Rightarrow> cosignRound" where
  "co_stop r = r\<lparr>co_timer := None\<rparr>"

text \<open>The check the handlers make before adding a co-signature.\<close>

definition cosigOK :: "World \<Rightarrow> bytes \<Rightarrow> cosignRound \<Rightarrow> bytes \<Rightarrow> bool" where
  "cosigOK w pub r sig \<longleftrightarrow> length pub = PublicKeySize \<and> pr_verify (w_pr w) pub (co_preimage r) sig"

section \<open>Roster\<close>

definition rosterMembersLocked :: "World \<Rightarrow> (string, bool) gomap \<Rightarrow> Client \<Rightarrow> RosterMember list" where
  "rosterMembersLocked w verified c =
    sort_key rm_Fpr (\<lparr>rm_Name = cl_name c, rm_Fpr = SelfFpr w c, rm_Verified = False\<rparr> #
      map (\<lambda>(_, m). let fpr = Fingerprint (w_pr w) (mi_signPub m)
        in \<lparr>rm_Name = mi_name m, rm_Fpr = fpr, rm_Verified = (mget verified fpr = Some True)\<rparr>) (cl_members c))"

definition fprsOfMembers :: "RosterMember list \<Rightarrow> string list" where
  "fprsOfMembers ms = map rm_Fpr ms"

definition finalizeRoster :: "World \<Rightarrow> go_time \<Rightarrow> Client \<Rightarrow> Client" where
  "finalizeRoster w now c =
    (case cl_roster c of
       None \<Rightarrow> c
     | Some r \<Rightarrow>
        (let m = cl_rosterMeta c;
             att = NewRoster (w_pr w) (pr_format_time (w_pr w) now) (cl_room c) (rt_epoch m) (SelfFpr w c) (rt_members m) (co_sigs r) (co_keys r);
             signers = co_count r; total = length (rt_members m);
             c = c\<lparr>cl_roster := None, cl_rosterMeta := zero_rosterMeta\<rparr>
         in emit (Att (EvRosterComplete att signers total)) c))"

definition maybeFinalizeRoster :: "World \<Rightarrow> go_time \<Rightarrow> nat \<Rightarrow> Client \<Rightarrow> Client" where
  "maybeFinalizeRoster w now tot c =
    (case cl_roster c of None \<Rightarrow> c | Some r \<Rightarrow> (if co_count r \<ge> tot then finalizeRoster w now c else c))"

definition SignRoster :: "World \<Rightarrow> go_time \<Rightarrow> (string, bool) gomap \<Rightarrow> Client \<Rightarrow> client_error option \<times> Client" where
  "SignRoster w now verified c =
    (case cl_rk c of
       None \<Rightarrow> (Some NoRoomKey, c)
     | Some rk \<Rightarrow>
        (if cl_roster c \<noteq> None then (Some (RoundErr RosterInProgress), c)
         else let epoch = rk_Epoch rk;
                  members = rosterMembersLocked w verified c;
                  setHash = SetHash (w_pr w) (fprsOfMembers members);
                  pre = RosterSigningBytes (cl_room c) epoch setHash
         in case IdSign (cl_id c) pre of
              None \<Rightarrow> (Some SignErr, c)
            | Some sig \<Rightarrow>
               (let r = (newCosignRound pre (SelfFpr w c) sig (ki_SignPub (cl_id c)))\<lparr>co_timer := Some (now + sealTimeout)\<rparr>;
                    c = c\<lparr>cl_roster := Some r, cl_rosterMeta := \<lparr>rt_epoch = epoch, rt_members = members, rt_setHash = setHash\<rparr>\<rparr>;
                    total = length (cl_order c);
                    (err, c) = sendBody w OpRosterRequest (json_RosterRequestBody \<lparr>rq_SetHash = Some setHash, rq_RoomID = cl_room c,
                        rq_Epoch = epoch, rq_ExpiresUnix = unix (now + sealTimeout)\<rparr>) c
                in case err of
                     Some e \<Rightarrow> (Some e, c\<lparr>cl_roster := None\<rparr>)
                   | None \<Rightarrow>
                      (None, maybeFinalizeRoster w now total (emit (Att (EvRosterRequest [] (length members) True)) c)))))"

definition onRosterRequest :: "World \<Rightarrow> string \<Rightarrow> bytes \<Rightarrow> 64 word \<Rightarrow> Client \<Rightarrow> Client" where
  "onRosterRequest w fromName setHash epoch c =
    (case cl_rk c of
       None \<Rightarrow> c
     | Some rk \<Rightarrow>
        (if rk_Epoch rk \<noteq> epoch \<or> SetHash (w_pr w) (memberFprsLocked w c) \<noteq> setHash
         then emit (EvError (RoundErr (RosterDiffers fromName))) c
         else case IdSign (cl_id c) (RosterSigningBytes (cl_room c) epoch setHash) of
           None \<Rightarrow> c
         | Some sig \<Rightarrow>
            (let (err, c) = sendBody w OpRosterAck (json_RosterAckBody \<lparr>rk_SetHash = Some setHash, rk_SignerFpr = SelfFpr w c, rk_Sig = Some sig\<rparr>) c
             in if err \<noteq> None then c else emit (Att (EvRosterAck (cl_name c) 0 0 True)) c)))"

definition onRosterAck :: "World \<Rightarrow> go_time \<Rightarrow> string \<Rightarrow> bytes \<Rightarrow> bytes \<Rightarrow> bytes \<Rightarrow> Client \<Rightarrow> Client" where
  "onRosterAck w now fromName fromPub setHash sig c =
    (case cl_roster c of
       None \<Rightarrow> c
     | Some r \<Rightarrow>
        (if setHash \<noteq> rt_setHash (cl_rosterMeta c) then c
         else if \<not> cosigOK w fromPub r sig then emit (EvError (RoundErr (RosterCosigInvalid fromName))) c
         else let r = co_add (Fingerprint (w_pr w) fromPub) fromPub sig r;
                  c = c\<lparr>cl_roster := Some r\<rparr>;
                  total = length (cl_order c)
              in maybeFinalizeRoster w now total (emit (Att (EvRosterAck fromName (co_count r) total False)) c)))"

definition clearRosterLocked :: "Client \<Rightarrow> Client" where
  "clearRosterLocked c = (if cl_roster c = None then c else c\<lparr>cl_roster := None, cl_rosterMeta := zero_rosterMeta\<rparr>)"

section \<open>Scuttle receipt\<close>

definition noteFirstEpochLocked :: "64 word \<Rightarrow> Client \<Rightarrow> Client" where
  "noteFirstEpochLocked epoch c =
    (if rc_firstEpochSet (cl_receipt c) then c
     else c\<lparr>cl_receipt := (cl_receipt c)\<lparr>rc_firstEpoch := epoch, rc_firstEpochSet := True\<rparr>\<rparr>)"

definition receiptCoreLocked :: "World \<Rightarrow> go_time \<Rightarrow> string \<Rightarrow> Client \<Rightarrow> ReceiptCore" where
  "receiptCoreLocked w now reason c =
    (let last = (case cl_rk c of None \<Rightarrow> 0 | Some rk \<Rightarrow> rk_Epoch rk)
     in \<lparr>rc_Version = ReceiptVersion, rc_Room = cl_room c, rc_EpochRange = \<lparr>er_First = rc_firstEpoch (cl_receipt c), er_Last = last\<rparr>,
         rc_Reason = reason, rc_ScuttledAt = pr_format_time (w_pr w) now, rc_ScuttledBy = SelfFpr w c,
         rc_MemberFprs = memberFprsLocked w c, rc_KeysZeroized = True\<rparr>)"

text \<open>The function queued on a receipt: ask the server to burn the room.\<close>

definition triggerBurn :: "Client \<Rightarrow> Client" where
  "triggerBurn c = enqueue OpControl (json_Control \<lparr>ct_Action = ActionScuttle, ct_By = [], ct_ByName = cl_name c, ct_TTLSeconds = 0, ct_Reason = []\<rparr>) c"

fun runOnDone :: "on_done option \<Rightarrow> Client \<Rightarrow> Client" where
  "runOnDone None c = c"
| "runOnDone (Some TriggerBurn) c = triggerBurn c"

definition finalizeReceipt :: "World \<Rightarrow> Client \<Rightarrow> Client" where
  "finalizeReceipt w c =
    (let s = cl_receipt c in case rc_receiptRound s of
       None \<Rightarrow> c
     | Some r \<Rightarrow>
        (let att = NewReceipt (w_pr w) (rc_receiptCore s) (co_sigs r) (co_keys r);
             onDone = rc_receiptOnDone s;
             c = c\<lparr>cl_receipt := s\<lparr>rc_receiptRound := None, rc_receiptOnDone := None, rc_receiptHash := [], rc_receiptDone := True\<rparr>\<rparr>
         in runOnDone onDone (emit (Att (EvScuttleReceipt att)) c)))"

definition maybeFinalizeReceipt :: "World \<Rightarrow> nat \<Rightarrow> Client \<Rightarrow> Client" where
  "maybeFinalizeReceipt w tot c =
    (case rc_receiptRound (cl_receipt c) of None \<Rightarrow> c | Some r \<Rightarrow> (if co_count r \<ge> tot then finalizeReceipt w c else c))"

definition startReceiptRound :: "World \<Rightarrow> go_time \<Rightarrow> string \<Rightarrow> on_done option \<Rightarrow> Client \<Rightarrow> bool \<times> Client" where
  "startReceiptRound w now reason onDone c =
    (let s = cl_receipt c
     in if cl_rk c = None \<or> rc_receiptDone s \<or> rc_receiptRound s \<noteq> None then (False, c)
        else let core = receiptCoreLocked w now reason c;
                 h = CoreHash (w_pr w) core;
                 pre = ScuttleReceiptSigningBytes h
        in case IdSign (cl_id c) pre of
             None \<Rightarrow> (False, c)
           | Some sig \<Rightarrow>
              (let r = (newCosignRound pre (SelfFpr w c) sig (ki_SignPub (cl_id c)))\<lparr>co_timer := Some (now + sealTimeout)\<rparr>;
                   c = c\<lparr>cl_receipt := s\<lparr>rc_receiptRound := Some r, rc_receiptCore := core, rc_receiptHash := h, rc_receiptOnDone := onDone\<rparr>\<rparr>;
                   total = length (cl_order c);
                   (_, c) = sendBody w OpScuttleReceiptRequest (json_ScuttleReceiptRequestBody \<lparr>qr_ReceiptHash = Some h, qr_RoomID = cl_room c,
                       qr_Reason = reason, qr_TS = unix now, qr_EpochFirst = er_First (rc_EpochRange core), qr_EpochLast = er_Last (rc_EpochRange core)\<rparr>) c
               in (True, maybeFinalizeReceipt w total c)))"

definition writeSelfReceiptIfNeeded :: "World \<Rightarrow> go_time \<Rightarrow> string \<Rightarrow> Client \<Rightarrow> Client" where
  "writeSelfReceiptIfNeeded w now reason c =
    (let s = cl_receipt c
     in if rc_receiptDone s \<or> cl_rk c = None then c
        else let core = receiptCoreLocked w now reason c;
                 c = c\<lparr>cl_receipt := s\<lparr>rc_receiptDone := True\<rparr>\<rparr>
        in case IdSign (cl_id c) (ScuttleReceiptSigningBytes (CoreHash (w_pr w) core)) of
             None \<Rightarrow> emit (EvError SignErr) c
           | Some sig \<Rightarrow>
              (let fpr = SelfFpr w c
               in emit (Att (EvScuttleReceipt (NewReceipt (w_pr w) core [(fpr, sig)] [(fpr, ki_SignPub (cl_id c))]))) c))"

definition onScuttleReceiptRequest :: "World \<Rightarrow> string \<Rightarrow> string \<Rightarrow> bytes \<Rightarrow> Client \<Rightarrow> Client" where
  "onScuttleReceiptRequest w fromName room receiptHash c =
    (if cl_rk c = None \<or> room \<noteq> cl_room c then c
     else case IdSign (cl_id c) (ScuttleReceiptSigningBytes receiptHash) of
       None \<Rightarrow> c
     | Some sig \<Rightarrow>
        (let (err, c) = sendBody w OpScuttleReceiptAck (json_ScuttleReceiptAckBody
               \<lparr>sk_ReceiptHash = Some receiptHash, sk_SignerFpr = SelfFpr w c, sk_Sig = Some sig\<rparr>) c
         in if err \<noteq> None then c else emit (Att (EvScuttleReceiptAck (cl_name c) 0 0 True)) c))"

definition onScuttleReceiptAck :: "World \<Rightarrow> string \<Rightarrow> bytes \<Rightarrow> bytes \<Rightarrow> bytes \<Rightarrow> Client \<Rightarrow> Client" where
  "onScuttleReceiptAck w fromName fromPub receiptHash sig c =
    (let s = cl_receipt c in case rc_receiptRound s of
       None \<Rightarrow> c
     | Some r \<Rightarrow>
        (if receiptHash \<noteq> rc_receiptHash s then c
         else if \<not> cosigOK w fromPub r sig then emit (EvError (RoundErr (ReceiptCosigInvalid fromName))) c
         else let r = co_add (Fingerprint (w_pr w) fromPub) fromPub sig r;
                  c = c\<lparr>cl_receipt := s\<lparr>rc_receiptRound := Some r\<rparr>\<rparr>;
                  total = length (cl_order c)
              in maybeFinalizeReceipt w total (emit (Att (EvScuttleReceiptAck fromName (co_count r) total False)) c)))"

definition clearReceiptLocked :: "Client \<Rightarrow> Client" where
  "clearReceiptLocked c =
    (let s = cl_receipt c
     in if rc_receiptRound s = None then c
        else c\<lparr>cl_receipt := s\<lparr>rc_receiptRound := None, rc_receiptOnDone := None, rc_receiptHash := []\<rparr>\<rparr>)"

definition scuttleBurn :: "World \<Rightarrow> go_time \<Rightarrow> Client \<Rightarrow> Client" where
  "scuttleBurn w now c =
    (let (started, c) = startReceiptRound w now ScuttleManual (Some TriggerBurn) c
     in if started then c else triggerBurn c)"

section \<open>What a round holds\<close>

text \<open>An identity whose signatures, when it makes them, verify under its key.\<close>

definition sign_sound :: "Prims \<Rightarrow> KeyIdentity \<Rightarrow> bool" where
  "sign_sound c i \<longleftrightarrow> length (ki_SignPub i) = PublicKeySize \<and> (\<forall>m s. IdSign i m = Some s \<longrightarrow> pr_verify c (ki_SignPub i) m s)"

definition round_ok :: "World \<Rightarrow> bytes \<Rightarrow> cosignRound \<Rightarrow> bool" where
  "round_ok w pre r \<longleftrightarrow> co_preimage r = pre \<and> co_sigs r \<noteq> [] \<and> all_sign (w_pr w) pre (co_sigs r) (co_keys r)"

lemma round_ok_new:
  "sign_sound (w_pr w) (cl_id c) \<Longrightarrow> IdSign (cl_id c) pre = Some sig \<Longrightarrow>
   round_ok w pre ((newCosignRound pre (SelfFpr w c) sig (ki_SignPub (cl_id c)))\<lparr>co_timer := t\<rparr>)"
  by (simp add: round_ok_def newCosignRound_def all_sign_def sign_sound_def SelfFpr_def IdFingerprint_def Fingerprint_def)

lemma mput_not_Nil [simp]: "mput k v m \<noteq> []"
  by (cases m) auto

lemma round_ok_add:
  assumes "round_ok w pre r" "cosigOK w pub r sig"
  shows "round_ok w pre (co_add (Fingerprint (w_pr w) pub) pub sig r)"
  using assms by (auto simp: round_ok_def cosigOK_def co_add_def all_sign_def Fingerprint_def)

definition roster_inv :: "World \<Rightarrow> Client \<Rightarrow> bool" where
  "roster_inv w c \<longleftrightarrow> (\<forall>r. cl_roster c = Some r \<longrightarrow>
     (let m = cl_rosterMeta c in rt_setHash m = SetHash (w_pr w) (map rm_Fpr (rt_members m)) \<and>
       round_ok w (RosterSigningBytes (cl_room c) (rt_epoch m) (rt_setHash m)) r))"

definition receipt_inv :: "World \<Rightarrow> Client \<Rightarrow> bool" where
  "receipt_inv w c \<longleftrightarrow> (\<forall>r. rc_receiptRound (cl_receipt c) = Some r \<longrightarrow>
     (let s = cl_receipt c in rc_receiptHash s = CoreHash (w_pr w) (rc_receiptCore s) \<and> rc_KeysZeroized (rc_receiptCore s) \<and>
       round_ok w (ScuttleReceiptSigningBytes (rc_receiptHash s)) r))"

text \<open>The artifacts an event carries verify.\<close>

fun sound_event :: "World \<Rightarrow> Event \<Rightarrow> bool" where
  "sound_event w (Att (EvRosterComplete att _ _)) \<longleftrightarrow> roster_ok (w_pr w) att"
| "sound_event w (Att (EvScuttleReceipt r)) \<longleftrightarrow> receipt_ok (w_pr w) r"
| "sound_event w _ \<longleftrightarrow> True"

definition rounds_inv :: "World \<Rightarrow> Client \<Rightarrow> bool" where
  "rounds_inv w c \<longleftrightarrow> sign_sound (w_pr w) (cl_id c) \<and> roster_inv w c \<and> receipt_inv w c \<and> list_all (sound_event w) (cl_events c)"

text \<open>What the invariant reads of a client.\<close>

lemma rounds_inv_cong:
  "cl_id c = cl_id d \<Longrightarrow> cl_room c = cl_room d \<Longrightarrow> cl_roster c = cl_roster d \<Longrightarrow> cl_rosterMeta c = cl_rosterMeta d \<Longrightarrow>
   cl_receipt c = cl_receipt d \<Longrightarrow> cl_events c = cl_events d \<Longrightarrow> rounds_inv w c = rounds_inv w d"
  by (simp add: rounds_inv_def roster_inv_def receipt_inv_def)

lemma rounds_inv_emit [simp]: "rounds_inv w (emit ev c) \<longleftrightarrow> rounds_inv w c \<and> sound_event w ev"
  by (auto simp: rounds_inv_def roster_inv_def receipt_inv_def)

lemma rounds_inv_send [simp]: "rounds_inv w (snd (sendBody w' op j c)) = rounds_inv w c"
  by (rule rounds_inv_cong) simp_all

lemma rounds_inv_enqueue [simp]: "rounds_inv w (enqueue op j c) = rounds_inv w c"
  by (rule rounds_inv_cong) simp_all

lemma runOnDone_inv [simp]: "rounds_inv w (runOnDone d c) = rounds_inv w c"
  by (cases "(d, c)" rule: runOnDone.cases) (simp_all add: triggerBurn_def)

lemma finalizeRoster_inv: "rounds_inv w c \<Longrightarrow> rounds_inv w (finalizeRoster w' now c)" if "w' = w"
proof (cases "cl_roster c")
  case None
  assume "rounds_inv w c"
  then show ?thesis using None by (simp add: finalizeRoster_def)
next
  case (Some r)
  assume i: "rounds_inv w c"
  let ?m = "cl_rosterMeta c"
  have k: "rounds_inv w (c\<lparr>cl_roster := None, cl_rosterMeta := zero_rosterMeta\<rparr>)"
    using i by (simp add: rounds_inv_def roster_inv_def receipt_inv_def)
  have "roster_ok (w_pr w) (NewRoster (w_pr w) t (cl_room c) (rt_epoch ?m) by (rt_members ?m) (co_sigs r) (co_keys r))" for t "by"
    using i Some by (intro NewRoster_ok) (auto simp: rounds_inv_def roster_inv_def round_ok_def Let_def)
  with k show ?thesis using Some by (simp add: finalizeRoster_def Let_def that)
qed

lemma maybeFinalizeRoster_inv: "rounds_inv w c \<Longrightarrow> rounds_inv w (maybeFinalizeRoster w now tot c)"
  using finalizeRoster_inv by (simp add: maybeFinalizeRoster_def split: option.split)

lemma SignRoster_inv:
  assumes "rounds_inv w c" shows "rounds_inv w (snd (SignRoster w now verified c))"
proof (cases "cl_rk c = None \<or> cl_roster c \<noteq> None")
  case True
  then show ?thesis using assms by (auto simp: SignRoster_def split: option.splits)
next
  case False
  then obtain rk where rk: "cl_rk c = Some rk" and n: "cl_roster c = None" by auto
  let ?ms = "rosterMembersLocked w verified c"
  let ?h = "SetHash (w_pr w) (fprsOfMembers ?ms)"
  let ?pre = "RosterSigningBytes (cl_room c) (rk_Epoch rk) ?h"
  let ?j = "json_RosterRequestBody \<lparr>rq_SetHash = Some ?h, rq_RoomID = cl_room c, rq_Epoch = rk_Epoch rk, rq_ExpiresUnix = unix (now + sealTimeout)\<rparr>"
  show ?thesis
  proof (cases "IdSign (cl_id c) ?pre")
    case None
    then show ?thesis using rk n assms by (simp add: SignRoster_def Let_def)
  next
    case (Some sig)
    let ?c = "c\<lparr>cl_roster := Some ((newCosignRound ?pre (SelfFpr w c) sig (ki_SignPub (cl_id c)))\<lparr>co_timer := Some (now + sealTimeout)\<rparr>),
      cl_rosterMeta := \<lparr>rt_epoch = rk_Epoch rk, rt_members = ?ms, rt_setHash = ?h\<rparr>\<rparr>"
    have i: "rounds_inv w ?c"
      using assms round_ok_new [OF _ Some] by (simp add: rounds_inv_def roster_inv_def receipt_inv_def fprsOfMembers_def)
    have "rounds_inv w ((snd (sendBody w OpRosterRequest ?j ?c))\<lparr>cl_roster := None\<rparr>)"
      using i by (simp add: rounds_inv_def roster_inv_def receipt_inv_def)
    moreover have "rounds_inv w (maybeFinalizeRoster w now (length (cl_order c))
        (emit (Att (EvRosterRequest [] (length ?ms) True)) (snd (sendBody w OpRosterRequest ?j ?c))))"
      using i by (intro maybeFinalizeRoster_inv) simp
    ultimately show ?thesis using rk n Some by (simp add: SignRoster_def Let_def split_beta split: option.split)
  qed
qed

lemma onRosterAck_inv:
  assumes "rounds_inv w c" shows "rounds_inv w (onRosterAck w now from pub h sig c)"
proof (cases "cl_roster c")
  case None
  then show ?thesis using assms by (simp add: onRosterAck_def)
next
  case (Some r)
  let ?r = "co_add (Fingerprint (w_pr w) pub) pub sig r"
  show ?thesis
  proof (cases "h = rt_setHash (cl_rosterMeta c) \<and> cosigOK w pub r sig")
    case True
    then have "rounds_inv w (c\<lparr>cl_roster := Some ?r\<rparr>)"
      using assms Some by (auto simp: rounds_inv_def roster_inv_def receipt_inv_def Let_def intro: round_ok_add)
    then have "rounds_inv w (maybeFinalizeRoster w now (length (cl_order c))
        (emit (Att (EvRosterAck from (co_count ?r) (length (cl_order c)) False)) (c\<lparr>cl_roster := Some ?r\<rparr>)))"
      by (intro maybeFinalizeRoster_inv) simp
    then show ?thesis using Some True by (simp add: onRosterAck_def Let_def)
  next
    case False
    then show ?thesis using Some assms by (auto simp: onRosterAck_def Let_def)
  qed
qed

lemma finalizeReceipt_inv:
  assumes "rounds_inv w c" shows "rounds_inv w (finalizeReceipt w c)"
proof (cases "rc_receiptRound (cl_receipt c)")
  case None
  then show ?thesis using assms by (simp add: finalizeReceipt_def Let_def)
next
  case (Some r)
  let ?s = "cl_receipt c"
  have "rounds_inv w (c\<lparr>cl_receipt := ?s\<lparr>rc_receiptRound := None, rc_receiptOnDone := None, rc_receiptHash := [], rc_receiptDone := True\<rparr>\<rparr>)"
    using assms by (simp add: rounds_inv_def roster_inv_def receipt_inv_def)
  moreover have "receipt_ok (w_pr w) (NewReceipt (w_pr w) (rc_receiptCore ?s) (co_sigs r) (co_keys r))"
    using assms Some by (intro NewReceipt_ok) (auto simp: rounds_inv_def receipt_inv_def round_ok_def Let_def)
  ultimately show ?thesis using Some by (simp add: finalizeReceipt_def Let_def)
qed

lemma maybeFinalizeReceipt_inv: "rounds_inv w c \<Longrightarrow> rounds_inv w (maybeFinalizeReceipt w tot c)"
  using finalizeReceipt_inv by (simp add: maybeFinalizeReceipt_def split: option.split)

lemma startReceiptRound_inv:
  assumes "rounds_inv w c" shows "rounds_inv w (snd (startReceiptRound w now reason d c))"
proof (cases "cl_rk c = None \<or> rc_receiptDone (cl_receipt c) \<or> rc_receiptRound (cl_receipt c) \<noteq> None")
  case True
  then show ?thesis using assms by (simp add: startReceiptRound_def Let_def)
next
  case False
  let ?core = "receiptCoreLocked w now reason c"
  let ?h = "CoreHash (w_pr w) ?core"
  let ?pre = "ScuttleReceiptSigningBytes ?h"
  show ?thesis
  proof (cases "IdSign (cl_id c) ?pre")
    case None
    then show ?thesis using False assms by (simp add: startReceiptRound_def Let_def)
  next
    case (Some sig)
    let ?r = "(newCosignRound ?pre (SelfFpr w c) sig (ki_SignPub (cl_id c)))\<lparr>co_timer := Some (now + sealTimeout)\<rparr>"
    let ?c = "c\<lparr>cl_receipt := (cl_receipt c)\<lparr>rc_receiptRound := Some ?r, rc_receiptCore := ?core, rc_receiptHash := ?h, rc_receiptOnDone := d\<rparr>\<rparr>"
    have "rounds_inv w ?c"
      using assms round_ok_new [OF _ Some] by (simp add: rounds_inv_def roster_inv_def receipt_inv_def) (simp add: receiptCoreLocked_def Let_def)
    then show ?thesis using False Some by (auto simp: startReceiptRound_def Let_def split_beta intro!: maybeFinalizeReceipt_inv)
  qed
qed

lemma onScuttleReceiptAck_inv:
  assumes "rounds_inv w c" shows "rounds_inv w (onScuttleReceiptAck w from pub h sig c)"
proof (cases "rc_receiptRound (cl_receipt c)")
  case None
  then show ?thesis using assms by (simp add: onScuttleReceiptAck_def Let_def)
next
  case (Some r)
  let ?r = "co_add (Fingerprint (w_pr w) pub) pub sig r"
  show ?thesis
  proof (cases "h = rc_receiptHash (cl_receipt c) \<and> cosigOK w pub r sig")
    case True
    then have "rounds_inv w (c\<lparr>cl_receipt := (cl_receipt c)\<lparr>rc_receiptRound := Some ?r\<rparr>\<rparr>)"
      using assms Some by (auto simp: rounds_inv_def roster_inv_def receipt_inv_def Let_def intro: round_ok_add)
    then show ?thesis using Some True by (simp add: onScuttleReceiptAck_def Let_def maybeFinalizeReceipt_inv)
  next
    case False
    then show ?thesis using Some assms by (auto simp: onScuttleReceiptAck_def Let_def)
  qed
qed

lemma writeSelfReceiptIfNeeded_inv:
  assumes "rounds_inv w c" shows "rounds_inv w (writeSelfReceiptIfNeeded w now reason c)"
proof (cases "rc_receiptDone (cl_receipt c) \<or> cl_rk c = None")
  case True
  then show ?thesis using assms by (simp add: writeSelfReceiptIfNeeded_def Let_def)
next
  case False
  let ?core = "receiptCoreLocked w now reason c"
  have i: "rounds_inv w (c\<lparr>cl_receipt := (cl_receipt c)\<lparr>rc_receiptDone := True\<rparr>\<rparr>)"
    using assms by (auto simp: rounds_inv_def roster_inv_def receipt_inv_def Let_def)
  have ok: "receipt_ok (w_pr w) (NewReceipt (w_pr w) ?core [(SelfFpr w c, sig)] [(SelfFpr w c, ki_SignPub (cl_id c))])"
    if "IdSign (cl_id c) (ScuttleReceiptSigningBytes (CoreHash (w_pr w) ?core)) = Some sig" for sig
  proof (rule NewReceipt_ok)
    show "rc_KeysZeroized ?core" by (simp add: receiptCoreLocked_def Let_def)
    show "all_sign (w_pr w) (ScuttleReceiptSigningBytes (CoreHash (w_pr w) ?core)) [(SelfFpr w c, sig)] [(SelfFpr w c, ki_SignPub (cl_id c))]"
      using that assms by (simp add: all_sign_def rounds_inv_def sign_sound_def SelfFpr_def IdFingerprint_def Fingerprint_def)
  qed simp
  have f: "SelfFpr w (c\<lparr>cl_receipt := x\<rparr>) = SelfFpr w c" for x by (simp add: SelfFpr_def)
  show ?thesis using False i ok by (auto simp: writeSelfReceiptIfNeeded_def Let_def f split: option.split)
qed

lemma clear_inv: "rounds_inv w c \<Longrightarrow> rounds_inv w (clearRosterLocked c)" "rounds_inv w c \<Longrightarrow> rounds_inv w (clearReceiptLocked c)"
  by (auto simp: clearRosterLocked_def clearReceiptLocked_def rounds_inv_def roster_inv_def receipt_inv_def Let_def)

lemma onRequests_inv:
  "rounds_inv w c \<Longrightarrow> rounds_inv w (onRosterRequest w from h e c)"
  "rounds_inv w c \<Longrightarrow> rounds_inv w (onScuttleReceiptRequest w from room h c)"
  by (simp_all add: onRosterRequest_def onScuttleReceiptRequest_def Let_def split_beta split: option.split)

lemma scuttleBurn_inv: "rounds_inv w c \<Longrightarrow> rounds_inv w (scuttleBurn w now c)"
  using startReceiptRound_inv [of w c now ScuttleManual "Some TriggerBurn"]
  by (simp add: scuttleBurn_def Let_def split_beta triggerBurn_def)

section \<open>Any sequence of calls\<close>

datatype round_op =
    DoSignRoster go_time "(string, bool) gomap"
  | GetRosterRequest string bytes "64 word"
  | GetRosterAck go_time string bytes bytes bytes
  | RosterTimer go_time
  | ClearRoster
  | DoScuttleBurn go_time
  | DoSelfReceipt go_time string
  | GetReceiptRequest string string bytes
  | GetReceiptAck string bytes bytes bytes
  | ReceiptTimer
  | ClearReceipt

fun round_step :: "World \<Rightarrow> round_op \<Rightarrow> Client \<Rightarrow> Client" where
  "round_step w (DoSignRoster now v) c = snd (SignRoster w now v c)"
| "round_step w (GetRosterRequest from h e) c = onRosterRequest w from h e c"
| "round_step w (GetRosterAck now from pub h sig) c = onRosterAck w now from pub h sig c"
| "round_step w (RosterTimer now) c = finalizeRoster w now c"
| "round_step w ClearRoster c = clearRosterLocked c"
| "round_step w (DoScuttleBurn now) c = scuttleBurn w now c"
| "round_step w (DoSelfReceipt now reason) c = writeSelfReceiptIfNeeded w now reason c"
| "round_step w (GetReceiptRequest from room h) c = onScuttleReceiptRequest w from room h c"
| "round_step w (GetReceiptAck from pub h sig) c = onScuttleReceiptAck w from pub h sig c"
| "round_step w ReceiptTimer c = finalizeReceipt w c"
| "round_step w ClearReceipt c = clearReceiptLocked c"

lemma round_step_inv: "rounds_inv w c \<Longrightarrow> rounds_inv w (round_step w op c)"
  by (cases op) (simp_all add: SignRoster_inv onRosterAck_inv finalizeRoster_inv clear_inv scuttleBurn_inv
      writeSelfReceiptIfNeeded_inv onRequests_inv onScuttleReceiptAck_inv finalizeReceipt_inv)

lemma round_steps_inv: "rounds_inv w c \<Longrightarrow> rounds_inv w (fold (round_step w) ops c)"
  by (induction ops arbitrary: c) (simp_all add: round_step_inv)

section \<open>Properties\<close>

text \<open>Claim C27. Whatever a client publishes as an attestation verifies offline: over any sequence of roster and
  receipt calls, timers and incoming co-signatures, in any order and from anyone, every
  finished roster passes \<open>VerifyRoster\<close> and every scuttle receipt passes \<open>VerifyReceipt\<close>. It
  is enough that the signatures this client's own identity makes verify under its own key.\<close>

theorem rounds_verify:
  assumes "sign_sound (w_pr w) (cl_id c)" "cl_roster c = None" "rc_receiptRound (cl_receipt c) = None" "cl_events c = []"
    and "e \<in> set (cl_events (fold (round_step w) ops c))"
  shows "(\<forall>att n m. e = Att (EvRosterComplete att n m) \<longrightarrow> rr_Valid (fst (VerifyRoster (w_pr w) att))) \<and>
    (\<forall>r. e = Att (EvScuttleReceipt r) \<longrightarrow> rs_Valid (fst (VerifyReceipt (w_pr w) r)))"
proof -
  have "rounds_inv w c" using assms(1-4) by (simp add: rounds_inv_def roster_inv_def receipt_inv_def)
  then have "sound_event w e" using round_steps_inv [of w c ops] assms(5) by (simp add: rounds_inv_def list_all_iff)
  then show ?thesis unfolding VerifyRoster_Valid VerifyReceipt_Valid by auto
qed

text \<open>A sample world and client, alone in its room unless others are listed.\<close>

definition toy_world :: World where
  "toy_world = \<lparr>w_pr = toy, w_ci = toy_cipher, w_rand = (\<lambda>n k. Some (replicate k (char_of n)))\<rparr>"

definition toy_client :: "char \<Rightarrow> string list \<Rightarrow> Client" where
  "toy_client x others = (NewWithIdentity ''ops'' [x] (toy_id x))\<lparr>cl_transport := Some [], cl_selfID := [x], cl_order := others @ [[x]],
     cl_rk := Some \<lparr>rk_Epoch = 0, rk_Key = toy_key CHR ''k''\<rparr>\<rparr>"

lemma toy_id_sound: "sign_sound toy (toy_id x)"
  by (simp add: sign_sound_def toy_id_def toy_def toy_key_def IdSign_def PublicKeySize_def)

lemmas toy_defs = toy_world_def toy_client_def NewWithIdentity_def toy_id_def toy_def toy_cipher_def toy_key_def IdSign_def
  SelfFpr_def IdFingerprint_def Fingerprint_def

theorem rounds_verify_witness:
  "\<exists>att. Att (EvRosterComplete att 1 1) \<in> set (cl_events (fold (round_step toy_world) [DoSignRoster 5 []] (toy_client CHR ''a'' []))) \<and>
     rr_Valid (fst (VerifyRoster toy att))"
proof -
  let ?c = "toy_client CHR ''a'' []"
  have "\<exists>att. Att (EvRosterComplete att 1 1) \<in> set (cl_events (fold (round_step toy_world) [DoSignRoster 5 []] ?c))"
    by (simp add: toy_defs SignRoster_def Let_def sendBody_def sealAndSend_def draw_def SealMessage_def enqueue_def emit_def
        maybeFinalizeRoster_def newCosignRound_def co_count_def finalizeRoster_def rosterMembersLocked_def zero_rosterMeta_def zero_receipt_def)
  then obtain att where a: "Att (EvRosterComplete att 1 1) \<in> set (cl_events (fold (round_step toy_world) [DoSignRoster 5 []] ?c))" ..
  have "sign_sound (w_pr toy_world) (cl_id ?c)" "cl_roster ?c = None" "rc_receiptRound (cl_receipt ?c) = None" "cl_events ?c = []"
    using toy_id_sound by (simp_all add: toy_world_def toy_client_def NewWithIdentity_def zero_receipt_def)
  from rounds_verify [OF this a] a show ?thesis by (auto simp: toy_world_def)
qed

section \<open>The burn waits for the receipt\<close>

abbreviation burn_frame :: "Client \<Rightarrow> Envelope" where
  "burn_frame c \<equiv> Encode OpControl (json_Control \<lparr>ct_Action = ActionScuttle, ct_By = [], ct_ByName = cl_name c, ct_TTLSeconds = 0, ct_Reason = []\<rparr>)"

lemma finalizeReceipt_round:
  assumes "rc_receiptRound (cl_receipt c) = Some r" "rc_receiptOnDone (cl_receipt c) = Some TriggerBurn"
  shows "cl_events (finalizeReceipt w c) = cl_events c @
      [Att (EvScuttleReceipt (NewReceipt (w_pr w) (rc_receiptCore (cl_receipt c)) (co_sigs r) (co_keys r)))]"
    and "cl_sendCh (finalizeReceipt w c) = cl_sendCh c @ [burn_frame c]"
    and "rc_receiptDone (cl_receipt (finalizeReceipt w c))" and "rc_receiptRound (cl_receipt (finalizeReceipt w c)) = None"
  using assms by (simp_all add: finalizeReceipt_def Let_def triggerBurn_def)

text \<open>Claim C28. A manual scuttle collects its receipt before it burns: while other members are present,
  \<open>scuttleBurn\<close> leaves a round open and sends nothing but the request for co-signatures, and
  the burn goes out when the round is finished, right after the receipt was published; a
  member alone in the room gets both at once. No key, a receipt already made or a round
  already open: the room is burnt at once, with no new receipt.\<close>

theorem burn_waits_for_receipt:
  assumes "\<forall>m. IdSign (cl_id c) m \<noteq> None"
  shows "let s = cl_receipt c; d = scuttleBurn w now c in
    if cl_rk c = None \<or> rc_receiptDone s \<or> rc_receiptRound s \<noteq> None
    then cl_sendCh d = cl_sendCh c @ [burn_frame c] \<and> cl_events d = cl_events c
    else if 1 < length (cl_order c)
    then cl_events d = cl_events c \<and> (\<exists>fs. cl_sendCh d = cl_sendCh c @ fs \<and> (\<forall>f \<in> set fs. ev_Type f = OpScuttleReceiptRequest)) \<and>
      (\<exists>r. cl_events (finalizeReceipt w d) = cl_events c @ [Att (EvScuttleReceipt r)]) \<and>
      cl_sendCh (finalizeReceipt w d) = cl_sendCh d @ [burn_frame c]
    else (\<exists>r. cl_events d = cl_events c @ [Att (EvScuttleReceipt r)]) \<and> (\<exists>fs. cl_sendCh d = cl_sendCh c @ fs @ [burn_frame c])"
proof -
  define s where "s = cl_receipt c"
  show ?thesis
  proof (cases "cl_rk c = None \<or> rc_receiptDone s \<or> rc_receiptRound s \<noteq> None")
    case True
    then show ?thesis by (simp add: s_def scuttleBurn_def startReceiptRound_def triggerBurn_def Let_def)
  next
    case False
    let ?core = "receiptCoreLocked w now ScuttleManual c"
    let ?h = "CoreHash (w_pr w) ?core"
    let ?pre = "ScuttleReceiptSigningBytes ?h"
    obtain sig where sig: "IdSign (cl_id c) ?pre = Some sig" using assms by blast
    define r where "r = (newCosignRound ?pre (SelfFpr w c) sig (ki_SignPub (cl_id c)))\<lparr>co_timer := Some (now + sealTimeout)\<rparr>"
    define c1 where "c1 = c\<lparr>cl_receipt := s\<lparr>rc_receiptRound := Some r, rc_receiptCore := ?core, rc_receiptHash := ?h, rc_receiptOnDone := Some TriggerBurn\<rparr>\<rparr>"
    define c2 where "c2 = snd (sendBody w OpScuttleReceiptRequest (json_ScuttleReceiptRequestBody \<lparr>qr_ReceiptHash = Some ?h, qr_RoomID = cl_room c,
       qr_Reason = ScuttleManual, qr_TS = unix now, qr_EpochFirst = er_First (rc_EpochRange ?core), qr_EpochLast = er_Last (rc_EpochRange ?core)\<rparr>) c1)"
    have d: "scuttleBurn w now c = maybeFinalizeReceipt w (length (cl_order c)) c2"
      using False sig by (auto simp: scuttleBurn_def startReceiptRound_def Let_def split_beta s_def c2_def c1_def r_def)
    have c1: "cl_events c1 = cl_events c" "cl_sendCh c1 = cl_sendCh c" "cl_name c1 = cl_name c"
        "rc_receiptRound (cl_receipt c1) = Some r" "rc_receiptOnDone (cl_receipt c1) = Some TriggerBurn"
      by (simp_all add: c1_def)
    have c2: "cl_events c2 = cl_events c" "cl_name c2 = cl_name c"
        "rc_receiptRound (cl_receipt c2) = Some r" "rc_receiptOnDone (cl_receipt c2) = Some TriggerBurn"
      using c1 by (simp_all add: c2_def)
    have q: "\<exists>fs. cl_sendCh c2 = cl_sendCh c @ fs \<and> (\<forall>f \<in> set fs. ev_Type f = OpScuttleReceiptRequest)"
      unfolding c2_def c1(2) [symmetric] using sendBody_queue by blast
    have n: "co_count r = 1" by (simp add: r_def newCosignRound_def co_count_def)
    show ?thesis
      using False finalizeReceipt_round [where w = w, OF c2(3,4)] c2 q n unfolding Let_def d
      by (auto simp: s_def maybeFinalizeReceipt_def)
  qed
qed

theorem burn_waits_for_receipt_witness:
  "let d = scuttleBurn toy_world 5 (toy_client CHR ''a'' [''b'']) in
     cl_events d = [] \<and> cl_sendCh (finalizeReceipt toy_world d) = cl_sendCh d @ [burn_frame (toy_client CHR ''a'' [''b''])]"
proof -
  let ?c = "toy_client CHR ''a'' [''b'']"
  have "\<forall>m. IdSign (cl_id ?c) m \<noteq> None" "cl_rk ?c \<noteq> None" "\<not> rc_receiptDone (cl_receipt ?c)" "rc_receiptRound (cl_receipt ?c) = None"
      "1 < length (cl_order ?c)" "cl_events ?c = []"
    by (simp_all add: toy_defs zero_receipt_def)
  with burn_waits_for_receipt [of ?c toy_world 5] show ?thesis unfolding Let_def by simp
qed

end
