(* ===== verification/Actions.thy ===== *)
theory Actions
  imports Prelude GoText Rounds
begin

text \<open>
  The two-person rule of \<^verbatim>\<open>src/tui/client/action.go\<close>: privileged actions (scuttle, break-glass, runbook) that
  fire only when enough distinct members endorse a request, with the commands of
  \<^verbatim>\<open>client.go\<close> that go through the gate. Every client tracks every request it sees; the one that
  made it runs the action. \<open>action_step\<close> is the set of calls and frames a client can get, in
  any order; a call is atomic, as are the critical sections of the code between which
  nothing of a request is kept.
\<close>

section \<open>Helpers\<close>

definition endorsements :: "trackedAction \<Rightarrow> nat" where
  "endorsements ta = 1 + length (ta_approvers ta)"

definition addApprover :: "string \<Rightarrow> trackedAction \<Rightarrow> trackedAction option" where
  "addApprover fpr ta =
    (if ta_resolved ta \<or> fpr = aq_RequesterFpr (ta_req ta) \<or> fpr \<in> set (ta_approvers ta) then None
     else Some (ta\<lparr>ta_approvers := ta_approvers ta @ [fpr]\<rparr>))"

definition ta_stop :: "trackedAction \<Rightarrow> trackedAction" where
  "ta_stop ta = ta\<lparr>ta_timer := None\<rparr>"

definition actionParamsHash :: "World \<Rightarrow> string \<Rightarrow> string" where
  "actionParamsHash w params = hex_encode (pr_sha256 (w_pr w) params)"

definition actionDisplay :: "string \<Rightarrow> string" where
  "actionDisplay action = (if action = ActionBreakGlass then ''break-glass'' else action)"

definition scuttleNowParams :: "string \<Rightarrow> string" where
  "scuttleNowParams room = ''room='' @ room @ '', reason=manual''"

definition scuttleArmParams :: "string \<Rightarrow> int \<Rightarrow> string" where
  "scuttleArmParams room seconds = ''room='' @ room @ '', reason=armed, after='' @ duration_string (i64 (seconds * second))"

definition breakGlassParams :: "string list option \<Rightarrow> int \<Rightarrow> string" where
  "breakGlassParams invitees ttlSeconds =
    (let who = (if go_len invitees > 0 then join '','' (the invitees) else ''no one'')
     in ''invite='' @ who @ '', ttl='' @ duration_string (i64 (ttlSeconds * second)))"

text \<open>The bytes an approval signs: with a declared meaning the second layout, bare the first.\<close>

definition approvalBytes :: "ActionRequestBody \<Rightarrow> string \<Rightarrow> string \<Rightarrow> string \<Rightarrow> string \<Rightarrow> bytes" where
  "approvalBytes req fpr meaning name signedAt =
    (if meaning \<noteq> [] then ActionApprovalSigningBytesV2 (aq_RequestID req) (aq_ParamsHash req) fpr (aq_Nonce req) meaning name signedAt
     else ActionApprovalSigningBytes (aq_RequestID req) (aq_ParamsHash req) fpr (aq_Nonce req))"

section \<open>Timers and lookup\<close>

definition armActionTimerLocked :: "go_time \<Rightarrow> trackedAction \<Rightarrow> trackedAction" where
  "armActionTimerLocked now ta =
    (let rem = aq_ExpiresUnix (ta_req ta) * second - now;
         d = (if aq_ExpiresUnix (ta_req ta) > 0 \<and> rem > 0 then rem else actionRequestTTL)
     in ta\<lparr>ta_timer := Some (now + d)\<rparr>)"

definition resolveActionIDLocked :: "string \<Rightarrow> Client \<Rightarrow> string option" where
  "resolveActionIDLocked pre c =
    (case mget (cl_actions c) pre of
       Some ta \<Rightarrow> if \<not> ta_resolved ta then Some pre
         else (case filter (\<lambda>(i, ta). \<not> ta_resolved ta \<and> has_prefix pre i) (cl_actions c) of [(i, _)] \<Rightarrow> Some i | _ \<Rightarrow> None)
     | None \<Rightarrow> (case filter (\<lambda>(i, ta). \<not> ta_resolved ta \<and> has_prefix pre i) (cl_actions c) of [(i, _)] \<Rightarrow> Some i | _ \<Rightarrow> None))"

definition clearActionsLocked :: "Client \<Rightarrow> Client" where
  "clearActionsLocked c = c\<lparr>cl_actions := []\<rparr>"

section \<open>The raw primitives\<close>

definition armCountdown :: "int \<Rightarrow> Client \<Rightarrow> Client" where
  "armCountdown seconds c = enqueue OpControl (json_Control \<lparr>ct_Action = ActionScuttleArm, ct_By = [], ct_ByName = cl_name c,
     ct_TTLSeconds = seconds, ct_Reason = []\<rparr>) c"

definition breakGlassSend :: "string list option \<Rightarrow> int \<Rightarrow> Client \<Rightarrow> Client" where
  "breakGlassSend invitees ttlSeconds c = enqueue OpBreakGlass (json_BreakGlass \<lparr>bg_Invitees = invitees, bg_TTLSeconds = ttlSeconds\<rparr>) c"

fun runPerform :: "World \<Rightarrow> go_time \<Rightarrow> perform \<Rightarrow> Client \<Rightarrow> Client" where
  "runPerform w now ScuttleBurn c = scuttleBurn w now c"
| "runPerform w now (ArmCountdown s) c = armCountdown s c"
| "runPerform w now (BreakGlassSend invitees ttl) c = breakGlassSend invitees ttl c"
| "runPerform w now (Callback n) c = c"

section \<open>Requests\<close>

definition RequestAction :: "World \<Rightarrow> go_time \<Rightarrow> string \<Rightarrow> string \<Rightarrow> int \<Rightarrow> perform \<Rightarrow> Client \<Rightarrow> (client_error + string) \<times> Client" where
  "RequestAction w now action params quorum onApprove c =
    (if quorum < 2 then (Inl (ActionErr QuorumTooSmall), c)
     else if cl_rk c = None then (Inl NoRoomKey, c)
     else let (requestID, c) = newRequestID w c;
              (nonce, c) = newRequestID w c;
              body = \<lparr>aq_RequestID = requestID, aq_Action = action, aq_ParamsHash = actionParamsHash w params, aq_Params = params,
                aq_RequesterFpr = SelfFpr w c, aq_Room = cl_room c, aq_QuorumNeeded = quorum,
                aq_ExpiresUnix = unix (now + actionRequestTTL), aq_Nonce = nonce\<rparr>;
              ta = armActionTimerLocked now \<lparr>ta_req = body, ta_fromName = cl_name c, ta_approvers = [], ta_approved = False,
                ta_initiator = True, ta_onApprove = Some onApprove, ta_timer = None, ta_resolved = False\<rparr>;
              c = c\<lparr>cl_actions := mput requestID ta (cl_actions c)\<rparr>;
              (err, c) = sendBody w OpActionRequest (json_ActionRequestBody body) c
     in case err of
          Some e \<Rightarrow> (Inl e, c\<lparr>cl_actions := mdel requestID (cl_actions c)\<rparr>)
        | None \<Rightarrow> (Inr requestID, emit (Act (EvActionRequest requestID action params (aq_ParamsHash body) (cl_name c) (SelfFpr w c)
            quorum (aq_ExpiresUnix body) True now)) c))"

definition gateAction :: "World \<Rightarrow> go_time \<Rightarrow> string \<Rightarrow> string \<Rightarrow> perform \<Rightarrow> Client \<Rightarrow> client_error option \<times> Client" where
  "gateAction w now action params p c =
    (let q = quorumFor action c
     in if q = 0 then (Some (ActionErr (ActionDisabled action)), c)
        else if q \<le> 1 then (None, runPerform w now p c)
        else if \<not> canGateQuorum c then (Some (ActionErr (RelaylessGate action q)), c)
        else case RequestAction w now action params q p c of (Inl e, c) \<Rightarrow> (Some e, c) | (Inr _, c) \<Rightarrow> (None, c))"

definition ScuttleNow :: "World \<Rightarrow> go_time \<Rightarrow> Client \<Rightarrow> client_error option \<times> Client" where
  "ScuttleNow w now c = gateAction w now ActionScuttleAction (scuttleNowParams (cl_room c)) ScuttleBurn c"

definition ScuttleArm :: "World \<Rightarrow> go_time \<Rightarrow> int \<Rightarrow> Client \<Rightarrow> client_error option \<times> Client" where
  "ScuttleArm w now seconds c = gateAction w now ActionScuttleAction (scuttleArmParams (cl_room c) seconds) (ArmCountdown seconds) c"

definition BreakGlassCmd :: "World \<Rightarrow> go_time \<Rightarrow> string list option \<Rightarrow> int \<Rightarrow> Client \<Rightarrow> client_error option \<times> Client" where
  "BreakGlassCmd w now invitees ttlSeconds c =
    gateAction w now ActionBreakGlass (breakGlassParams invitees ttlSeconds) (BreakGlassSend invitees ttlSeconds) c"

section \<open>Approvals\<close>

definition countApproval :: "World \<Rightarrow> go_time \<Rightarrow> string \<Rightarrow> string \<Rightarrow> string \<Rightarrow> string \<Rightarrow> bool \<Rightarrow> Client \<Rightarrow> Client" where
  "countApproval w now requestID approverName approverFpr meaning self c =
    (case mget (cl_actions c) requestID of
       None \<Rightarrow> c
     | Some ta \<Rightarrow>
        (case addApprover approverFpr ta of
           None \<Rightarrow> c
         | Some ta \<Rightarrow>
            (let n = endorsements ta; action = aq_Action (ta_req ta); needed = aq_QuorumNeeded (ta_req ta);
                 reached = (int n \<ge> needed);
                 c = (if reached then c\<lparr>cl_actions := mdel requestID (cl_actions c)\<rparr>
                      else c\<lparr>cl_actions := mput requestID ta (cl_actions c)\<rparr>);
                 c = emit (Act (EvActionApproval requestID action approverName approverFpr meaning n needed self now)) c
             in if \<not> reached then c
                else let c = (case ta_onApprove ta of
                         None \<Rightarrow> c
                       | Some p \<Rightarrow> runPerform w now p (c\<lparr>cl_fired := cl_fired c @ [ta]\<rparr>))
                in emit (Act (EvActionExecuted requestID action (ta_fromName ta) (aq_RequesterFpr (ta_req ta)) needed (ta_initiator ta) now)) c)))"

text \<open>The signed body of an approval.\<close>

definition makeApproval :: "World \<Rightarrow> go_time \<Rightarrow> KeyIdentity \<Rightarrow> string \<Rightarrow> string \<Rightarrow> ActionRequestBody \<Rightarrow> ActionApprovalBody option" where
  "makeApproval w now i name meaning req =
    (let fpr = IdFingerprint (w_pr w) i;
         signedAt = pr_format_time (w_pr w) now
     in case IdSign i (approvalBytes req fpr meaning name signedAt) of
          None \<Rightarrow> None
        | Some sig \<Rightarrow> Some \<lparr>aa_RequestID = aq_RequestID req, aa_ParamsHash = aq_ParamsHash req, aa_ApproverFpr = fpr, aa_Sig = Some sig,
            aa_Meaning = meaning, aa_Name = (if meaning \<noteq> [] then name else []), aa_SignedAt = (if meaning \<noteq> [] then signedAt else [])\<rparr>)"

definition ApproveActionAs :: "World \<Rightarrow> go_time \<Rightarrow> string \<Rightarrow> string \<Rightarrow> Client \<Rightarrow> client_error option \<times> Client" where
  "ApproveActionAs w now requestID meaning c =
    (case resolveActionIDLocked requestID c of
       None \<Rightarrow> (Some (ActionErr (NoPendingAction requestID)), c)
     | Some i \<Rightarrow>
        (let ta = the (mget (cl_actions c) i); req = ta_req ta
         in if ta_resolved ta then (Some (ActionErr ActionResolved), c)
            else if aq_RequesterFpr req = SelfFpr w c then (Some (ActionErr OwnRequest), c)
            else if ta_approved ta then (Some (ActionErr AlreadyApproved), c)
            else if actionParamsHash w (aq_Params req) \<noteq> aq_ParamsHash req then (Some (ActionErr ParamsMismatch), c)
            else if cl_rk c = None then (Some NoRoomKey, c)
            else case makeApproval w now (cl_id c) (cl_name c) meaning req of
              None \<Rightarrow> (Some SignErr, c)
            | Some ab \<Rightarrow>
               (let (err, c) = sendBody w OpActionApproval (json_ActionApprovalBody ab) c
                in case err of
                     Some e \<Rightarrow> (Some e, c)
                   | None \<Rightarrow>
                      (case mget (cl_actions c) (aq_RequestID req) of
                         None \<Rightarrow> (None, c)
                       | Some ta \<Rightarrow>
                          (if ta_resolved ta then (None, c)
                           else (None, countApproval w now (aq_RequestID req) (cl_name c) (SelfFpr w c) meaning True
                             (c\<lparr>cl_actions := mput (aq_RequestID req) (ta\<lparr>ta_approved := True\<rparr>) (cl_actions c)\<rparr>)))))))"

definition ApproveAction :: "World \<Rightarrow> go_time \<Rightarrow> string \<Rightarrow> Client \<Rightarrow> client_error option \<times> Client" where
  "ApproveAction w now requestID c = ApproveActionAs w now requestID MeaningApproved c"

definition VetoAction :: "World \<Rightarrow> go_time \<Rightarrow> string \<Rightarrow> string \<Rightarrow> Client \<Rightarrow> client_error option \<times> Client" where
  "VetoAction w now requestID reason c =
    (case resolveActionIDLocked requestID c of
       None \<Rightarrow> (Some (ActionErr (NoPendingAction requestID)), c)
     | Some i \<Rightarrow>
        (let ta = the (mget (cl_actions c) i)
         in if ta_resolved ta then (Some (ActionErr ActionResolved), c)
            else let action = aq_Action (ta_req ta);
                     c = c\<lparr>cl_actions := mdel i (cl_actions c)\<rparr>
            in if cl_rk c = None then (Some NoRoomKey, c)
               else let (err, c) = sendBody w OpActionVeto (json_ActionVetoBody \<lparr>av_RequestID = i, av_VetoerFpr = SelfFpr w c, av_Reason = reason\<rparr>) c
               in case err of
                    Some e \<Rightarrow> (Some e, c)
                  | None \<Rightarrow> (None, emit (Act (EvActionVetoed i action (cl_name c) (SelfFpr w c) reason True now)) c)))"

record PendingAction =
  pd_RequestID :: string
  pd_Action :: string
  pd_Params :: string
  pd_RequesterName :: string
  pd_RequesterFpr :: string
  pd_Count :: nat
  pd_Needed :: int
  pd_ExpiresUnix :: int
  pd_Initiator :: bool
  pd_Approved :: bool

definition PendingActions :: "Client \<Rightarrow> PendingAction list" where
  "PendingActions c = sort_key pd_RequestID
    (map (\<lambda>(_, ta). \<lparr>pd_RequestID = aq_RequestID (ta_req ta), pd_Action = aq_Action (ta_req ta), pd_Params = aq_Params (ta_req ta),
        pd_RequesterName = ta_fromName ta, pd_RequesterFpr = aq_RequesterFpr (ta_req ta), pd_Count = endorsements ta,
        pd_Needed = aq_QuorumNeeded (ta_req ta), pd_ExpiresUnix = aq_ExpiresUnix (ta_req ta), pd_Initiator = ta_initiator ta,
        pd_Approved = (ta_approved ta \<or> ta_initiator ta)\<rparr>)
      (filter (\<lambda>(_, ta). \<not> ta_resolved ta) (cl_actions c)))"

section \<open>Incoming frames\<close>

definition onActionRequest :: "go_time \<Rightarrow> string \<Rightarrow> string \<Rightarrow> ActionRequestBody \<Rightarrow> Client \<Rightarrow> Client" where
  "onActionRequest now senderName senderFpr body c =
    (if aq_RequestID body = [] \<or> aq_QuorumNeeded body < 1 then c
     else if aq_RequesterFpr body \<noteq> senderFpr then emit (EvError (ActionErr (RequesterMismatch senderName))) c
     else if aq_ExpiresUnix body > 0 \<and> unix now \<ge> aq_ExpiresUnix body then c
     else if mget (cl_actions c) (aq_RequestID body) \<noteq> None then c
     else let ta = armActionTimerLocked now \<lparr>ta_req = body, ta_fromName = senderName, ta_approvers = [], ta_approved = False,
                ta_initiator = False, ta_onApprove = None, ta_timer = None, ta_resolved = False\<rparr>
          in emit (Act (EvActionRequest (aq_RequestID body) (aq_Action body) (aq_Params body) (aq_ParamsHash body) senderName
               (aq_RequesterFpr body) (aq_QuorumNeeded body) (aq_ExpiresUnix body) False now))
             (c\<lparr>cl_actions := mput (aq_RequestID body) ta (cl_actions c)\<rparr>))"

definition onActionApproval :: "World \<Rightarrow> go_time \<Rightarrow> string \<Rightarrow> bytes \<Rightarrow> ActionApprovalBody \<Rightarrow> Client \<Rightarrow> Client" where
  "onActionApproval w now senderName senderPub body c =
    (case mget (cl_actions c) (aa_RequestID body) of
       None \<Rightarrow> c
     | Some ta \<Rightarrow>
        (if ta_resolved ta then c
         else let req = ta_req ta; signerFpr = Fingerprint (w_pr w) senderPub
         in if aa_ParamsHash body \<noteq> aq_ParamsHash req then emit (EvError (ActionErr (ApprovalHashMismatch senderName))) c
            else if aa_ApproverFpr body \<noteq> signerFpr then emit (EvError (ActionErr (ApproverMismatch senderName))) c
            else if length senderPub \<noteq> PublicKeySize \<or>
                \<not> pr_verify (w_pr w) senderPub (approvalBytes req (aa_ApproverFpr body) (aa_Meaning body) (aa_Name body) (aa_SignedAt body))
                   (go_bytes (aa_Sig body))
              then emit (EvError (ActionErr (ApprovalInvalid senderName))) c
            else countApproval w now (aa_RequestID body) senderName signerFpr (aa_Meaning body) False c))"

definition onActionVeto :: "go_time \<Rightarrow> string \<Rightarrow> string \<Rightarrow> ActionVetoBody \<Rightarrow> Client \<Rightarrow> Client" where
  "onActionVeto now senderName senderFpr body c =
    (case mget (cl_actions c) (av_RequestID body) of
       None \<Rightarrow> c
     | Some ta \<Rightarrow>
        (if ta_resolved ta then c
         else emit (Act (EvActionVetoed (av_RequestID body) (aq_Action (ta_req ta)) senderName senderFpr (av_Reason body) False now))
           (c\<lparr>cl_actions := mdel (av_RequestID body) (cl_actions c)\<rparr>)))"

definition expireAction :: "go_time \<Rightarrow> string \<Rightarrow> Client \<Rightarrow> Client" where
  "expireAction now requestID c =
    (case mget (cl_actions c) requestID of
       None \<Rightarrow> c
     | Some ta \<Rightarrow>
        (if ta_resolved ta then c
         else emit (Act (EvActionExpired requestID (aq_Action (ta_req ta)) (endorsements ta) (aq_QuorumNeeded (ta_req ta)) now))
           (c\<lparr>cl_actions := mdel requestID (cl_actions c)\<rparr>)))"

section \<open>What a client can be asked\<close>

datatype action_input =
    DoRequest go_time string string int perform
  | DoApprove go_time string string
  | DoVeto go_time string string
  | GetRequest go_time string string ActionRequestBody
  | GetApproval go_time string bytes ActionApprovalBody
  | GetVeto go_time string string ActionVetoBody
  | Expire go_time string
  | ClearActions

fun action_step :: "World \<Rightarrow> action_input \<Rightarrow> Client \<Rightarrow> Client" where
  "action_step w (DoRequest now action params q p) c = snd (RequestAction w now action params q p c)"
| "action_step w (DoApprove now rid meaning) c = snd (ApproveActionAs w now rid meaning c)"
| "action_step w (DoVeto now rid reason) c = snd (VetoAction w now rid reason c)"
| "action_step w (GetRequest now name fpr body) c = onActionRequest now name fpr body c"
| "action_step w (GetApproval now name pub body) c = onActionApproval w now name pub body c"
| "action_step w (GetVeto now name fpr body) c = onActionVeto now name fpr body c"
| "action_step w (Expire now rid) c = expireAction now rid c"
| "action_step w ClearActions c = clearActionsLocked c"

text \<open>The clients that hold a given history of inputs, starting with nothing tracked.\<close>

inductive history :: "World \<Rightarrow> Client \<Rightarrow> action_input list \<Rightarrow> Client \<Rightarrow> bool" for w c0 where
  start: "cl_actions c0 = [] \<Longrightarrow> cl_fired c0 = [] \<Longrightarrow> history w c0 [] c0"
| step: "history w c0 tr c \<Longrightarrow> history w c0 (tr @ [x]) (action_step w x c)"

inductive_cases history_startE: "history w c0 [] c"

section \<open>Counting callbacks\<close>

definition armed :: "(string, trackedAction) gomap \<Rightarrow> nat" where
  "armed m = length (filter (\<lambda>(_, ta). ta_onApprove ta \<noteq> None) m)"

lemma armed_Nil [simp]: "armed [] = 0"
  by (simp add: armed_def)

lemma armed_mput: "armed (mput k ta m) \<le> Suc (armed m)"
  by (induction m) (auto simp: armed_def)

lemma armed_mput_quiet: "ta_onApprove ta = None \<Longrightarrow> armed (mput k ta m) \<le> armed m"
  by (induction m) (auto simp: armed_def)

lemma armed_mput_same:
  "mget m k = Some old \<Longrightarrow> (ta_onApprove ta = None) = (ta_onApprove old = None) \<Longrightarrow> armed (mput k ta m) = armed m"
  by (induction m) (auto simp: armed_def split: if_splits)

lemma armed_mdel: "armed (mdel k m) \<le> armed m"
  by (induction m) (auto simp: armed_def)

lemma armed_mdel_hit: "mget m k = Some ta \<Longrightarrow> ta_onApprove ta \<noteq> None \<Longrightarrow> Suc (armed (mdel k m)) \<le> armed m"
proof (induction m)
  case Nil
  then show ?case by simp
next
  case (Cons a m)
  then show ?case using armed_mdel [of k m] by (cases a) (auto simp: armed_def split: if_splits)
qed

section \<open>What a tracked request has collected\<close>

text \<open>The history holds an approval of this very request, signed by the key with that fingerprint.\<close>

definition evidence :: "World \<Rightarrow> action_input list \<Rightarrow> ActionRequestBody \<Rightarrow> string \<Rightarrow> bool" where
  "evidence w tr req fpr \<longleftrightarrow> (\<exists>t name pub b. GetApproval t name pub b \<in> set tr \<and> Fingerprint (w_pr w) pub = fpr \<and>
     length pub = PublicKeySize \<and> aa_RequestID b = aq_RequestID req \<and> aa_ParamsHash b = aq_ParamsHash req \<and>
     pr_verify (w_pr w) pub (approvalBytes req fpr (aa_Meaning b) (aa_Name b) (aa_SignedAt b)) (go_bytes (aa_Sig b)))"

lemma evidence_mono: "evidence w tr req fpr \<Longrightarrow> evidence w (tr @ xs) req fpr"
  unfolding evidence_def by auto

text \<open>A request is held under its own id, its approvers are distinct and leave out the requester,
  each of them is this member or has evidence, and only own requests for two or more have
  something to run.\<close>

definition tracked_ok :: "World \<Rightarrow> string \<Rightarrow> action_input list \<Rightarrow> string \<Rightarrow> trackedAction \<Rightarrow> bool" where
  "tracked_ok w self tr i ta \<longleftrightarrow> aq_RequestID (ta_req ta) = i \<and> distinct (ta_approvers ta) \<and>
     aq_RequesterFpr (ta_req ta) \<notin> set (ta_approvers ta) \<and>
     (\<forall>f \<in> set (ta_approvers ta). f = self \<or> evidence w tr (ta_req ta) f) \<and>
     (ta_onApprove ta \<noteq> None \<longrightarrow> ta_initiator ta \<and> aq_RequesterFpr (ta_req ta) = self \<and> 2 \<le> aq_QuorumNeeded (ta_req ta))"

text \<open>A request whose callback was run.\<close>

definition cleared :: "World \<Rightarrow> string \<Rightarrow> action_input list \<Rightarrow> trackedAction \<Rightarrow> bool" where
  "cleared w self tr ta \<longleftrightarrow> ta_initiator ta \<and> aq_RequesterFpr (ta_req ta) = self \<and> 2 \<le> aq_QuorumNeeded (ta_req ta) \<and>
     distinct (ta_approvers ta) \<and> self \<notin> set (ta_approvers ta) \<and>
     aq_QuorumNeeded (ta_req ta) \<le> int (1 + length (ta_approvers ta)) \<and>
     (\<forall>f \<in> set (ta_approvers ta). evidence w tr (ta_req ta) f)"

definition requests :: "action_input list \<Rightarrow> nat" where
  "requests tr = length (filter (\<lambda>x. case x of DoRequest _ _ _ _ _ \<Rightarrow> True | _ \<Rightarrow> False) tr)"

definition gate_inv :: "World \<Rightarrow> string \<Rightarrow> action_input list \<Rightarrow> Client \<Rightarrow> bool" where
  "gate_inv w self tr c \<longleftrightarrow> SelfFpr w c = self \<and>
     (\<forall>i ta. mget (cl_actions c) i = Some ta \<longrightarrow> tracked_ok w self tr i ta) \<and>
     (\<forall>ta \<in> set (cl_fired c). cleared w self tr ta) \<and> armed (cl_actions c) + length (cl_fired c) \<le> requests tr"

lemma tracked_ok_mono: "tracked_ok w self tr i ta \<Longrightarrow> tracked_ok w self (tr @ xs) i ta"
  unfolding tracked_ok_def using evidence_mono by blast

lemma cleared_mono: "cleared w self tr ta \<Longrightarrow> cleared w self (tr @ xs) ta"
  unfolding cleared_def using evidence_mono by blast

lemma requests_snoc: "requests tr \<le> requests (tr @ [x])"
  by (simp add: requests_def)

lemma requests_DoRequest: "requests (tr @ [DoRequest a b d e f]) = Suc (requests tr)"
  by (simp add: requests_def)

lemma gate_inv_mono: "gate_inv w self tr c \<Longrightarrow> gate_inv w self (tr @ [x]) c"
  unfolding gate_inv_def using tracked_ok_mono cleared_mono requests_snoc [of tr x] by (meson le_trans)

lemma gate_inv_cong:
  "cl_id c = cl_id d \<Longrightarrow> cl_actions c = cl_actions d \<Longrightarrow> cl_fired c = cl_fired d \<Longrightarrow> gate_inv w self tr c = gate_inv w self tr d"
  by (simp add: gate_inv_def SelfFpr_def)

lemma gate_inv_out [simp]:
  "gate_inv w self tr (emit ev c) = gate_inv w self tr c"
  "gate_inv w self tr (enqueue op j c) = gate_inv w self tr c"
  "gate_inv w self tr (snd (sendBody w' op j c)) = gate_inv w self tr c"
  by (rule gate_inv_cong; simp)+

lemma scuttle_frame [simp]:
  "cl_actions (scuttleBurn w now c) = cl_actions c" "cl_fired (scuttleBurn w now c) = cl_fired c" "cl_id (scuttleBurn w now c) = cl_id c"
proof -
  have d: "cl_actions (runOnDone d x) = cl_actions x \<and> cl_fired (runOnDone d x) = cl_fired x \<and> cl_id (runOnDone d x) = cl_id x" for d x
    by (cases "(d, x)" rule: runOnDone.cases) (simp_all add: triggerBurn_def)
  have f: "cl_actions (maybeFinalizeReceipt w n x) = cl_actions x \<and> cl_fired (maybeFinalizeReceipt w n x) = cl_fired x \<and>
      cl_id (maybeFinalizeReceipt w n x) = cl_id x" for n x
    by (simp add: maybeFinalizeReceipt_def finalizeReceipt_def Let_def d split: option.split)
  have "cl_actions (scuttleBurn w now c) = cl_actions c \<and> cl_fired (scuttleBurn w now c) = cl_fired c \<and> cl_id (scuttleBurn w now c) = cl_id c"
    by (simp add: scuttleBurn_def startReceiptRound_def Let_def split_beta triggerBurn_def f split: option.split)
  then show "cl_actions (scuttleBurn w now c) = cl_actions c" "cl_fired (scuttleBurn w now c) = cl_fired c" "cl_id (scuttleBurn w now c) = cl_id c"
    by simp_all
qed

lemma perform_frame [simp]:
  "cl_actions (runPerform w now p c) = cl_actions c" "cl_fired (runPerform w now p c) = cl_fired c" "cl_id (runPerform w now p c) = cl_id c"
  by (cases p; simp add: armCountdown_def breakGlassSend_def)+

text \<open>Dropping a request keeps the invariant, as does tracking one that is in order.\<close>

lemma gate_inv_drop: "gate_inv w self tr c \<Longrightarrow> gate_inv w self tr (c\<lparr>cl_actions := mdel i (cl_actions c)\<rparr>)"
  unfolding gate_inv_def using armed_mdel [of i "cl_actions c"] by (auto simp: SelfFpr_def)

lemma gate_inv_track:
  assumes "gate_inv w self tr c" "tracked_ok w self tr i ta" "armed (mput i ta (cl_actions c)) + length (cl_fired c) \<le> requests tr"
  shows "gate_inv w self tr (c\<lparr>cl_actions := mput i ta (cl_actions c)\<rparr>)"
  using assms unfolding gate_inv_def by (auto simp: SelfFpr_def)

lemma countApproval_inv:
  assumes "gate_inv w self tr c" "\<And>ta. mget (cl_actions c) i = Some ta \<Longrightarrow> f = self \<or> evidence w tr (ta_req ta) f"
  shows "gate_inv w self tr (countApproval w now i name f meaning b c)"
proof (cases "mget (cl_actions c) i")
  case None
  then show ?thesis using assms(1) by (simp add: countApproval_def)
next
  case (Some ta)
  show ?thesis
  proof (cases "addApprover f ta")
    case None
    then show ?thesis using Some assms(1) by (simp add: countApproval_def)
  next
    case (Some ta')
    then have t: "ta' = ta\<lparr>ta_approvers := ta_approvers ta @ [f]\<rparr>" "f \<noteq> aq_RequesterFpr (ta_req ta)" "f \<notin> set (ta_approvers ta)"
      by (simp_all add: addApprover_def split: if_splits)
    have ok: "tracked_ok w self tr i ta" using assms(1) \<open>mget (cl_actions c) i = Some ta\<close> by (simp add: gate_inv_def)
    then have ok': "tracked_ok w self tr i ta'"
      using t assms(2) [OF \<open>mget (cl_actions c) i = Some ta\<close>] by (auto simp: tracked_ok_def)
    show ?thesis
    proof (cases "aq_QuorumNeeded (ta_req ta') \<le> int (endorsements ta')")
      case False
      have "armed (mput i ta' (cl_actions c)) = armed (cl_actions c)"
        by (rule armed_mput_same [OF \<open>mget (cl_actions c) i = Some ta\<close>]) (simp add: t)
      then have "gate_inv w self tr (c\<lparr>cl_actions := mput i ta' (cl_actions c)\<rparr>)"
        using assms(1) ok' by (intro gate_inv_track) (simp_all add: gate_inv_def)
      then show ?thesis using \<open>mget (cl_actions c) i = Some ta\<close> Some False by (simp add: countApproval_def Let_def)
    next
      case True
      show ?thesis
      proof (cases "ta_onApprove ta'")
        case None
        then show ?thesis using \<open>mget (cl_actions c) i = Some ta\<close> Some True gate_inv_drop [OF assms(1), of i]
          by (simp add: countApproval_def Let_def)
      next
        case (Some p)
        have "cleared w self tr ta'"
          using ok' Some True by (auto simp: tracked_ok_def cleared_def endorsements_def)
        moreover have "Suc (armed (mdel i (cl_actions c))) \<le> armed (cl_actions c)"
          using armed_mdel_hit [OF \<open>mget (cl_actions c) i = Some ta\<close>] Some t by simp
        ultimately have "gate_inv w self tr (c\<lparr>cl_actions := mdel i (cl_actions c), cl_fired := cl_fired c @ [ta']\<rparr>)"
          using assms(1) by (auto simp: gate_inv_def SelfFpr_def)
        then have "gate_inv w self tr (runPerform w now p (emit ev (c\<lparr>cl_actions := mdel i (cl_actions c)\<rparr>)\<lparr>cl_fired := cl_fired c @ [ta']\<rparr>))" for ev
          by (subst gate_inv_cong [of _ "c\<lparr>cl_actions := mdel i (cl_actions c), cl_fired := cl_fired c @ [ta']\<rparr>"]) simp_all
        then show ?thesis using \<open>mget (cl_actions c) i = Some ta\<close> \<open>addApprover f ta = Some ta'\<close> Some True
          by (simp add: countApproval_def Let_def)
      qed
    qed
  qed
qed

lemma newRequestID_frame [simp]:
  "cl_actions (snd (newRequestID w c)) = cl_actions c" "cl_fired (snd (newRequestID w c)) = cl_fired c" "cl_id (snd (newRequestID w c)) = cl_id c"
  "cl_room (snd (newRequestID w c)) = cl_room c" "cl_name (snd (newRequestID w c)) = cl_name c" "cl_rk (snd (newRequestID w c)) = cl_rk c"
  by (simp_all add: newRequestID_def draw_def)

lemma armTimer_frame [simp]:
  "ta_req (armActionTimerLocked now ta) = ta_req ta" "ta_approvers (armActionTimerLocked now ta) = ta_approvers ta"
  "ta_onApprove (armActionTimerLocked now ta) = ta_onApprove ta" "ta_initiator (armActionTimerLocked now ta) = ta_initiator ta"
  by (simp_all add: armActionTimerLocked_def Let_def)

lemma gate_inv_self: "gate_inv w self tr c \<Longrightarrow> SelfFpr w c = self"
  by (simp add: gate_inv_def)

lemma RequestAction_inv:
  assumes "gate_inv w self tr c"
  shows "gate_inv w self (tr @ [DoRequest now action params q p]) (snd (RequestAction w now action params q p c))"
proof (cases "q < 2 \<or> cl_rk c = None")
  case True
  then show ?thesis using gate_inv_mono [OF assms] by (auto simp: RequestAction_def)
next
  case False
  let ?tr = "tr @ [DoRequest now action params q p]"
  define c1 where "c1 = snd (newRequestID w (snd (newRequestID w c)))"
  define i where "i = fst (newRequestID w c)"
  define n where "n = fst (newRequestID w (snd (newRequestID w c)))"
  define body where "body = \<lparr>aq_RequestID = i, aq_Action = action, aq_ParamsHash = actionParamsHash w params, aq_Params = params,
    aq_RequesterFpr = SelfFpr w c1, aq_Room = cl_room c1, aq_QuorumNeeded = q, aq_ExpiresUnix = unix (now + actionRequestTTL), aq_Nonce = n\<rparr>"
  define ta where "ta = armActionTimerLocked now \<lparr>ta_req = body, ta_fromName = cl_name c1, ta_approvers = [], ta_approved = False,
    ta_initiator = True, ta_onApprove = Some p, ta_timer = None, ta_resolved = False\<rparr>"
  define c2 where "c2 = c1\<lparr>cl_actions := mput i ta (cl_actions c1)\<rparr>"
  define r where "r = sendBody w OpActionRequest (json_ActionRequestBody body) c2"
  have "gate_inv w self tr c1" using assms by (subst gate_inv_cong [of c1 c]) (simp_all add: c1_def)
  then have c1: "gate_inv w self ?tr c1" and le: "armed (cl_actions c1) + length (cl_fired c1) \<le> requests tr"
    using gate_inv_mono by (blast, simp add: gate_inv_def)
  have "tracked_ok w self ?tr i ta"
    using False gate_inv_self [OF c1] by (simp add: tracked_ok_def ta_def body_def)
  moreover have "armed (mput i ta (cl_actions c1)) + length (cl_fired c1) \<le> requests ?tr"
    using armed_mput [of i ta "cl_actions c1"] le by (simp add: requests_DoRequest)
  ultimately have c2: "gate_inv w self ?tr c2" unfolding c2_def using c1 by (intro gate_inv_track)
  then have s: "gate_inv w self ?tr (snd r)" by (simp add: r_def)
  show ?thesis
  proof (cases "fst r")
    case None
    then show ?thesis using False s
      by (auto simp: RequestAction_def Let_def split_beta r_def c2_def ta_def body_def i_def n_def c1_def)
  next
    case (Some e)
    then show ?thesis using False gate_inv_drop [OF s, of i]
      by (auto simp: RequestAction_def Let_def split_beta r_def c2_def ta_def body_def i_def n_def c1_def)
  qed
qed

lemma own_approval_inv:
  assumes "gate_inv w self tr d" "cl_actions d = m" "mget m j = Some ta"
  shows "gate_inv w self tr (countApproval w now j name (SelfFpr w d) meaning True (d\<lparr>cl_actions := mput j (ta\<lparr>ta_approved := True\<rparr>) m\<rparr>))"
proof (rule countApproval_inv)
  have "tracked_ok w self tr j (ta\<lparr>ta_approved := True\<rparr>)" using assms by (auto simp: gate_inv_def tracked_ok_def)
  moreover have "armed (mput j (ta\<lparr>ta_approved := True\<rparr>) (cl_actions d)) = armed (cl_actions d)"
    using assms(2,3) by (intro armed_mput_same [of _ _ ta]) simp_all
  ultimately have "gate_inv w self tr (d\<lparr>cl_actions := mput j (ta\<lparr>ta_approved := True\<rparr>) (cl_actions d)\<rparr>)"
    using assms(1) by (intro gate_inv_track) (simp_all add: gate_inv_def)
  then show "gate_inv w self tr (d\<lparr>cl_actions := mput j (ta\<lparr>ta_approved := True\<rparr>) m\<rparr>)" using assms(2) by simp
qed (use gate_inv_self [OF assms(1)] in simp)

lemma ApproveActionAs_inv:
  assumes "gate_inv w self tr c"
  shows "gate_inv w self tr (snd (ApproveActionAs w now rid meaning c))"
  using assms by (auto simp: ApproveActionAs_def Let_def split_beta split: option.split intro!: own_approval_inv)

lemma onActionApproval_inv:
  assumes "gate_inv w self tr c"
  shows "gate_inv w self (tr @ [GetApproval now name pub b]) (onActionApproval w now name pub b c)"
proof -
  let ?tr = "tr @ [GetApproval now name pub b]"
  have i: "gate_inv w self ?tr c" using gate_inv_mono [OF assms] .
  show ?thesis
  proof (cases "mget (cl_actions c) (aa_RequestID b)")
    case None
    then show ?thesis using i by (simp add: onActionApproval_def)
  next
    case (Some ta)
    define ok where "ok \<longleftrightarrow> aa_ParamsHash b = aq_ParamsHash (ta_req ta) \<and> aa_ApproverFpr b = Fingerprint (w_pr w) pub \<and>
      length pub = PublicKeySize \<and> pr_verify (w_pr w) pub (approvalBytes (ta_req ta) (aa_ApproverFpr b) (aa_Meaning b) (aa_Name b) (aa_SignedAt b)) (go_bytes (aa_Sig b))"
    have "ok \<Longrightarrow> evidence w ?tr (ta_req ta) (Fingerprint (w_pr w) pub)"
      using i Some unfolding ok_def evidence_def gate_inv_def tracked_ok_def
      by (intro exI [of _ now] exI [of _ name] exI [of _ pub] exI [of _ b]) auto
    then have "ok \<Longrightarrow> gate_inv w self ?tr (countApproval w now (aa_RequestID b) name (Fingerprint (w_pr w) pub) (aa_Meaning b) False c)"
      using Some by (intro countApproval_inv [OF i]) auto
    then show ?thesis using Some i by (auto simp: onActionApproval_def Let_def ok_def)
  qed
qed

lemma onActionRequest_inv:
  assumes "gate_inv w self tr c"
  shows "gate_inv w self tr (onActionRequest now name fpr body c)"
proof -
  define ta where "ta = armActionTimerLocked now \<lparr>ta_req = body, ta_fromName = name, ta_approvers = [], ta_approved = False,
    ta_initiator = False, ta_onApprove = None, ta_timer = None, ta_resolved = False\<rparr>"
  have "armed (mput (aq_RequestID body) ta (cl_actions c)) \<le> armed (cl_actions c)" by (rule armed_mput_quiet) (simp add: ta_def)
  then have "gate_inv w self tr (c\<lparr>cl_actions := mput (aq_RequestID body) ta (cl_actions c)\<rparr>)"
    using assms by (intro gate_inv_track) (simp_all add: gate_inv_def tracked_ok_def ta_def)
  then show ?thesis using assms by (simp add: onActionRequest_def Let_def ta_def)
qed

lemma action_step_inv:
  assumes "gate_inv w self tr c" shows "gate_inv w self (tr @ [x]) (action_step w x c)"
proof (cases x)
  case (DoVeto now rid reason)
  have "gate_inv w self (tr @ [x]) c" using gate_inv_mono [OF assms] .
  then show ?thesis unfolding DoVeto
    by (simp add: VetoAction_def Let_def split_beta gate_inv_drop split: option.split)
next
  case (ClearActions)
  have "gate_inv w self (tr @ [x]) c" using gate_inv_mono [OF assms] .
  then show ?thesis unfolding ClearActions by (auto simp: gate_inv_def clearActionsLocked_def SelfFpr_def)
qed (use gate_inv_mono [OF assms, of x] in \<open>simp_all add: RequestAction_inv [OF assms] ApproveActionAs_inv onActionApproval_inv [OF assms]
    onActionRequest_inv onActionVeto_def expireAction_def gate_inv_drop split: option.split\<close>)

lemma history_inv: "history w c0 tr c \<Longrightarrow> gate_inv w (SelfFpr w c0) tr c"
proof (induction rule: history.induct)
  case start
  then show ?case by (simp add: gate_inv_def requests_def)
next
  case (step tr c x)
  from action_step_inv [OF step.IH] show ?case .
qed

section \<open>Properties\<close>

text \<open>Claim C8. The two-person rule holds on the client that runs the action, whatever frames, commands and
  timers it gets and in whatever order: every request whose action it ran was its own, asked
  for at least two endorsers, and had at least one less than that many approvers, all
  different, none of them the requester, each with a signature in the history that verifies
  under the approver's key over this request's id, parameter hash and nonce. And it runs no
  more actions than it made requests, counting the ones still pending.\<close>

theorem two_person_gate:
  assumes "history w c0 tr c"
  shows "(\<forall>ta \<in> set (cl_fired c). cleared w (SelfFpr w c0) tr ta) \<and> armed (cl_actions c) + length (cl_fired c) \<le> requests tr"
  using history_inv [OF assms] by (simp add: gate_inv_def)

text \<open>A request by one member and the approval of another.\<close>

definition toy_asked :: Client where
  "toy_asked = action_step toy_world (DoRequest 5 ActionScuttleAction ''room=ops'' 2 (Callback 1)) (toy_client CHR ''a'' [''b''])"

definition toy_request :: ActionRequestBody where
  "toy_request = ta_req (snd (hd (cl_actions toy_asked)))"

definition toy_approval :: ActionApprovalBody where
  "toy_approval = the (makeApproval toy_world 6 (toy_id CHR ''b'') ''b'' [] toy_request)"

lemmas act_defs = action_step.simps RequestAction_def newRequestID_def draw_def sendBody_def sealAndSend_def SealMessage_def
  enqueue_def emit_def armActionTimerLocked_def actionParamsHash_def Let_def

lemma toy_asked_actions: "\<exists>i ta. cl_actions toy_asked = [(i, ta)] \<and> ta_req ta = toy_request \<and> aq_RequestID toy_request = i \<and>
    ta_approvers ta = [] \<and> \<not> ta_resolved ta \<and> ta_onApprove ta = Some (Callback 1) \<and> aq_QuorumNeeded toy_request = 2 \<and>
    aq_RequesterFpr toy_request = ''SHA256:'' @ toy_key CHR ''a'' \<and> cl_fired toy_asked = []"
  unfolding toy_request_def by (simp add: toy_asked_def toy_defs act_defs)

lemma makeApproval_Some:
  assumes "makeApproval w t idn name meaning req = Some ab" "sign_sound (w_pr w) idn"
  shows "aa_RequestID ab = aq_RequestID req" "aa_ParamsHash ab = aq_ParamsHash req" "aa_ApproverFpr ab = IdFingerprint (w_pr w) idn"
    "aa_Meaning ab = meaning" "length (ki_SignPub idn) = PublicKeySize"
    "pr_verify (w_pr w) (ki_SignPub idn) (approvalBytes req (aa_ApproverFpr ab) (aa_Meaning ab) (aa_Name ab) (aa_SignedAt ab)) (go_bytes (aa_Sig ab))"
  using assms by (auto simp: makeApproval_def Let_def sign_sound_def go_bytes_def approvalBytes_def split: option.splits)

lemma onActionApproval_accepts:
  assumes "mget (cl_actions c) (aq_RequestID (ta_req ta)) = Some ta" "\<not> ta_resolved ta"
    and "makeApproval w t idn name meaning (ta_req ta) = Some ab" "sign_sound (w_pr w) idn"
  shows "onActionApproval w now sender (ki_SignPub idn) ab c =
    countApproval w now (aq_RequestID (ta_req ta)) sender (IdFingerprint (w_pr w) idn) meaning False c"
  using assms(1,2) makeApproval_Some [OF assms(3,4)] by (simp add: onActionApproval_def Let_def IdFingerprint_def)

lemma countApproval_counts:
  assumes "mget (cl_actions c) i = Some ta" "\<not> ta_resolved ta" "f \<noteq> aq_RequesterFpr (ta_req ta)" "f \<notin> set (ta_approvers ta)"
  shows "let d = countApproval w now i name f meaning self c; ta' = ta\<lparr>ta_approvers := ta_approvers ta @ [f]\<rparr> in
    if int (length (ta_approvers ta)) + 2 < aq_QuorumNeeded (ta_req ta)
    then mget (cl_actions d) i = Some ta' \<and> cl_fired d = cl_fired c
    else mget (cl_actions d) i = None \<and> cl_fired d = cl_fired c @ (if ta_onApprove ta = None then [] else [ta']) \<and>
      last (cl_events d) = Act (EvActionExecuted i (aq_Action (ta_req ta)) (ta_fromName ta) (aq_RequesterFpr (ta_req ta))
        (aq_QuorumNeeded (ta_req ta)) (ta_initiator ta) now)"
  using assms by (auto simp: countApproval_def addApprover_def endorsements_def Let_def split: option.split)

text \<open>A genuine approval counts, and the one that completes the quorum fires: the body another member's
  client signs for a pending request, bare or with a meaning, passes every check of the
  client that tracks the request and adds that member to the approvers; when the requester
  and the approvers reach the quorum the request is resolved, its action is run if it was
  made here, and its execution is announced after that.\<close>

theorem approval_counts:
  assumes "mget (cl_actions c) (aq_RequestID (ta_req ta)) = Some ta" "\<not> ta_resolved ta"
    and "makeApproval w t idn name meaning (ta_req ta) = Some ab" "sign_sound (w_pr w) idn"
    and "IdFingerprint (w_pr w) idn \<notin> insert (aq_RequesterFpr (ta_req ta)) (set (ta_approvers ta))"
  shows "let d = onActionApproval w now sender (ki_SignPub idn) ab c; i = aq_RequestID (ta_req ta);
      ta' = ta\<lparr>ta_approvers := ta_approvers ta @ [IdFingerprint (w_pr w) idn]\<rparr> in
    if int (length (ta_approvers ta)) + 2 < aq_QuorumNeeded (ta_req ta)
    then mget (cl_actions d) i = Some ta' \<and> cl_fired d = cl_fired c
    else mget (cl_actions d) i = None \<and> cl_fired d = cl_fired c @ (if ta_onApprove ta = None then [] else [ta']) \<and>
      last (cl_events d) = Act (EvActionExecuted i (aq_Action (ta_req ta)) (ta_fromName ta) (aq_RequesterFpr (ta_req ta))
        (aq_QuorumNeeded (ta_req ta)) (ta_initiator ta) now)"
  using countApproval_counts [OF assms(1,2), of "IdFingerprint (w_pr w) idn" w now sender meaning False, unfolded Let_def] assms(5)
  unfolding Let_def onActionApproval_accepts [OF assms(1-4)] by simp

lemma toy_approval_made: "makeApproval toy_world 6 (toy_id CHR ''b'') ''b'' [] toy_request = Some toy_approval"
  by (simp add: toy_approval_def makeApproval_def Let_def toy_id_def IdSign_def)

theorem approval_counts_witness:
  "length (cl_fired (onActionApproval toy_world 7 ''b'' (ki_SignPub (toy_id CHR ''b'')) toy_approval toy_asked)) = 1"
proof -
  obtain i ta where a: "cl_actions toy_asked = [(i, ta)]" "ta_req ta = toy_request" "aq_RequestID toy_request = i"
      "ta_approvers ta = []" "\<not> ta_resolved ta" "ta_onApprove ta = Some (Callback 1)" "aq_QuorumNeeded toy_request = 2"
      "aq_RequesterFpr toy_request = ''SHA256:'' @ toy_key CHR ''a''" "cl_fired toy_asked = []"
    using toy_asked_actions by blast
  have "IdFingerprint (w_pr toy_world) (toy_id CHR ''b'') \<notin> insert (aq_RequesterFpr (ta_req ta)) (set (ta_approvers ta))"
    using a(2,4,8) by (simp add: toy_defs)
  moreover have "sign_sound (w_pr toy_world) (toy_id CHR ''b'')" using toy_id_sound by (simp add: toy_world_def)
  moreover have "mget (cl_actions toy_asked) (aq_RequestID (ta_req ta)) = Some ta" using a(1-3) by simp
  ultimately show ?thesis
    using approval_counts [of toy_asked ta toy_world 6 "toy_id CHR ''b''" "''b''" "[]" toy_approval 7 "''b''"] a toy_approval_made
    by (simp add: Let_def)
qed

theorem two_person_gate_witness:
  "\<exists>tr c ta. history toy_world (toy_client CHR ''a'' [''b'']) tr c \<and> cl_fired c = [ta] \<and>
    cleared toy_world (SelfFpr toy_world (toy_client CHR ''a'' [''b''])) tr ta"
proof -
  let ?c0 = "toy_client CHR ''a'' [''b'']"
  let ?x = "DoRequest 5 ActionScuttleAction ''room=ops'' 2 (Callback 1)"
  let ?y = "GetApproval 7 ''b'' (ki_SignPub (toy_id CHR ''b'')) toy_approval"
  have "history toy_world ?c0 [] ?c0" by (rule history.start) (simp_all add: toy_client_def NewWithIdentity_def)
  then have "history toy_world ?c0 [?x] toy_asked" unfolding toy_asked_def by (drule_tac history.step [where x = ?x]) simp
  then have h: "history toy_world ?c0 [?x, ?y] (action_step toy_world ?y toy_asked)" by (drule_tac history.step [where x = ?y]) simp
  have "length (cl_fired (action_step toy_world ?y toy_asked)) = 1"
    using countApproval_counts onActionApproval_accepts
  proof -
    obtain i ta where a: "cl_actions toy_asked = [(i, ta)]" "ta_req ta = toy_request" "aq_RequestID toy_request = i"
        "ta_approvers ta = []" "\<not> ta_resolved ta" "ta_onApprove ta = Some (Callback 1)" "aq_QuorumNeeded toy_request = 2"
        "aq_RequesterFpr toy_request = ''SHA256:'' @ toy_key CHR ''a''" "cl_fired toy_asked = []"
      using toy_asked_actions by blast
    have k: "mget (cl_actions toy_asked) (aq_RequestID (ta_req ta)) = Some ta" using a(1-3) by simp
    have f: "IdFingerprint (w_pr toy_world) (toy_id CHR ''b'') \<noteq> aq_RequesterFpr (ta_req ta)" using a(2,8) by (simp add: toy_defs)
    have m: "makeApproval toy_world 6 (toy_id CHR ''b'') ''b'' [] (ta_req ta) = Some toy_approval" using a(2) toy_approval_made by simp
    have s: "sign_sound (w_pr toy_world) (toy_id CHR ''b'')" using toy_id_sound by (simp add: toy_world_def)
    show ?thesis
      using countApproval_counts [OF k a(5) f, of toy_world 7 "''b''" "[]" False] a
      unfolding action_step.simps onActionApproval_accepts [OF k a(5) m s] by (simp add: Let_def)
  qed
  then obtain ta where "cl_fired (action_step toy_world ?y toy_asked) = [ta]" by (auto simp: length_Suc_conv)
  with two_person_gate [OF h] h show ?thesis by (metis list.set_intros(1))
qed

text \<open>A command under the two-person rule does nothing on its own: with a quorum of two or more, calling for
  a scuttle, a countdown or a war room runs nothing and sends nothing but the request for
  approval, and without a relay to carry approvals, or with the action disabled, it is refused
  and nothing changes at all.\<close>

theorem gated_command_waits:
  assumes "quorumFor action c = 0 \<or> 2 \<le> quorumFor action c"
  shows "let (err, d) = gateAction w now action params p c in cl_fired d = cl_fired c \<and> cl_receipt d = cl_receipt c \<and>
    (\<exists>fs. cl_sendCh d = cl_sendCh c @ fs \<and> length fs \<le> 1 \<and> (\<forall>f \<in> set fs. ev_Type f = OpActionRequest)) \<and>
    (quorumFor action c = 0 \<or> \<not> canGateQuorum c \<longrightarrow> err \<noteq> None \<and> d = c)"
proof (cases "quorumFor action c = 0 \<or> \<not> canGateQuorum c")
  case True
  then show ?thesis using assms by (auto simp: gateAction_def Let_def)
next
  case False
  let ?r = "RequestAction w now action params (quorumFor action c) p c"
  have d: "snd (gateAction w now action params p c) = snd ?r" using False assms by (auto simp: gateAction_def Let_def split: prod.split sum.split)
  have f: "cl_sendCh (snd (newRequestID w x)) = cl_sendCh x" "cl_receipt (snd (newRequestID w x)) = cl_receipt x" for x
    by (simp_all add: newRequestID_def draw_def)
  have "cl_fired (snd ?r) = cl_fired c \<and> cl_receipt (snd ?r) = cl_receipt c"
    by (simp add: RequestAction_def Let_def split_beta f split: option.split)
  moreover have "\<exists>fs. cl_sendCh (snd ?r) = cl_sendCh c @ fs \<and> length fs \<le> 1 \<and> (\<forall>f \<in> set fs. ev_Type f = OpActionRequest)"
  proof (cases "quorumFor action c < 2 \<or> cl_rk c = None")
    case True
    then show ?thesis by (auto simp: RequestAction_def)
  next
    case False
    define c1 where "c1 = snd (newRequestID w (snd (newRequestID w c)))"
    define body where "body = \<lparr>aq_RequestID = fst (newRequestID w c), aq_Action = action, aq_ParamsHash = actionParamsHash w params, aq_Params = params,
      aq_RequesterFpr = SelfFpr w c1, aq_Room = cl_room c1, aq_QuorumNeeded = quorumFor action c,
      aq_ExpiresUnix = unix (now + actionRequestTTL), aq_Nonce = fst (newRequestID w (snd (newRequestID w c)))\<rparr>"
    define m where "m = mput (fst (newRequestID w c)) (armActionTimerLocked now \<lparr>ta_req = body, ta_fromName = cl_name c1, ta_approvers = [],
      ta_approved = False, ta_initiator = True, ta_onApprove = Some p, ta_timer = None, ta_resolved = False\<rparr>) (cl_actions c1)"
    define c2 where "c2 = c1\<lparr>cl_actions := m\<rparr>"
    have "cl_sendCh c2 = cl_sendCh c" by (simp add: c2_def c1_def f)
    moreover have "cl_sendCh (snd ?r) = cl_sendCh (snd (sendBody w OpActionRequest (json_ActionRequestBody body) c2))"
      using False by (auto simp: RequestAction_def Let_def split_beta c2_def c1_def body_def m_def split: option.split)
    ultimately show ?thesis using sendBody_queue [of w OpActionRequest "json_ActionRequestBody body" c2] by auto
  qed
  ultimately show ?thesis using False d by (auto simp: Let_def split_beta)
qed

theorem gated_command_waits_witness:
  "cl_fired (snd (gateAction toy_world 5 ActionScuttleAction ''p'' ScuttleBurn (SetActionQuorum [(ActionScuttleAction, 2)] (toy_client CHR ''a'' [''b''])))) = []"
  using gated_command_waits [of ActionScuttleAction "SetActionQuorum [(ActionScuttleAction, 2)] (toy_client CHR ''a'' [''b''])" toy_world 5 "''p''" ScuttleBurn]
  by (simp add: quorumFor_def SetActionQuorum_def toy_client_def NewWithIdentity_def Let_def split_beta)

end
