(* ===== verification/Minutes.thy ===== *)
theory Minutes
  imports Prelude Rounds GoText
begin

text \<open>
  The minutes of a room: \<^verbatim>\<open>src/tui/client/record.go\<close> (recording entries, the seal handshake and late
  co-signatures), \<^verbatim>\<open>clock.go\<close> (the incident clock) and \<^verbatim>\<open>identity.go\<close> (attestations in the record).

  The properties: every record the handshake completes or amends verifies offline exactly
  when its chain names no proposal twice; what a peer signs late is never lost; the clock
  marker reads back as the time it was written from. A defect is stated as a theorem: a
  seal request nobody can answer blocks sealing.
\<close>

section \<open>Recording entries\<close>

definition selfAuthor :: "World \<Rightarrow> Client \<Rightarrow> Author" where
  "selfAuthor w c = \<lparr>au_ID = SelfFpr w c, au_Name = cl_name c, au_Key = ki_SignPub (cl_id c), au_Sign = IdSign (cl_id c)\<rparr>"

definition emitRecordEntry :: "Entry \<Rightarrow> bool \<Rightarrow> bytes option \<Rightarrow> bytes option \<Rightarrow> bytes option \<Rightarrow> Client \<Rightarrow> Client" where
  "emitRecordEntry e self sig signBytes raw c = emit (Rec (EvRecordEntry e self sig signBytes raw)) c"

definition appendSpec :: "World \<Rightarrow> go_time \<Rightarrow> EntrySpec \<Rightarrow> Client \<Rightarrow> client_error option \<times> Client" where
  "appendSpec w now spec c =
    (if cl_rk c = None then (Some NoRoomKey, c)
     else case Append (w_pr w) (word_of_int (unix now)) (selfAuthor w c) spec (cl_chain c) of
       None \<Rightarrow> (Some SignErr, c)
     | Some (ch, e) \<Rightarrow>
        (let c = c\<lparr>cl_chain := ch\<rparr>;
             (err, c) = sendBody w OpRecordEntry (json_Entry e) c
         in case err of Some x \<Rightarrow> (Some x, c) | None \<Rightarrow> (None, emitRecordEntry e True None None None c)))"

definition plainSpec :: "string \<Rightarrow> string \<Rightarrow> string \<Rightarrow> EntrySpec" where
  "plainSpec knd actionee body =
    \<lparr>es_Kind = knd, es_Actionee = actionee, es_Body = body, es_Schema = [], es_SchemaVer = [], es_Links = []\<rparr>"

definition appendRecord :: "World \<Rightarrow> go_time \<Rightarrow> string \<Rightarrow> string \<Rightarrow> string \<Rightarrow> Client \<Rightarrow> client_error option \<times> Client" where
  "appendRecord w now knd actionee body c =
    (let body = trim_space body
     in if body = [] then (Some (RecordErr EmptyRecord), c) else appendSpec w now (plainSpec knd actionee body) c)"

definition Decide :: "World \<Rightarrow> go_time \<Rightarrow> string \<Rightarrow> Client \<Rightarrow> client_error option \<times> Client" where
  "Decide w now txt c = appendRecord w now KindDecision [] txt c"

definition ActionItem :: "World \<Rightarrow> go_time \<Rightarrow> string \<Rightarrow> string \<Rightarrow> Client \<Rightarrow> client_error option \<times> Client" where
  "ActionItem w now handle txt c =
    (let handle = trim_prefix ''@'' (trim_space handle)
     in if handle = [] then (Some (RecordErr NoActionee), c) else appendRecord w now KindAction handle txt c)"

definition Mark :: "World \<Rightarrow> go_time \<Rightarrow> Client \<Rightarrow> client_error option \<times> Client" where
  "Mark w now c =
    (let (author, txt) = cl_lastMsg c
     in if txt = [] then (Some (RecordErr NothingToMark), c)
        else let body = (if author \<noteq> [] \<and> author \<noteq> cl_name c then author @ '': '' @ txt else txt)
             in appendRecord w now KindNote [] body c)"

definition onRecordEntry :: "World \<Rightarrow> Entry \<Rightarrow> bytes option \<Rightarrow> bytes option \<Rightarrow> bytes option \<Rightarrow> Client \<Rightarrow> Client" where
  "onRecordEntry w e sig signBytes raw c =
    (case AppendRemote (w_pr w) e (cl_chain c) of
       Inl err \<Rightarrow> emit (EvError (RecordErr (EntryRejected err))) c
     | Inr ch \<Rightarrow> emitRecordEntry e False sig signBytes raw (c\<lparr>cl_chain := ch\<rparr>))"

fun replayFrom :: "World \<Rightarrow> nat \<Rightarrow> Entry list \<Rightarrow> Client \<Rightarrow> nat \<times> client_error option \<times> Client" where
  "replayFrom w i [] c = (i, None, c)"
| "replayFrom w i (e # es) c =
    (let (err, c) = sendBody w OpRecordEntry (json_Entry (e\<lparr>en_Replayed := True\<rparr>)) c
     in case err of Some x \<Rightarrow> (i, Some (ReplayFailed (en_Seq e) x), c) | None \<Rightarrow> replayFrom w (Suc i) es c)"

definition Replay :: "World \<Rightarrow> Entry list \<Rightarrow> Client \<Rightarrow> nat \<times> client_error option \<times> Client" where
  "Replay w entries c = (if cl_rk c = None then (0, Some NoRoomKey, c) else replayFrom w 0 entries c)"

section \<open>The incident clock\<close>

text \<open>The markers start with U+23F1 and the stop marker holds an em dash, in UTF-8.\<close>

definition stopwatch :: string where "stopwatch = [CHR 0xE2, CHR 0x8F, CHR 0xB1]"
definition clockStartMsg :: string where "clockStartMsg = stopwatch @ '' incident clock started''"
definition clockStopPrefix :: string where
  "clockStopPrefix = stopwatch @ '' incident clock stopped '' @ [CHR 0xE2, CHR 0x80, CHR 0x94] @ '' elapsed: ''"
definition clockNoteStarted :: string where "clockNoteStarted = ''Incident started: ''"
definition clockNoteDuration :: string where "clockNoteDuration = ''Incident duration: ''"

text \<open>\<open>int(d.Seconds())\<close> goes through a 64-bit float, which is exact enough to truncate right for
  every duration below 97 days; beyond that the last nanosecond of a second may round up.\<close>

definition formatHMS :: "duration \<Rightarrow> string" where
  "formatHMS d =
    (let d = (if d < 0 then 0 else d);
         tot = nat (whole_seconds d)
     in two_digits (tot div 3600) @ '':'' @ two_digits ((tot mod 3600) div 60) @ '':'' @ two_digits (tot mod 60))"

definition parseHMS :: "string \<Rightarrow> duration" where
  "parseHMS s =
    (case split_at (CHR '':'') (trim_space s) of
       [a, b, c] \<Rightarrow>
         (case (atoi a, atoi b, atoi c) of
            (Some h, Some m, Some sec) \<Rightarrow> i64 (i64 (i64 (i64 (h * 3600) + i64 (m * 60)) + sec) * second)
          | _ \<Rightarrow> 0)
     | _ \<Rightarrow> 0)"

definition ClockStart :: "World \<Rightarrow> go_time \<Rightarrow> Client \<Rightarrow> Client" where
  "ClockStart w now c =
    (if ck_clockStart (cl_clock c) \<noteq> 0 then c
     else let c = c\<lparr>cl_clock := \<lparr>ck_clockStart = now, ck_clockStop = 0, ck_clockNotesAdded = False\<rparr>\<rparr>;
              (_, c) = sealAndSend w OpMessage clockStartMsg c
     in emit (Coord (EvClockStart (cl_name c) (SelfFpr w c) True now)) c)"

definition ClockStop :: "World \<Rightarrow> go_time \<Rightarrow> Client \<Rightarrow> Client" where
  "ClockStop w now c =
    (let k = cl_clock c
     in if ck_clockStart k = 0 \<or> ck_clockStop k \<noteq> 0 then c
        else let c = c\<lparr>cl_clock := k\<lparr>ck_clockStop := now\<rparr>\<rparr>;
                 elapsed = now - ck_clockStart k;
                 (_, c) = sealAndSend w OpMessage (clockStopPrefix @ formatHMS elapsed) c
        in emit (Coord (EvClockStop (cl_name c) (SelfFpr w c) (whole_seconds elapsed) True now)) c)"

text \<open>Elapsed, running, ok.\<close>

definition ClockElapsed :: "go_time \<Rightarrow> Client \<Rightarrow> duration \<times> bool \<times> bool" where
  "ClockElapsed now c =
    (let k = cl_clock c
     in if ck_clockStart k = 0 then (0, False, False)
        else if ck_clockStop k = 0 then (now - ck_clockStart k, True, True)
        else (ck_clockStop k - ck_clockStart k, False, True))"

definition recognizeClock :: "string \<Rightarrow> string \<Rightarrow> string \<Rightarrow> go_time \<Rightarrow> Client \<Rightarrow> bool \<times> Client" where
  "recognizeClock senderName fpr txt at c =
    (let k = cl_clock c
     in if txt = clockStartMsg then
          (let c = (if ck_clockStart k = 0 then c\<lparr>cl_clock := \<lparr>ck_clockStart = at, ck_clockStop = 0, ck_clockNotesAdded = False\<rparr>\<rparr> else c)
           in (True, emit (Coord (EvClockStart senderName fpr False at)) c))
        else if has_prefix clockStopPrefix txt then
          (let elapsed = parseHMS (trim_prefix clockStopPrefix txt);
               c = (if ck_clockStop k = 0 then c\<lparr>cl_clock := k\<lparr>ck_clockStop := at\<rparr>\<rparr> else c)
           in (True, emit (Coord (EvClockStop senderName fpr (whole_seconds elapsed) False at)) c))
        else (False, c))"

definition appendClockNotes :: "World \<Rightarrow> go_time \<Rightarrow> Client \<Rightarrow> Client" where
  "appendClockNotes w now c =
    (let k = cl_clock c
     in if ck_clockStart k = 0 \<or> ck_clockNotesAdded k then c
        else let start = ck_clockStart k; stop = ck_clockStop k;
                 c = c\<lparr>cl_clock := k\<lparr>ck_clockNotesAdded := True\<rparr>\<rparr>;
                 (elapsed, state) = (if stop = 0 then (now - start, ''ongoing'') else (stop - start, ''resolved''));
                 (_, c) = appendRecord w now KindNote [] (clockNoteStarted @ pr_format_time (w_pr w) start) c;
                 (_, c) = appendRecord w now KindNote [] (clockNoteDuration @ formatHMS elapsed @ '' ('' @ state @ '')'') c
        in c)"

definition clearClockLocked :: "Client \<Rightarrow> Client" where
  "clearClockLocked c = c\<lparr>cl_clock := zero_clock\<rparr>"

section \<open>Identity attestations\<close>

definition AttestIdentity :: "World \<Rightarrow> go_time \<Rightarrow> IdentityAttestation option \<Rightarrow> Client \<Rightarrow> client_error option \<times> Client" where
  "AttestIdentity w now att c =
    (case IdentityEntrySpec (w_pr w) att of
       None \<Rightarrow> (Some (RecordErr NilAttestation), c)
     | Some spec \<Rightarrow> appendSpec w now spec c)"

definition UseIdentity :: "World \<Rightarrow> IdentityAttestation option \<Rightarrow> Client \<Rightarrow> client_error option \<times> Client" where
  "UseIdentity w att c =
    (case att of
       None \<Rightarrow> (Some (RecordErr NilAttestation), c)
     | Some a \<Rightarrow>
        (if ia_Subject a \<noteq> SelfFpr w c then (Some (RecordErr (WrongSubject (ia_Subject a) (SelfFpr w c))), c)
         else (None, c\<lparr>cl_selfCredential := MarshalIdentity (w_pr w) a, cl_selfCredentialRoles := ia_Roles a\<rparr>)))"

definition IdentityRoles :: "Client \<Rightarrow> string list" where
  "IdentityRoles c = cl_selfCredentialRoles c"

section \<open>The seal handshake\<close>

text \<open>A seal signature over a head, bare or with a declared meaning.\<close>

definition signSeal :: "World \<Rightarrow> go_time \<Rightarrow> bytes \<Rightarrow> string \<Rightarrow> Client \<Rightarrow> (bytes \<times> Endorsement option) option" where
  "signSeal w now head meaning c =
    (if meaning \<noteq> [] then
       (let signedAt = pr_format_time (w_pr w) now
        in case IdSign (cl_id c) (SealSigningBytesV2 (cl_room c) meaning (cl_name c) signedAt head) of
             None \<Rightarrow> None
           | Some sig \<Rightarrow> Some (sig, Some \<lparr>ed_Meaning = meaning, ed_Name = cl_name c, ed_SignedAt = signedAt\<rparr>))
     else case IdSign (cl_id c) (SealSigningBytes (cl_room c) head) of None \<Rightarrow> None | Some sig \<Rightarrow> Some (sig, None))"

definition ackBody :: "bytes \<Rightarrow> bytes \<Rightarrow> Endorsement option \<Rightarrow> SealAckBody" where
  "ackBody head sig e =
    (case e of
       None \<Rightarrow> \<lparr>sa_HeadHash = Some head, sa_Sig = Some sig, sa_Meaning = [], sa_SignerName = [], sa_SignedAt = []\<rparr>
     | Some e \<Rightarrow> \<lparr>sa_HeadHash = Some head, sa_Sig = Some sig, sa_Meaning = ed_Meaning e, sa_SignerName = ed_Name e, sa_SignedAt = ed_SignedAt e\<rparr>)"

definition sendSealAck :: "World \<Rightarrow> go_time \<Rightarrow> bytes \<Rightarrow> string \<Rightarrow> Client \<Rightarrow> client_error option \<times> Client" where
  "sendSealAck w now head meaning c =
    (case signSeal w now head meaning c of
       None \<Rightarrow> (Some SignErr, c)
     | Some (sig, e) \<Rightarrow>
        (let c = c\<lparr>cl_seal := (cl_seal c)\<lparr>se_pendingSealHead := None, se_pendingSealName := []\<rparr>\<rparr>;
             (err, c) = sendBody w OpSealAck (json_SealAckBody (ackBody head sig e)) c
         in case err of Some x \<Rightarrow> (Some x, c) | None \<Rightarrow> (None, emit (Rec (EvSealAck (cl_name c) 0 0 True)) c)))"

definition cosignCalls :: "sealSnapshot \<Rightarrow> seal_call list" where
  "cosignCalls sn = map (\<lambda>(fpr, sig).
     let key = go_bytes (mget (sn_keys sn) fpr)
     in case mget (sn_endorse sn) fpr of
          Some e \<Rightarrow> Endorse key sig (ed_Meaning e) (ed_Name e) (ed_SignedAt e)
        | None \<Rightarrow> Cosign key sig) (sn_sigs sn)"

definition approvalCalls :: "World \<Rightarrow> Entry list \<Rightarrow> Client \<Rightarrow> seal_call list" where
  "approvalCalls w entries c = concat (map (\<lambda>e.
     if en_Kind e \<noteq> KindArtifact then []
     else case ArtifactOf (w_pr w) e of
       None \<Rightarrow> []
     | Some m \<Rightarrow>
        (if am_ProposalID m = [] then []
         else map (\<lambda>ca. if ca_role ca \<noteq> [] then ApproveV2 (am_ProposalID m) (ca_role ca) (ca_key ca) (ca_sig ca)
                         else Approve (am_ProposalID m) (ca_key ca) (ca_sig ca))
               (case mget (cl_artifactProofs c) (am_ProposalID m) of None \<Rightarrow> [] | Some cas \<Rightarrow> cas))) entries)"

definition assembleSealedLocked :: "World \<Rightarrow> go_time \<Rightarrow> sealSnapshot \<Rightarrow> Client \<Rightarrow> SealedRecord" where
  "assembleSealedLocked w now sn c =
    (let s = NewSealer (w_pr w) (cl_room c) (SelfFpr w c) (sn_entries sn);
         s = fold (seal_do (w_pr w)) (cosignCalls sn) s;
         s = fold (seal_do (w_pr w)) (approvalCalls w (sn_entries sn) c) s;
         sealedAt = pr_format_time (w_pr w) now
     in case Finalize sealedAt s of
          Inr r \<Rightarrow> r
        | Inl _ \<Rightarrow> NewSealedRecord sealedAt (cl_room c) (SelfFpr w c) (sn_entries sn) (sn_head sn) (sn_sigs sn) (sn_keys sn))"

text \<open>The active round as the snapshot it becomes.\<close>

definition roundSnapshot :: "SealState \<Rightarrow> sealSnapshot" where
  "roundSnapshot s = \<lparr>sn_head = se_sealHead s, sn_entries = se_sealEntries s, sn_sigs = se_sealSigs s, sn_keys = se_sealKeys s,
     sn_endorse = se_sealEndorse s\<rparr>"

definition finalizeSeal :: "World \<Rightarrow> go_time \<Rightarrow> Client \<Rightarrow> Client" where
  "finalizeSeal w now c =
    (let s = cl_seal c
     in if \<not> se_sealing s then c
        else let sn = roundSnapshot s;
                 r = assembleSealedLocked w now sn c;
                 c = c\<lparr>cl_seal := s\<lparr>se_sealTimer := None, se_lastSeal := Some sn, se_sealing := False, se_sealHead := [], se_sealEntries := [],
                   se_sealSigs := [], se_sealKeys := [], se_sealEndorse := []\<rparr>\<rparr>
        in emit (Rec (EvSealComplete r (length (sn_entries sn)) (length (sn_sigs sn)) False)) c)"

definition maybeFinalize :: "World \<Rightarrow> go_time \<Rightarrow> Client \<Rightarrow> Client" where
  "maybeFinalize w now c =
    (if se_sealing (cl_seal c) \<and> length (se_sealSigs (cl_seal c)) \<ge> length (cl_order c) then finalizeSeal w now c else c)"

definition sealWith :: "World \<Rightarrow> go_time \<Rightarrow> string \<Rightarrow> Client \<Rightarrow> client_error option \<times> Client" where
  "sealWith w now meaning c =
    (let initiating = (se_pendingSealHead (cl_seal c) = None \<and> \<not> se_sealing (cl_seal c));
         c = (if initiating then appendClockNotes w now c else c);
         s = cl_seal c; head = headOf (w_pr w) (cl_chain c); n = length (cl_chain c)
     in if cl_rk c = None then (Some NoRoomKey, c)
        else if n = 0 then (Some (RecordErr NothingToSeal), c)
        else case se_pendingSealHead s of
          Some pending \<Rightarrow>
            (if pending \<noteq> head then (Some (RecordErr SealDiverged), c) else sendSealAck w now head meaning c)
        | None \<Rightarrow>
            (if se_sealing s then (Some (RecordErr SealInProgress), c)
             else case signSeal w now head meaning c of
               None \<Rightarrow> (Some SignErr, c)
             | Some (sig, e) \<Rightarrow>
                (let fpr = SelfFpr w c;
                     c = c\<lparr>cl_seal := s\<lparr>se_sealing := True, se_sealHead := head, se_sealEntries := cl_chain c, se_sealSigs := [(fpr, sig)],
                       se_sealKeys := [(fpr, ki_SignPub (cl_id c))], se_sealEndorse := (case e of None \<Rightarrow> [] | Some e \<Rightarrow> [(fpr, e)]),
                       se_lastSeal := None, se_sealTimer := Some (now + sealTimeout)\<rparr>\<rparr>;
                     (err, c) = sendBody w OpSealRequest (json_SealRequestBody \<lparr>sq_HeadHash = Some head\<rparr>) c
                 in case err of
                      Some x \<Rightarrow> (Some x, c)
                    | None \<Rightarrow> (None, maybeFinalize w now (emit (Rec (EvSealRequest (cl_name c) True n True)) c)))))"

definition Seal :: "World \<Rightarrow> go_time \<Rightarrow> Client \<Rightarrow> client_error option \<times> Client" where
  "Seal w now c = sealWith w now [] c"

definition SealAs :: "World \<Rightarrow> go_time \<Rightarrow> string \<Rightarrow> Client \<Rightarrow> client_error option \<times> Client" where
  "SealAs w now meaning c = sealWith w now meaning c"

text \<open>Copying an empty head onto a nil slice leaves it nil.\<close>

definition onSealRequest :: "World \<Rightarrow> go_time \<Rightarrow> string \<Rightarrow> bytes \<Rightarrow> Client \<Rightarrow> Client" where
  "onSealRequest w now fromName head c =
    (let s = cl_seal c;
         matches = (head = headOf (w_pr w) (cl_chain c)); n = length (cl_chain c);
         autoAck = (se_sealing s \<and> head = se_sealHead s);
         c = c\<lparr>cl_seal := s\<lparr>se_pendingSealHead := (if head = [] then None else Some head), se_pendingSealName := fromName\<rparr>\<rparr>;
         c = (if autoAck then snd (sendSealAck w now head [] c) else c)
     in emit (Rec (EvSealRequest fromName matches n False)) c)"

text \<open>Recorded, valid, and the signature, key and endorsement maps afterwards.\<close>

definition recordCosignatureLocked :: "World \<Rightarrow> string \<Rightarrow> bytes \<Rightarrow> string \<Rightarrow> string \<Rightarrow> string \<Rightarrow> bytes \<Rightarrow> sealSnapshot \<Rightarrow>
    bool \<times> bool \<times> sealSnapshot" where
  "recordCosignatureLocked w room pub meaning signerName signedAt sig sn =
    (let pre = (if meaning \<noteq> [] then SealSigningBytesV2 room meaning signerName signedAt (sn_head sn) else SealSigningBytes room (sn_head sn))
     in if length pub \<noteq> PublicKeySize \<or> \<not> pr_verify (w_pr w) pub pre sig then (False, False, sn)
        else let fpr = Fingerprint (w_pr w) pub
        in if mget (sn_sigs sn) fpr \<noteq> None then (False, True, sn)
           else let sn = sn\<lparr>sn_sigs := mput fpr sig (sn_sigs sn), sn_keys := mput fpr pub (sn_keys sn)\<rparr>;
                    sn = (if meaning \<noteq> [] then sn\<lparr>sn_endorse := mput fpr \<lparr>ed_Meaning = meaning, ed_Name = signerName, ed_SignedAt = signedAt\<rparr>
                            (sn_endorse sn)\<rparr> else sn)
                in (True, True, sn))"

definition onSealAck :: "World \<Rightarrow> go_time \<Rightarrow> string \<Rightarrow> bytes \<Rightarrow> bytes \<Rightarrow> bytes \<Rightarrow> string \<Rightarrow> string \<Rightarrow> string \<Rightarrow> Client \<Rightarrow> Client" where
  "onSealAck w now fromName fromPub head sig meaning signerName signedAt c =
    (let s = cl_seal c;
         active = (se_sealing s \<and> head = se_sealHead s)
     in if active then
          (let (recorded, valid, sn) = recordCosignatureLocked w (cl_room c) fromPub meaning signerName signedAt sig (roundSnapshot s)
           in if \<not> valid then emit (EvError (RecordErr (SealCosigInvalid fromName))) c
              else let c = c\<lparr>cl_seal := s\<lparr>se_sealSigs := sn_sigs sn, se_sealKeys := sn_keys sn, se_sealEndorse := sn_endorse sn\<rparr>\<rparr>;
                       count = length (sn_sigs sn); total = length (cl_order c);
                       c = (if recorded then emit (Rec (EvSealAck fromName count total False)) c else c)
                   in maybeFinalize w now c)
        else case se_lastSeal s of
          None \<Rightarrow> emit (EvError (RecordErr (SealUnplaced fromName))) c
        | Some old \<Rightarrow>
           (if head \<noteq> sn_head old then emit (EvError (RecordErr (SealUnplaced fromName))) c
            else let (recorded, valid, sn) = recordCosignatureLocked w (cl_room c) fromPub meaning signerName signedAt sig old
            in if \<not> valid then emit (EvError (RecordErr (SealCosigInvalid fromName))) c
               else if \<not> recorded then c
               else let c = c\<lparr>cl_seal := s\<lparr>se_lastSeal := Some sn\<rparr>\<rparr>;
                        r = assembleSealedLocked w now sn c
                    in emit (Rec (EvSealComplete r (length (sn_entries sn)) (length (sn_sigs sn)) True)) c))"

definition clearSealLocked :: "Client \<Rightarrow> Client" where
  "clearSealLocked c = c\<lparr>cl_seal := zero_seal\<rparr>"

section \<open>Assembling a record\<close>

definition snap_preimage :: "string \<Rightarrow> sealSnapshot \<Rightarrow> string \<Rightarrow> bytes" where
  "snap_preimage room sn fpr =
    (case mget (sn_endorse sn) fpr of
       Some e \<Rightarrow> SealSigningBytesV2 room (ed_Meaning e) (ed_Name e) (ed_SignedAt e) (sn_head sn)
     | None \<Rightarrow> SealSigningBytes room (sn_head sn))"

definition signed_by :: "World \<Rightarrow> string \<Rightarrow> sealSnapshot \<Rightarrow> string \<times> bytes \<Rightarrow> bool" where
  "signed_by w room sn p \<longleftrightarrow> (\<exists>pub. mget (sn_keys sn) (fst p) = Some pub \<and> length pub = PublicKeySize \<and>
     pr_fingerprint (w_pr w) pub = fst p \<and> pr_verify (w_pr w) pub (snap_preimage room sn (fst p)) (snd p))"

text \<open>What a round or a finished seal holds: a valid chain, its head, and signatures that verify.\<close>

definition snap_ok :: "World \<Rightarrow> string \<Rightarrow> sealSnapshot \<Rightarrow> bool" where
  "snap_ok w room sn \<longleftrightarrow> sn_head sn = headOf (w_pr w) (sn_entries sn) \<and> chain_ok (w_pr w) (sn_entries sn) \<and>
     sn_sigs sn \<noteq> [] \<and> is_map (sn_sigs sn) \<and> set (keys (sn_endorse sn)) \<subseteq> set (keys (sn_sigs sn)) \<and>
     (\<forall>p \<in> set (sn_sigs sn). signed_by w room sn p)"

lemma mput_new: "k \<notin> set (keys m) \<Longrightarrow> mput k v m = m @ [(k, v)]"
  by (induction m) auto

lemma tidy_append: "tidy c s (xs @ ys) \<longleftrightarrow> tidy c s xs \<and> tidy c (fold (seal_do c) xs s) ys"
  by (induction xs arbitrary: s) auto

lemma seal_do_signed:
  assumes "signed_by w room sn p" "fst p \<notin> set (keys (sl_sigs s))" "sl_room s = room" "sl_head s = sn_head sn"
  shows "\<exists>k e. seal_do (w_pr w) (case mget (sn_endorse sn) (fst p) of
       Some e \<Rightarrow> Endorse (go_bytes (mget (sn_keys sn) (fst p))) (snd p) (ed_Meaning e) (ed_Name e) (ed_SignedAt e)
     | None \<Rightarrow> Cosign (go_bytes (mget (sn_keys sn) (fst p))) (snd p)) s =
     s\<lparr>sl_sigs := sl_sigs s @ [p], sl_keys := k, sl_endorsements := e\<rparr> \<and> set (keys e) \<subseteq> insert (fst p) (set (keys (sl_endorsements s)))"
proof -
  obtain pub where p: "mget (sn_keys sn) (fst p) = Some pub" "length pub = PublicKeySize" "pr_fingerprint (w_pr w) pub = fst p"
      "pr_verify (w_pr w) pub (snap_preimage room sn (fst p)) (snd p)"
    using assms(1) unfolding signed_by_def by blast
  show ?thesis
  proof (cases "mget (sn_endorse sn) (fst p)")
    case None
    then have "seal_do (w_pr w) (Cosign pub (snd p)) s =
        s\<lparr>sl_sigs := sl_sigs s @ [p], sl_keys := mput (fst p) pub (sl_keys s), sl_endorsements := sl_endorsements s\<rparr>"
      using p assms by (simp add: seal_do_def AddCosignature_def addVerified_def SealerSigningBytes_def snap_preimage_def
          Fingerprint_def Let_def mput_new)
    with None p(1) show ?thesis
      by (intro exI [of _ "mput (fst p) pub (sl_keys s)"] exI [of _ "sl_endorsements s"]) (auto simp: go_bytes_def)
  next
    case (Some e)
    have e: "\<lparr>ed_Meaning = ed_Meaning e, ed_Name = ed_Name e, ed_SignedAt = ed_SignedAt e\<rparr> = e" by simp
    from Some have "seal_do (w_pr w) (Endorse pub (snd p) (ed_Meaning e) (ed_Name e) (ed_SignedAt e)) s =
        s\<lparr>sl_sigs := sl_sigs s @ [p], sl_keys := mput (fst p) pub (sl_keys s), sl_endorsements := mput (fst p) e (sl_endorsements s)\<rparr>"
      using p assms by (simp add: seal_do_def AddEndorsement_def addVerified_def EndorsementSigningBytes_def snap_preimage_def
          Fingerprint_def Let_def mput_new e)
    with Some p(1) show ?thesis
      by (intro exI [of _ "mput (fst p) pub (sl_keys s)"] exI [of _ "mput (fst p) e (sl_endorsements s)"]) (auto simp: go_bytes_def)
  qed
qed

lemma tidy_signed:
  assumes "signed_by w room sn p" "mget (sl_endorsements s) (fst p) = None"
  shows "tidy_call (w_pr w) s (case mget (sn_endorse sn) (fst p) of
       Some e \<Rightarrow> Endorse (go_bytes (mget (sn_keys sn) (fst p))) (snd p) (ed_Meaning e) (ed_Name e) (ed_SignedAt e)
     | None \<Rightarrow> Cosign (go_bytes (mget (sn_keys sn) (fst p))) (snd p))"
  using assms by (auto simp: signed_by_def go_bytes_def Fingerprint_def split: option.splits)

text \<open>Every collected signature is taken over.\<close>

lemma cosigns_taken:
  assumes "\<forall>p \<in> set ps. signed_by w room sn p" "is_map (sl_sigs s @ ps)" "set (keys (sl_endorsements s)) \<subseteq> set (keys (sl_sigs s))"
    "sl_room s = room" "sl_head s = sn_head sn"
  shows "tidy (w_pr w) s (cosignCalls (sn\<lparr>sn_sigs := ps\<rparr>)) \<and>
    sl_sigs (fold (seal_do (w_pr w)) (cosignCalls (sn\<lparr>sn_sigs := ps\<rparr>)) s) = sl_sigs s @ ps"
  using assms
proof (induction ps arbitrary: s)
  case (Cons p ps)
  have p: "signed_by w room sn p" "fst p \<notin> set (keys (sl_sigs s))" using Cons.prems by (auto simp: image_iff)
  then have "mget (sl_endorsements s) (fst p) = None" using Cons.prems(3) by (auto simp: mget_None_iff)
  note tidy = tidy_signed [OF p(1) this]
  obtain k e where step: "seal_do (w_pr w) (case mget (sn_endorse sn) (fst p) of
       Some e \<Rightarrow> Endorse (go_bytes (mget (sn_keys sn) (fst p))) (snd p) (ed_Meaning e) (ed_Name e) (ed_SignedAt e)
     | None \<Rightarrow> Cosign (go_bytes (mget (sn_keys sn) (fst p))) (snd p)) s =
     s\<lparr>sl_sigs := sl_sigs s @ [p], sl_keys := k, sl_endorsements := e\<rparr>"
    "set (keys e) \<subseteq> insert (fst p) (set (keys (sl_endorsements s)))"
    using seal_do_signed [OF p Cons.prems(4,5)] by blast
  have "set (keys e) \<subseteq> set (keys (sl_sigs s @ [p]))" using step(2) Cons.prems(3) by auto
  with Cons.IH [of "s\<lparr>sl_sigs := sl_sigs s @ [p], sl_keys := k, sl_endorsements := e\<rparr>"] Cons.prems tidy step(1)
  show ?case by (simp add: cosignCalls_def split_beta Let_def)
qed (simp add: cosignCalls_def)

lemma approvals_keep_sigs:
  "\<forall>x \<in> set xs. \<exists>pid. pid \<noteq> [] \<and> ((\<exists>k sig. x = Approve pid k sig) \<or> (\<exists>r k sig. x = ApproveV2 pid r k sig)) \<Longrightarrow>
   tidy c s xs \<and> sl_sigs (fold (seal_do c) xs s) = sl_sigs s"
proof (induction xs arbitrary: s)
  case (Cons x xs)
  then have "tidy_call c s x" "sl_sigs (seal_do c x s) = sl_sigs s"
    by (auto simp: seal_do_def AddArtifactApproval_def AddArtifactApprovalV2_def approvalSigningBytesV2_def addProof_def Let_def
        split: sum.splits option.splits if_splits)
  with Cons show ?case by simp
qed simp

lemma approvalCalls_shape:
  "\<forall>x \<in> set (approvalCalls w es c). \<exists>pid. pid \<noteq> [] \<and> ((\<exists>k sig. x = Approve pid k sig) \<or> (\<exists>r k sig. x = ApproveV2 pid r k sig))"
  by (auto simp: approvalCalls_def split: if_splits option.splits)

lemma Finalize_unapproved_valid:
  assumes "sealer_ok c s" "chain_ok c (sl_entries s)" "sl_approvals s = []" "Finalize at s = Inr r"
  shows "valid_record c r"
proof -
  note F = Finalize_fields [OF assms(4)]
  have head: "sl_head s = headOf c (sl_entries s)" using assms(1) by (simp add: sealer_ok_def)
  have "seal_ok c r (sl_head s) fpr" if k: "fpr \<in> set (keys (sr_Signatures r))" for fpr
  proof -
    obtain sig where sig: "mget (sl_sigs s) fpr = Some sig" using k unfolding F keys_mvals key_iff_mget by blast
    with assms(1) obtain pub where "mget (sl_keys s) fpr = Some pub" "length pub = PublicKeySize"
        "pr_fingerprint c pub = fpr" "pr_verify c pub (cosig_preimage s fpr) sig"
      unfolding sealer_ok_def by blast
    with sig show ?thesis unfolding seal_ok_def F by simp
  qed
  then show ?thesis using assms(2,3) F(6,7) unfolding valid_record_def F(1-5) head by (auto simp: mvals_def)
qed

definition sealed_ok :: "World \<Rightarrow> SealedRecord \<Rightarrow> bool" where
  "sealed_ok w r \<longleftrightarrow> chain_ok (w_pr w) (sr_Entries r) \<and>
     (vr_Valid (fst (Verify (w_pr w) r)) \<longleftrightarrow> sr_ArtifactApprovals r = [] \<or> is_map (proposals (w_pr w) (sr_Entries r)))"

lemma assembled:
  assumes "snap_ok w (cl_room c) sn"
  shows "sealed_ok w (assembleSealedLocked w now sn c)" "sr_Entries (assembleSealedLocked w now sn c) = sn_entries sn"
    "keys (sr_Signatures (assembleSealedLocked w now sn c)) = keys (sn_sigs sn)"
proof -
  let ?n = "NewSealer (w_pr w) (cl_room c) (SelfFpr w c) (sn_entries sn)" and ?pr = "w_pr w"
  let ?xs = "cosignCalls sn" and ?ys = "approvalCalls w (sn_entries sn) c"
  define s where "s = fold (seal_do ?pr) (?xs @ ?ys) ?n"
  have x: "tidy ?pr ?n ?xs" "sl_sigs (fold (seal_do ?pr) ?xs ?n) = sn_sigs sn"
    using cosigns_taken [of "sn_sigs sn" w "cl_room c" sn ?n] assms by (simp_all add: snap_ok_def NewSealer_def)
  note y = approvals_keep_sigs [OF approvalCalls_shape [of w "sn_entries sn" c], of ?pr "fold (seal_do ?pr) ?xs ?n"]
  have sigs: "sl_sigs s = sn_sigs sn" using x y by (simp add: s_def)
  have "tidy ?pr ?n (?xs @ ?ys)" using x y by (simp add: tidy_append)
  note ok = session_ok [OF this, folded s_def]
  obtain r where r: "Finalize (pr_format_time ?pr now) s = Inr r" using sigs assms by (simp add: Finalize_def snap_ok_def)
  then have eq: "assembleSealedLocked w now sn c = r" by (simp add: assembleSealedLocked_def s_def Let_def)
  note F = Finalize_fields [OF r]
  show "sr_Entries (assembleSealedLocked w now sn c) = sn_entries sn" using F(1) ok(2) eq by simp
  show "keys (sr_Signatures (assembleSealedLocked w now sn c)) = keys (sn_sigs sn)" using F(3) sigs eq by simp
  have ch: "chain_ok ?pr (sl_entries s)" using assms ok(2) by (simp add: snap_ok_def)
  have "valid_record ?pr r \<longleftrightarrow> sr_ArtifactApprovals r = [] \<or> is_map (proposals ?pr (sr_Entries r))"
    using Finalize_valid [OF ok(1) ch _ r] Finalize_unapproved_valid [OF ok(1) ch _ r] unfolding F(1,5)
    by (auto simp: valid_record_def approvals_ok_def F(1,5))
  then show "sealed_ok w (assembleSealedLocked w now sn c)" using ch by (simp add: sealed_ok_def eq Verify_Valid F(1))
qed

section \<open>Every operation keeps the minutes sound\<close>

fun minutes_event :: "World \<Rightarrow> Event \<Rightarrow> bool" where
  "minutes_event w (Rec (EvSealComplete r n k _)) \<longleftrightarrow> sealed_ok w r \<and> n = length (sr_Entries r) \<and> k = length (sr_Signatures r)"
| "minutes_event w _ \<longleftrightarrow> True"

definition minutes_inv :: "World \<Rightarrow> Client \<Rightarrow> bool" where
  "minutes_inv w c \<longleftrightarrow> sign_sound (w_pr w) (cl_id c) \<and> chain_ok (w_pr w) (cl_chain c) \<and>
     (se_sealing (cl_seal c) \<longrightarrow> snap_ok w (cl_room c) (roundSnapshot (cl_seal c))) \<and>
     (\<forall>sn. se_lastSeal (cl_seal c) = Some sn \<longrightarrow> snap_ok w (cl_room c) sn) \<and> list_all (minutes_event w) (cl_events c)"

lemma minutes_inv_cong:
  "cl_id c = cl_id d \<Longrightarrow> cl_room c = cl_room d \<Longrightarrow> cl_chain c = cl_chain d \<Longrightarrow> cl_seal c = cl_seal d \<Longrightarrow>
   cl_events c = cl_events d \<Longrightarrow> minutes_inv w c = minutes_inv w d"
  by (simp add: minutes_inv_def)

lemma minutes_inv_emit [simp]: "minutes_inv w (emit ev c) \<longleftrightarrow> minutes_inv w c \<and> minutes_event w ev"
  by (auto simp: minutes_inv_def)

lemma minutes_inv_send [simp]: "minutes_inv w (snd (sendBody w op j c)) = minutes_inv w c"
  "minutes_inv w (snd (sealAndSend w op pt c)) = minutes_inv w c"
  by (rule minutes_inv_cong; simp)+

lemma minutes_inv_clock [simp]: "minutes_inv w (c\<lparr>cl_clock := k\<rparr>) = minutes_inv w c"
  by (rule minutes_inv_cong) simp_all

lemma Append_sound:
  assumes "\<And>x. length (pr_sha256 (w_pr w) x) = 32" "sign_sound (w_pr w) (cl_id c)" "spec_ok spec" "chain_ok (w_pr w) ch"
    and "Append (w_pr w) ts (selfAuthor w c) spec ch = Some (ch', e)"
  shows "chain_ok (w_pr w) ch'"
proof -
  let ?a = "selfAuthor w c" and ?pr = "w_pr w"
  let ?e = "newEntry ?pr ts ?a spec ch"
  obtain sig where sig: "IdSign (cl_id c) (canonical ?e) = Some sig" "ch' = ch @ [?e\<lparr>en_Sig := sig\<rparr>]"
    using assms(5) by (auto simp: Append_def selfAuthor_def Let_def split: option.splits)
  then have v: "pr_verify ?pr (ki_SignPub (cl_id c)) (canonical ?e) sig" "length (ki_SignPub (cl_id c)) = PublicKeySize"
    using assms(2) unfolding sign_sound_def by blast+
  have "emptyLink 0 (es_Links spec) = None" using assms(3) by (simp add: emptyLink_None spec_ok_def)
  then have "VerifyEntry ?pr (?e\<lparr>en_Sig := sig\<rparr>) = None"
    unfolding VerifyEntry_def kindError_sig canonical_sig kindError_new [OF assms(3)]
    using v length_headOf [OF assms(1)] by (simp add: newEntry_def selfAuthor_def SelfFpr_def IdFingerprint_def Fingerprint_def)
  then show ?thesis using assms(4) sig(2) by (simp add: chain_ok_snoc newEntry_def)
qed

lemma minutes_inv_chain: "minutes_inv w c \<Longrightarrow> chain_ok (w_pr w) ch \<Longrightarrow> minutes_inv w (c\<lparr>cl_chain := ch\<rparr>)"
  by (simp add: minutes_inv_def)

lemma spec_ok_plain [simp]: "knd \<in> {KindDecision, KindAction, KindNote, KindArtifact} \<Longrightarrow> spec_ok (plainSpec knd a b)"
  by (auto simp: spec_ok_def plainSpec_def kinds)

lemma snd_let_if [simp]: "snd (if b then x else y) = (if b then snd x else snd y)"
  by simp

lemma appendSpec_inv:
  assumes "\<And>x. length (pr_sha256 (w_pr w) x) = 32" "spec_ok spec" "minutes_inv w c"
  shows "minutes_inv w (snd (appendSpec w now spec c))"
proof (cases "Append (w_pr w) (word_of_int (unix now)) (selfAuthor w c) spec (cl_chain c)")
  case (Some p)
  obtain ch e where p: "p = (ch, e)" by (cases p)
  have "chain_ok (w_pr w) ch"
    using Append_sound [OF assms(1) _ assms(2) _ Some [unfolded p]] assms(3) by (simp add: minutes_inv_def)
  then have "minutes_inv w (c\<lparr>cl_chain := ch\<rparr>)" by (rule minutes_inv_chain [OF assms(3)])
  then show ?thesis using assms(3) Some p
    by (simp add: appendSpec_def Let_def split_beta emitRecordEntry_def split: option.splits)
qed (use assms(3) in \<open>simp add: appendSpec_def\<close>)

lemma appendRecord_inv:
  assumes "\<And>x. length (pr_sha256 (w_pr w) x) = 32" "knd \<in> {KindDecision, KindAction, KindNote, KindArtifact}" "minutes_inv w c"
  shows "minutes_inv w (snd (appendRecord w now knd a b c))"
  using appendSpec_inv [OF assms(1) spec_ok_plain [OF assms(2)] assms(3)] assms(3) by (simp add: appendRecord_def Let_def)

lemma appendClockNotes_inv:
  assumes "\<And>x. length (pr_sha256 (w_pr w) x) = 32" "minutes_inv w c"
  shows "minutes_inv w (appendClockNotes w now c)"
  using assms(2) by (simp add: appendClockNotes_def Let_def split_beta appendRecord_inv [OF assms(1)])

lemma onRecordEntry_inv: "minutes_inv w c \<Longrightarrow> minutes_inv w (onRecordEntry w e sig sb raw c)"
  by (auto simp: onRecordEntry_def emitRecordEntry_def AppendRemote_Inr chain_ok_snoc minutes_inv_def split: sum.splits)

lemma signSeal_sound:
  assumes "sign_sound (w_pr w) (cl_id c)" "signSeal w now head meaning c = Some (sig, e)"
  shows "pr_verify (w_pr w) (ki_SignPub (cl_id c)) (case e of
      Some e \<Rightarrow> SealSigningBytesV2 (cl_room c) (ed_Meaning e) (ed_Name e) (ed_SignedAt e) head
    | None \<Rightarrow> SealSigningBytes (cl_room c) head) sig" "length (ki_SignPub (cl_id c)) = PublicKeySize"
  using assms by (auto simp: signSeal_def sign_sound_def Let_def split: if_splits option.splits)

lemma sendSealAck_inv: "minutes_inv w c \<Longrightarrow> minutes_inv w (snd (sendSealAck w now head meaning c))"
proof -
  assume inv: "minutes_inv w c"
  then have "minutes_inv w (c\<lparr>cl_seal := (cl_seal c)\<lparr>se_pendingSealHead := a, se_pendingSealName := b\<rparr>\<rparr>)" for a b
    by (simp add: minutes_inv_def roundSnapshot_def)
  with inv show ?thesis by (simp add: sendSealAck_def Let_def split_beta split: option.splits)
qed

lemma finalizeSeal_inv: "minutes_inv w c \<Longrightarrow> minutes_inv w (finalizeSeal w now c)"
proof (cases "se_sealing (cl_seal c)")
  case True
  assume inv: "minutes_inv w c"
  with True have ok: "snap_ok w (cl_room c) (roundSnapshot (cl_seal c))" by (simp add: minutes_inv_def)
  have "length (sr_Signatures (assembleSealedLocked w now (roundSnapshot (cl_seal c)) c)) = length (sn_sigs (roundSnapshot (cl_seal c)))"
    using arg_cong [OF assembled(3) [OF ok], of length] by simp
  with inv True ok assembled [OF ok] show ?thesis by (simp add: finalizeSeal_def Let_def minutes_inv_def)
qed (simp add: finalizeSeal_def)

lemma maybeFinalize_inv: "minutes_inv w c \<Longrightarrow> minutes_inv w (maybeFinalize w now c)"
  by (simp add: maybeFinalize_def finalizeSeal_inv)

lemma fresh_round:
  assumes "minutes_inv w c" "signSeal w now (headOf (w_pr w) (cl_chain c)) meaning c = Some (sig, e)"
  shows "snap_ok w (cl_room c) \<lparr>sn_head = headOf (w_pr w) (cl_chain c), sn_entries = cl_chain c, sn_sigs = [(SelfFpr w c, sig)],
     sn_keys = [(SelfFpr w c, ki_SignPub (cl_id c))], sn_endorse = (case e of None \<Rightarrow> [] | Some e \<Rightarrow> [(SelfFpr w c, e)])\<rparr>"
proof -
  have "sign_sound (w_pr w) (cl_id c)" "chain_ok (w_pr w) (cl_chain c)" using assms(1) by (simp_all add: minutes_inv_def)
  with signSeal_sound [OF this(1) assms(2)] show ?thesis
    by (cases e) (auto simp: snap_ok_def signed_by_def snap_preimage_def SelfFpr_def IdFingerprint_def Fingerprint_def)
qed

lemma sealWith_inv:
  assumes "\<And>x. length (pr_sha256 (w_pr w) x) = 32" "minutes_inv w c"
  shows "minutes_inv w (snd (sealWith w now meaning c))"
proof -
  define d where "d = (if se_pendingSealHead (cl_seal c) = None \<and> \<not> se_sealing (cl_seal c) then appendClockNotes w now c else c)"
  have inv: "minutes_inv w d" using appendClockNotes_inv [OF assms] assms(2) by (simp add: d_def)
  have round: "minutes_inv w (d\<lparr>cl_seal := (cl_seal d)\<lparr>se_sealing := True, se_sealHead := headOf (w_pr w) (cl_chain d),
      se_sealEntries := cl_chain d, se_sealSigs := [(SelfFpr w d, sig)], se_sealKeys := [(SelfFpr w d, ki_SignPub (cl_id d))],
      se_sealEndorse := (case e of None \<Rightarrow> [] | Some e \<Rightarrow> [(SelfFpr w d, e)]), se_lastSeal := None, se_sealTimer := t\<rparr>\<rparr>)"
    if "signSeal w now (headOf (w_pr w) (cl_chain d)) meaning d = Some (sig, e)" for sig e t
    using inv fresh_round [OF inv that] by (simp add: minutes_inv_def roundSnapshot_def)
  show ?thesis
    unfolding sealWith_def Let_def d_def [symmetric]
    using inv round sendSealAck_inv [OF inv] by (auto simp: split_beta maybeFinalize_inv split: option.splits)
qed

lemma onSealRequest_inv: "minutes_inv w c \<Longrightarrow> minutes_inv w (onSealRequest w now name head c)"
proof -
  assume inv: "minutes_inv w c"
  then have "minutes_inv w (c\<lparr>cl_seal := (cl_seal c)\<lparr>se_pendingSealHead := a, se_pendingSealName := b\<rparr>\<rparr>)" for a b
    by (simp add: minutes_inv_def roundSnapshot_def)
  then show ?thesis by (simp add: onSealRequest_def Let_def sendSealAck_inv)
qed

lemma snap_ok_add:
  assumes "snap_ok w room sn" "recordCosignatureLocked w room pub meaning name at sig sn = (rec, valid, sn')"
  shows "snap_ok w room sn' \<and> sn_head sn' = sn_head sn \<and> sn_entries sn' = sn_entries sn"
proof (cases "rec")
  case False
  then have "sn' = sn" using assms(2) by (auto simp: recordCosignatureLocked_def Let_def split: if_splits)
  then show ?thesis using assms(1) by simp
next
  case True
  let ?f = "Fingerprint (w_pr w) pub" and ?e = "\<lparr>ed_Meaning = meaning, ed_Name = name, ed_SignedAt = at\<rparr>"
  from True assms(2) have v: "length pub = PublicKeySize" "pr_verify (w_pr w) pub
      (if meaning \<noteq> [] then SealSigningBytesV2 room meaning name at (sn_head sn) else SealSigningBytes room (sn_head sn)) sig"
      "?f \<notin> set (keys (sn_sigs sn))"
    and eq: "sn' = sn\<lparr>sn_sigs := sn_sigs sn @ [(?f, sig)], sn_keys := mput ?f pub (sn_keys sn),
        sn_endorse := (if meaning \<noteq> [] then mput ?f ?e (sn_endorse sn) else sn_endorse sn)\<rparr>"
    by (auto simp: recordCosignatureLocked_def Let_def mget_None_iff mput_new split: if_splits)
  have fresh: "mget (sn_endorse sn) ?f = None" using assms(1) v(3) by (auto simp: snap_ok_def mget_None_iff)
  have old: "signed_by w room sn' p" if "p \<in> set (sn_sigs sn)" for p
  proof -
    have "fst p \<noteq> ?f" using that v(3) by (metis imageI set_map)
    then have "snap_preimage room sn' (fst p) = snap_preimage room sn (fst p)" "mget (sn_keys sn') (fst p) = mget (sn_keys sn) (fst p)"
      by (simp_all add: snap_preimage_def eq split: option.split)
    with assms(1) that show ?thesis by (simp add: snap_ok_def signed_by_def)
  qed
  have new: "signed_by w room sn' (?f, sig)"
    using v(1,2) fresh by (auto simp: signed_by_def snap_preimage_def eq Fingerprint_def split: if_splits)
  show ?thesis using assms(1) v(3) old new unfolding snap_ok_def by (auto simp: eq split: if_splits)
qed

lemma roundSnapshot_update:
  "roundSnapshot (s\<lparr>se_sealSigs := a, se_sealKeys := b, se_sealEndorse := e\<rparr>) =
   (roundSnapshot s)\<lparr>sn_sigs := a, sn_keys := b, sn_endorse := e\<rparr>"
  by (simp add: roundSnapshot_def)

lemma onSealAck_inv:
  assumes "minutes_inv w c"
  shows "minutes_inv w (onSealAck w now name pub head sig meaning sname at c)"
proof (cases "se_sealing (cl_seal c) \<and> head = se_sealHead (cl_seal c)")
  case True
  obtain rec valid sn where r: "recordCosignatureLocked w (cl_room c) pub meaning sname at sig (roundSnapshot (cl_seal c)) = (rec, valid, sn)"
    by (metis surj_pair)
  have "snap_ok w (cl_room c) (roundSnapshot (cl_seal c))" using assms True by (simp add: minutes_inv_def)
  from snap_ok_add [OF this r] have sn: "snap_ok w (cl_room c) ((roundSnapshot (cl_seal c))\<lparr>sn_sigs := sn_sigs sn, sn_keys := sn_keys sn, sn_endorse := sn_endorse sn\<rparr>)"
    by (cases sn) (simp add: roundSnapshot_def)
  with assms True have "minutes_inv w (c\<lparr>cl_seal := (cl_seal c)\<lparr>se_sealSigs := sn_sigs sn, se_sealKeys := sn_keys sn, se_sealEndorse := sn_endorse sn\<rparr>\<rparr>)"
    by (simp add: minutes_inv_def roundSnapshot_update)
  then show ?thesis using assms True r by (simp add: onSealAck_def Let_def maybeFinalize_inv)
next
  case False
  show ?thesis
  proof (cases "se_lastSeal (cl_seal c)")
    case (Some old)
    obtain rec valid sn where r: "recordCosignatureLocked w (cl_room c) pub meaning sname at sig old = (rec, valid, sn)"
      by (metis surj_pair)
    have "snap_ok w (cl_room c) old" using assms Some by (simp add: minutes_inv_def)
    from snap_ok_add [OF this r] have sn: "snap_ok w (cl_room c) sn" by simp
    let ?c = "c\<lparr>cl_seal := (cl_seal c)\<lparr>se_lastSeal := Some sn\<rparr>\<rparr>"
    have inv: "minutes_inv w ?c" using assms sn by (simp add: minutes_inv_def roundSnapshot_def)
    have ok: "snap_ok w (cl_room ?c) sn" using sn by simp
    have "length (sr_Signatures (assembleSealedLocked w now sn ?c)) = length (sn_sigs sn)"
      using arg_cong [OF assembled(3) [OF ok], of length] by simp
    then have "minutes_inv w (emit (Rec (EvSealComplete (assembleSealedLocked w now sn ?c) (length (sn_entries sn)) (length (sn_sigs sn)) True)) ?c)"
      using inv assembled(1,2) [OF ok] by simp
    then show ?thesis using False Some assms r by (auto simp: onSealAck_def Let_def)
  qed (use False assms in \<open>auto simp: onSealAck_def Let_def\<close>)
qed

section \<open>A room's minutes over time\<close>

datatype minutes_op =
    Record go_time EntrySpec
  | DoDecide go_time string
  | DoAction go_time string string
  | DoMark go_time
  | DoAttest go_time "IdentityAttestation option"
  | GetEntry Entry "bytes option" "bytes option" "bytes option"
  | DoClockStart go_time
  | DoClockStop go_time
  | GetClock string string string go_time
  | DoSeal go_time string
  | GetSealRequest go_time string bytes
  | GetSealAck go_time string bytes bytes bytes string string string
  | SealTimer go_time
  | ClearSeal
  | Vanished

fun minutes_step :: "World \<Rightarrow> minutes_op \<Rightarrow> Client \<Rightarrow> Client" where
  "minutes_step w (Record now spec) c = snd (appendSpec w now spec c)"
| "minutes_step w (DoDecide now txt) c = snd (Decide w now txt c)"
| "minutes_step w (DoAction now handle txt) c = snd (ActionItem w now handle txt c)"
| "minutes_step w (DoMark now) c = snd (Mark w now c)"
| "minutes_step w (DoAttest now att) c = snd (AttestIdentity w now att c)"
| "minutes_step w (GetEntry e sig sb raw) c = onRecordEntry w e sig sb raw c"
| "minutes_step w (DoClockStart now) c = ClockStart w now c"
| "minutes_step w (DoClockStop now) c = ClockStop w now c"
| "minutes_step w (GetClock name fpr txt at) c = snd (recognizeClock name fpr txt at c)"
| "minutes_step w (DoSeal now meaning) c = snd (sealWith w now meaning c)"
| "minutes_step w (GetSealRequest now name head) c = onSealRequest w now name head c"
| "minutes_step w (GetSealAck now name pub head sig meaning sname at) c = onSealAck w now name pub head sig meaning sname at c"
| "minutes_step w (SealTimer now) c = finalizeSeal w now c"
| "minutes_step w ClearSeal c = clearSealLocked c"
| "minutes_step w Vanished c = clearSealLocked (c\<lparr>cl_chain := []\<rparr>)"

text \<open>A step of the rest of the client: members, keys, proposals, transfers and other events.\<close>

definition elsewhere :: "World \<Rightarrow> Client \<Rightarrow> Client \<Rightarrow> bool" where
  "elsewhere w c d \<longleftrightarrow> cl_id d = cl_id c \<and> cl_room d = cl_room c \<and> cl_chain d = cl_chain c \<and> cl_seal d = cl_seal c \<and>
     (\<exists>evs. cl_events d = cl_events c @ evs \<and> (\<forall>r n k a. Rec (EvSealComplete r n k a) \<notin> set evs))"

inductive minuted :: "World \<Rightarrow> Client \<Rightarrow> Client \<Rightarrow> bool" for w c0 where
  start: "minuted w c0 c0"
| step: "minuted w c0 c \<Longrightarrow> (\<And>now spec. op = Record now spec \<Longrightarrow> spec_ok spec) \<Longrightarrow> minuted w c0 (minutes_step w op c)"
| other: "minuted w c0 c \<Longrightarrow> elsewhere w c d \<Longrightarrow> minuted w c0 d"

lemma clearSeal_inv: "minutes_inv w c \<Longrightarrow> minutes_inv w (clearSealLocked c)"
  by (simp add: clearSealLocked_def minutes_inv_def zero_seal_def)

lemma clock_inv:
  "minutes_inv w c \<Longrightarrow> minutes_inv w (ClockStart w now c)" "minutes_inv w c \<Longrightarrow> minutes_inv w (ClockStop w now c)"
  "minutes_inv w c \<Longrightarrow> minutes_inv w (snd (recognizeClock name fpr txt at c))"
  by (simp_all add: ClockStart_def ClockStop_def recognizeClock_def Let_def split_beta)

lemma AttestIdentity_inv:
  assumes "\<And>x. length (pr_sha256 (w_pr w) x) = 32" "minutes_inv w c"
  shows "minutes_inv w (snd (AttestIdentity w now att c))"
proof -
  have "spec_ok spec" if "IdentityEntrySpec (w_pr w) att = Some spec" for spec
    using that by (auto simp: IdentityEntrySpec_def spec_ok_def kinds IdentitySchema_def split: option.splits)
  then show ?thesis using assms appendSpec_inv [OF assms(1) _ assms(2)] by (auto simp: AttestIdentity_def split: option.splits)
qed

lemma minutes_step_inv:
  assumes "\<And>x. length (pr_sha256 (w_pr w) x) = 32" "minutes_inv w c" "\<And>now spec. op = Record now spec \<Longrightarrow> spec_ok spec"
  shows "minutes_inv w (minutes_step w op c)"
proof (cases op)
  case Vanished
  have "minutes_inv w (c\<lparr>cl_chain := []\<rparr>)" using assms(2) by (simp add: minutes_inv_def chain_ok_def linked_def)
  then show ?thesis using Vanished clearSeal_inv by simp
qed (use assms(2,3) in \<open>simp_all add: appendSpec_inv [OF assms(1)] Decide_def ActionItem_def Mark_def Let_def split_beta appendRecord_inv [OF assms(1)]
    AttestIdentity_inv [OF assms(1)] onRecordEntry_inv clock_inv sealWith_inv [OF assms(1)] onSealRequest_inv onSealAck_inv finalizeSeal_inv clearSeal_inv\<close>)

lemma elsewhere_inv:
  assumes "minutes_inv w c" "elsewhere w c d"
  shows "minutes_inv w d"
proof -
  obtain evs where evs: "cl_events d = cl_events c @ evs" "\<forall>r n k a. Rec (EvSealComplete r n k a) \<notin> set evs"
    using assms(2) unfolding elsewhere_def by blast
  have "minutes_event w ev" if "ev \<in> set evs" for ev
    using that evs(2) by (cases "(w, ev)" rule: minutes_event.cases) auto
  then show ?thesis using assms evs(1) by (auto simp: minutes_inv_def elsewhere_def list_all_iff)
qed

lemma minuted_inv:
  assumes "minuted w c0 c" "minutes_inv w c0" "\<And>x. length (pr_sha256 (w_pr w) x) = 32"
  shows "minutes_inv w c"
  using assms(1) by induction (use assms(2,3) minutes_step_inv elsewhere_inv in blast)+

lemma new_minutes_inv: "sign_sound (w_pr w) i \<Longrightarrow> minutes_inv w (NewWithIdentity room name i)"
  by (simp add: minutes_inv_def NewWithIdentity_def zero_seal_def chain_ok_def linked_def)

section \<open>Reading the clock marker\<close>

lemma trim_left_digit:
  assumes "\<forall>x \<in> set ws. x \<noteq> [] \<longrightarrow> \<not> is_digit (hd x)" "is_digit a"
  shows "trim_left ws (a # s) = a # s"
proof -
  have "\<not> (x \<noteq> [] \<and> has_prefix x (a # s))" if "x \<in> set ws" for x
    using assms that by (cases x) (auto simp: has_prefix_def)
  then have "find (\<lambda>x. x \<noteq> [] \<and> has_prefix x (a # s)) ws = None" by (simp add: find_None_iff)
  then show ?thesis by (simp add: trim_left.simps)
qed

lemma spaces_no_digit: "\<forall>x \<in> set spaces. x \<noteq> [] \<longrightarrow> \<not> is_digit (hd x)"
  "\<forall>x \<in> set (map rev spaces). x \<noteq> [] \<longrightarrow> \<not> is_digit (hd x)"
  by (simp_all add: spaces_def is_digit_def upt_rec)

lemma trim_space_digits: "is_digit a \<Longrightarrow> is_digit z \<Longrightarrow> trim_space (a # s @ [z]) = a # s @ [z]"
  using trim_left_digit [OF spaces_no_digit(1), of a "s @ [z]"] trim_left_digit [OF spaces_no_digit(2), of z "rev s @ [a]"]
  by (simp add: trim_space_def)

lemma two_digits_ends: "\<exists>a s. two_digits n = a # s \<and> is_digit a" "\<exists>s z. two_digits n = s @ [z] \<and> is_digit z"
proof -
  have d: "list_all is_digit (two_digits n)" "two_digits n \<noteq> []" using two_digits_value [of n] by simp_all
  then show "\<exists>a s. two_digits n = a # s \<and> is_digit a" by (cases "two_digits n") simp_all
  from d show "\<exists>s z. two_digits n = s @ [z] \<and> is_digit z" by (cases "two_digits n" rule: rev_cases) simp_all
qed

lemma trim_space_format:
  "trim_space (two_digits h @ '':'' @ two_digits m @ '':'' @ two_digits s) = two_digits h @ '':'' @ two_digits m @ '':'' @ two_digits s"
proof -
  obtain a x where a: "two_digits h = a # x" "is_digit a" using two_digits_ends(1) by blast
  obtain y z where z: "two_digits s = y @ [z]" "is_digit z" using two_digits_ends(2) by blast
  show ?thesis using trim_space_digits [OF a(2) z(2), of "x @ '':'' @ two_digits m @ '':'' @ y"] by (simp add: a z)
qed

lemma hms_split: "int (n div 3600) * 3600 + int ((n mod 3600) div 60) * 60 + int (n mod 60) = int n"
proof -
  have "n mod 3600 mod 60 = n mod 60" by (rule mod_mod_cancel) simp
  moreover have "n div 3600 * 3600 + n mod 3600 = n" "(n mod 3600) div 60 * 60 + n mod 3600 mod 60 = n mod 3600"
    by (rule div_mult_mod_eq)+
  ultimately have "n div 3600 * 3600 + (n mod 3600) div 60 * 60 + n mod 60 = n" by linarith
  then have "int (n div 3600 * 3600 + (n mod 3600) div 60 * 60 + n mod 60) = int n" by (rule arg_cong)
  then show ?thesis by (simp only: of_nat_add of_nat_mult of_nat_numeral)
qed

lemma parse_format:
  assumes "0 \<le> d" "d < 2 ^ 63"
  shows "whole_seconds (parseHMS (formatHMS d)) = whole_seconds d"
proof -
  define tot where "tot = nat (whole_seconds d)"
  have "0 \<le> d div second" "d div second * second \<le> d"
    using assms by (simp_all add: second_def pos_imp_zdiv_nonneg_iff)
  moreover have ws: "whole_seconds d = d div second" using assms(1) by (cases "d = 0") (simp_all add: whole_seconds_def)
  ultimately have tot: "int tot = d div second" "int tot * second \<le> d" by (simp_all add: tot_def)
  then have small: "int tot < 2 ^ 34" using assms(2) by (simp add: second_def)
  let ?h = "tot div 3600" and ?m = "(tot mod 3600) div 60" and ?s = "tot mod 60"
  have hms: "int ?h * 3600 + int ?m * 60 + int ?s = int tot" by (rule hms_split)
  then have le: "int ?h < 2 ^ 34" "int ?m < 2 ^ 34" "int ?s < 2 ^ 34" using small by simp_all
  have "split_at CHR '':'' (two_digits ?h @ '':'' @ two_digits ?m @ '':'' @ two_digits ?s) = [two_digits ?h, two_digits ?m, two_digits ?s]"
    using two_digits_value digits_no_sep by (simp add: split_at_append split_at_none)
  then have "parseHMS (formatHMS d) = i64 (i64 (i64 (i64 (int ?h * 3600) + i64 (int ?m * 60)) + int ?s) * second)"
    using assms(1) le by (simp add: parseHMS_def formatHMS_def Let_def tot_def [symmetric] trim_space_format atoi_two_digits del: append.simps)
  also have "\<dots> = i64 (int tot * second)" using hms le by (simp add: i64_id)
  also have "\<dots> = int tot * second" by (rule i64_id) (use tot(2) assms(2) in \<open>simp_all add: second_def\<close>)
  finally show ?thesis using tot(1) ws by (simp add: whole_seconds_def second_def sgn_mult sgn_if)
qed

section \<open>Properties\<close>

text \<open>Claim C6. Whatever a client publishes as sealed minutes is sound: over every history of a client, with
  its own recordings and seals, entries, seal requests and co-signatures from anyone, timers,
  clearing and everything the rest of the client does in between, each completed or amended
  record holds a valid chain, its counts are the record's own, and the offline verifier
  accepts it, unless the chain names a proposal twice and approvals of proposals are attached,
  which it refuses. It is enough that this identity's signatures verify under its key and
  that digests have 32 bytes.\<close>

theorem sealed_minutes_verify:
  assumes "sign_sound (w_pr w) i" "\<And>x. length (pr_sha256 (w_pr w) x) = 32" "minuted w (NewWithIdentity room name i) c"
    and "Rec (EvSealComplete r n k a) \<in> set (cl_events c)"
  shows "chain_ok (w_pr w) (sr_Entries r) \<and> n = length (sr_Entries r) \<and> k = length (sr_Signatures r) \<and>
    (vr_Valid (fst (Verify (w_pr w) r)) \<longleftrightarrow> sr_ArtifactApprovals r = [] \<or> is_map (proposals (w_pr w) (sr_Entries r)))"
proof -
  have "minutes_inv w c" using minuted_inv [OF assms(3) new_minutes_inv [OF assms(1)] assms(2)] .
  then have "minutes_event w (Rec (EvSealComplete r n k a))" using assms(4) unfolding minutes_inv_def list_all_iff by blast
  then show ?thesis by (simp add: sealed_ok_def)
qed

text \<open>A client alone in its room that records a decision and seals it.\<close>

definition toy_recorded :: Client where
  "toy_recorded = minutes_step toy_world (Record 5 (plainSpec KindDecision [] ''go'')) (toy_client CHR ''a'' [])"

definition toy_minutes :: Client where
  "toy_minutes = minutes_step toy_world (DoSeal 6 []) toy_recorded"

lemma toy_minuted: "minuted toy_world (NewWithIdentity ''ops'' ''a'' (toy_id CHR ''a'')) toy_minutes"
proof -
  let ?c = "NewWithIdentity ''ops'' ''a'' (toy_id CHR ''a'')"
  have "elsewhere toy_world ?c (toy_client CHR ''a'' [])" by (simp add: elsewhere_def toy_client_def)
  with minuted.start have "minuted toy_world ?c (toy_client CHR ''a'' [])" by (rule minuted.other)
  then have "minuted toy_world ?c toy_recorded" unfolding toy_recorded_def by (rule minuted.step) auto
  then show ?thesis unfolding toy_minutes_def by (rule minuted.step) auto
qed

lemma toy_recorded_fields:
  "cl_id toy_recorded = toy_id CHR ''a''" "cl_room toy_recorded = ''ops''" "length (cl_chain toy_recorded) = 1" "cl_order toy_recorded = [''a'']"
  "cl_rk toy_recorded = Some \<lparr>rk_Epoch = 0, rk_Key = toy_key CHR ''k''\<rparr>" "cl_seal toy_recorded = zero_seal" "cl_clock toy_recorded = zero_clock"
  by (simp_all add: toy_recorded_def appendSpec_def Append_def selfAuthor_def Let_def split_beta emitRecordEntry_def
      toy_client_def NewWithIdentity_def toy_id_def IdSign_def split: option.splits)

lemma toy_signs: "IdSign (toy_id x) m = Some (toy_key x @ m)"
  by (simp add: toy_id_def IdSign_def)

lemma toy_send [simp]: "cl_rk c = Some k \<Longrightarrow> cl_id c = toy_id x \<Longrightarrow> fst (sendBody toy_world op j c) = None"
  by (simp add: sendBody_def sealAndSend_def draw_def SealMessage_def toy_defs Let_def)

lemma toy_minutes_sealed: "\<exists>r. Rec (EvSealComplete r 1 1 False) \<in> set (cl_events toy_minutes)"
proof -
  note f = toy_recorded_fields
  have "cl_chain toy_recorded \<noteq> []" using f(3) by auto
  with f show ?thesis
    by (auto simp: toy_minutes_def sealWith_def appendClockNotes_def zero_clock_def zero_seal_def Let_def split_beta signSeal_def
        toy_signs maybeFinalize_def finalizeSeal_def roundSnapshot_def)
qed

theorem sealed_minutes_verify_witness:
  "\<exists>r. Rec (EvSealComplete r 1 1 False) \<in> set (cl_events toy_minutes) \<and> chain_ok toy (sr_Entries r) \<and> length (sr_Entries r) = 1"
proof -
  obtain r where r: "Rec (EvSealComplete r 1 1 False) \<in> set (cl_events toy_minutes)" using toy_minutes_sealed ..
  have w: "w_pr toy_world = toy" by (simp add: toy_world_def)
  have "sign_sound (w_pr toy_world) (toy_id CHR ''a'')" "\<And>x. length (pr_sha256 (w_pr toy_world) x) = 32"
    by (simp_all add: w toy_id_sound toy_hash)
  from sealed_minutes_verify [OF this toy_minuted r] r show ?thesis by (metis w)
qed

text \<open>No valid co-signature is lost: when a seal is finished and a co-signature for its head arrives
  late, from a key that is not in the record yet and with a signature that verifies, the
  client amends the record: it announces one new record over the same entries, whose
  signers are the old ones and the late one, and keeps it for later amendments.\<close>

theorem late_cosignature_amends:
  assumes "minutes_inv w c" "\<not> se_sealing (cl_seal c)" "se_lastSeal (cl_seal c) = Some sn" "length pub = PublicKeySize"
    and "pr_verify (w_pr w) pub (if meaning = [] then SealSigningBytes (cl_room c) (sn_head sn)
          else SealSigningBytesV2 (cl_room c) meaning sname at (sn_head sn)) sig"
    and "Fingerprint (w_pr w) pub \<notin> set (keys (sn_sigs sn))"
  shows "\<exists>r c'. onSealAck w now name pub (sn_head sn) sig meaning sname at c = c' \<and>
    cl_events c' = cl_events c @ [Rec (EvSealComplete r (length (sn_entries sn)) (Suc (length (sn_sigs sn))) True)] \<and>
    sr_Entries r = sn_entries sn \<and> keys (sr_Signatures r) = keys (sn_sigs sn) @ [Fingerprint (w_pr w) pub] \<and> sealed_ok w r \<and> minutes_inv w c'"
proof -
  obtain sn' where r: "recordCosignatureLocked w (cl_room c) pub meaning sname at sig sn = (True, True, sn')"
    and k: "sn_sigs sn' = sn_sigs sn @ [(Fingerprint (w_pr w) pub, sig)]" "sn_entries sn' = sn_entries sn"
    using assms(4-6) by (auto simp: recordCosignatureLocked_def Let_def mget_None_iff mput_new split: if_splits)
  let ?c = "c\<lparr>cl_seal := (cl_seal c)\<lparr>se_lastSeal := Some sn'\<rparr>\<rparr>"
  have "snap_ok w (cl_room ?c) sn'" using snap_ok_add [OF _ r] assms(1,3) by (simp add: minutes_inv_def)
  note A = assembled [OF this, of now]
  have "onSealAck w now name pub (sn_head sn) sig meaning sname at c =
      emit (Rec (EvSealComplete (assembleSealedLocked w now sn' ?c) (length (sn_entries sn)) (Suc (length (sn_sigs sn))) True)) ?c"
    using assms(2,3) r k by (simp add: onSealAck_def Let_def)
  with A k onSealAck_inv [OF assms(1), of now name pub "sn_head sn" sig meaning sname at] show ?thesis by simp
qed

definition toy_snap :: sealSnapshot where
  "toy_snap = \<lparr>sn_head = zeroHash, sn_entries = [], sn_sigs = [(''SHA256:'' @ toy_key CHR ''a'', toy_key CHR ''a'' @ SealSigningBytes ''ops'' zeroHash)],
     sn_keys = [(''SHA256:'' @ toy_key CHR ''a'', toy_key CHR ''a'')], sn_endorse = []\<rparr>"

definition toy_finished :: Client where
  "toy_finished = (toy_client CHR ''a'' [])\<lparr>cl_seal := zero_seal\<lparr>se_lastSeal := Some toy_snap\<rparr>\<rparr>"

theorem late_cosignature_amends_witness:
  "\<exists>r. cl_events (onSealAck toy_world 9 ''b'' (toy_key CHR ''b'') zeroHash (toy_key CHR ''b'' @ SealSigningBytes ''ops'' zeroHash) [] [] [] toy_finished) =
     [Rec (EvSealComplete r 0 2 True)] \<and> length (sr_Signatures r) = 2"
proof -
  let ?b = "toy_key CHR ''b''" and ?sig = "toy_key CHR ''b'' @ SealSigningBytes ''ops'' zeroHash"
  have "minutes_inv toy_world toy_finished"
    using toy_id_sound by (simp add: minutes_inv_def toy_finished_def toy_client_def NewWithIdentity_def zero_seal_def toy_snap_def toy_world_def
        chain_ok_def linked_def snap_ok_def headOf_def signed_by_def snap_preimage_def toy_def toy_key_def PublicKeySize_def)
  moreover have "\<not> se_sealing (cl_seal toy_finished)" "se_lastSeal (cl_seal toy_finished) = Some toy_snap" "length ?b = PublicKeySize"
    by (simp_all add: toy_finished_def zero_seal_def toy_key_def PublicKeySize_def)
  moreover have "pr_verify (w_pr toy_world) ?b (if ([] :: string) = [] then SealSigningBytes (cl_room toy_finished) (sn_head toy_snap)
      else SealSigningBytesV2 (cl_room toy_finished) [] [] [] (sn_head toy_snap)) ?sig"
    by (simp add: toy_world_def toy_def toy_finished_def toy_client_def NewWithIdentity_def toy_snap_def)
  moreover have "Fingerprint (w_pr toy_world) ?b \<notin> set (keys (sn_sigs toy_snap))"
    by (simp add: toy_world_def toy_def toy_snap_def Fingerprint_def toy_key_def)
  ultimately obtain r c' where r: "onSealAck toy_world 9 ''b'' ?b (sn_head toy_snap) ?sig [] [] [] toy_finished = c'"
      "cl_events c' = cl_events toy_finished @ [Rec (EvSealComplete r (length (sn_entries toy_snap)) (Suc (length (sn_sigs toy_snap))) True)]"
      "keys (sr_Signatures r) = keys (sn_sigs toy_snap) @ [Fingerprint (w_pr toy_world) ?b]"
    using late_cosignature_amends [of toy_world toy_finished toy_snap ?b "[]" "[]" "[]" ?sig 9 "''b''"] by blast
  have "length (sr_Signatures r) = 2" using arg_cong [OF r(3), of length] by (simp add: toy_snap_def)
  with r(1,2) show ?thesis by (intro exI [of _ r]) (simp add: toy_snap_def toy_finished_def toy_client_def NewWithIdentity_def)
qed

text \<open>The clock marker reads back: the elapsed time a client announces when it stops the clock is,
  to the second, the one its peers display, for every duration.\<close>

theorem clock_marker_read_back:
  assumes "0 \<le> d" "d < 2 ^ 63"
  shows "recognizeClock name fpr (clockStopPrefix @ formatHMS d) at c =
    (True, emit (Coord (EvClockStop name fpr (whole_seconds d) False at))
       (if ck_clockStop (cl_clock c) = 0 then c\<lparr>cl_clock := (cl_clock c)\<lparr>ck_clockStop := at\<rparr>\<rparr> else c))"
proof -
  have "has_prefix clockStopPrefix (clockStopPrefix @ formatHMS d)" "trim_prefix clockStopPrefix (clockStopPrefix @ formatHMS d) = formatHMS d"
    by (simp_all add: has_prefix_def trim_prefix_def)
  moreover have "clockStopPrefix @ formatHMS d \<noteq> clockStartMsg" by (simp add: clockStopPrefix_def clockStartMsg_def stopwatch_def)
  ultimately show ?thesis using parse_format [OF assms] by (simp add: recognizeClock_def Let_def)
qed

theorem clock_marker_read_back_witness:
  "snd (recognizeClock ''b'' ''f'' (clockStopPrefix @ formatHMS (3661 * second)) 7 (toy_client CHR ''a'' [])) =
    emit (Coord (EvClockStop ''b'' ''f'' 3661 False 7)) ((toy_client CHR ''a'' [])\<lparr>cl_clock := zero_clock\<lparr>ck_clockStop := 7\<rparr>\<rparr>)"
  using clock_marker_read_back [of "3661 * second" "''b''" "''f''" 7 "toy_client CHR ''a'' []"]
  by (simp add: second_def whole_seconds_def toy_client_def NewWithIdentity_def zero_clock_def)

text \<open>Claim C38. A seal request for a head nobody has stops its receivers from sealing: once it is pending,
  every attempt to seal a record with another head fails as diverged and changes nothing,
  the request included, so that only clearing the seal state ends it.\<close>

theorem stray_request_blocks_seal:
  assumes "\<not> se_sealing (cl_seal c)" "head \<noteq> []"
  shows "let d = onSealRequest w now name head c in se_pendingSealHead (cl_seal d) = Some head \<and>
    (\<forall>e t meaning. cl_seal e = cl_seal d \<and> cl_rk e \<noteq> None \<and> cl_chain e \<noteq> [] \<and> headOf (w_pr w) (cl_chain e) \<noteq> head \<longrightarrow>
      sealWith w t meaning e = (Some (RecordErr SealDiverged), e))"
  using assms by (auto simp: onSealRequest_def sealWith_def Let_def)

theorem stray_request_blocks_seal_witness:
  "sealWith toy_world 9 [] (onSealRequest toy_world 8 ''m'' ''junk'' toy_recorded) =
    (Some (RecordErr SealDiverged), onSealRequest toy_world 8 ''m'' ''junk'' toy_recorded)"
proof -
  let ?d = "onSealRequest toy_world 8 ''m'' ''junk'' toy_recorded"
  note f = toy_recorded_fields
  have "length (headOf toy (cl_chain toy_recorded)) = 32" using length_headOf [of toy] toy_hash by (simp add: sha256_Size_def)
  then have "headOf toy (cl_chain toy_recorded) \<noteq> ''junk''" by auto
  moreover have "cl_chain toy_recorded \<noteq> []" using f(3) by auto
  moreover have d: "cl_chain ?d = cl_chain toy_recorded" "cl_rk ?d = cl_rk toy_recorded"
    using f(6) by (simp_all add: onSealRequest_def Let_def zero_seal_def)
  moreover have "\<not> se_sealing (cl_seal toy_recorded)" using f(6) by (simp add: zero_seal_def)
  ultimately show ?thesis
    using stray_request_blocks_seal [of toy_recorded "''junk''" toy_world 8 "''m''"] f(5) by (simp add: Let_def toy_world_def)
qed

end
