(* ===== verification/Proposals.thy ===== *)
theory Proposals
  imports Prelude Minutes Actions
begin

text \<open>
  Artifact proposals, \<^verbatim>\<open>src/tui/client/artifact.go\<close>: an agent proposes an artifact by its hash, people
  approve it, and at the quorum one of them writes a signed entry into the minutes. Every
  client tracks every proposal it sees; \<open>proposal_step\<close> is the set of calls and frames a
  client can get, in any order.
\<close>

section \<open>Tracking\<close>

definition tp_addApprover :: "string \<Rightarrow> trackedProposal \<Rightarrow> trackedProposal option" where
  "tp_addApprover fpr tp =
    (if tp_resolved tp \<or> fpr = pp_ProposerFpr (tp_prop tp) \<or> fpr \<in> set (tp_approvers tp) then None
     else Some (tp\<lparr>tp_approvers := tp_approvers tp @ [fpr], tp_order := tp_order tp @ [fpr]\<rparr>))"

definition approverList :: "trackedProposal \<Rightarrow> string list" where
  "approverList tp = tp_order tp"

definition tp_stop :: "trackedProposal \<Rightarrow> trackedProposal" where
  "tp_stop tp = tp\<lparr>tp_timer := None\<rparr>"

definition armProposalTimerLocked :: "go_time \<Rightarrow> trackedProposal \<Rightarrow> trackedProposal" where
  "armProposalTimerLocked now tp =
    (let rem = pp_ExpiresUnix (tp_prop tp) * second - now;
         d = (if pp_ExpiresUnix (tp_prop tp) > 0 \<and> rem > 0 then rem else artifactProposalTTL)
     in tp\<lparr>tp_timer := Some (now + d)\<rparr>)"

definition newTracked :: "ArtifactProposalBody \<Rightarrow> string \<Rightarrow> bool \<Rightarrow> trackedProposal" where
  "newTracked body name initiator = \<lparr>tp_prop = body, tp_fromName = name, tp_approvers = [], tp_order = [], tp_proofs = [], tp_approved = False,
     tp_initiator = initiator, tp_timer = None, tp_resolved = False\<rparr>"

definition resolveProposalIDLocked :: "string \<Rightarrow> Client \<Rightarrow> string option" where
  "resolveProposalIDLocked pre c =
    (let search = (case filter (\<lambda>(i, tp). \<not> tp_resolved tp \<and> has_prefix pre i) (cl_proposals c) of [(i, _)] \<Rightarrow> Some i | _ \<Rightarrow> None)
     in case mget (cl_proposals c) pre of None \<Rightarrow> search | Some tp \<Rightarrow> (if \<not> tp_resolved tp then Some pre else search))"

definition clearProposalsLocked :: "Client \<Rightarrow> Client" where
  "clearProposalsLocked c = c\<lparr>cl_proposals := [], cl_artifactProofs := []\<rparr>"

record PendingProposal =
  pn_ProposalID :: string
  pn_Source :: string
  pn_ArtifactRef :: string
  pn_ArtifactHash :: string
  pn_Summary :: string
  pn_ProposerName :: string
  pn_ProposerFpr :: string
  pn_Approvers :: nat
  pn_Quorum :: int
  pn_ExpiresUnix :: int
  pn_Initiator :: bool

definition PendingProposals :: "Client \<Rightarrow> PendingProposal list" where
  "PendingProposals c = sort_key pn_ProposalID
    (map (\<lambda>(_, tp). let b = tp_prop tp in
        \<lparr>pn_ProposalID = pp_ProposalID b, pn_Source = pp_Source b, pn_ArtifactRef = pp_ArtifactRef b, pn_ArtifactHash = pp_ArtifactHash b,
         pn_Summary = pp_Summary b, pn_ProposerName = tp_fromName tp, pn_ProposerFpr = pp_ProposerFpr b, pn_Approvers = length (tp_approvers tp),
         pn_Quorum = pp_Quorum b, pn_ExpiresUnix = pp_ExpiresUnix b, pn_Initiator = tp_initiator tp\<rparr>)
      (filter (\<lambda>(_, tp). \<not> tp_resolved tp) (cl_proposals c)))"

section \<open>Writing the entry\<close>

definition minFpr :: "string list \<Rightarrow> string" where
  "minFpr fprs = (case fprs of [] \<Rightarrow> [] | f # fs \<Rightarrow> foldl (\<lambda>m f. if f < m then f else m) f fs)"

definition credentialKey :: "IdentityAttestation \<Rightarrow> string" where
  "credentialKey a = ia_Subject a @ [CHR 0x00] @ ia_Serial a"

definition placedCredentials :: "World \<Rightarrow> Entry list \<Rightarrow> string list" where
  "placedCredentials w entries = concat (map (\<lambda>e.
     if IsIdentityEntry e then (case ParseIdentity (w_pr w) (en_Body e) of Inr a \<Rightarrow> [credentialKey a] | Inl _ \<Rightarrow> []) else []) entries)"

fun placeCredentials :: "World \<Rightarrow> go_time \<Rightarrow> string list \<Rightarrow> capturedApproval list \<Rightarrow> Client \<Rightarrow> Client" where
  "placeCredentials w now placed [] c = c"
| "placeCredentials w now placed (ca # cas) c =
    (if ca_att ca = [] then placeCredentials w now placed cas c
     else case ParseIdentity (w_pr w) (ca_att ca) of
       Inl _ \<Rightarrow> placeCredentials w now placed cas c
     | Inr att \<Rightarrow>
        (if ia_Subject att \<noteq> ca_fpr ca \<or> credentialKey att \<in> set placed then placeCredentials w now placed cas c
         else let (err, c) = AttestIdentity w now (Some att) c;
                  c = (case err of None \<Rightarrow> c | Some e \<Rightarrow> emit (EvError (CredentialEntryFailed (ca_fpr ca) e)) c)
              in placeCredentials w now (credentialKey att # placed) cas c))"

definition writeApproverCredentials :: "World \<Rightarrow> go_time \<Rightarrow> string \<Rightarrow> Client \<Rightarrow> Client" where
  "writeApproverCredentials w now pid c =
    placeCredentials w now (placedCredentials w (cl_chain c)) (case mget (cl_artifactProofs c) pid of None \<Rightarrow> [] | Some cas \<Rightarrow> cas) c"

definition artifactMetaOf :: "World \<Rightarrow> go_time \<Rightarrow> ArtifactProposalBody \<Rightarrow> string \<Rightarrow> ArtifactMeta" where
  "artifactMetaOf w now p approverFpr =
    \<lparr>am_Source = pp_Source p, am_ArtifactRef = pp_ArtifactRef p, am_ArtifactHash = pp_ArtifactHash p, am_ApproverFpr = approverFpr,
     am_ProposedAt = pp_ProposedAt p, am_ApprovedAt = pr_format_time (w_pr w) now, am_ProposalID = pp_ProposalID p, am_Nonce = pp_Nonce p,
     am_ProposerFpr = pp_ProposerFpr p\<rparr>"

definition writeArtifactEntry :: "World \<Rightarrow> go_time \<Rightarrow> ArtifactProposalBody \<Rightarrow> string \<Rightarrow> Client \<Rightarrow> Client" where
  "writeArtifactEntry w now p approverFpr c =
    (let c = writeApproverCredentials w now (pp_ProposalID p) c;
         (err, c) = appendRecord w now KindArtifact [] (MarshalArtifactBody (w_pr w) (artifactMetaOf w now p approverFpr)) c
     in case err of None \<Rightarrow> c | Some e \<Rightarrow> emit (EvError (ArtifactEntryFailed e)) c)"

section \<open>Counting approvals\<close>

definition countArtifactApproval :: "World \<Rightarrow> go_time \<Rightarrow> string \<Rightarrow> string \<Rightarrow> capturedApproval \<Rightarrow> bool \<Rightarrow> Client \<Rightarrow> Client" where
  "countArtifactApproval w now pid approverName ca self c =
    (case mget (cl_proposals c) pid of
       None \<Rightarrow> c
     | Some tp \<Rightarrow>
        (case tp_addApprover (ca_fpr ca) tp of
           None \<Rightarrow> c
         | Some tp \<Rightarrow>
            (let tp = tp\<lparr>tp_proofs := mput (ca_fpr ca) ca (tp_proofs tp)\<rparr>;
                 count = length (tp_approvers tp); p = tp_prop tp; needed = pp_Quorum p;
                 reached = (int count \<ge> needed);
                 approvers = approverList tp;
                 captured = map (\<lambda>f. the (mget (tp_proofs tp) f)) (tp_order tp);
                 c = (if reached then c\<lparr>cl_artifactProofs := mput pid captured (cl_artifactProofs c), cl_proposals := mdel pid (cl_proposals c)\<rparr>
                      else c\<lparr>cl_proposals := mput pid tp (cl_proposals c)\<rparr>);
                 c = emit (Art (EvArtifactApproved pid (pp_ArtifactRef p) (pp_ArtifactHash p) approverName (ca_fpr ca) count needed self now
                   (ca_att ca) (ca_role ca) (ca_unbacked ca))) c
             in if \<not> reached then c
                else let writer = minFpr approvers;
                         c = (if writer = SelfFpr w c then writeArtifactEntry w now p writer c else c)
                in emit (Art (EvArtifactSealed pid (pp_Source p) (pp_ArtifactRef p) (pp_ArtifactHash p) approvers now)) c)))"

section \<open>Commands\<close>

definition Propose :: "World \<Rightarrow> go_time \<Rightarrow> string \<Rightarrow> string \<Rightarrow> string \<Rightarrow> string \<Rightarrow> int \<Rightarrow> Client \<Rightarrow> (client_error + string) \<times> Client" where
  "Propose w now source ref hash summary quorum c =
    (let source = trim_space source; ref = trim_space ref; hash = trim_space hash; quorum = (if quorum < 1 then 1 else quorum)
     in if source = [] \<or> ref = [] \<or> hash = [] then (Inl (ProposalErr ProposeIncomplete), c)
        else if cl_rk c = None then (Inl NoRoomKey, c)
        else let (pid, c) = newRequestID w c;
                 (nonce, c) = newRequestID w c;
                 body = \<lparr>pp_ProposalID = pid, pp_Source = source, pp_ArtifactRef = ref, pp_ArtifactHash = hash, pp_Summary = summary,
                   pp_ProposerFpr = SelfFpr w c, pp_Quorum = quorum, pp_ProposedAt = pr_format_time (w_pr w) now,
                   pp_ExpiresUnix = unix (now + artifactProposalTTL), pp_Nonce = nonce\<rparr>;
                 tp = armProposalTimerLocked now (newTracked body (cl_name c) True);
                 c = c\<lparr>cl_proposals := mput pid tp (cl_proposals c)\<rparr>;
                 (err, c) = sendBody w OpArtifactProposal (json_ArtifactProposalBody body) c
        in case err of
             Some e \<Rightarrow> (Inl e, c\<lparr>cl_proposals := mdel pid (cl_proposals c)\<rparr>)
           | None \<Rightarrow> (Inr pid, emit (Art (EvArtifactProposed pid source ref hash summary (cl_name c) (SelfFpr w c) quorum True now)) c))"

definition approvalRole :: "string \<Rightarrow> Client \<Rightarrow> client_error + string" where
  "approvalRole requested c =
    (let carried = (length (cl_selfCredential c) > 0); roles = cl_selfCredentialRoles c
     in if \<not> carried then (if requested \<noteq> [] then Inl (ProposalErr (RoleWithoutCredential requested)) else Inr [])
        else if requested = [] then (case roles of [] \<Rightarrow> Inr [] | [r] \<Rightarrow> Inr r | _ \<Rightarrow> Inl (ProposalErr (RoleAmbiguous roles)))
        else if requested \<in> set roles then Inr requested else Inl (ProposalErr (RoleNotNamed requested roles)))"

definition roleNamedByCredential :: "World \<Rightarrow> string \<Rightarrow> bytes \<Rightarrow> string \<Rightarrow> bool" where
  "roleNamedByCredential w role credential approverFpr =
    (if role = [] \<or> length credential = 0 then False
     else case ParseIdentity (w_pr w) credential of Inl _ \<Rightarrow> False | Inr a \<Rightarrow> ia_Subject a = approverFpr \<and> role \<in> set (ia_Roles a))"

text \<open>The bytes an approval signs: under a role the second layout, without one the first.\<close>

definition artifactApprovalBytes :: "ArtifactProposalBody \<Rightarrow> string \<Rightarrow> string \<Rightarrow> bytes" where
  "artifactApprovalBytes p fpr role =
    (if role \<noteq> [] then ArtifactApprovalSigningBytesV2 (pp_ProposalID p) (pp_ArtifactHash p) fpr (pp_Nonce p) role
     else ArtifactApprovalSigningBytes (pp_ProposalID p) (pp_ArtifactHash p) fpr (pp_Nonce p))"

definition makeArtifactApproval :: "World \<Rightarrow> KeyIdentity \<Rightarrow> bytes \<Rightarrow> string \<Rightarrow> ArtifactProposalBody \<Rightarrow> ArtifactApprovalBody option" where
  "makeArtifactApproval w i cred role p =
    (let fpr = IdFingerprint (w_pr w) i
     in case IdSign i (artifactApprovalBytes p fpr role) of
          None \<Rightarrow> None
        | Some sig \<Rightarrow> Some \<lparr>pa_ProposalID = pp_ProposalID p, pa_ArtifactHash = pp_ArtifactHash p, pa_ApproverFpr = fpr, pa_Sig = Some sig,
            pa_Attestation = (if cred = [] then None else Some cred), pa_Role = role\<rparr>)"

definition ApproveArtifact :: "World \<Rightarrow> go_time \<Rightarrow> string \<Rightarrow> string \<Rightarrow> Client \<Rightarrow> client_error option \<times> Client" where
  "ApproveArtifact w now proposalID role c =
    (case resolveProposalIDLocked proposalID c of
       None \<Rightarrow> (Some (ProposalErr (NoPendingProposal proposalID)), c)
     | Some i \<Rightarrow>
        (let tp = the (mget (cl_proposals c) i); p = tp_prop tp; cred = cl_selfCredential c
         in if tp_resolved tp then (Some (ProposalErr ProposalResolved), c)
            else if pp_ProposerFpr p = SelfFpr w c then (Some (ProposalErr OwnProposal), c)
            else if tp_approved tp then (Some (ProposalErr ProposalAlreadyApproved), c)
            else if pp_ArtifactHash p = [] then (Some (ProposalErr NoArtifactHash), c)
            else if cl_rk c = None then (Some NoRoomKey, c)
            else case approvalRole role c of
              Inl e \<Rightarrow> (Some e, c)
            | Inr role \<Rightarrow>
               (case makeArtifactApproval w (cl_id c) cred role p of
                  None \<Rightarrow> (Some SignErr, c)
                | Some ab \<Rightarrow>
                   (let (err, c) = sendBody w OpArtifactApproval (json_ArtifactApprovalBody ab) c
                    in case err of
                         Some e \<Rightarrow> (Some e, c)
                       | None \<Rightarrow>
                          (case mget (cl_proposals c) (pp_ProposalID p) of
                             None \<Rightarrow> (None, c)
                           | Some tp \<Rightarrow>
                              (if tp_resolved tp then (None, c)
                               else (None, countArtifactApproval w now (pp_ProposalID p) (cl_name c)
                                 \<lparr>ca_fpr = SelfFpr w c, ca_key = ki_SignPub (cl_id c), ca_sig = go_bytes (pa_Sig ab), ca_att = cred, ca_role = role,
                                  ca_unbacked = False\<rparr> True
                                 (c\<lparr>cl_proposals := mput (pp_ProposalID p) (tp\<lparr>tp_approved := True\<rparr>) (cl_proposals c)\<rparr>))))))))"

definition RejectArtifact :: "World \<Rightarrow> go_time \<Rightarrow> string \<Rightarrow> string \<Rightarrow> Client \<Rightarrow> client_error option \<times> Client" where
  "RejectArtifact w now proposalID reason c =
    (case resolveProposalIDLocked proposalID c of
       None \<Rightarrow> (Some (ProposalErr (NoPendingProposal proposalID)), c)
     | Some i \<Rightarrow>
        (let tp = the (mget (cl_proposals c) i)
         in if tp_resolved tp then (Some (ProposalErr ProposalResolved), c)
            else let ref = pp_ArtifactRef (tp_prop tp);
                     c = c\<lparr>cl_proposals := mdel i (cl_proposals c)\<rparr>
            in if cl_rk c = None then (Some NoRoomKey, c)
               else let (err, c) = sendBody w OpArtifactRejection (json_ArtifactRejectionBody
                          \<lparr>aj_ProposalID = i, aj_RejecterFpr = SelfFpr w c, aj_Reason = reason\<rparr>) c
               in case err of
                    Some e \<Rightarrow> (Some e, c)
                  | None \<Rightarrow> (None, emit (Art (EvArtifactRejected i ref (cl_name c) (SelfFpr w c) reason True now)) c)))"

section \<open>Incoming frames\<close>

definition onArtifactProposal :: "go_time \<Rightarrow> string \<Rightarrow> string \<Rightarrow> ArtifactProposalBody \<Rightarrow> Client \<Rightarrow> Client" where
  "onArtifactProposal now senderName senderFpr body c =
    (if pp_ProposalID body = [] \<or> pp_ArtifactHash body = [] \<or> pp_Quorum body < 1 then c
     else if pp_ProposerFpr body \<noteq> senderFpr then emit (EvError (ProposalErr (ProposerMismatch senderName))) c
     else if pp_ExpiresUnix body > 0 \<and> unix now \<ge> pp_ExpiresUnix body then c
     else if mget (cl_proposals c) (pp_ProposalID body) \<noteq> None then c
     else let tp = armProposalTimerLocked now (newTracked body senderName False)
          in emit (Art (EvArtifactProposed (pp_ProposalID body) (pp_Source body) (pp_ArtifactRef body) (pp_ArtifactHash body) (pp_Summary body)
               senderName (pp_ProposerFpr body) (pp_Quorum body) False now))
             (c\<lparr>cl_proposals := mput (pp_ProposalID body) tp (cl_proposals c)\<rparr>))"

definition onArtifactApproval :: "World \<Rightarrow> go_time \<Rightarrow> string \<Rightarrow> bytes \<Rightarrow> ArtifactApprovalBody \<Rightarrow> Client \<Rightarrow> Client" where
  "onArtifactApproval w now senderName senderPub body c =
    (case mget (cl_proposals c) (pa_ProposalID body) of
       None \<Rightarrow> c
     | Some tp \<Rightarrow>
        (let p = tp_prop tp; signerFpr = Fingerprint (w_pr w) senderPub; sig = go_bytes (pa_Sig body); att = go_bytes (pa_Attestation body)
         in if tp_resolved tp then c
            else if pa_ArtifactHash body \<noteq> pp_ArtifactHash p then emit (EvError (ProposalErr (ArtifactHashMismatch senderName))) c
            else if pa_ApproverFpr body \<noteq> signerFpr then emit (EvError (ProposalErr (ArtifactApproverMismatch senderName))) c
            else if length senderPub \<noteq> PublicKeySize \<or> \<not> pr_verify (w_pr w) senderPub (artifactApprovalBytes p (pa_ApproverFpr body) (pa_Role body)) sig
              then emit (EvError (ProposalErr (ArtifactApprovalInvalid senderName))) c
            else countArtifactApproval w now (pa_ProposalID body) senderName
              \<lparr>ca_fpr = signerFpr, ca_key = senderPub, ca_sig = sig, ca_att = att, ca_role = pa_Role body,
               ca_unbacked = (pa_Role body \<noteq> [] \<and> \<not> roleNamedByCredential w (pa_Role body) att (pa_ApproverFpr body))\<rparr> False c))"

definition onArtifactRejection :: "go_time \<Rightarrow> string \<Rightarrow> string \<Rightarrow> ArtifactRejectionBody \<Rightarrow> Client \<Rightarrow> Client" where
  "onArtifactRejection now senderName senderFpr body c =
    (case mget (cl_proposals c) (aj_ProposalID body) of
       None \<Rightarrow> c
     | Some tp \<Rightarrow>
        (if tp_resolved tp then c
         else emit (Art (EvArtifactRejected (aj_ProposalID body) (pp_ArtifactRef (tp_prop tp)) senderName senderFpr (aj_Reason body) False now))
           (c\<lparr>cl_proposals := mdel (aj_ProposalID body) (cl_proposals c)\<rparr>)))"

definition expireProposal :: "go_time \<Rightarrow> string \<Rightarrow> Client \<Rightarrow> Client" where
  "expireProposal now pid c =
    (case mget (cl_proposals c) pid of
       None \<Rightarrow> c
     | Some tp \<Rightarrow>
        (if tp_resolved tp then c
         else emit (Art (EvArtifactExpired pid (pp_ArtifactRef (tp_prop tp)) now)) (c\<lparr>cl_proposals := mdel pid (cl_proposals c)\<rparr>)))"

section \<open>What a proposal holds\<close>

text \<open>An approval whose signature verifies over the proposal's id, artifact hash, nonce and role.\<close>

definition approval_good :: "World \<Rightarrow> ArtifactProposalBody \<Rightarrow> capturedApproval \<Rightarrow> bool" where
  "approval_good w p ca \<longleftrightarrow> length (ca_key ca) = PublicKeySize \<and> ca_fpr ca = Fingerprint (w_pr w) (ca_key ca) \<and>
     pr_verify (w_pr w) (ca_key ca) (artifactApprovalBytes p (ca_fpr ca) (ca_role ca)) (ca_sig ca)"

definition tracked_good :: "World \<Rightarrow> string \<Rightarrow> trackedProposal \<Rightarrow> bool" where
  "tracked_good w pid tp \<longleftrightarrow> pp_ProposalID (tp_prop tp) = pid \<and> \<not> tp_resolved tp \<and> tp_order tp = tp_approvers tp \<and> distinct (tp_order tp) \<and>
     pp_ProposerFpr (tp_prop tp) \<notin> set (tp_order tp) \<and>
     (\<forall>f \<in> set (tp_order tp). \<exists>ca. mget (tp_proofs tp) f = Some ca \<and> ca_fpr ca = f \<and> approval_good w (tp_prop tp) ca)"

text \<open>Enough second persons approved: a quorum of distinct approvers, none the proposer, with their signatures.\<close>

definition second_persons :: "World \<Rightarrow> ArtifactProposalBody \<Rightarrow> capturedApproval list \<Rightarrow> bool" where
  "second_persons w p cas \<longleftrightarrow> pp_Quorum p \<le> int (length cas) \<and> distinct (map ca_fpr cas) \<and> pp_ProposerFpr p \<notin> set (map ca_fpr cas) \<and>
     list_all (approval_good w p) cas"

fun sealed_event :: "World \<Rightarrow> Event \<Rightarrow> bool" where
  "sealed_event w (Art (EvArtifactSealed pid src ref hash approvers at)) \<longleftrightarrow>
     (\<exists>p cas. pp_ProposalID p = pid \<and> pp_Source p = src \<and> pp_ArtifactRef p = ref \<and> pp_ArtifactHash p = hash \<and> approvers = map ca_fpr cas \<and>
        second_persons w p cas)"
| "sealed_event w _ \<longleftrightarrow> True"

definition proposals_inv :: "World \<Rightarrow> Client \<Rightarrow> bool" where
  "proposals_inv w c \<longleftrightarrow> sign_sound (w_pr w) (cl_id c) \<and> (\<forall>pid tp. mget (cl_proposals c) pid = Some tp \<longrightarrow> tracked_good w pid tp) \<and>
     (\<forall>pid cas. mget (cl_artifactProofs c) pid = Some cas \<longrightarrow> (\<exists>p. pp_ProposalID p = pid \<and> second_persons w p cas)) \<and>
     list_all (sealed_event w) (cl_events c)"

text \<open>What the rest of the client leaves alone.\<close>

fun announces_seal :: "Event \<Rightarrow> bool" where
  "announces_seal (Art (EvArtifactSealed pid src ref hash approvers at)) \<longleftrightarrow> True"
| "announces_seal _ \<longleftrightarrow> False"

definition quiet :: "Client \<Rightarrow> Client \<Rightarrow> bool" where
  "quiet c d \<longleftrightarrow> cl_id d = cl_id c \<and> cl_proposals d = cl_proposals c \<and> cl_artifactProofs d = cl_artifactProofs c \<and>
     (\<exists>evs. cl_events d = cl_events c @ evs \<and> list_all (\<lambda>ev. \<not> announces_seal ev) evs)"

lemma quiet_refl [simp]: "quiet c c"
  by (simp add: quiet_def)

lemma quiet_trans: "quiet c d \<Longrightarrow> quiet d e \<Longrightarrow> quiet c e"
  by (auto simp: quiet_def)

lemma not_announced: "\<not> announces_seal ev \<Longrightarrow> sealed_event w ev"
  by (cases "(w, ev)" rule: sealed_event.cases) auto

lemma quiet_inv: "proposals_inv w c \<Longrightarrow> quiet c d \<Longrightarrow> proposals_inv w d"
  by (auto simp: proposals_inv_def quiet_def list_all_iff not_announced)

lemma quiet_emit: "\<not> announces_seal ev \<Longrightarrow> quiet c d \<Longrightarrow> quiet c (emit ev d)"
  by (auto simp: quiet_def)

lemma quiet_send: "quiet c d \<Longrightarrow> quiet c (snd (sendBody w op j d))"
  by (auto simp: quiet_def)

lemma quiet_appendSpec: "quiet c (snd (appendSpec w now spec c))"
proof (cases "Append (w_pr w) (word_of_int (unix now)) (selfAuthor w c) spec (cl_chain c)")
  case (Some p)
  have "quiet c (c\<lparr>cl_chain := ch\<rparr>)" for ch by (simp add: quiet_def)
  note q = quiet_send [OF this]
  with Some show ?thesis
    by (cases p) (auto simp: appendSpec_def Let_def split_beta emitRecordEntry_def intro: quiet_emit split: option.splits)
qed (simp add: appendSpec_def)

lemma quiet_appendRecord: "quiet c (snd (appendRecord w now knd a b c))"
  using quiet_appendSpec by (simp add: appendRecord_def Let_def)

lemma quiet_AttestIdentity: "quiet c (snd (AttestIdentity w now att c))"
  using quiet_appendSpec by (simp add: AttestIdentity_def split: option.split)

lemma quiet_placeCredentials: "quiet c (placeCredentials w now placed cas c)"
proof (induction cas arbitrary: placed c)
  case (Cons ca cas)
  show ?case
  proof (cases "ParseIdentity (w_pr w) (ca_att ca)")
    case (Inr att)
    define d where "d = snd (AttestIdentity w now (Some att) c)"
    define e where "e = (case fst (AttestIdentity w now (Some att) c) of None \<Rightarrow> d | Some x \<Rightarrow> emit (EvError (CredentialEntryFailed (ca_fpr ca) x)) d)"
    have "quiet c d" unfolding d_def by (rule quiet_AttestIdentity)
    then have "quiet c e" by (auto simp: e_def intro: quiet_emit split: option.split)
    then have "quiet c (placeCredentials w now (credentialKey att # placed) cas e)" using Cons.IH by (rule quiet_trans)
    then show ?thesis using Cons.IH Inr unfolding e_def d_def by (simp add: Let_def split_beta)
  qed (use Cons.IH in simp)
qed simp

lemma quiet_writeArtifactEntry: "quiet c (writeArtifactEntry w now p fpr c)"
proof -
  define d where "d = writeApproverCredentials w now (pp_ProposalID p) c"
  have "quiet c d" unfolding d_def writeApproverCredentials_def by (rule quiet_placeCredentials)
  then have "quiet c (snd (appendRecord w now KindArtifact [] b d))" for b by (rule quiet_trans) (rule quiet_appendRecord)
  then show ?thesis
    by (auto simp: writeArtifactEntry_def Let_def split_beta d_def [symmetric] intro: quiet_emit split: option.split)
qed

lemma tracked_good_add:
  assumes "tracked_good w pid tp" "tp_addApprover (ca_fpr ca) tp = Some tp'" "approval_good w (tp_prop tp) ca"
  shows "tracked_good w pid (tp'\<lparr>tp_proofs := mput (ca_fpr ca) ca (tp_proofs tp')\<rparr>)" "tp_prop tp' = tp_prop tp"
proof -
  have t: "tp' = tp\<lparr>tp_approvers := tp_approvers tp @ [ca_fpr ca], tp_order := tp_order tp @ [ca_fpr ca]\<rparr>"
      "ca_fpr ca \<noteq> pp_ProposerFpr (tp_prop tp)" "ca_fpr ca \<notin> set (tp_approvers tp)"
    using assms(2) by (auto simp: tp_addApprover_def split: if_splits)
  show "tp_prop tp' = tp_prop tp" by (simp add: t(1))
  show "tracked_good w pid (tp'\<lparr>tp_proofs := mput (ca_fpr ca) ca (tp_proofs tp')\<rparr>)"
    using assms(1,3) t(2,3) unfolding t(1) tracked_good_def by (auto simp: eq_commute)
qed

lemma second_persons_captured:
  assumes "tracked_good w pid tp" "pp_Quorum (tp_prop tp) \<le> int (length (tp_approvers tp))"
  shows "second_persons w (tp_prop tp) (map (\<lambda>f. the (mget (tp_proofs tp) f)) (tp_order tp))"
    "map ca_fpr (map (\<lambda>f. the (mget (tp_proofs tp) f)) (tp_order tp)) = tp_order tp"
proof -
  have g: "\<forall>f \<in> set (tp_order tp). ca_fpr (the (mget (tp_proofs tp) f)) = f \<and> approval_good w (tp_prop tp) (the (mget (tp_proofs tp) f))"
    using assms(1) unfolding tracked_good_def by (metis option.sel)
  then show m: "map ca_fpr (map (\<lambda>f. the (mget (tp_proofs tp) f)) (tp_order tp)) = tp_order tp"
    by (simp add: map_idI)
  have "distinct (tp_order tp)" "pp_ProposerFpr (tp_prop tp) \<notin> set (tp_order tp)" "length (tp_order tp) = length (tp_approvers tp)"
    using assms(1) by (auto simp: tracked_good_def)
  with g assms(2) show "second_persons w (tp_prop tp) (map (\<lambda>f. the (mget (tp_proofs tp) f)) (tp_order tp))"
    unfolding second_persons_def m by (simp add: list_all_iff)
qed

lemma inv_drop: "proposals_inv w c \<Longrightarrow> cl_proposals c = m \<Longrightarrow> proposals_inv w (c\<lparr>cl_proposals := mdel pid m\<rparr>)"
  by (auto simp: proposals_inv_def)

lemma inv_track: "proposals_inv w c \<Longrightarrow> tracked_good w pid tp \<Longrightarrow> proposals_inv w (c\<lparr>cl_proposals := mput pid tp (cl_proposals c)\<rparr>)"
  by (simp add: proposals_inv_def)

lemma inv_emit [simp]: "proposals_inv w (emit ev c) \<longleftrightarrow> proposals_inv w c \<and> sealed_event w ev"
  by (auto simp: proposals_inv_def)

lemma inv_send [simp]: "proposals_inv w (snd (sendBody w op j c)) = proposals_inv w c"
  by (simp add: proposals_inv_def)

lemma countArtifactApproval_inv:
  assumes "proposals_inv w c" "\<And>tp. mget (cl_proposals c) pid = Some tp \<Longrightarrow> approval_good w (tp_prop tp) ca"
  shows "proposals_inv w (countArtifactApproval w now pid name ca self c)"
proof (cases "mget (cl_proposals c) pid")
  case None
  then show ?thesis using assms(1) by (simp add: countArtifactApproval_def)
next
  case (Some tp)
  show ?thesis
  proof (cases "tp_addApprover (ca_fpr ca) tp")
    case None
    then show ?thesis using assms(1) Some by (simp add: countArtifactApproval_def)
  next
    case (Some tp')
    define t where "t = tp'\<lparr>tp_proofs := mput (ca_fpr ca) ca (tp_proofs tp')\<rparr>"
    have "tracked_good w pid tp" using assms(1) \<open>mget (cl_proposals c) pid = Some tp\<close> by (simp add: proposals_inv_def)
    from tracked_good_add [OF this Some assms(2) [OF \<open>mget (cl_proposals c) pid = Some tp\<close>]]
    have t: "tracked_good w pid t" by (simp add: t_def)
    then have id: "pp_ProposalID (tp_prop t) = pid" by (simp add: tracked_good_def)
    define ev where "ev = Art (EvArtifactApproved pid (pp_ArtifactRef (tp_prop t)) (pp_ArtifactHash (tp_prop t)) name (ca_fpr ca)
      (length (tp_approvers t)) (pp_Quorum (tp_prop t)) self now (ca_att ca) (ca_role ca) (ca_unbacked ca))"
    show ?thesis
    proof (cases "pp_Quorum (tp_prop t) \<le> int (length (tp_approvers t))")
      case False
      have "proposals_inv w (emit ev (c\<lparr>cl_proposals := mput pid t (cl_proposals c)\<rparr>))"
        using inv_track [OF assms(1) t] by (simp add: ev_def)
      then show ?thesis using False Some \<open>mget (cl_proposals c) pid = Some tp\<close>
        by (simp add: countArtifactApproval_def Let_def t_def ev_def)
    next
      case True
      note sp = second_persons_captured [OF t True]
      let ?cas = "map (\<lambda>f. the (mget (tp_proofs t) f)) (tp_order t)"
      let ?d = "emit ev (c\<lparr>cl_artifactProofs := mput pid ?cas (cl_artifactProofs c), cl_proposals := mdel pid (cl_proposals c)\<rparr>)"
      have d: "proposals_inv w ?d" using assms(1) sp(1) id by (auto simp: proposals_inv_def ev_def)
      have "proposals_inv w (writeArtifactEntry w now (tp_prop t) f ?d)" for f
        using d quiet_writeArtifactEntry by (rule quiet_inv)
      moreover have "sealed_event w (Art (EvArtifactSealed pid (pp_Source (tp_prop t)) (pp_ArtifactRef (tp_prop t)) (pp_ArtifactHash (tp_prop t))
          (tp_order t) now))"
        using sp id by (auto intro!: exI [of _ "tp_prop t"] exI [of _ ?cas])
      ultimately show ?thesis using True Some \<open>mget (cl_proposals c) pid = Some tp\<close> d
        by (simp add: countArtifactApproval_def Let_def t_def ev_def approverList_def)
    qed
  qed
qed

section \<open>Calls and frames in any order\<close>

datatype proposal_op =
    DoPropose go_time string string string string int
  | DoApproveArtifact go_time string string
  | DoReject go_time string string
  | GetProposal go_time string string ArtifactProposalBody
  | GetArtifactApproval go_time string bytes ArtifactApprovalBody
  | GetRejection go_time string string ArtifactRejectionBody
  | ExpireProposal go_time string
  | ClearProposals

fun proposal_step :: "World \<Rightarrow> proposal_op \<Rightarrow> Client \<Rightarrow> Client" where
  "proposal_step w (DoPropose now src ref hash summary q) c = snd (Propose w now src ref hash summary q c)"
| "proposal_step w (DoApproveArtifact now pid role) c = snd (ApproveArtifact w now pid role c)"
| "proposal_step w (DoReject now pid reason) c = snd (RejectArtifact w now pid reason c)"
| "proposal_step w (GetProposal now name fpr body) c = onArtifactProposal now name fpr body c"
| "proposal_step w (GetArtifactApproval now name pub body) c = onArtifactApproval w now name pub body c"
| "proposal_step w (GetRejection now name fpr body) c = onArtifactRejection now name fpr body c"
| "proposal_step w (ExpireProposal now pid) c = expireProposal now pid c"
| "proposal_step w ClearProposals c = clearProposalsLocked c"

text \<open>The clients reached from a start, with steps of the rest of the client in between.\<close>

inductive proposing :: "World \<Rightarrow> Client \<Rightarrow> Client \<Rightarrow> bool" for w c0 where
  start: "proposing w c0 c0"
| step: "proposing w c0 c \<Longrightarrow> proposing w c0 (proposal_step w op c)"
| other: "proposing w c0 c \<Longrightarrow> quiet c d \<Longrightarrow> proposing w c0 d"

lemma newTracked_good: "pp_ProposalID body = pid \<Longrightarrow> tracked_good w pid (armProposalTimerLocked now (newTracked body name ini))"
  by (simp add: tracked_good_def armProposalTimerLocked_def newTracked_def Let_def)

lemma newRequestID_quiet: "proposals_inv w (snd (newRequestID v c)) = proposals_inv w c"
  by (simp add: newRequestID_def draw_def proposals_inv_def)

lemma Propose_inv:
  assumes "proposals_inv w c"
  shows "proposals_inv w (snd (Propose w now src ref hash summary q c))"
proof -
  define c1 where "c1 = snd (newRequestID w (snd (newRequestID w c)))"
  have "proposals_inv w c1" using assms by (simp add: c1_def newRequestID_quiet)
  then have "proposals_inv w (c1\<lparr>cl_proposals := mput pid (armProposalTimerLocked now (newTracked body name True)) (cl_proposals c1)\<rparr>)"
    if "pp_ProposalID body = pid" for pid body name
    using newTracked_good [OF that] by (rule inv_track)
  then show ?thesis using assms
    by (simp add: Propose_def Let_def split_beta c1_def [symmetric] inv_drop split: option.split)
qed

lemma own_approval_good:
  assumes "sign_sound (w_pr w) i" "makeArtifactApproval w i cred role p = Some ab"
  shows "approval_good w p \<lparr>ca_fpr = IdFingerprint (w_pr w) i, ca_key = ki_SignPub i, ca_sig = go_bytes (pa_Sig ab), ca_att = att, ca_role = role,
    ca_unbacked = u\<rparr>"
  using assms by (auto simp: approval_good_def makeArtifactApproval_def Let_def sign_sound_def go_bytes_def IdFingerprint_def split: option.splits)

lemma sole_match:
  assumes "(case filter P xs of [(i, _)] \<Rightarrow> Some i | _ \<Rightarrow> None) = Some i"
  shows "\<exists>v. mget xs i = Some v"
proof -
  obtain v where "filter P xs = [(i, v)]" using assms by (auto split: list.splits)
  then have "(i, v) \<in> set (filter P xs)" by simp
  then show ?thesis by (auto dest: weak_map_of_SomeI)
qed

lemma resolve_tracked: "resolveProposalIDLocked pre c = Some i \<Longrightarrow> \<exists>tp. mget (cl_proposals c) i = Some tp"
  by (auto simp: resolveProposalIDLocked_def Let_def intro: sole_match split: option.splits if_splits)

lemma ApproveArtifact_inv:
  assumes "proposals_inv w c"
  shows "proposals_inv w (snd (ApproveArtifact w now pid role c))"
proof (cases "resolveProposalIDLocked pid c")
  case (Some i)
  obtain tp where tp: "mget (cl_proposals c) i = Some tp" using resolve_tracked [OF Some] ..
  then have good: "tracked_good w i tp" using assms by (simp add: proposals_inv_def)
  have "proposals_inv w (countArtifactApproval w now i name
      \<lparr>ca_fpr = SelfFpr w d, ca_key = ki_SignPub (cl_id d), ca_sig = go_bytes (pa_Sig ab), ca_att = cred, ca_role = r, ca_unbacked = False\<rparr> True
      (d\<lparr>cl_proposals := mput i (tp\<lparr>tp_approved := True\<rparr>) m\<rparr>))"
    if "makeArtifactApproval w (cl_id c) cred r (tp_prop tp) = Some ab" "proposals_inv w d" "cl_id d = cl_id c" "cl_proposals d = m" for d name ab cred r m
  proof (rule countArtifactApproval_inv)
    have "tracked_good w i (tp\<lparr>tp_approved := True\<rparr>)" using good by (auto simp: tracked_good_def)
    then show "proposals_inv w (d\<lparr>cl_proposals := mput i (tp\<lparr>tp_approved := True\<rparr>) m\<rparr>)" using inv_track [OF that(2)] that(4) by simp
    have "sign_sound (w_pr w) (cl_id c)" using assms by (simp add: proposals_inv_def)
    from own_approval_good [OF this that(1)]
    show "\<And>t. mget (cl_proposals (d\<lparr>cl_proposals := mput i (tp\<lparr>tp_approved := True\<rparr>) m\<rparr>)) i = Some t \<Longrightarrow> approval_good w (tp_prop t)
        \<lparr>ca_fpr = SelfFpr w d, ca_key = ki_SignPub (cl_id d), ca_sig = go_bytes (pa_Sig ab), ca_att = cred, ca_role = r, ca_unbacked = False\<rparr>"
      using that(3) by (auto simp: SelfFpr_def)
  qed
  note own = this
  define d where "d = (\<lambda>ab. snd (sendBody w OpArtifactApproval (json_ArtifactApprovalBody ab) c))"
  have d: "proposals_inv w (d ab)" "cl_id (d ab) = cl_id c" "cl_proposals (d ab) = cl_proposals c" for ab using assms by (simp_all add: d_def)
  have "pp_ProposalID (tp_prop tp) = i" using good by (simp add: tracked_good_def)
  then show ?thesis using assms Some tp own [OF _ d, unfolded d(2)] d(1)
    by (simp add: ApproveArtifact_def Let_def split_beta d_def split: option.split sum.split)
qed (use assms in \<open>simp add: ApproveArtifact_def\<close>)

lemma onArtifactApproval_inv:
  assumes "proposals_inv w c"
  shows "proposals_inv w (onArtifactApproval w now name pub body c)"
proof (cases "mget (cl_proposals c) (pa_ProposalID body)")
  case (Some tp)
  have "proposals_inv w (countArtifactApproval w now (pa_ProposalID body) name
      \<lparr>ca_fpr = Fingerprint (w_pr w) pub, ca_key = pub, ca_sig = go_bytes (pa_Sig body), ca_att = a, ca_role = pa_Role body, ca_unbacked = u\<rparr> False c)"
    if "length pub = PublicKeySize" "pr_verify (w_pr w) pub (artifactApprovalBytes (tp_prop tp) (Fingerprint (w_pr w) pub) (pa_Role body)) (go_bytes (pa_Sig body))"
    for a u
    using assms that Some by (intro countArtifactApproval_inv) (auto simp: approval_good_def)
  then show ?thesis using assms Some by (auto simp: onArtifactApproval_def Let_def)
qed (use assms in \<open>simp add: onArtifactApproval_def\<close>)

lemma proposal_step_inv: "proposals_inv w c \<Longrightarrow> proposals_inv w (proposal_step w op c)"
proof (cases op)
  case (GetProposal now name fpr body)
  assume i: "proposals_inv w c"
  then have "proposals_inv w (c\<lparr>cl_proposals := mput (pp_ProposalID body) (armProposalTimerLocked now (newTracked body name False)) (cl_proposals c)\<rparr>)"
    by (rule inv_track) (rule newTracked_good, rule refl)
  then show ?thesis using i GetProposal by (simp add: onArtifactProposal_def Let_def)
next
  case (DoReject now pid reason)
  assume i: "proposals_inv w c"
  then show ?thesis unfolding DoReject
    by (simp add: RejectArtifact_def Let_def split_beta inv_drop split: option.split)
next
  case ClearProposals
  assume "proposals_inv w c"
  then show ?thesis using ClearProposals by (simp add: clearProposalsLocked_def proposals_inv_def)
qed (simp_all add: Propose_inv ApproveArtifact_inv onArtifactApproval_inv onArtifactRejection_def expireProposal_def inv_drop split: option.split)

lemma proposing_inv: "proposing w c0 c \<Longrightarrow> proposals_inv w c0 \<Longrightarrow> proposals_inv w c"
  by (induction rule: proposing.induct) (auto intro: proposal_step_inv quiet_inv)

lemma send_errors: "fst (sendBody w op j c) \<noteq> Some (ProposalErr e)"
  by (auto simp: sendBody_def sealAndSend_def Let_def draw_def split: option.splits sum.splits)

section \<open>Properties\<close>


text \<open>A client that has seen one proposal, by \<open>p\<close>, for which one approval is enough.\<close>

definition toy_body :: ArtifactProposalBody where
  "toy_body = \<lparr>pp_ProposalID = ''p1'', pp_Source = ''agent'', pp_ArtifactRef = ''plan'', pp_ArtifactHash = ''ab12'', pp_Summary = [],
     pp_ProposerFpr = ''SHA256:'' @ toy_key CHR ''p'', pp_Quorum = 1, pp_ProposedAt = [], pp_ExpiresUnix = 0, pp_Nonce = ''n1''\<rparr>"

definition toy_proposed :: "char \<Rightarrow> Client" where
  "toy_proposed x = onArtifactProposal 5 ''p'' (''SHA256:'' @ toy_key CHR ''p'') toy_body (toy_client x [])"

definition toy_artifact_approval :: ArtifactApprovalBody where
  "toy_artifact_approval = the (makeArtifactApproval toy_world (toy_id CHR ''b'') [] [] toy_body)"

lemma toy_proposed_fields: "cl_proposals (toy_proposed x) = [(''p1'', armProposalTimerLocked 5 (newTracked toy_body ''p'' False))]"
  "cl_id (toy_proposed x) = toy_id x" "cl_artifactProofs (toy_proposed x) = []" "cl_rk (toy_proposed x) = Some \<lparr>rk_Epoch = 0, rk_Key = toy_key CHR ''k''\<rparr>"
  "cl_selfCredential (toy_proposed x) = []" "cl_chain (toy_proposed x) = []" "cl_name (toy_proposed x) = [x]"
  by (simp_all add: toy_proposed_def onArtifactProposal_def toy_body_def toy_client_def NewWithIdentity_def)

lemma makeArtifactApproval_Some:
  assumes "makeArtifactApproval w idn cred role p = Some ab" "sign_sound (w_pr w) idn"
  shows "pa_ProposalID ab = pp_ProposalID p" "pa_ArtifactHash ab = pp_ArtifactHash p" "pa_ApproverFpr ab = IdFingerprint (w_pr w) idn"
    "pa_Role ab = role" "length (ki_SignPub idn) = PublicKeySize" "go_bytes (pa_Attestation ab) = cred"
    "pr_verify (w_pr w) (ki_SignPub idn) (artifactApprovalBytes p (pa_ApproverFpr ab) role) (go_bytes (pa_Sig ab))"
  using assms by (auto simp: makeArtifactApproval_def Let_def sign_sound_def go_bytes_def split: option.splits if_splits)

text \<open>The counting of one approval, in terms of what it leaves.\<close>

lemma countArtifactApproval_counts:
  assumes "mget (cl_proposals c) pid = Some tp" "\<not> tp_resolved tp" "ca_fpr ca \<notin> insert (pp_ProposerFpr (tp_prop tp)) (set (tp_approvers tp))"
  shows "let d = countArtifactApproval w now pid name ca self c in
    if int (length (tp_approvers tp)) + 1 < pp_Quorum (tp_prop tp)
    then (\<exists>tp'. mget (cl_proposals d) pid = Some tp' \<and> tp_approvers tp' = tp_approvers tp @ [ca_fpr ca] \<and> mget (tp_proofs tp') (ca_fpr ca) = Some ca)
    else mget (cl_proposals d) pid = None \<and>
      (\<exists>cas. mget (cl_artifactProofs d) pid = Some cas \<and> length cas = Suc (length (tp_order tp))) \<and>
      last (cl_events d) = Art (EvArtifactSealed pid (pp_Source (tp_prop tp)) (pp_ArtifactRef (tp_prop tp)) (pp_ArtifactHash (tp_prop tp))
        (tp_order tp @ [ca_fpr ca]) now)"
proof -
  define t where "t = tp\<lparr>tp_approvers := tp_approvers tp @ [ca_fpr ca], tp_order := tp_order tp @ [ca_fpr ca], tp_proofs := mput (ca_fpr ca) ca (tp_proofs tp)\<rparr>"
  let ?cas = "map (\<lambda>f. the (mget (tp_proofs t) f)) (tp_order t)"
  define d0 where "d0 = emit (Art (EvArtifactApproved pid (pp_ArtifactRef (tp_prop tp)) (pp_ArtifactHash (tp_prop tp)) name (ca_fpr ca)
      (Suc (length (tp_approvers tp))) (pp_Quorum (tp_prop tp)) self now (ca_att ca) (ca_role ca) (ca_unbacked ca)))
      (c\<lparr>cl_artifactProofs := mput pid ?cas (cl_artifactProofs c), cl_proposals := mdel pid (cl_proposals c)\<rparr>)"
  define d1 where "d1 = (if minFpr (tp_order t) = SelfFpr w d0 then writeArtifactEntry w now (tp_prop t) (minFpr (tp_order t)) d0 else d0)"
  have q: "quiet d0 d1" unfolding d1_def using quiet_writeArtifactEntry by simp
  then have d1: "cl_proposals d1 = mdel pid (cl_proposals c)" "cl_artifactProofs d1 = mput pid ?cas (cl_artifactProofs c)"
    by (simp_all add: quiet_def d0_def)
  have add: "tp_addApprover (ca_fpr ca) tp = Some (tp\<lparr>tp_approvers := tp_approvers tp @ [ca_fpr ca], tp_order := tp_order tp @ [ca_fpr ca]\<rparr>)"
    using assms(2,3) by (simp add: tp_addApprover_def)
  show ?thesis
  proof (cases "int (length (tp_approvers tp)) + 1 < pp_Quorum (tp_prop tp)")
    case True
    then have "cl_proposals (countArtifactApproval w now pid name ca self c) = mput pid t (cl_proposals c)"
      using assms(1) add by (simp add: countArtifactApproval_def Let_def t_def)
    then show ?thesis using True by (auto simp: Let_def t_def)
  next
    case False
    then have "countArtifactApproval w now pid name ca self c = emit (Art (EvArtifactSealed pid (pp_Source (tp_prop tp)) (pp_ArtifactRef (tp_prop tp))
        (pp_ArtifactHash (tp_prop tp)) (tp_order tp @ [ca_fpr ca]) now)) d1"
      using assms(1) add by (simp add: countArtifactApproval_def Let_def t_def d1_def d0_def approverList_def)
    then show ?thesis using False d1 by (simp add: t_def)
  qed
qed

text \<open>Claim C32. A genuine approval counts, and the one that completes the quorum seals: the body another member's
  client signs for a pending proposal, with or without a role, passes every check of the
  client that tracks it and adds that member to the approvers; at the quorum the proposal
  is resolved, all approvals are retained for the record, and the artifact is announced as
  sealed with the approvers in the order of their arrival.\<close>

theorem artifact_approval_counts:
  assumes "mget (cl_proposals c) (pp_ProposalID (tp_prop tp)) = Some tp" "\<not> tp_resolved tp"
    and "makeArtifactApproval w idn cred role (tp_prop tp) = Some ab" "sign_sound (w_pr w) idn"
    and "IdFingerprint (w_pr w) idn \<notin> insert (pp_ProposerFpr (tp_prop tp)) (set (tp_approvers tp))"
  shows "let d = onArtifactApproval w now sender (ki_SignPub idn) ab c; pid = pp_ProposalID (tp_prop tp); f = IdFingerprint (w_pr w) idn in
    if int (length (tp_approvers tp)) + 1 < pp_Quorum (tp_prop tp)
    then (\<exists>tp'. mget (cl_proposals d) pid = Some tp' \<and> tp_approvers tp' = tp_approvers tp @ [f])
    else mget (cl_proposals d) pid = None \<and>
      (\<exists>cas. mget (cl_artifactProofs d) pid = Some cas \<and> length cas = Suc (length (tp_order tp))) \<and>
      last (cl_events d) = Art (EvArtifactSealed pid (pp_Source (tp_prop tp)) (pp_ArtifactRef (tp_prop tp)) (pp_ArtifactHash (tp_prop tp))
        (tp_order tp @ [f]) now)"
proof -
  note m = makeArtifactApproval_Some [OF assms(3,4)]
  define ca where "ca = \<lparr>ca_fpr = IdFingerprint (w_pr w) idn, ca_key = ki_SignPub idn, ca_sig = go_bytes (pa_Sig ab), ca_att = cred, ca_role = role,
    ca_unbacked = (role \<noteq> [] \<and> \<not> roleNamedByCredential w role cred (pa_ApproverFpr ab))\<rparr>"
  have "onArtifactApproval w now sender (ki_SignPub idn) ab c = countArtifactApproval w now (pp_ProposalID (tp_prop tp)) sender ca False c"
    using assms(1,2) m by (simp add: onArtifactApproval_def Let_def ca_def IdFingerprint_def)
  moreover have "ca_fpr ca = IdFingerprint (w_pr w) idn" by (simp add: ca_def)
  ultimately show ?thesis using countArtifactApproval_counts [OF assms(1,2), of ca w now sender False, unfolded Let_def] assms(5)
    unfolding Let_def by (auto split: if_splits)
qed

lemma toy_artifact_approval_made: "makeArtifactApproval toy_world (toy_id CHR ''b'') [] [] toy_body = Some toy_artifact_approval"
  by (simp add: toy_artifact_approval_def makeArtifactApproval_def Let_def toy_signs)

theorem artifact_approval_counts_witness:
  "cl_proposals (toy_proposed CHR ''a'') \<noteq> [] \<and>
   mget (cl_proposals (onArtifactApproval toy_world 9 ''b'' (ki_SignPub (toy_id CHR ''b'')) toy_artifact_approval (toy_proposed CHR ''a''))) ''p1'' = None"
proof -
  let ?tp = "armProposalTimerLocked 5 (newTracked toy_body ''p'' False)"
  have tp: "tp_prop ?tp = toy_body" "\<not> tp_resolved ?tp" "tp_approvers ?tp = []" "pp_ProposalID toy_body = ''p1''" "pp_Quorum toy_body = 1"
    by (simp_all add: armProposalTimerLocked_def newTracked_def Let_def toy_body_def)
  have "IdFingerprint (w_pr toy_world) (toy_id CHR ''b'') \<notin> insert (pp_ProposerFpr (tp_prop ?tp)) (set (tp_approvers ?tp))"
    unfolding tp by (simp add: toy_defs toy_body_def)
  moreover have "sign_sound (w_pr toy_world) (toy_id CHR ''b'')" using toy_id_sound by (simp add: toy_world_def)
  moreover have "mget (cl_proposals (toy_proposed CHR ''a'')) (pp_ProposalID (tp_prop ?tp)) = Some ?tp" by (simp add: toy_proposed_fields tp)
  ultimately show ?thesis
    using artifact_approval_counts [of "toy_proposed CHR ''a''" ?tp toy_world "toy_id CHR ''b''" "[]" "[]" toy_artifact_approval 9 "''b''"]
      toy_artifact_approval_made tp by (simp add: Let_def toy_proposed_fields)
qed


text \<open>A role is only ever one the operator's own credential names, and a refusal leaves no trace: the role an
  approval is signed under is empty or among the credential's roles, and is the one asked for when
  one was asked for; whatever \<open>ApproveArtifact\<close> refuses, the client is left exactly as it was,
  with nothing sent.\<close>

theorem approval_role_exact:
  "(\<forall>r. approvalRole role c = Inr r \<longrightarrow> (r = [] \<or> r \<in> set (cl_selfCredentialRoles c) \<and> cl_selfCredential c \<noteq> []) \<and> (role \<noteq> [] \<longrightarrow> r = role)) \<and>
   (\<forall>e. approvalRole role c = Inl e \<longrightarrow> fst (ApproveArtifact w now pid role c) \<noteq> None \<and> snd (ApproveArtifact w now pid role c) = c) \<and>
   (\<forall>e. fst (ApproveArtifact w now pid role c) = Some (ProposalErr e) \<longrightarrow> snd (ApproveArtifact w now pid role c) = c)"
proof (intro conjI allI impI)
  fix r
  assume "approvalRole role c = Inr r"
  then show "r = [] \<or> r \<in> set (cl_selfCredentialRoles c) \<and> cl_selfCredential c \<noteq> []" "role \<noteq> [] \<Longrightarrow> r = role"
    by (auto simp: approvalRole_def Let_def split: if_splits list.splits)
next
  fix e
  assume "approvalRole role c = Inl e"
  then show "fst (ApproveArtifact w now pid role c) \<noteq> None" "snd (ApproveArtifact w now pid role c) = c"
    by (simp_all add: ApproveArtifact_def Let_def split: option.split)
next
  fix e
  assume "fst (ApproveArtifact w now pid role c) = Some (ProposalErr e)"
  then show "snd (ApproveArtifact w now pid role c) = c"
    by (auto simp: ApproveArtifact_def Let_def split_beta send_errors split: option.splits sum.splits if_splits)
qed

theorem approval_role_exact_witness:
  "snd (ApproveArtifact toy_world 9 ''p1'' ''officer'' (toy_proposed CHR ''a'')) = toy_proposed CHR ''a''"
  using approval_role_exact [of "''officer''" "toy_proposed CHR ''a''" toy_world 9 "''p1''"]
  by (simp add: approvalRole_def toy_proposed_fields)

section \<open>Concurrent approvals at a quorum of one\<close>

definition works :: "World \<Rightarrow> Client \<Rightarrow> bool" where
  "works w c \<longleftrightarrow> cl_rk c \<noteq> None \<and> (\<forall>m. IdSign (cl_id c) m \<noteq> None) \<and> (\<forall>n k. w_rand w n k \<noteq> None)"

lemma works_signs: "works w c \<Longrightarrow> \<exists>sig. IdSign (cl_id c) m = Some sig"
  unfolding works_def by (metis option.exhaust)

lemma send_works:
  assumes "works w c" shows "fst (sendBody w op j c) = None"
proof -
  obtain rk n where n: "cl_rk c = Some rk" "w_rand w (cl_draws c) NonceSizeX = Some n" using assms unfolding works_def by (metis option.exhaust)
  obtain sig where "IdSign (cl_id c) (SigningBytes (cl_room c) (cl_selfID c) (rk_Epoch rk) n
      (ci_seal (w_ci w) (rk_Key rk) n (pr_marshal (w_pr w) j) (epochAD (rk_Epoch rk)))) = Some sig"
    using works_signs [OF assms] by blast
  with n show ?thesis by (simp add: sendBody_def sealAndSend_def Let_def draw_def SealMessage_def)
qed

text \<open>A pending proposal nobody has approved yet, at a member who carries no credential.\<close>

definition may_approve :: "World \<Rightarrow> ArtifactProposalBody \<Rightarrow> Client \<Rightarrow> bool" where
  "may_approve w p c \<longleftrightarrow> works w c \<and> cl_selfCredential c = [] \<and> pp_ProposerFpr p \<noteq> SelfFpr w c \<and>
     (\<exists>tp. mget (cl_proposals c) (pp_ProposalID p) = Some tp \<and> tp_prop tp = p \<and> \<not> tp_resolved tp \<and> \<not> tp_approved tp \<and>
        tp_approvers tp = [] \<and> tp_order tp = [])"

lemma writeArtifactEntry_appends:
  assumes "works w c" "trim_space (MarshalArtifactBody (w_pr w) (artifactMetaOf w now p f)) \<noteq> []"
    and "mget (cl_artifactProofs c) (pp_ProposalID p) = Some [ca]" "ca_att ca = []"
  shows "\<exists>e. cl_chain (writeArtifactEntry w now p f c) = cl_chain c @ [e] \<and> en_Kind e = KindArtifact \<and> en_Seq e = word_of_nat (length (cl_chain c))"
proof -
  have cred: "writeApproverCredentials w now (pp_ProposalID p) c = c" using assms(3,4) by (simp add: writeApproverCredentials_def)
  let ?s = "plainSpec KindArtifact [] (trim_space (MarshalArtifactBody (w_pr w) (artifactMetaOf w now p f)))"
  let ?e = "newEntry (w_pr w) (word_of_int (unix now)) (selfAuthor w c) ?s (cl_chain c)"
  obtain sig where sig: "IdSign (cl_id c) (canonical ?e) = Some sig" using works_signs [OF assms(1)] by blast
  then have a: "Append (w_pr w) (word_of_int (unix now)) (selfAuthor w c) ?s (cl_chain c) = Some (cl_chain c @ [?e\<lparr>en_Sig := sig\<rparr>], ?e\<lparr>en_Sig := sig\<rparr>)"
    by (simp add: Append_def Let_def selfAuthor_def)
  have "works w (c\<lparr>cl_chain := ch\<rparr>)" for ch using assms(1) by (simp add: works_def)
  then have "cl_chain (writeArtifactEntry w now p f c) = cl_chain c @ [?e\<lparr>en_Sig := sig\<rparr>]"
    using assms(1,2) a by (auto simp: writeArtifactEntry_def cred appendRecord_def appendSpec_def Let_def split_beta send_works emitRecordEntry_def works_def)
  then show ?thesis by (auto simp: newEntry_def plainSpec_def)
qed

lemma lone_approval_writes:
  assumes "may_approve w p c" "pp_Quorum p \<le> 1" "pp_ArtifactHash p \<noteq> []" "\<And>m. trim_space (MarshalArtifactBody (w_pr w) m) \<noteq> []"
  shows "\<exists>e. cl_chain (snd (ApproveArtifact w now (pp_ProposalID p) [] c)) = cl_chain c @ [e] \<and> en_Kind e = KindArtifact \<and>
    en_Seq e = word_of_nat (length (cl_chain c))"
proof -
  obtain tp where tp: "mget (cl_proposals c) (pp_ProposalID p) = Some tp" "tp_prop tp = p" "\<not> tp_resolved tp" "\<not> tp_approved tp"
      "tp_approvers tp = []" "tp_order tp = []"
    and c: "works w c" "cl_selfCredential c = []" "pp_ProposerFpr p \<noteq> SelfFpr w c"
    using assms(1) unfolding may_approve_def by blast
  obtain sig where "IdSign (cl_id c) (artifactApprovalBytes p (SelfFpr w c) []) = Some sig" using works_signs [OF c(1)] by blast
  then obtain ab where ab: "makeArtifactApproval w (cl_id c) [] [] p = Some ab" by (auto simp: makeArtifactApproval_def Let_def SelfFpr_def)
  define d where "d = snd (sendBody w OpArtifactApproval (json_ArtifactApprovalBody ab) c)"
  have self: "SelfFpr w d = SelfFpr w c" by (simp add: SelfFpr_def d_def)
  define ca where "ca = \<lparr>ca_fpr = SelfFpr w c, ca_key = ki_SignPub (cl_id c), ca_sig = go_bytes (pa_Sig ab), ca_att = [], ca_role = [], ca_unbacked = False\<rparr>"
  define t where "t = tp\<lparr>tp_approved := True\<rparr>"
  define d1 where "d1 = d\<lparr>cl_proposals := mput (pp_ProposalID p) t (cl_proposals c)\<rparr>"
  have r: "snd (ApproveArtifact w now (pp_ProposalID p) [] c) = countArtifactApproval w now (pp_ProposalID p) (cl_name c) ca True d1"
    using tp c(2,3) assms(3) ab send_works [OF c(1)] c(1)
    by (auto simp: ApproveArtifact_def resolveProposalIDLocked_def approvalRole_def Let_def split_beta works_def d_def ca_def d1_def t_def SelfFpr_def)
  define d2 where "d2 = emit (Art (EvArtifactApproved (pp_ProposalID p) (pp_ArtifactRef p) (pp_ArtifactHash p) (cl_name c) (SelfFpr w c) 1 (pp_Quorum p)
      True now [] [] False)) (d1\<lparr>cl_artifactProofs := mput (pp_ProposalID p) [ca] (cl_artifactProofs d1), cl_proposals := mdel (pp_ProposalID p) (cl_proposals d1)\<rparr>)"
  have f: "SelfFpr w d2 = SelfFpr w c" "cl_chain d2 = cl_chain c" "mget (cl_artifactProofs d2) (pp_ProposalID p) = Some [ca]" "works w d2"
    using self c(1) by (simp_all add: d2_def d1_def SelfFpr_def d_def works_def)
  have "cl_chain (countArtifactApproval w now (pp_ProposalID p) (cl_name c) ca True d1) = cl_chain (writeArtifactEntry w now p (SelfFpr w c) d2)"
    using tp c(3) assms(2) f(1)
    by (simp add: countArtifactApproval_def d1_def tp_addApprover_def Let_def t_def ca_def approverList_def minFpr_def d2_def)
  then show ?thesis using writeArtifactEntry_appends [OF f(4) assms(4) f(3)] f(2) r by (auto simp: ca_def)
qed

text \<open>Claim C37. Two members who approve the same proposal at the same time, at a quorum of one, both write: each
  counts itself first, so each computes itself as the designated writer and appends an artifact entry to
  its own copy of the minutes; neither will take the other's entry, and the minutes have forked.\<close>

theorem concurrent_approvals_fork:
  assumes "may_approve w p a" "may_approve w p b" "pp_Quorum p \<le> 1" "pp_ArtifactHash p \<noteq> []" "cl_chain a = cl_chain b"
    and "\<And>m. trim_space (MarshalArtifactBody (w_pr w) m) \<noteq> []"
  shows "\<exists>x y. cl_chain (snd (ApproveArtifact w now (pp_ProposalID p) [] a)) = cl_chain a @ [x] \<and>
    cl_chain (snd (ApproveArtifact w now (pp_ProposalID p) [] b)) = cl_chain b @ [y] \<and> en_Kind x = KindArtifact \<and> en_Kind y = KindArtifact \<and>
    (\<forall>ch. AppendRemote (w_pr w) x (cl_chain b @ [y]) \<noteq> Inr ch \<and> AppendRemote (w_pr w) y (cl_chain a @ [x]) \<noteq> Inr ch)"
proof -
  obtain x where x: "cl_chain (snd (ApproveArtifact w now (pp_ProposalID p) [] a)) = cl_chain a @ [x]" "en_Kind x = KindArtifact"
      "en_Seq x = word_of_nat (length (cl_chain a))"
    using lone_approval_writes [OF assms(1,3,4,6), of now] by blast
  obtain y where y: "cl_chain (snd (ApproveArtifact w now (pp_ProposalID p) [] b)) = cl_chain b @ [y]" "en_Kind y = KindArtifact"
      "en_Seq y = word_of_nat (length (cl_chain b))"
    using lone_approval_writes [OF assms(2,3,4,6), of now] by blast
  show ?thesis using x y assms(5) by (intro exI [of _ x] exI [of _ y]) (simp add: AppendRemote_Inr)
qed

definition toy_writing_world :: World where
  "toy_writing_world = toy_world\<lparr>w_pr := toy\<lparr>pr_marshal := \<lambda>_. ''x''\<rparr>\<rparr>"

theorem concurrent_approvals_fork_witness:
  "\<exists>x y. cl_chain (snd (ApproveArtifact toy_writing_world 9 ''p1'' [] (toy_proposed CHR ''a''))) = [x] \<and>
    cl_chain (snd (ApproveArtifact toy_writing_world 9 ''p1'' [] (toy_proposed CHR ''b''))) = [y] \<and>
    (\<forall>ch. AppendRemote (w_pr toy_writing_world) x [y] \<noteq> Inr ch)"
proof -
  have m: "may_approve toy_writing_world toy_body (toy_proposed x)" if "x \<noteq> CHR ''p''" for x
    using that by (simp add: may_approve_def works_def toy_proposed_fields IdSign_def SelfFpr_def IdFingerprint_def Fingerprint_def
        toy_writing_world_def toy_world_def toy_def toy_id_def toy_body_def newTracked_def armProposalTimerLocked_def Let_def toy_key_def)
  have "trim_space ''x'' = ''x''"
    by (simp add: trim_space_def trim_left.simps spaces_def has_prefix_def upt_rec)
  then have t: "trim_space (MarshalArtifactBody (w_pr toy_writing_world) m) \<noteq> []" for m by (simp add: toy_writing_world_def MarshalArtifactBody_def)
  have b: "pp_Quorum toy_body \<le> 1" "pp_ArtifactHash toy_body \<noteq> []" "pp_ProposalID toy_body = ''p1''" by (simp_all add: toy_body_def)
  have "cl_chain (toy_proposed CHR ''a'') = cl_chain (toy_proposed CHR ''b'')" by (simp add: toy_proposed_fields)
  from concurrent_approvals_fork [OF m m b(1,2) this t, of 9] show ?thesis by (simp add: b(3) toy_proposed_fields) blast
qed

end
