(* ===== verification/Closing.thy ===== *)
theory Closing
  imports Prelude ClientCore GoText
begin

text \<open>
  Sending and closing, the write loop of \<^verbatim>\<open>src/tui/client/client.go\<close>: \<open>writeLoop\<close>, \<open>writeEnvelope\<close>,
  \<open>drainForClose\<close>, \<open>CloseWithin\<close>, \<open>takeUnflushed\<close> and \<open>UnflushedError\<close>. The transport is a
  parameter: the list of the outcomes of its successive sends. A send may also block until the
  transport is closed.
\<close>

section \<open>The write loop\<close>

datatype send_outcome = SendOk | SendErr string | SendBlocks

text \<open>The queue, the frame the transport holds, its error, whether the loop is blocked in a send or
  has ended, and the frames the transport has accepted.\<close>

record Writer =
  wr_sendCh :: "Envelope list"
  wr_inFlight :: "Envelope option"
  wr_inFlightErr :: "string option"
  wr_blocked :: bool
  wr_ended :: bool
  wr_wire :: "Envelope list"

definition beginSend :: "Envelope \<Rightarrow> Writer \<Rightarrow> Writer" where
  "beginSend env s = s\<lparr>wr_inFlight := Some env, wr_inFlightErr := None\<rparr>"

definition endSend :: "string option \<Rightarrow> Writer \<Rightarrow> Writer" where
  "endSend err s = (case err of None \<Rightarrow> s\<lparr>wr_inFlight := None\<rparr> | Some e \<Rightarrow> s\<lparr>wr_inFlightErr := Some e\<rparr>)"

definition writeEnvelope :: "send_outcome \<Rightarrow> Envelope \<Rightarrow> Writer \<Rightarrow> bool \<times> Writer" where
  "writeEnvelope r env s =
    (let s = beginSend env s
     in case r of
          SendOk \<Rightarrow> (True, endSend None (s\<lparr>wr_wire := wr_wire s @ [env]\<rparr>))
        | SendErr e \<Rightarrow> (False, endSend (Some e) s)
        | SendBlocks \<Rightarrow> (False, s\<lparr>wr_blocked := True\<rparr>))"

text \<open>One pass of the loop that takes a queued frame; a failed send ends it.\<close>

definition writePass :: "send_outcome \<Rightarrow> Writer \<Rightarrow> Writer" where
  "writePass r s =
    (if wr_ended s \<or> wr_blocked s then s
     else case wr_sendCh s of
       [] \<Rightarrow> s
     | env # q \<Rightarrow> (let (ok, s) = writeEnvelope r env (s\<lparr>wr_sendCh := q\<rparr>) in if ok \<or> wr_blocked s then s else s\<lparr>wr_ended := True\<rparr>))"

text \<open>The drain, bounded by the queue's length when the close arrived. Outcomes beyond the list
  block.\<close>

fun drainForClose :: "nat \<Rightarrow> send_outcome list \<Rightarrow> Writer \<Rightarrow> Writer" where
  "drainForClose 0 rs s = s\<lparr>wr_ended := True\<rparr>"
| "drainForClose (Suc n) rs s =
    (case wr_sendCh s of
       [] \<Rightarrow> s\<lparr>wr_ended := True\<rparr>
     | env # q \<Rightarrow>
        (let (ok, s) = writeEnvelope (case rs of [] \<Rightarrow> SendBlocks | r # _ \<Rightarrow> r) env (s\<lparr>wr_sendCh := q\<rparr>)
         in if ok then drainForClose n (tl rs) s else if wr_blocked s then s else s\<lparr>wr_ended := True\<rparr>))"

section \<open>Closing\<close>

datatype flush_cause = NoCause | Deadline | TransportError string

record UnflushedError =
  ue_Ops :: "string list"
  ue_After :: duration
  ue_Cause :: flush_cause

definition takeUnflushed :: "duration \<Rightarrow> flush_cause \<Rightarrow> Writer \<Rightarrow> UnflushedError option \<times> Writer" where
  "takeUnflushed elapsed cause s =
    (let ops = (case wr_inFlight s of None \<Rightarrow> [] | Some env \<Rightarrow> [ev_Type env]) @ map ev_Type (wr_sendCh s);
         cause = (if cause = NoCause then (case wr_inFlightErr s of None \<Rightarrow> NoCause | Some e \<Rightarrow> TransportError e) else cause);
         s = s\<lparr>wr_inFlight := None, wr_inFlightErr := None, wr_sendCh := []\<rparr>
     in if length ops = 0 then (None, s) else (Some \<lparr>ue_Ops = ops, ue_After = elapsed, ue_Cause = cause\<rparr>, s))"

text \<open>Close with a flush budget: the loop drains unless it has ended or is blocked; \<open>late\<close> are the
  frames queued after the drain took its count. When the drain does not end in time the
  budget runs out. With no budget the loop is cancelled where it is.\<close>

definition CloseWithin :: "duration \<Rightarrow> duration \<Rightarrow> send_outcome list \<Rightarrow> Envelope list \<Rightarrow> Writer \<Rightarrow> UnflushedError option \<times> Writer" where
  "CloseWithin budget elapsed rs late s =
    (let s = (if budget > 0 \<and> \<not> wr_ended s \<and> \<not> wr_blocked s
              then drainForClose (length (wr_sendCh s)) rs (s\<lparr>wr_sendCh := wr_sendCh s @ late\<rparr>)
              else s\<lparr>wr_sendCh := wr_sendCh s @ late\<rparr>);
         cause = (if budget > 0 \<and> \<not> wr_ended s then Deadline else NoCause)
     in takeUnflushed elapsed cause s)"

definition Evidence :: "UnflushedError \<Rightarrow> bool" where
  "Evidence e \<longleftrightarrow> (\<exists>op \<in> set (ue_Ops e). op \<in> {OpRecordEntry, OpSealRequest, OpSealAck, OpRosterRequest, OpRosterAck,
     OpScuttleReceiptRequest, OpScuttleReceiptAck, OpArtifactApproval, OpArtifactRejection})"

text \<open>\<open>Round\<close> to the millisecond, half away from zero.\<close>

definition round_ms :: "duration \<Rightarrow> duration" where
  "round_ms d = sgn d * ((\<bar>d\<bar> + 500000) div 1000000 * 1000000)"

definition UnflushedText :: "(flush_cause \<Rightarrow> string) \<Rightarrow> UnflushedError \<Rightarrow> string" where
  "UnflushedText cause_text e =
    ''close discarded '' @ nat_string (length (ue_Ops e)) @ '' unsent frame(s) ['' @ join '' '' (ue_Ops e) @ ''] after '' @ duration_string (round_ms (ue_After e))
    @ (if ue_Cause e \<noteq> NoCause then '': '' @ cause_text (ue_Cause e) else [])
    @ (if Evidence e then '' '' @ [CHR 0xE2, CHR 0x80, CHR 0x94] @ '' a record entry or seal signature did not reach the room'' else [])"

section \<open>Nothing disappears\<close>

definition held :: "Writer \<Rightarrow> Envelope list" where
  "held s = (case wr_inFlight s of None \<Rightarrow> [] | Some env \<Rightarrow> [env]) @ wr_sendCh s"

text \<open>A frame is held by the transport only while a send is in progress or after it failed.\<close>

definition writer_ok :: "Writer \<Rightarrow> bool" where
  "writer_ok s \<longleftrightarrow> (wr_inFlight s \<noteq> None \<longrightarrow> wr_ended s \<or> wr_blocked s)"

lemma writeEnvelope_held:
  assumes "wr_inFlight s = None" "writeEnvelope r env s = (ok, s')"
  shows "wr_wire s' @ held s' = wr_wire s @ env # wr_sendCh s" "ok \<longleftrightarrow> r = SendOk" "ok \<Longrightarrow> wr_inFlight s' = None"
    "wr_sendCh s' = wr_sendCh s" "wr_blocked s' \<longleftrightarrow> r = SendBlocks \<or> wr_blocked s" "wr_ended s' = wr_ended s"
  using assms by (auto simp: writeEnvelope_def beginSend_def endSend_def held_def Let_def split: send_outcome.splits)

lemma writePass_held: "writer_ok s \<Longrightarrow> writer_ok (writePass r s) \<and> wr_wire (writePass r s) @ held (writePass r s) = wr_wire s @ held s"
proof (cases "wr_ended s \<or> wr_blocked s")
  case True
  then show "writer_ok s \<Longrightarrow> ?thesis" by (simp add: writePass_def)
next
  case False
  assume "writer_ok s"
  then have n: "wr_inFlight s = None" using False by (auto simp: writer_ok_def)
  show ?thesis
  proof (cases "wr_sendCh s")
    case (Cons env q)
    obtain ok s' where w: "writeEnvelope r env (s\<lparr>wr_sendCh := q\<rparr>) = (ok, s')" by fastforce
    note H = writeEnvelope_held [OF _ w]
    show ?thesis using False Cons n w H by (auto simp: writePass_def writer_ok_def held_def)
  qed (use False n in \<open>simp add: writePass_def writer_ok_def\<close>)
qed

lemma drain_held:
  "wr_inFlight s = None \<Longrightarrow> wr_wire (drainForClose n rs s) @ held (drainForClose n rs s) = wr_wire s @ held s"
proof (induction n rs s rule: drainForClose.induct)
  case (2 n rs s)
  show ?case
  proof (cases "wr_sendCh s")
    case (Cons env q)
    let ?r = "case rs of [] \<Rightarrow> SendBlocks | r # _ \<Rightarrow> r"
    obtain ok s' where w: "writeEnvelope ?r env (s\<lparr>wr_sendCh := q\<rparr>) = (ok, s')" by fastforce
    have n: "wr_inFlight (s\<lparr>wr_sendCh := q\<rparr>) = None" using "2.prems" by simp
    note H = writeEnvelope_held [OF n w]
    show ?thesis
    proof (cases ok)
      case True
      then show ?thesis using "2.IH" [OF Cons w [symmetric]] H "2.prems" Cons w by (simp add: held_def)
    next
      case False
      then show ?thesis using H "2.prems" Cons w by (simp add: held_def)
    qed
  qed (simp add: held_def)
qed (simp add: held_def)

lemma drain_all_ok:
  "wr_inFlight s = None \<Longrightarrow> \<not> wr_blocked s \<Longrightarrow> length (wr_sendCh s) = n + k \<Longrightarrow> n \<le> length rs \<Longrightarrow> \<forall>r \<in> set (take n rs). r = SendOk \<Longrightarrow>
   let d = drainForClose n rs s in wr_ended d \<and> wr_inFlight d = None \<and> wr_wire d = wr_wire s @ take n (wr_sendCh s) \<and> wr_sendCh d = drop n (wr_sendCh s)"
proof (induction n arbitrary: rs s)
  case (Suc n)
  obtain env q where q: "wr_sendCh s = env # q" using Suc.prems(3) by (cases "wr_sendCh s") auto
  obtain r rest where r: "rs = r # rest" "r = SendOk" using Suc.prems(4,5) by (cases rs) auto
  let ?s = "s\<lparr>wr_sendCh := q, wr_inFlight := None, wr_inFlightErr := None, wr_wire := wr_wire s @ [env]\<rparr>"
  have "writeEnvelope SendOk env (s\<lparr>wr_sendCh := q\<rparr>) = (True, ?s)" by (simp add: writeEnvelope_def beginSend_def endSend_def)
  moreover have "let d = drainForClose n rest ?s in wr_ended d \<and> wr_inFlight d = None \<and> wr_wire d = wr_wire ?s @ take n (wr_sendCh ?s) \<and>
      wr_sendCh d = drop n (wr_sendCh ?s)"
    by (rule Suc.IH) (use Suc.prems q r in auto)
  ultimately show ?case using q r by (simp add: Let_def)
qed simp

section \<open>Properties\<close>


definition toy_writer :: Writer where
  "toy_writer = \<lparr>wr_sendCh = [Encode OpRecordEntry JNull, Encode OpMessage JNull], wr_inFlight = None, wr_inFlightErr = None, wr_blocked = False,
     wr_ended = False, wr_wire = []\<rparr>"


end
