(* ===== verification/Courier.thy ===== *)
theory Courier
  imports Prelude GoText Rounds
begin

text \<open>
  The artifact courier, \<^verbatim>\<open>src/tui/client/file.go\<close>: a file is offered under a signature, streamed in sealed
  chunks within a window, reassembled in memory, checked against the offered SHA-256 and
  only then written.

  The file system is a parameter: which names exist, and whether a write under a name
  succeeds. What a handler writes is its result. The streaming goroutine is a step machine,
  one step per pass through a \<open>select\<close>, the scheduler's choice among the ready cases being an
  argument. \<open>percent\<close> computes in floating point and is a parameter.
\<close>

section \<open>Names\<close>

text \<open>\<open>path.Base\<close>, and \<open>filepath.Base\<close>, \<open>filepath.Ext\<close> on Unix.\<close>

definition path_base :: "string \<Rightarrow> string" where
  "path_base p =
    (if p = [] then ''.''
     else let q = rev (dropWhile (\<lambda>x. x = CHR ''/'') (rev p));
              b = rev (takeWhile (\<lambda>x. x \<noteq> CHR ''/'') (rev q))
          in if b = [] then ''/'' else b)"

definition path_ext :: "string \<Rightarrow> string" where
  "path_ext p =
    (let b = takeWhile (\<lambda>x. x \<noteq> CHR ''/'') (rev p)
     in if CHR ''.'' \<in> set b then CHR ''.'' # rev (takeWhile (\<lambda>x. x \<noteq> CHR ''.'') b) else [])"

datatype name_error = NullByte | TraversalOnly | Dotfile

definition sanitizeFilename :: "string \<Rightarrow> name_error + string \<times> bool" where
  "sanitizeFilename name =
    (let clean = path_base (map (\<lambda>x. if x = CHR 0x5C then CHR ''/'' else x) name);
         changed = (clean \<noteq> name)
     in if CHR 0x00 \<in> set clean then Inl NullByte
        else if clean = [] \<or> clean = ''.'' \<or> clean = ''..'' then Inl TraversalOnly
        else if has_prefix ''.'' clean then Inl Dotfile
        else Inr (clean, changed))"

definition candidate :: "string \<Rightarrow> nat \<Rightarrow> string" where
  "candidate name i = (let ext = path_ext name; stem = take (length name - length ext) name in stem @ ''_'' @ nat_string i @ ext)"

partial_function (option) uniqueFrom :: "(string \<Rightarrow> bool) \<Rightarrow> string \<Rightarrow> nat \<Rightarrow> string option" where
  "uniqueFrom pathExists name i =
    (let cand = candidate name i in if \<not> pathExists cand then Some cand else uniqueFrom pathExists name (Suc i))"

declare uniqueFrom.simps [code]

definition uniqueFilename :: "(string \<Rightarrow> bool) \<Rightarrow> string \<Rightarrow> string option" where
  "uniqueFilename pathExists name = (if \<not> pathExists name then Some name else uniqueFrom pathExists name 1)"

section \<open>The file system\<close>

text \<open>Which paths exist, and the error of creating, writing and renaming a file there, if any.\<close>

record FileSystem =
  fs_exists :: "string \<Rightarrow> bool"
  fs_write :: "string \<Rightarrow> bytes \<Rightarrow> string option"

datatype write_result = Wrote string | WriteError string | NoName

definition writeArtifact :: "FileSystem \<Rightarrow> string \<Rightarrow> bytes \<Rightarrow> write_result" where
  "writeArtifact fs name data =
    (case uniqueFilename (fs_exists fs) name of
       None \<Rightarrow> NoName
     | Some final \<Rightarrow> (case fs_write fs final data of None \<Rightarrow> Wrote final | Some err \<Rightarrow> WriteError err))"

section \<open>Sending\<close>

definition fileWindow :: int where "fileWindow = 64"
definition fileAckEvery :: nat where "fileAckEvery = 16"
definition fileStall :: duration where "fileStall = 30 * second"
definition fileFlushGrace :: duration where "fileFlushGrace = 3 * second"

definition SetMaxFileBytes :: "int \<Rightarrow> Client \<Rightarrow> Client" where
  "SetMaxFileBytes n c = (if n > 0 then c\<lparr>cl_maxFileBytes := n\<rparr> else c)"

definition MaxFileBytes :: "Client \<Rightarrow> int" where
  "MaxFileBytes c = cl_maxFileBytes c"

definition newTransferID :: "World \<Rightarrow> Client \<Rightarrow> string \<times> Client" where
  "newTransferID w c = (let (r, c) = draw w 8 c in (hex_encode (case r of None \<Rightarrow> replicate 8 (CHR 0x00) | Some b \<Rightarrow> b), c))"

definition sendFileAbort :: "string \<Rightarrow> string \<Rightarrow> Client \<Rightarrow> Client" where
  "sendFileAbort tid reason c = enqueue OpFileAbort (json_FileAbort \<lparr>fb_TransferID = tid, fb_Reason = reason\<rparr>) c"

definition emitRecvFailed :: "go_time \<Rightarrow> string \<Rightarrow> string \<Rightarrow> int \<Rightarrow> string \<Rightarrow> string \<Rightarrow> Client \<Rightarrow> Client" where
  "emitRecvFailed now sender filename sz tid reason c = emit (Fil (EvFileComplete sender filename [] sz tid False reason now)) c"

definition chunkCount :: "bytes \<Rightarrow> nat" where
  "chunkCount data = (let n = (length data + ChunkSize - 1) div ChunkSize in if n = 0 then 1 else n)"

definition chunkOf :: "bytes \<Rightarrow> nat \<Rightarrow> bytes" where
  "chunkOf data i = (let lo = i * ChunkSize; hi = (if lo + ChunkSize > length data then length data else lo + ChunkSize) in take (hi - lo) (drop lo data))"

datatype send_phase = Sending | Absorbing | Flushing | Finished

text \<open>The locals of \<open>streamChunks\<close>.\<close>

record chunkSender =
  cs_tid :: string
  cs_filename :: string
  cs_data :: bytes
  cs_total :: nat
  cs_rk :: RoomKey
  cs_i :: nat
  cs_maxAck :: int
  cs_lastPct :: int
  cs_phase :: send_phase

text \<open>\<open>content\<close> is what reading the path gave.\<close>

definition SendFile :: "World \<Rightarrow> string \<Rightarrow> bytes option \<Rightarrow> Client \<Rightarrow> (client_error + chunkSender) \<times> Client" where
  "SendFile w path content c =
    (case cl_rk c of
       None \<Rightarrow> (Inl NoRoomKey, c)
     | Some rk \<Rightarrow>
        (case content of
           None \<Rightarrow> (Inl (FileErr ArtifactUnreadable), c)
         | Some data \<Rightarrow>
            (if int (length data) > cl_maxFileBytes c then (Inl (FileErr (ArtifactTooLarge (int (length data)) (cl_maxFileBytes c))), c)
             else let filename = path_base path;
                      chunks = chunkCount data;
                      (tid, c) = newTransferID w c;
                      meta = \<lparr>fm_TransferID = tid, fm_Filename = filename, fm_Size = int (length data), fm_Chunks = int chunks,
                        fm_SHA256 = hex_encode (pr_sha256 (w_pr w) data)\<rparr>;
                      (rnd, c) = draw w NonceSizeX c
             in case SealMessage (w_ci w) (cl_id c) rk (cl_room c) (cl_selfID c) (pr_marshal (w_pr w) (json_FileOfferMeta meta)) rnd of
                  Inl err \<Rightarrow> (Inl (SealErr err), c)
                | Inr (nonce, ct, sig) \<Rightarrow>
                   (let c = enqueue OpFileOffer (json_FileOffer \<lparr>fo_TransferID = tid, fo_Sealed = \<lparr>ms_FromID = cl_selfID c, ms_Epoch = rk_Epoch rk,
                          ms_Nonce = Some nonce, ms_Ciphertext = Some ct, ms_Sig = Some sig\<rparr>\<rparr>) c;
                        c = c\<lparr>cl_sends := mput tid \<lparr>sd_filename = filename, sd_acks = [], sd_aborts = []\<rparr> (cl_sends c)\<rparr>
                    in (Inr \<lparr>cs_tid = tid, cs_filename = filename, cs_data = data, cs_total = chunks, cs_rk = rk, cs_i = 0, cs_maxAck = 0,
                          cs_lastPct = - 1, cs_phase = Sending\<rparr>, c)))))"

text \<open>The choice of a \<open>select\<close>: an ack or an abort from the read loop, the timer, the end of the client's
  context, or none ready.\<close>

datatype choice = TakeAck | TakeAbort | TimerFired | ContextDone | NotReady

definition stopSending :: "chunkSender \<Rightarrow> Client \<Rightarrow> chunkSender \<times> Client" where
  "stopSending s c = (s\<lparr>cs_phase := Finished\<rparr>, c\<lparr>cl_sends := mdel (cs_tid s) (cl_sends c)\<rparr>)"

definition quietFail :: "string \<Rightarrow> chunkSender \<Rightarrow> Client \<Rightarrow> chunkSender \<times> Client" where
  "quietFail reason s c = stopSending s (emit (Fil (EvFileFailed (cs_filename s) (cs_tid s) reason)) c)"

definition broadcastFail :: "string \<Rightarrow> chunkSender \<Rightarrow> Client \<Rightarrow> chunkSender \<times> Client" where
  "broadcastFail reason s c =
    stopSending s (emit (Fil (EvFileFailed (cs_filename s) (cs_tid s) reason)) (sendFileAbort (cs_tid s) reason c))"

definition stallReason :: string where
  "stallReason = ''transfer stalled '' @ [CHR 0xE2, CHR 0x80, CHR 0x94] @ '' no acknowledgement from the receiver''"

text \<open>Receive from a channel of this transfer: the ack raises \<open>maxAck\<close>, the abort ends it.\<close>

definition takeFrom :: "choice \<Rightarrow> chunkSender \<Rightarrow> Client \<Rightarrow> (chunkSender \<times> Client) option" where
  "takeFrom ch s c =
    (case mget (cl_sends c) (cs_tid s) of
       None \<Rightarrow> None
     | Some ss \<Rightarrow>
        (case ch of
           TakeAck \<Rightarrow> (case sd_acks ss of
               [] \<Rightarrow> None
             | k # ks \<Rightarrow> Some (s\<lparr>cs_maxAck := (if k > cs_maxAck s then k else cs_maxAck s)\<rparr>, c\<lparr>cl_sends := mput (cs_tid s) (ss\<lparr>sd_acks := ks\<rparr>) (cl_sends c)\<rparr>))
         | TakeAbort \<Rightarrow> (case sd_aborts ss of [] \<Rightarrow> None | r # _ \<Rightarrow> Some (quietFail (''aborted by receiver: '' @ r) s c))
         | _ \<Rightarrow> None))"

definition sendChunk :: "World \<Rightarrow> (nat \<Rightarrow> nat \<Rightarrow> int) \<Rightarrow> chunkSender \<Rightarrow> Client \<Rightarrow> chunkSender \<times> Client" where
  "sendChunk w percent s c =
    (let i = cs_i s;
         (rnd, c) = draw w NonceSizeX c
     in case SealChunk (w_ci w) (cs_rk s) (chunkOf (cs_data s) i) rnd of
          None \<Rightarrow> broadcastFail ''encrypt chunk: nonce'' s c
        | Some (nonce, ct) \<Rightarrow>
           (let c = enqueue OpFileChunk (json_FileChunk \<lparr>fc_TransferID = cs_tid s, fc_Index = int i, fc_Total = int (cs_total s), fc_Nonce = Some nonce,
                  fc_Data = Some ct\<rparr>) c;
                pct = percent (Suc i) (cs_total s);
                report = (pct \<noteq> cs_lastPct s \<or> Suc i = cs_total s);
                sent = min ((Suc i) * ChunkSize) (length (cs_data s));
                c = (if report then emit (Fil (EvFileProgress (cs_filename s) (cs_tid s) (int (Suc i)) (int (cs_total s)) (int sent)
                      (int (length (cs_data s))))) c else c);
                s = (if report then s\<lparr>cs_lastPct := pct\<rparr> else s)
            in (s\<lparr>cs_phase := Absorbing\<rparr>, c)))"

text \<open>One pass: wait for the window, send, absorb, or wait for the last acknowledgement.\<close>

definition streamStep :: "World \<Rightarrow> (nat \<Rightarrow> nat \<Rightarrow> int) \<Rightarrow> choice \<Rightarrow> chunkSender \<Rightarrow> Client \<Rightarrow> chunkSender \<times> Client" where
  "streamStep w percent ch s c =
    (case cs_phase s of
       Sending \<Rightarrow>
         (if cs_i s \<ge> cs_total s then (s\<lparr>cs_phase := Flushing\<rparr>, c)
          else if int (cs_i s) - cs_maxAck s \<ge> fileWindow then
            (if ch = TimerFired then broadcastFail stallReason s c
             else if ch = ContextDone then stopSending s c
             else case takeFrom ch s c of None \<Rightarrow> (s, c) | Some r \<Rightarrow> r)
          else sendChunk w percent s c)
     | Absorbing \<Rightarrow>
         (case takeFrom ch s c of
            None \<Rightarrow> (s\<lparr>cs_i := Suc (cs_i s), cs_phase := Sending\<rparr>, c)
          | Some (s, c) \<Rightarrow> (if cs_phase s = Finished then (s, c) else (s\<lparr>cs_i := Suc (cs_i s), cs_phase := Sending\<rparr>, c)))
     | Flushing \<Rightarrow>
         (if cs_maxAck s < int (cs_total s) then
            (if ch = TimerFired then (s\<lparr>cs_maxAck := int (cs_total s)\<rparr>, c)
             else if ch = ContextDone then stopSending s c
             else case takeFrom ch s c of None \<Rightarrow> (s, c) | Some r \<Rightarrow> r)
          else stopSending s (emit (Fil (EvFileSent (cs_filename s) (cs_tid s) (int (length (cs_data s))))) c))
     | Finished \<Rightarrow> (s, c))"

section \<open>Receiving\<close>

text \<open>\<open>make\<close> of a slice of byte slices panics for a negative length and one that does not fit the
  address space.\<close>

definition makes :: "int \<Rightarrow> bool" where
  "makes n \<longleftrightarrow> 0 \<le> n \<and> n * 24 \<le> 2 ^ 48"

definition name_reason :: "name_error \<Rightarrow> string" where
  "name_reason e = (case e of NullByte \<Rightarrow> ''filename contains a null byte'' | TraversalOnly \<Rightarrow> ''empty or traversal-only filename''
     | Dotfile \<Rightarrow> ''refusing to auto-write a dotfile'')"

definition onFileOffer :: "World \<Rightarrow> go_time \<Rightarrow> FileOffer \<Rightarrow> Client \<Rightarrow> Client" where
  "onFileOffer w now fo c =
    (let m = fo_Sealed fo in
     case (cl_rk c, mget (cl_members c) (ms_FromID m)) of
       (Some rk, Some sender) \<Rightarrow>
         (case OpenMessage (w_ci w) (w_pr w) rk (mi_signPub sender) (cl_room c) (ms_FromID m) (ms_Epoch m) (go_bytes (ms_Nonce m))
             (go_bytes (ms_Ciphertext m)) (go_bytes (ms_Sig m)) of
            OpenPanic \<Rightarrow> crash c
          | Opened pt authentic \<Rightarrow>
             (if \<not> authentic then emit (EvError (FileErr (OfferUnsigned (mi_name sender)))) c
              else case Option.bind (pr_json (w_pr w) pt) decode_FileOfferMeta of
                None \<Rightarrow> emit (EvError (FileErr OfferMalformed)) c
              | Some meta \<Rightarrow>
                 (if fm_TransferID meta \<noteq> fo_TransferID fo then emit (EvError (FileErr OfferMalformed)) c
                  else if fm_Size meta > cl_maxFileBytes c then
                    emitRecvFailed now (mi_name sender) (fm_Filename meta) (fm_Size meta) (fo_TransferID fo) ''artifact exceeds the size cap''
                      (sendFileAbort (fo_TransferID fo) ''exceeds the size cap'' c)
                  else case sanitizeFilename (fm_Filename meta) of
                    Inl err \<Rightarrow>
                      emitRecvFailed now (mi_name sender) (fm_Filename meta) (fm_Size meta) (fo_TransferID fo) (''unsafe filename: '' @ name_reason err)
                        (sendFileAbort (fo_TransferID fo) ''unsafe filename'' c)
                  | Inr (clean, changed) \<Rightarrow>
                      (let c = (if changed then emit (EvError (FileErr (NameSanitized (fm_Filename meta) clean))) c else c)
                       in if \<not> makes (fm_Chunks meta) then crash c
                          else let rs = \<lparr>rv_meta = meta, rv_cleanName = clean, rv_senderID = ms_FromID m, rv_senderName = mi_name sender, rv_rk = rk,
                                     rv_chunks = replicate (nat (fm_Chunks meta)) [], rv_have = replicate (nat (fm_Chunks meta)) False,
                                     rv_received = 0, rv_bytes = 0\<rparr>;
                                   c = c\<lparr>cl_recvs := mput (fo_TransferID fo) rs (cl_recvs c)\<rparr>
                          in emit (Fil (EvFileOffer (mi_name sender) (Fingerprint (w_pr w) (mi_signPub sender)) clean (fm_Size meta) (fo_TransferID fo) now)) c)))
          | _ \<Rightarrow> emit (EvError (FileErr (OfferUnverified (mi_name sender)))) c)
     | _ \<Rightarrow> c)"

text \<open>The write loop over numbered names does not return only if every candidate exists.\<close>

definition finalizeRecv :: "World \<Rightarrow> FileSystem \<Rightarrow> go_time \<Rightarrow> string \<Rightarrow> Client \<Rightarrow> (string \<times> bytes) list \<times> Client" where
  "finalizeRecv w fs now tid c =
    (case mget (cl_recvs c) tid of
       None \<Rightarrow> ([], c)
     | Some rs \<Rightarrow>
        (let c = c\<lparr>cl_recvs := mdel tid (cl_recvs c)\<rparr>;
             buf = concat (rv_chunks rs); sz = fm_Size (rv_meta rs)
         in if hex_encode (pr_sha256 (w_pr w) buf) \<noteq> fm_SHA256 (rv_meta rs)
            then ([], emitRecvFailed now (rv_senderName rs) (rv_cleanName rs) sz tid ''integrity check failed (sha256 mismatch)''
                   (sendFileAbort tid ''sha256 mismatch'' c))
            else case writeArtifact fs (rv_cleanName rs) buf of
              NoName \<Rightarrow> ([], c)
            | WriteError err \<Rightarrow> ([], emitRecvFailed now (rv_senderName rs) (rv_cleanName rs) sz tid (''write failed: '' @ err) c)
            | Wrote dst \<Rightarrow> ([(dst, buf)], emit (Fil (EvFileComplete (rv_senderName rs) (path_base dst) dst sz tid True [] now)) c)))"

definition abortRecv :: "go_time \<Rightarrow> string \<Rightarrow> string \<Rightarrow> Client \<Rightarrow> Client" where
  "abortRecv now tid reason c =
    (let rs = mget (cl_recvs c) tid;
         c = sendFileAbort tid reason (c\<lparr>cl_recvs := mdel tid (cl_recvs c)\<rparr>)
     in case rs of None \<Rightarrow> c | Some rs \<Rightarrow> emitRecvFailed now (rv_senderName rs) (rv_cleanName rs) (fm_Size (rv_meta rs)) tid reason c)"

definition storeChunk :: "nat \<Rightarrow> bytes \<Rightarrow> recvState \<Rightarrow> recvState" where
  "storeChunk i pt rs =
    (if rv_have rs ! i then rs
     else rs\<lparr>rv_chunks := (rv_chunks rs)[i := pt], rv_have := (rv_have rs)[i := True], rv_received := Suc (rv_received rs),
            rv_bytes := rv_bytes rs + length pt\<rparr>)"

definition onFileChunk :: "World \<Rightarrow> FileSystem \<Rightarrow> go_time \<Rightarrow> FileChunk \<Rightarrow> Client \<Rightarrow> (string \<times> bytes) list \<times> Client" where
  "onFileChunk w fs now fc c =
    (case mget (cl_recvs c) (fc_TransferID fc) of
       None \<Rightarrow> ([], c)
     | Some rs \<Rightarrow>
        (if fc_Index fc < 0 \<or> fc_Index fc \<ge> int (length (rv_chunks rs)) then ([], c)
         else case OpenChunk (w_ci w) (rv_rk rs) (go_bytes (fc_Nonce fc)) (go_bytes (fc_Data fc)) of
           AeadPanic \<Rightarrow> ([], crash c)
         | AeadFail \<Rightarrow> ([], abortRecv now (fc_TransferID fc) ''chunk decryption failed'' c)
         | AeadOk pt \<Rightarrow>
            (let rs = storeChunk (nat (fc_Index fc)) pt rs;
                 c = c\<lparr>cl_recvs := mput (fc_TransferID fc) rs (cl_recvs c)\<rparr>
             in if int (rv_bytes rs) > cl_maxFileBytes c then ([], abortRecv now (fc_TransferID fc) ''transfer exceeds the size cap'' c)
                else let c = (if rv_received rs mod fileAckEvery = 0 \<or> rv_received rs = length (rv_chunks rs)
                           then enqueue OpFileAck (json_FileAck \<lparr>fa_TransferID = fc_TransferID fc, fa_Received = int (rv_received rs)\<rparr>) c else c)
                in if rv_received rs = length (rv_chunks rs) then finalizeRecv w fs now (fc_TransferID fc) c else ([], c))))"

text \<open>The channels hold 128 acks and one abort; a full one drops the new value.\<close>

definition onFileAck :: "FileAck \<Rightarrow> Client \<Rightarrow> Client" where
  "onFileAck fa c =
    (case mget (cl_sends c) (fa_TransferID fa) of
       None \<Rightarrow> c
     | Some ss \<Rightarrow> (if length (sd_acks ss) < 128
         then c\<lparr>cl_sends := mput (fa_TransferID fa) (ss\<lparr>sd_acks := sd_acks ss @ [fa_Received fa]\<rparr>) (cl_sends c)\<rparr> else c))"

definition onFileAbort :: "go_time \<Rightarrow> FileAbort \<Rightarrow> Client \<Rightarrow> Client" where
  "onFileAbort now fa c =
    (case mget (cl_sends c) (fb_TransferID fa) of
       Some ss \<Rightarrow> (if length (sd_aborts ss) < 1
         then c\<lparr>cl_sends := mput (fb_TransferID fa) (ss\<lparr>sd_aborts := sd_aborts ss @ [fb_Reason fa]\<rparr>) (cl_sends c)\<rparr> else c)
     | None \<Rightarrow>
        (let rs = mget (cl_recvs c) (fb_TransferID fa);
             c = c\<lparr>cl_recvs := mdel (fb_TransferID fa) (cl_recvs c)\<rparr>
         in case rs of
              None \<Rightarrow> c
            | Some rs \<Rightarrow> emitRecvFailed now (rv_senderName rs) (rv_cleanName rs) (fm_Size (rv_meta rs)) (fb_TransferID fa)
                (''transfer aborted by sender: '' @ fb_Reason fa) c))"

section \<open>Names, again\<close>

lemma candidate_inj: "candidate name i = candidate name j \<Longrightarrow> i = j"
proof -
  assume "candidate name i = candidate name j"
  then have "nat_string i = nat_string j" by (simp add: candidate_def Let_def)
  then show "i = j" by (metis nat_string_value)
qed

lemma uniqueFrom_free: "uniqueFrom ex name i = Some n \<Longrightarrow> \<not> ex n \<and> (\<exists>j\<ge>i. n = candidate name j)"
proof (erule uniqueFrom.raw_induct [rotated, where P = "\<lambda>ex name i n. \<not> ex n \<and> (\<exists>j\<ge>i. n = candidate name j)"])
  fix uf ex name i n
  assume IH: "\<And>ex name i n. uf ex name i = Some n \<Longrightarrow> \<not> ex n \<and> (\<exists>j\<ge>i. n = candidate name j)"
    and u: "(let cand = candidate name i in if \<not> ex cand then Some cand else uf ex name (Suc i)) = Some n"
  show "\<not> ex n \<and> (\<exists>j\<ge>i. n = candidate name j)"
  proof (cases "ex (candidate name i)")
    case True
    then have "uf ex name (Suc i) = Some n" using u by (simp add: Let_def)
    from IH [OF this] show ?thesis using Suc_leD by blast
  next
    case False
    then have "n = candidate name i" using u by (simp add: Let_def)
    then show ?thesis using False by blast
  qed
qed

lemma uniqueFrom_finds: "\<not> ex (candidate name (i + k)) \<Longrightarrow> \<exists>n. uniqueFrom ex name i = Some n"
proof (induction k arbitrary: i)
  case (Suc k)
  then have "\<exists>n. uniqueFrom ex name (Suc i) = Some n" by simp
  then show ?case by (subst uniqueFrom.simps) (simp add: Let_def)
qed (subst uniqueFrom.simps, simp add: Let_def)

lemma finite_leaves_candidate: "finite {n. ex n} \<Longrightarrow> \<exists>k. \<not> ex (candidate name (1 + k))"
proof (rule ccontr)
  assume f: "finite {n. ex n}" and "\<nexists>k. \<not> ex (candidate name (1 + k))"
  then have "range (\<lambda>k. candidate name (1 + k)) \<subseteq> {n. ex n}" by auto
  moreover have "inj (\<lambda>k. candidate name (1 + k))" by (auto intro!: injI dest: candidate_inj)
  ultimately show False using f by (meson finite_imageD finite_subset infinite_UNIV_nat)
qed

lemma path_base_slash: "CHR ''/'' \<in> set (path_base p) \<Longrightarrow> p \<noteq> [] \<and> set p \<subseteq> {CHR ''/''} \<and> path_base p = ''/''"
proof -
  let ?d = "dropWhile (\<lambda>x. x = CHR ''/'') (rev p)"
  assume s: "CHR ''/'' \<in> set (path_base p)"
  then have p: "p \<noteq> []" by (auto simp: path_base_def)
  have "CHR ''/'' \<notin> set (takeWhile (\<lambda>x. x \<noteq> CHR ''/'') ?d)" by (auto dest: set_takeWhileD)
  then have "takeWhile (\<lambda>x. x \<noteq> CHR ''/'') ?d = []" using s p by (auto simp: path_base_def Let_def split: if_splits)
  then have d: "?d = []" using hd_dropWhile [of "\<lambda>x. x = CHR ''/''" "rev p"] by (cases ?d) (auto split: if_splits)
  then have "\<forall>x\<in>set p. x = CHR ''/''" by (simp add: dropWhile_eq_Nil_conv)
  moreover have "path_base p = ''/''" unfolding path_base_def Let_def d using p by simp
  ultimately show ?thesis using p by blast
qed

lemma path_base_not_Nil: "path_base p \<noteq> []"
  by (simp add: path_base_def Let_def)

lemma path_base_subset: "set (path_base p) \<subseteq> insert (CHR ''.'') (insert (CHR ''/'') (set p))"
proof -
  have "set (takeWhile P (dropWhile Q xs)) \<subseteq> set xs" for P Q and xs :: string
    by (meson set_dropWhileD set_takeWhileD subsetI)
  from this [of "\<lambda>x. x \<noteq> CHR ''/''" "\<lambda>x. x = CHR ''/''" "rev p"] show ?thesis by (auto simp: path_base_def Let_def)
qed

lemma candidate_slash: "CHR ''/'' \<notin> set name \<Longrightarrow> CHR ''/'' \<notin> set (candidate name i)"
proof -
  have d: "CHR ''/'' \<notin> set (nat_string i)" using nat_string_digits [of i] by (auto simp: list_all_iff is_digit_def)
  assume n: "CHR ''/'' \<notin> set name"
  then have "CHR ''/'' \<notin> set (path_ext name)" by (auto simp: path_ext_def Let_def dest!: set_takeWhileD)
  with n d show ?thesis by (auto simp: candidate_def Let_def dest!: in_set_takeD)
qed

lemma uniqueFilename_free: "uniqueFilename ex name = Some n \<Longrightarrow> \<not> ex n \<and> (CHR ''/'' \<notin> set name \<longrightarrow> CHR ''/'' \<notin> set n)"
  unfolding uniqueFilename_def using uniqueFrom_free [of ex name 1 n] candidate_slash [of name] by (auto split: if_splits)

section \<open>Chunks\<close>

lemma concat_pieces: "concat (map (\<lambda>i. take k (drop (i * k) xs)) [0..<n]) = take (n * k) xs"
  by (induction n) (simp_all add: take_add [symmetric] add.commute)

lemma chunkOf_take: "chunkOf data i = take ChunkSize (drop (i * ChunkSize) data)"
  by (auto simp: chunkOf_def Let_def)

lemma chunks_cover: "length data \<le> chunkCount data * ChunkSize"
proof -
  have "length data \<le> (length data + ChunkSize - 1) div ChunkSize * ChunkSize"
    using div_mult_mod_eq [of "length data + ChunkSize - 1" ChunkSize] mod_less_divisor [of ChunkSize "length data + ChunkSize - 1"]
    by (simp add: ChunkSize_def)
  then show ?thesis by (auto simp: chunkCount_def Let_def)
qed

lemma concat_chunks: "concat (map (chunkOf data) [0..<chunkCount data]) = data"
  using chunks_cover [of data] by (simp add: chunkOf_take concat_pieces del: upt_Suc cong: map_cong)

text \<open>A transfer of \<open>data\<close> that has stored the chunks of the indices in \<open>J\<close>.\<close>

definition stored :: "bytes \<Rightarrow> nat set \<Rightarrow> recvState \<Rightarrow> bool" where
  "stored data J rs \<longleftrightarrow> J \<subseteq> {..<chunkCount data} \<and>
     rv_chunks rs = map (\<lambda>i. if i \<in> J then chunkOf data i else []) [0..<chunkCount data] \<and>
     rv_have rs = map (\<lambda>i. i \<in> J) [0..<chunkCount data] \<and> rv_received rs = card J \<and> rv_bytes rs = (\<Sum>i\<in>J. length (chunkOf data i))"

lemma bytes_bounded: "J \<subseteq> {..<chunkCount data} \<Longrightarrow> (\<Sum>i\<in>J. length (chunkOf data i)) \<le> length data"
proof -
  assume "J \<subseteq> {..<chunkCount data}"
  then have "(\<Sum>i\<in>J. length (chunkOf data i)) \<le> (\<Sum>i<chunkCount data. length (chunkOf data i))" by (intro sum_mono2) auto
  also have "\<dots> = length (concat (map (chunkOf data) [0..<chunkCount data]))"
    by (simp add: length_concat sum_set_upt_conv_sum_list_nat [symmetric] comp_def atLeast0LessThan)
  finally show ?thesis by (simp add: concat_chunks)
qed

lemma stored_all: "stored data {..<chunkCount data} rs \<Longrightarrow> concat (rv_chunks rs) = data"
proof -
  assume "stored data {..<chunkCount data} rs"
  moreover have "map (\<lambda>i. if i \<in> {..<chunkCount data} then chunkOf data i else []) [0..<chunkCount data] = map (chunkOf data) [0..<chunkCount data]"
    by (rule map_cong) auto
  ultimately show ?thesis using concat_chunks [of data] unfolding stored_def by metis
qed

lemma stored_complete: "stored data J rs \<Longrightarrow> rv_received rs = length (rv_chunks rs) \<longleftrightarrow> J = {..<chunkCount data}"
proof -
  assume s: "stored data J rs"
  then have "length (rv_chunks rs) = chunkCount data" "rv_received rs = card J" "J \<subseteq> {..<chunkCount data}" by (simp_all add: stored_def)
  then show ?thesis using card_subset_eq [of "{..<chunkCount data}" J] by auto
qed

lemma stored_store: "stored data J rs \<Longrightarrow> i < chunkCount data \<Longrightarrow> stored data (insert i J) (storeChunk i (chunkOf data i) rs)"
proof -
  assume s: "stored data J rs" and i: "i < chunkCount data"
  have f: "finite J" using s finite_subset by (auto simp: stored_def)
  have h: "rv_have rs ! i = (i \<in> J)" using s i by (simp add: stored_def)
  show ?thesis
  proof (cases "i \<in> J")
    case True
    then show ?thesis using s h by (simp add: storeChunk_def insert_absorb)
  next
    case False
    have "(map (\<lambda>k. if k \<in> J then chunkOf data k else []) [0..<chunkCount data])[i := chunkOf data i]
        = map (\<lambda>k. if k \<in> insert i J then chunkOf data k else []) [0..<chunkCount data]"
      and "(map (\<lambda>k. k \<in> J) [0..<chunkCount data])[i := True] = map (\<lambda>k. k \<in> insert i J) [0..<chunkCount data]"
      using i by (auto intro!: nth_equalityI simp: nth_list_update split: if_splits)
    then show ?thesis using False s h i f by (simp add: stored_def storeChunk_def)
  qed
qed

section \<open>Deliveries\<close>

text \<open>A chunk frame of a transfer as the sender makes it, and the frames of a transfer handled in turn.\<close>

definition sealedChunk :: "Cipher \<Rightarrow> RoomKey \<Rightarrow> string \<Rightarrow> bytes \<Rightarrow> nat \<Rightarrow> FileChunk \<Rightarrow> bool" where
  "sealedChunk ci rk tid data i fc \<longleftrightarrow> fc_TransferID fc = tid \<and> fc_Index fc = int i \<and> length (go_bytes (fc_Nonce fc)) = NonceSizeX \<and>
     SealChunk ci rk (chunkOf data i) (Some (go_bytes (fc_Nonce fc))) = Some (go_bytes (fc_Nonce fc), go_bytes (fc_Data fc))"

fun takeChunks :: "World \<Rightarrow> FileSystem \<Rightarrow> (go_time \<times> FileChunk) list \<Rightarrow> Client \<Rightarrow> (string \<times> bytes) list \<times> Client" where
  "takeChunks w fs [] c = ([], c)"
| "takeChunks w fs ((now, fc) # fcs) c = (let (ws, c) = onFileChunk w fs now fc c; (ws', c) = takeChunks w fs fcs c in (ws @ ws', c))"

lemma sealedChunk_opens: "aead_ok ci \<Longrightarrow> sealedChunk ci rk tid data i fc \<Longrightarrow>
    OpenChunk ci rk (go_bytes (fc_Nonce fc)) (go_bytes (fc_Data fc)) = AeadOk (chunkOf data i)"
proof -
  assume a: "aead_ok ci" and s: "sealedChunk ci rk tid data i fc"
  have "go_bytes (fc_Data fc) = ci_seal ci (rk_Key rk) (go_bytes (fc_Nonce fc)) (chunkOf data i) (epochAD (rk_Epoch rk))"
    using s by (simp add: sealedChunk_def SealChunk_def)
  then have "ci_open ci (rk_Key rk) (go_bytes (fc_Nonce fc)) (go_bytes (fc_Data fc)) (epochAD (rk_Epoch rk)) = Some (chunkOf data i)"
    using a s by (simp add: sealedChunk_def aead_ok_def)
  then show ?thesis using s by (simp add: OpenChunk_def aead_Open_def sealedChunk_def)
qed

lemma sendChunk_seals:
  assumes "w_rand w (cl_draws c) NonceSizeX = Some nonce" "length nonce = NonceSizeX"
  shows "\<exists>fc. sealedChunk (w_ci w) (cs_rk s) (cs_tid s) (cs_data s) (cs_i s) fc \<and>
    cl_sendCh (snd (sendChunk w percent s c)) = cl_sendCh c @ [Encode OpFileChunk (json_FileChunk fc)]"
  using assms by (intro exI [of _ "\<lparr>fc_TransferID = cs_tid s, fc_Index = int (cs_i s), fc_Total = int (cs_total s), fc_Nonce = Some nonce,
      fc_Data = Some (ci_seal (w_ci w) (rk_Key (cs_rk s)) nonce (chunkOf (cs_data s) (cs_i s)) (epochAD (rk_Epoch (cs_rk s))))\<rparr>"])
    (simp add: sendChunk_def draw_def sealedChunk_def SealChunk_def go_bytes_def Let_def enqueue_def)

lemma takeChunks_gone: "mget (cl_recvs c) tid = None \<Longrightarrow> \<forall>(t, fc)\<in>set fcs. fc_TransferID fc = tid \<Longrightarrow> takeChunks w fs fcs c = ([], c)"
  by (induction fcs) (auto simp: onFileChunk_def)

text \<open>One chunk of a transfer that is under way.\<close>

lemma chunk_stored:
  assumes "aead_ok (w_ci w)" "sealedChunk (w_ci w) (rv_rk rs) tid data i fc" "i < chunkCount data"
    and "mget (cl_recvs c) tid = Some rs" "stored data J rs" "int (length data) \<le> cl_maxFileBytes c"
  shows "\<exists>d rs'. mget (cl_recvs d) tid = Some rs' \<and> stored data (insert i J) rs' \<and> rv_rk rs' = rv_rk rs \<and> rv_meta rs' = rv_meta rs \<and>
      rv_cleanName rs' = rv_cleanName rs \<and> rv_senderName rs' = rv_senderName rs \<and> cl_maxFileBytes d = cl_maxFileBytes c \<and> cl_events d = cl_events c \<and>
      onFileChunk w fs now fc c = (if insert i J = {..<chunkCount data} then finalizeRecv w fs now tid d else ([], d))"
proof -
  let ?rs = "storeChunk i (chunkOf data i) rs"
  let ?c = "c\<lparr>cl_recvs := mput tid ?rs (cl_recvs c)\<rparr>"
  let ?d = "if rv_received ?rs mod fileAckEvery = 0 \<or> rv_received ?rs = length (rv_chunks ?rs)
    then enqueue OpFileAck (json_FileAck \<lparr>fa_TransferID = tid, fa_Received = int (rv_received ?rs)\<rparr>) ?c else ?c"
  have s: "stored data (insert i J) ?rs" using stored_store assms(3,5) by blast
  then have b: "\<not> int (rv_bytes ?rs) > cl_maxFileBytes c" using bytes_bounded [of "insert i J" data] assms(6) unfolding stored_def by linarith
  have r: "0 \<le> fc_Index fc \<and> fc_Index fc < int (length (rv_chunks rs))" "nat (fc_Index fc) = i" "fc_TransferID fc = tid"
    using assms(2,3,5) by (simp_all add: sealedChunk_def stored_def)
  have o: "OpenChunk (w_ci w) (rv_rk rs) (go_bytes (fc_Nonce fc)) (go_bytes (fc_Data fc)) = AeadOk (chunkOf data i)"
    using sealedChunk_opens assms(1,2) by blast
  have "onFileChunk w fs now fc c = (if rv_received ?rs = length (rv_chunks ?rs) then finalizeRecv w fs now tid ?d else ([], ?d))"
    unfolding onFileChunk_def r(2,3) assms(4) Let_def using r(1) o b by simp
  moreover have "mget (cl_recvs ?d) tid = Some ?rs" "cl_maxFileBytes ?d = cl_maxFileBytes c" "cl_events ?d = cl_events c" by simp_all
  moreover have "rv_rk ?rs = rv_rk rs" "rv_meta ?rs = rv_meta rs" "rv_cleanName ?rs = rv_cleanName rs" "rv_senderName ?rs = rv_senderName rs"
    by (simp_all add: storeChunk_def)
  ultimately show ?thesis using s stored_complete [OF s] by metis
qed

lemma delivery_finishes:
  assumes "mget (cl_recvs c) tid = Some rs" "stored data {..<chunkCount data} rs" "fm_SHA256 (rv_meta rs) = hex_encode (pr_sha256 (w_pr w) data)"
    and "writeArtifact fs (rv_cleanName rs) data = Wrote dst"
  shows "fst (finalizeRecv w fs now tid c) = [(dst, data)]" "mget (cl_recvs (snd (finalizeRecv w fs now tid c))) tid = None"
    "cl_events (snd (finalizeRecv w fs now tid c)) = cl_events c @
      [Fil (EvFileComplete (rv_senderName rs) (path_base dst) dst (fm_Size (rv_meta rs)) tid True [] now)]"
  using assms(1,3,4) stored_all [OF assms(2)] by (simp_all add: finalizeRecv_def)

lemma chunks_delivered:
  assumes "aead_ok (w_ci w)" "mget (cl_recvs c) tid = Some rs" "stored data J rs" "int (length data) \<le> cl_maxFileBytes c"
    and "fm_SHA256 (rv_meta rs) = hex_encode (pr_sha256 (w_pr w) data)" "writeArtifact fs (rv_cleanName rs) data = Wrote dst"
    and "\<forall>(t, fc)\<in>set fcs. \<exists>i<chunkCount data. sealedChunk (w_ci w) (rv_rk rs) tid data i fc"
    and "J \<union> (\<lambda>(t, fc). nat (fc_Index fc)) ` set fcs = {..<chunkCount data}" "J \<noteq> {..<chunkCount data}"
  shows "\<exists>t. fst (takeChunks w fs fcs c) = [(dst, data)] \<and> cl_events (snd (takeChunks w fs fcs c)) = cl_events c @
    [Fil (EvFileComplete (rv_senderName rs) (path_base dst) dst (fm_Size (rv_meta rs)) tid True [] t)]"
  using assms(2-)
proof (induction fcs arbitrary: c rs J)
  case (Cons f fcs)
  obtain now fc where f: "f = (now, fc)" by (cases f)
  obtain i where i: "i < chunkCount data" "sealedChunk (w_ci w) (rv_rk rs) tid data i fc" using Cons.prems(6) f by auto
  obtain d rs' where d: "mget (cl_recvs d) tid = Some rs'" "stored data (insert i J) rs'" "rv_rk rs' = rv_rk rs" "rv_meta rs' = rv_meta rs"
      "rv_cleanName rs' = rv_cleanName rs" "rv_senderName rs' = rv_senderName rs" "cl_maxFileBytes d = cl_maxFileBytes c" "cl_events d = cl_events c"
      "onFileChunk w fs now fc c = (if insert i J = {..<chunkCount data} then finalizeRecv w fs now tid d else ([], d))"
    using chunk_stored [OF assms(1) i(2,1) Cons.prems(1,2,3), of fs now] by blast
  show ?case
  proof (cases "insert i J = {..<chunkCount data}")
    case True
    note fin = delivery_finishes [OF d(1) d(2) [unfolded True] Cons.prems(4) [folded d(4)] Cons.prems(5) [folded d(5)], of now]
    have "\<forall>(t, fc)\<in>set fcs. fc_TransferID fc = tid" using Cons.prems(6) by (auto simp: sealedChunk_def)
    from takeChunks_gone [OF fin(2) this] show ?thesis using fin d True by (simp add: f split_beta Let_def)
  next
    case False
    have "nat (fc_Index fc) = i" using i(2) by (simp add: sealedChunk_def)
    then have u: "insert i J \<union> (\<lambda>(t, fc). nat (fc_Index fc)) ` set fcs = {..<chunkCount data}" using Cons.prems(7) f by auto
    have "\<exists>t. fst (takeChunks w fs fcs d) = [(dst, data)] \<and> cl_events (snd (takeChunks w fs fcs d)) = cl_events d @
        [Fil (EvFileComplete (rv_senderName rs') (path_base dst) dst (fm_Size (rv_meta rs')) tid True [] t)]"
      by (rule Cons.IH [OF d(1,2) _ _ _ _ u False]) (use Cons.prems d in auto)
    then show ?thesis using d False by (simp add: f split_beta Let_def)
  qed
qed simp

text \<open>The frame an offer travels in, and what its receiver makes of it.\<close>

definition offerMeta :: "World \<Rightarrow> string \<Rightarrow> string \<Rightarrow> bytes \<Rightarrow> FileOfferMeta" where
  "offerMeta w tid path data = \<lparr>fm_TransferID = tid, fm_Filename = path_base path, fm_Size = int (length data), fm_Chunks = int (chunkCount data),
     fm_SHA256 = hex_encode (pr_sha256 (w_pr w) data)\<rparr>"

definition marshals :: "World \<Rightarrow> json \<Rightarrow> bool" where
  "marshals w j \<longleftrightarrow> pr_json (w_pr w) (pr_marshal (w_pr w) j) = Some j"

lemma chunkCount_small: "length data < 2 ^ 40 \<Longrightarrow> makes (int (chunkCount data)) \<and> int64 (int (chunkCount data)) \<and> int64 (int (length data))"
  by (auto simp: chunkCount_def makes_def int64_def ChunkSize_def Let_def)

lemma stored_none: "stored data {} \<lparr>rv_meta = meta, rv_cleanName = clean, rv_senderID = i, rv_senderName = name, rv_rk = rk,
    rv_chunks = replicate (chunkCount data) [], rv_have = replicate (chunkCount data) False, rv_received = 0, rv_bytes = 0\<rparr>"
  by (simp add: stored_def map_replicate_trivial map_replicate_const)

lemma offer_accepted:
  assumes "aead_ok (w_ci w)" "signs_ok (w_pr w) i" "length nonce = NonceSizeX"
    and "SealMessage (w_ci w) i rk room sid (pr_marshal (w_pr w) (json_FileOfferMeta (offerMeta w tid path data))) (Some nonce) = Inr (nonce, ct, sig)"
    and "cl_rk b = Some rk" "cl_room b = room" "mget (cl_members b) sid = Some m" "mi_signPub m = ki_SignPub i"
    and "marshals w (json_FileOfferMeta (offerMeta w tid path data))" "length data < 2 ^ 40" "int (length data) \<le> cl_maxFileBytes b"
    and "sanitizeFilename (path_base path) = Inr (clean, changed)"
    and fo: "fo = \<lparr>fo_TransferID = tid, fo_Sealed = \<lparr>ms_FromID = sid, ms_Epoch = rk_Epoch rk, ms_Nonce = Some nonce, ms_Ciphertext = Some ct, ms_Sig = Some sig\<rparr>\<rparr>"
  shows "\<exists>rs. mget (cl_recvs (onFileOffer w now fo b)) tid = Some rs \<and> stored data {} rs \<and> rv_rk rs = rk \<and> rv_meta rs = offerMeta w tid path data \<and>
    rv_cleanName rs = clean \<and> rv_senderName rs = mi_name m \<and> cl_maxFileBytes (onFileOffer w now fo b) = cl_maxFileBytes b"
proof -
  let ?meta = "offerMeta w tid path data"
  obtain ct' sig' where o: "SealMessage (w_ci w) i rk room sid (pr_marshal (w_pr w) (json_FileOfferMeta ?meta)) (Some nonce) = Inr (nonce, ct', sig')"
      "OpenMessage (w_ci w) (w_pr w) rk (ki_SignPub i) room sid (rk_Epoch rk) nonce ct' sig' = Opened (pr_marshal (w_pr w) (json_FileOfferMeta ?meta)) True"
    using SealMessage_opens [OF assms(1-3)] by blast
  then have op: "OpenMessage (w_ci w) (w_pr w) rk (ki_SignPub i) room sid (rk_Epoch rk) nonce ct sig = Opened (pr_marshal (w_pr w) (json_FileOfferMeta ?meta)) True"
    using assms(4) by simp
  have k: "makes (int (chunkCount data))" "int64 (int (chunkCount data))" "int64 (int (length data))" using chunkCount_small assms(10) by blast+
  have j: "Option.bind (pr_json (w_pr w) (pr_marshal (w_pr w) (json_FileOfferMeta ?meta))) decode_FileOfferMeta = Some ?meta"
    using assms(9) fmb.dec_enc [of ?meta] k by (simp add: marshals_def offerMeta_def)
  show ?thesis
    unfolding onFileOffer_def fo Let_def using assms(5-8,11,12) op j k(1) stored_none [of data]
    by (simp add: go_bytes_def offerMeta_def)
qed

section \<open>Properties\<close>

text \<open>Claim C14. An artifact arrives: a member sends a file, and a member of the same room with the same key takes
  the offer. Then, in whatever order the sealed chunks arrive and however often each is
  repeated, as long as every one of them does arrive, exactly one file is written, it has
  exactly the bytes that were read, and its receiver is told so; later repetitions write
  nothing.\<close>

theorem artifact_delivered:
  assumes "SendFile w path (Some data) a = (Inr s, a')" "cl_rk a = Some rk"
    and "aead_ok (w_ci w)" "signs_ok (w_pr w) (cl_id a)" "\<forall>k n x. w_rand w k n = Some x \<longrightarrow> length x = n"
    and "cl_rk b = Some rk" "cl_room b = cl_room a" "mget (cl_members b) (cl_selfID a) = Some m" "mi_signPub m = ki_SignPub (cl_id a)"
    and "marshals w (json_FileOfferMeta (offerMeta w (cs_tid s) path data))" "length data < 2 ^ 40" "int (length data) \<le> cl_maxFileBytes b"
    and "sanitizeFilename (path_base path) = Inr (clean, changed)" "writeArtifact fs clean data = Wrote dst"
    and "\<forall>(t, fc)\<in>set fcs. \<exists>i<chunkCount data. sealedChunk (w_ci w) rk (cs_tid s) data i fc"
    and "(\<lambda>(t, fc). nat (fc_Index fc)) ` set fcs = {..<chunkCount data}"
  shows "\<exists>fo t. cl_sendCh a' = cl_sendCh a @ [Encode OpFileOffer (json_FileOffer fo)] \<and>
    fst (takeChunks w fs fcs (onFileOffer w now fo b)) = [(dst, data)] \<and>
    Fil (EvFileComplete (mi_name m) (path_base dst) dst (int (length data)) (cs_tid s) True [] t) \<in> set (cl_events (snd (takeChunks w fs fcs (onFileOffer w now fo b))))"
proof -
  obtain tid a1 where t: "newTransferID w a = (tid, a1)" by fastforce
  obtain nonce ct sig where sm: "SealMessage (w_ci w) (cl_id a) rk (cl_room a) (cl_selfID a)
      (pr_marshal (w_pr w) (json_FileOfferMeta (offerMeta w tid path data))) (w_rand w (cl_draws a1) NonceSizeX) = Inr (nonce, ct, sig)"
    and s: "cs_tid s = tid" and q: "cl_sendCh a' = cl_sendCh a @ [Encode OpFileOffer (json_FileOffer \<lparr>fo_TransferID = tid, fo_Sealed = \<lparr>ms_FromID = cl_selfID a,
      ms_Epoch = rk_Epoch rk, ms_Nonce = Some nonce, ms_Ciphertext = Some ct, ms_Sig = Some sig\<rparr>\<rparr>)]"
    using assms(1,2) t by (auto simp: SendFile_def offerMeta_def newTransferID_def draw_def Let_def split: if_splits sum.splits prod.splits)
  then have r: "w_rand w (cl_draws a1) NonceSizeX = Some nonce" "length nonce = NonceSizeX"
    using assms(5) by (auto simp: SealMessage_def Let_def split: option.splits)
  let ?fo = "\<lparr>fo_TransferID = tid, fo_Sealed = \<lparr>ms_FromID = cl_selfID a, ms_Epoch = rk_Epoch rk, ms_Nonce = Some nonce, ms_Ciphertext = Some ct, ms_Sig = Some sig\<rparr>\<rparr>"
  obtain rs where rs: "mget (cl_recvs (onFileOffer w now ?fo b)) tid = Some rs" "stored data {} rs" "rv_rk rs = rk" "rv_meta rs = offerMeta w tid path data"
      "rv_cleanName rs = clean" "rv_senderName rs = mi_name m" "cl_maxFileBytes (onFileOffer w now ?fo b) = cl_maxFileBytes b"
    using offer_accepted [OF assms(3,4) r(2) sm [unfolded r(1)] assms(6-9) assms(10) [unfolded s] assms(11-13) refl, of now] by blast
  have ne: "{} \<noteq> {..<chunkCount data}" by (auto simp: chunkCount_def Let_def lessThan_empty_iff)
  have "\<exists>t. fst (takeChunks w fs fcs (onFileOffer w now ?fo b)) = [(dst, data)] \<and> cl_events (snd (takeChunks w fs fcs (onFileOffer w now ?fo b))) =
      cl_events (onFileOffer w now ?fo b) @ [Fil (EvFileComplete (rv_senderName rs) (path_base dst) dst (fm_Size (rv_meta rs)) tid True [] t)]"
    by (rule chunks_delivered [OF assms(3) rs(1,2) _ _ _ _ _ ne]) (use assms(12,14-16) rs s in \<open>auto simp: offerMeta_def\<close>)
  then show ?thesis using q s rs(4,6) by (intro exI [of _ ?fo]) (auto simp: offerMeta_def)
qed

text \<open>A world whose marshalled bodies all read back as one value.\<close>

definition toy_speaking :: "json \<Rightarrow> World" where
  "toy_speaking j = toy_world\<lparr>w_pr := toy\<lparr>pr_marshal := \<lambda>_. ''x'', pr_json := \<lambda>_. Some j\<rparr>\<rparr>"

definition toy_member :: "char \<Rightarrow> memberInfo" where
  "toy_member x = \<lparr>mi_name = [x], mi_signPub = toy_key x, mi_kxPub = toy_key x, mi_attestation = None\<rparr>"

definition toy_disk :: FileSystem where
  "toy_disk = \<lparr>fs_exists = \<lambda>_. False, fs_write = \<lambda>_ _. None\<rparr>"

definition toy_tid :: string where "toy_tid = ''0000000000000000''"

definition toy_courier :: World where
  "toy_courier = toy_speaking (json_FileOfferMeta (offerMeta toy_world toy_tid ''dir/notes'' ''hi''))"

definition toy_chunk :: FileChunk where
  "toy_chunk = \<lparr>fc_TransferID = toy_tid, fc_Index = 0, fc_Total = 1, fc_Nonce = Some toy_nonce,
     fc_Data = Some (ci_seal toy_cipher (toy_key CHR ''k'') toy_nonce ''hi'' (epochAD 0))\<rparr>"

lemma toy_speaking_world [simp]: "w_ci (toy_speaking j) = toy_cipher" "w_rand (toy_speaking j) = w_rand toy_world"
    "pr_sha256 (w_pr (toy_speaking j)) = pr_sha256 toy" "pr_verify (w_pr (toy_speaking j)) = pr_verify toy" "pr_marshal (w_pr (toy_speaking j)) = (\<lambda>_. ''x'')"
    "pr_json (w_pr (toy_speaking j)) = (\<lambda>_. Some j)" "Fingerprint (w_pr (toy_speaking j)) = Fingerprint toy"
  by (simp_all add: toy_speaking_def toy_world_def Fingerprint_def fun_eq_iff)

lemma toy_speaking_signs: "signs_ok (w_pr (toy_speaking j)) (toy_id x)"
  by (simp add: signs_ok_def toy_id_def toy_def toy_key_def IdSign_def PublicKeySize_def)

lemma toy_rand_length: "\<forall>k n x. w_rand toy_world k n = Some x \<longrightarrow> length x = n"
  by (simp add: toy_world_def)

lemma toy_chunks: "chunkCount ''hi'' = 1" "chunkOf ''hi'' 0 = ''hi''"
  by (simp_all add: chunkCount_def chunkOf_def ChunkSize_def)

lemma toy_client_fields [simp]: "cl_rk (toy_client x os) = Some \<lparr>rk_Epoch = 0, rk_Key = toy_key CHR ''k''\<rparr>" "cl_room (toy_client x os) = ''ops''"
    "cl_selfID (toy_client x os) = [x]" "cl_id (toy_client x os) = toy_id x" "cl_members (toy_client x os) = []" "cl_recvs (toy_client x os) = []"
    "cl_maxFileBytes (toy_client x os) = DefaultMaxFileBytes" "cl_draws (toy_client x os) = 0" "cl_crashed (toy_client x os) = False" "cl_name (toy_client x os) = [x]"
  by (simp_all add: toy_client_def NewWithIdentity_def)

lemma toy_sends: "\<exists>s a. SendFile toy_courier ''dir/notes'' (Some ''hi'') (toy_client CHR ''a'' []) = (Inr s, a) \<and> cs_tid s = toy_tid"
proof -
  have "hex_encode (replicate 8 (char_of (0 :: nat))) = toy_tid" unfolding toy_tid_def by code_simp
  moreover have "w_rand toy_world k n = Some (replicate n (char_of k))" for k n by (simp add: toy_world_def)
  ultimately show ?thesis
    by (simp add: toy_courier_def SendFile_def newTransferID_def draw_def SealMessage_def IdSign_def toy_id_def DefaultMaxFileBytes_def Let_def)
qed

theorem artifact_delivered_witness:
  "\<exists>fo. fst (takeChunks toy_courier toy_disk [(7, toy_chunk), (8, toy_chunk)]
     (onFileOffer toy_courier 5 fo (toy_client CHR ''b'' []\<lparr>cl_members := [(''a'', toy_member CHR ''a'')]\<rparr>))) = [(''notes'', ''hi'')]"
proof -
  obtain s a where s: "SendFile toy_courier ''dir/notes'' (Some ''hi'') (toy_client CHR ''a'' []) = (Inr s, a)" "cs_tid s = toy_tid" using toy_sends by blast
  have w: "writeArtifact toy_disk ''notes'' ''hi'' = Wrote ''notes''" by (simp add: writeArtifact_def uniqueFilename_def toy_disk_def)
  have n: "sanitizeFilename (path_base ''dir/notes'') = Inr (''notes'', False)" by code_simp
  have c: "sealedChunk toy_cipher \<lparr>rk_Epoch = 0, rk_Key = toy_key CHR ''k''\<rparr> toy_tid ''hi'' 0 toy_chunk"
    by (simp add: sealedChunk_def toy_chunk_def SealChunk_def go_bytes_def length_toy_nonce toy_chunks)
  show ?thesis
    using artifact_delivered [OF s(1), of "\<lparr>rk_Epoch = 0, rk_Key = toy_key CHR ''k''\<rparr>" "toy_client CHR ''b'' []\<lparr>cl_members := [(''a'', toy_member CHR ''a'')]\<rparr>"
        "toy_member CHR ''a''" "''notes''" False toy_disk "''notes''" "[(7, toy_chunk), (8, toy_chunk)]" 5] s(2) w n c toy_rand_length toy_cipher_ok toy_speaking_signs
    by (auto simp: toy_courier_def toy_member_def toy_id_def marshals_def toy_chunks DefaultMaxFileBytes_def offerMeta_def toy_chunk_def toy_world_def lessThan_Suc)
qed

text \<open>Claim C30. Nothing unverified is written: a chunk leads to at most one write, only when a transfer is under way
  for it, only of bytes with the SHA-256 the signed offer named, only under the sanitised
  name or a numbered variant of it, and never under a name that exists; the transfer is then
  over.\<close>

theorem only_verified_written:
  assumes "onFileChunk w fs now fc c = (ws, d)" "(dst, data) \<in> set ws"
  shows "\<exists>rs. mget (cl_recvs c) (fc_TransferID fc) = Some rs \<and> hex_encode (pr_sha256 (w_pr w) data) = fm_SHA256 (rv_meta rs) \<and> ws = [(dst, data)] \<and>
    uniqueFilename (fs_exists fs) (rv_cleanName rs) = Some dst \<and> \<not> fs_exists fs dst \<and> fs_write fs dst data = None \<and> mget (cl_recvs d) (fc_TransferID fc) = None"
proof -
  let ?tid = "fc_TransferID fc"
  obtain rs pt j where rs: "mget (cl_recvs c) ?tid = Some rs"
      and fin: "finalizeRecv w fs now ?tid (enqueue OpFileAck j (c\<lparr>cl_recvs := mput ?tid (storeChunk (nat (fc_Index fc)) pt rs) (cl_recvs c)\<rparr>)) = (ws, d)"
    using assms by (auto simp: onFileChunk_def Let_def split: option.splits if_splits aead_result.splits)
  obtain e where e: "mget (cl_recvs e) ?tid = Some (storeChunk (nat (fc_Index fc)) pt rs)" "finalizeRecv w fs now ?tid e = (ws, d)"
    by (rule that [OF _ fin]) simp
  let ?rs = "storeChunk (nat (fc_Index fc)) pt rs"
  have m: "rv_meta ?rs = rv_meta rs" "rv_cleanName ?rs = rv_cleanName rs" by (simp_all add: storeChunk_def)
  have f: "hex_encode (pr_sha256 (w_pr w) data) = fm_SHA256 (rv_meta rs) \<and> ws = [(dst, data)] \<and> writeArtifact fs (rv_cleanName rs) data = Wrote dst \<and>
      mget (cl_recvs d) ?tid = None"
    using e assms(2) m by (auto simp: finalizeRecv_def Let_def split: if_splits write_result.splits)
  then have "uniqueFilename (fs_exists fs) (rv_cleanName rs) = Some dst" "fs_write fs dst data = None"
    by (auto simp: writeArtifact_def split: option.splits)
  then show ?thesis using f rs uniqueFilename_free by blast
qed

definition toy_awaiting :: Client where
  "toy_awaiting = (toy_client CHR ''b'' [])\<lparr>cl_recvs := [(toy_tid, \<lparr>rv_meta = offerMeta toy_world toy_tid ''dir/notes'' ''hi'', rv_cleanName = ''notes'',
     rv_senderID = ''a'', rv_senderName = ''a'', rv_rk = \<lparr>rk_Epoch = 0, rk_Key = toy_key CHR ''k''\<rparr>, rv_chunks = [[]], rv_have = [False], rv_received = 0, rv_bytes = 0\<rparr>)]\<rparr>"

lemma toy_chunk_opens: "OpenChunk toy_cipher \<lparr>rk_Epoch = 0, rk_Key = toy_key CHR ''k''\<rparr> toy_nonce (ci_seal toy_cipher (toy_key CHR ''k'') toy_nonce ''hi'' (epochAD 0)) = AeadOk ''hi''"
  using toy_cipher_ok(1) by (simp add: OpenChunk_def aead_Open_def aead_ok_def length_toy_nonce)

theorem only_verified_written_witness:
  "fst (onFileChunk toy_world toy_disk 7 toy_chunk toy_awaiting) = [(''notes'', ''hi'')] \<and> \<not> fs_exists toy_disk ''notes''"
proof -
  have w: "writeArtifact toy_disk ''notes'' ''hi'' = Wrote ''notes''" by (simp add: writeArtifact_def uniqueFilename_def toy_disk_def)
  have "fst (onFileChunk toy_world toy_disk 7 toy_chunk toy_awaiting) = [(''notes'', ''hi'')]"
    using toy_chunk_opens w by (simp add: onFileChunk_def toy_chunk_def toy_awaiting_def storeChunk_def finalizeRecv_def offerMeta_def go_bytes_def
        DefaultMaxFileBytes_def toy_world_def Let_def)
  moreover from this obtain d where "onFileChunk toy_world toy_disk 7 toy_chunk toy_awaiting = ([(''notes'', ''hi'')], d)" by (metis prod.collapse)
  ultimately show ?thesis using only_verified_written [of toy_world toy_disk 7 toy_chunk toy_awaiting "[(''notes'', ''hi'')]" d "''notes''" "''hi''"] by auto
qed




definition toy_hostile :: FileOfferMeta where
  "toy_hostile = (offerMeta toy_world toy_tid ''notes'' ''hi'')\<lparr>fm_Chunks := - 1\<rparr>"


text \<open>A name is always found: if only finitely many paths exist, the search for a free name returns, with a
  path that does not exist; and whatever it returns does not exist.\<close>

theorem uniqueFilename_returns:
  "(finite {p. ex p} \<longrightarrow> (\<exists>n. uniqueFilename ex name = Some n)) \<and> (\<forall>n. uniqueFilename ex name = Some n \<longrightarrow> \<not> ex n)"
proof (intro conjI impI)
  assume "finite {p. ex p}"
  then obtain k where "\<not> ex (candidate name (1 + k))" using finite_leaves_candidate by blast
  from uniqueFrom_finds [of ex name 1 k, OF this] show "\<exists>n. uniqueFilename ex name = Some n" by (simp add: uniqueFilename_def)
qed (use uniqueFilename_free in blast)

theorem uniqueFilename_returns_witness:
  "\<exists>n. uniqueFilename (\<lambda>p. p \<in> {''a.txt'', ''a_1.txt''}) ''a.txt'' = Some n \<and> n \<notin> {''a.txt'', ''a_1.txt''}"
proof -
  have "finite {p. p \<in> {''a.txt'', ''a_1.txt''}}" by simp
  then show ?thesis using uniqueFilename_returns [of "\<lambda>p. p \<in> {''a.txt'', ''a_1.txt''}" "''a.txt''"] by blast
qed

end
