(* ===== verification/Streams.thy ===== *)
theory Streams
  imports Prelude Rounds
begin

text \<open>
  Live log streams, \<^verbatim>\<open>src/tui/client/stream.go\<close>: a ring buffer of lines that is pushed to the room as a
  whole, at intervals or after a burst. The loop of \<open>Run\<close> is a fold over what its \<open>select\<close>
  receives.
\<close>

section \<open>State and operations\<close>

definition streamBatchLines :: nat where "streamBatchLines = 10"
definition DefaultStreamLines :: int where "DefaultStreamLines = 200"
definition MaxStreamLines :: int where "MaxStreamLines = 1000"
definition StreamEndManual :: string where "StreamEndManual = ''manual_stop''"

record Stream =
  sm_id :: string
  sm_name :: string
  sm_max :: nat
  sm_buf :: "string list"
  sm_seq :: "64 word"
  sm_dirty :: bool
  sm_sent :: nat
  sm_closed :: bool

definition NewStream :: "World \<Rightarrow> string \<Rightarrow> int \<Rightarrow> Client \<Rightarrow> Stream \<times> Client" where
  "NewStream w sourceName maxLines c =
    (let maxLines = (if maxLines \<le> 0 then DefaultStreamLines else maxLines);
         maxLines = (if maxLines > MaxStreamLines then MaxStreamLines else maxLines);
         (i, c) = newRequestID w c
     in (\<lparr>sm_id = i, sm_name = sourceName, sm_max = nat maxLines, sm_buf = [], sm_seq = 0, sm_dirty = False, sm_sent = 0, sm_closed = False\<rparr>, c))"

definition AddLine :: "string \<Rightarrow> Stream \<Rightarrow> Stream" where
  "AddLine line s =
    (if sm_closed s then s
     else let buf = sm_buf s @ [line];
              buf = (if length buf > sm_max s then drop (length buf - sm_max s) buf else buf)
          in s\<lparr>sm_buf := buf, sm_dirty := True, sm_sent := Suc (sm_sent s)\<rparr>)"

definition flush :: "World \<Rightarrow> go_time \<Rightarrow> Stream \<Rightarrow> Client \<Rightarrow> Stream \<times> Client" where
  "flush w now s c =
    (if sm_closed s \<or> \<not> sm_dirty s then (s, c)
     else let s = s\<lparr>sm_seq := sm_seq s + 1, sm_dirty := False\<rparr>;
              (err, c) = sendBody w OpStreamUpdate (json_StreamUpdateBody \<lparr>su_StreamID = sm_id s, su_Name = sm_name s,
                su_Lines = (if sm_buf s = [] then None else Some (sm_buf s)), su_Seq = sm_seq s, su_TS = unix now\<rparr>) c
     in case err of
          Some _ \<Rightarrow> (s, c)
        | None \<Rightarrow> (s, emit (Str (EvStreamUpdate (sm_id s) (sm_name s) (cl_name c) (SelfFpr w c) (sm_buf s) (sm_seq s) True now)) c))"

definition End :: "World \<Rightarrow> go_time \<Rightarrow> string \<Rightarrow> Stream \<Rightarrow> Client \<Rightarrow> Stream \<times> Client" where
  "End w now reason s c =
    (let (s, c) = flush w now s c
     in if sm_closed s then (s, c)
        else let s = s\<lparr>sm_closed := True\<rparr>;
                 (_, c) = sendBody w OpStreamEnd (json_StreamEndBody \<lparr>st_StreamID = sm_id s, st_Reason = reason\<rparr>) c
        in (s, emit (Str (EvStreamEnd (sm_id s) reason (cl_name c) True)) c))"

datatype stream_input = Tick go_time | Line go_time string | Eof go_time | Cancelled go_time

text \<open>The loop, with the lines since the last flush; it stops at the end of the input or on cancellation.\<close>

fun Run :: "World \<Rightarrow> string \<Rightarrow> stream_input list \<Rightarrow> nat \<Rightarrow> Stream \<Rightarrow> Client \<Rightarrow> Stream \<times> Client" where
  "Run w endReason [] pending s c = (s, c)"
| "Run w endReason (Cancelled now # xs) pending s c = End w now StreamEndManual s c"
| "Run w endReason (Tick now # xs) pending s c = (let (s, c) = flush w now s c in Run w endReason xs 0 s c)"
| "Run w endReason (Eof now # xs) pending s c = End w now endReason s c"
| "Run w endReason (Line now l # xs) pending s c =
    (let s = AddLine l s; pending = Suc pending
     in if pending \<ge> streamBatchLines then (let (s, c) = flush w now s c in Run w endReason xs 0 s c)
        else Run w endReason xs pending s c)"

section \<open>The ring buffer\<close>

definition recent :: "nat \<Rightarrow> 'a list \<Rightarrow> 'a list" where
  "recent n xs = drop (length xs - n) xs"

lemma tail_snoc: "0 < n \<Longrightarrow> (let b = recent n xs @ [x] in if length b > n then drop (length b - n) b else b) = recent n (xs @ [x])"
  by (cases "n \<le> length xs") (auto simp: recent_def Let_def Suc_diff_le)

text \<open>What a stream has taken in, up to where it stopped.\<close>

fun taken :: "stream_input list \<Rightarrow> string list" where
  "taken [] = []"
| "taken (Line now l # xs) = l # taken xs"
| "taken (Tick now # xs) = taken xs"
| "taken (Eof now # xs) = []"
| "taken (Cancelled now # xs) = []"

definition ring_ok :: "string list \<Rightarrow> Stream \<Rightarrow> bool" where
  "ring_ok ls s \<longleftrightarrow> 0 < sm_max s \<and> sm_buf s = recent (sm_max s) ls \<and> sm_sent s = length ls \<and> \<not> sm_closed s"

lemma ring_AddLine: "ring_ok ls s \<Longrightarrow> ring_ok (ls @ [l]) (AddLine l s)"
  using tail_snoc [of "sm_max s" ls l] by (auto simp: ring_ok_def AddLine_def Let_def)

lemma AddLine_max [simp]: "sm_max (AddLine l s) = sm_max s" "sm_closed (AddLine l s) = sm_closed s" "sm_id (AddLine l s) = sm_id s"
  "sm_seq (AddLine l s) = sm_seq s"
  by (simp_all add: AddLine_def Let_def)

lemma flush_stream [simp]: "sm_buf (fst (flush w now s c)) = sm_buf s" "sm_max (fst (flush w now s c)) = sm_max s"
  "sm_sent (fst (flush w now s c)) = sm_sent s" "sm_closed (fst (flush w now s c)) = sm_closed s" "sm_id (fst (flush w now s c)) = sm_id s"
  by (simp_all add: flush_def Let_def split_beta split: option.split)

lemma ring_flush: "ring_ok ls s \<Longrightarrow> ring_ok ls (fst (flush w now s c))"
  by (simp add: ring_ok_def)

lemma End_stream: "sm_buf (fst (End w now r s c)) = sm_buf s" "sm_max (fst (End w now r s c)) = sm_max s" "sm_sent (fst (End w now r s c)) = sm_sent s"
  by (simp_all add: End_def Let_def split_beta)

lemma Run_ring:
  "ring_ok ls s \<Longrightarrow> sm_buf (fst (Run w r xs n s c)) = recent (sm_max s) (ls @ taken xs) \<and> sm_sent (fst (Run w r xs n s c)) = length (ls @ taken xs)"
proof (induction xs arbitrary: ls n s c)
  case (Cons x xs)
  show ?case
  proof (cases x)
    case (Tick now)
    then show ?thesis using Cons.IH [OF ring_flush [OF Cons.prems, of w now c]] by (simp add: split_beta Let_def)
  next
    case (Line now l)
    note a = ring_AddLine [OF Cons.prems, of l]
    show ?thesis using Line Cons.IH [OF a] Cons.IH [OF ring_flush [OF a, of w now c]] by (simp add: split_beta Let_def)
  qed (use Cons.prems in \<open>simp_all add: ring_ok_def End_stream\<close>)
qed (simp add: ring_ok_def)

section \<open>Properties\<close>

text \<open>A stream keeps the tail of its input: however lines, ticks and bursts interleave, the buffer of a
  new stream is exactly the last lines taken in, as many as it was made for and between one and a
  thousand, nothing is counted twice, and a flush shows the room that buffer.\<close>

theorem stream_keeps_tail:
  "let (s, d) = NewStream w name n c; (s', d') = Run w r xs 0 s d in
    1 \<le> sm_max s \<and> sm_max s \<le> 1000 \<and> (1 \<le> n \<and> n \<le> 1000 \<longrightarrow> sm_max s = nat n) \<and>
    sm_buf s' = recent (sm_max s) (taken xs) \<and> sm_sent s' = length (taken xs) \<and>
    (\<forall>e. cl_events (snd (flush w t s' e)) = cl_events e \<or> cl_events (snd (flush w t s' e)) = cl_events e @
      [Str (EvStreamUpdate (sm_id s') (sm_name s') (cl_name e) (SelfFpr w e) (recent (sm_max s) (taken xs)) (sm_seq s' + 1) True t)])"
proof -
  obtain s d where sd: "NewStream w name n c = (s, d)" by (cases "NewStream w name n c")
  have s: "ring_ok [] s" "1 \<le> sm_max s" "sm_max s \<le> 1000" "1 \<le> n \<and> n \<le> 1000 \<longrightarrow> sm_max s = nat n"
    using sd by (auto simp: NewStream_def Let_def split_beta ring_ok_def recent_def DefaultStreamLines_def MaxStreamLines_def)
  note R = Run_ring [OF s(1), of w r xs 0 d]
  have "cl_events (snd (flush w t s' e)) = cl_events e \<or> cl_events (snd (flush w t s' e)) = cl_events e @
      [Str (EvStreamUpdate (sm_id s') (sm_name s') (cl_name e) (SelfFpr w e) (sm_buf s') (sm_seq s' + 1) True t)]" for s' e
    by (auto simp: flush_def Let_def split_beta SelfFpr_def split: option.split)
  note F = this [of "fst (Run w r xs 0 s d)"]
  show ?thesis unfolding sd split_beta Let_def fst_conv snd_conv using s R F by simp
qed

theorem stream_keeps_tail_witness:
  "sm_buf (fst (Run toy_world ''eof'' [Line 1 ''a'', Line 2 ''b'', Tick 3, Line 4 ''c''] 0
     (fst (NewStream toy_world ''log'' 2 (toy_client CHR ''a'' []))) (snd (NewStream toy_world ''log'' 2 (toy_client CHR ''a'' []))))) = [''b'', ''c'']"
proof -
  let ?xs = "[Line 1 ''a'', Line 2 ''b'', Tick 3, Line 4 ''c'']"
  have "recent 2 (taken ?xs) = [''b'', ''c'']" by (simp add: recent_def)
  then show ?thesis
    using stream_keeps_tail [of toy_world "''log''" 2 "toy_client CHR ''a'' []" "''eof''" ?xs 0] by (simp add: split_beta Let_def del: Run.simps taken.simps)
qed

end
