(* ===== verification/Session.thy ===== *)
theory Session
  imports Prelude Actions Minutes Proposals Courier Streams
begin

text \<open>
  The session, \<^verbatim>\<open>src/tui/client/client.go\<close>: joining and leaving, the room key and its ratchet, the
  coordination state, and \<open>handle\<close>, which takes every frame that arrives to the feature it
  belongs to. What a handler writes to disk is its first result. Names are compared by
  \<open>strings.EqualFold\<close>, a parameter.
\<close>

section \<open>Coordination\<close>

definition quorumLocked :: "string \<Rightarrow> Client \<Rightarrow> string" where
  "quorumLocked label c =
    (let n = length (cl_order c); n = (if n = 0 then 1 else n)
     in nat_string (length (case mget (cl_acks c) label of None \<Rightarrow> [] | Some s \<Rightarrow> s)) @ ''/'' @ nat_string n)"

definition recordAck :: "string \<Rightarrow> string \<Rightarrow> Client \<Rightarrow> string \<times> Client" where
  "recordAck label fpr c =
    (let s = (case mget (cl_acks c) label of None \<Rightarrow> [] | Some s \<Rightarrow> s);
         c = c\<lparr>cl_acks := mput label (if fpr \<in> set s then s else s @ [fpr]) (cl_acks c)\<rparr>
     in (quorumLocked label c, c))"

definition AckState :: "Client \<Rightarrow> (string, string) gomap" where
  "AckState c = map (\<lambda>(label, _). (label, quorumLocked label c)) (cl_acks c)"

definition setIC :: "string \<Rightarrow> string \<Rightarrow> string \<Rightarrow> Client \<Rightarrow> Client" where
  "setIC i name fpr c = c\<lparr>cl_ic := \<lparr>ic_id = i, ic_name = name, ic_fpr = fpr\<rparr>\<rparr>"

text \<open>Name, fingerprint, is it us, is it known.\<close>

definition ICHolder :: "Client \<Rightarrow> string \<times> string \<times> bool \<times> bool" where
  "ICHolder c = (let ic = cl_ic c in if ic_id ic = [] then ([], [], False, False) else (ic_name ic, ic_fpr ic, ic_id ic = cl_selfID c, True))"

definition resetCoordinationLocked :: "World \<Rightarrow> Client \<Rightarrow> Client" where
  "resetCoordinationLocked w c =
    (let c = c\<lparr>cl_acks := []\<rparr>;
         c = c\<lparr>cl_ic := oldestHolderLocked w c\<rparr>;
         c = c\<lparr>cl_chain := []\<rparr>;
         c = c\<lparr>cl_lastMsg := ([], [])\<rparr>;
         c = clearSealLocked c;
         c = clearRosterLocked c;
         c = clearReceiptLocked c;
         c = clearActionsLocked c;
         c = clearProposalsLocked c
     in clearClockLocked c)"

definition ratchetForward :: "World \<Rightarrow> Client \<Rightarrow> Client" where
  "ratchetForward w c = (case cl_rk c of None \<Rightarrow> c | Some rk \<Rightarrow> c\<lparr>cl_rk := Some (Ratchet (w_ci w) rk)\<rparr>)"

definition Epoch :: "Client \<Rightarrow> 64 word" where
  "Epoch c = (case cl_rk c of None \<Rightarrow> 0 | Some rk \<Rightarrow> rk_Epoch rk)"

section \<open>Members\<close>

definition LookupMember :: "World \<Rightarrow> (string \<Rightarrow> string \<Rightarrow> bool) \<Rightarrow> string \<Rightarrow> Client \<Rightarrow> (string \<times> string) option" where
  "LookupMember w equalFold name c =
    (case filter (\<lambda>(_, m). equalFold (mi_name m) name) (cl_members c) of
       [] \<Rightarrow> None | (i, m) # _ \<Rightarrow> Some (i, Fingerprint (w_pr w) (mi_signPub m)))"

definition Members :: "World \<Rightarrow> Client \<Rightarrow> ConnMember list" where
  "Members w c = map (\<lambda>(i, m). \<lparr>cm_ID = i, cm_Name = mi_name m, cm_Fingerprint = Fingerprint (w_pr w) (mi_signPub m), cm_Attestation = mi_attestation m\<rparr>)
     (cl_members c)"

definition SAS :: "World \<Rightarrow> (string \<Rightarrow> string \<Rightarrow> bool) \<Rightarrow> string \<Rightarrow> Client \<Rightarrow> (string list \<times> string) option" where
  "SAS w equalFold handle c =
    (case cl_rk c of
       None \<Rightarrow> None
     | Some rk \<Rightarrow>
        (case filter (\<lambda>(_, m). equalFold (mi_name m) handle) (cl_members c) of
           [] \<Rightarrow> None
         | (_, m) # _ \<Rightarrow> Some (SASWords (w_ci w) (w_pr w) (ki_SignPub (cl_id c)) (ki_KXPub (cl_id c)) (mi_signPub m) (mi_kxPub m) (rk_Key rk),
             Fingerprint (w_pr w) (mi_signPub m))))"

definition resolveTarget :: "World \<Rightarrow> string \<Rightarrow> string \<Rightarrow> Client \<Rightarrow> string \<times> string" where
  "resolveTarget w i fallbackName c =
    (if i = cl_selfID c then (cl_name c, SelfFpr w c)
     else case mget (cl_members c) i of
       Some m \<Rightarrow> (if mi_name m = [] then fallbackName else mi_name m, Fingerprint (w_pr w) (mi_signPub m))
     | None \<Rightarrow> (fallbackName, []))"

section \<open>Commands\<close>

text \<open>The hello a session opens with.\<close>

definition ConnectWith :: "string \<Rightarrow> Client \<Rightarrow> Client" where
  "ConnectWith peerID c =
    enqueue OpHello (json_Hello \<lparr>he_ProtocolVersion = Version, he_Room = cl_room c, he_DisplayName = cl_name c,
        he_IdentityKey = Some (ki_SignPub (cl_id c)), he_KXKey = Some (ki_KXPub (cl_id c)), he_InviteToken = cl_inviteToken c,
        he_Attestation = (if cl_selfCredential c = [] then None else Some (cl_selfCredential c))\<rparr>)
      (c\<lparr>cl_transport := Some peerID\<rparr>)"

definition UseInviteToken :: "string \<Rightarrow> Client \<Rightarrow> Client" where
  "UseInviteToken token c = c\<lparr>cl_inviteToken := token\<rparr>"

definition Send :: "World \<Rightarrow> go_time \<Rightarrow> string \<Rightarrow> Client \<Rightarrow> client_error option \<times> Client" where
  "Send w now txt c =
    (let (err, c) = sealAndSend w OpMessage txt c
     in case err of
          Some e \<Rightarrow> (Some e, c)
        | None \<Rightarrow> (let c = rememberMessage (cl_name c) txt c in (None, emit (Session (EvMessage (cl_selfID c) (cl_name c) txt True True now)) c)))"

definition Vanish :: "World \<Rightarrow> Client \<Rightarrow> Client" where
  "Vanish w c =
    (let c = resetCoordinationLocked w (ratchetForward w c);
         c = enqueue OpControl (json_Control \<lparr>ct_Action = ActionVanish, ct_By = [], ct_ByName = cl_name c, ct_TTLSeconds = 0, ct_Reason = []\<rparr>) c
     in emit (Session (EvControl ActionVanish (cl_name c) True 0 [])) c)"

definition SetTTL :: "int \<Rightarrow> Client \<Rightarrow> Client" where
  "SetTTL seconds c =
    emit (Session (EvControl ActionTTL (cl_name c) True seconds []))
      (enqueue OpControl (json_Control \<lparr>ct_Action = ActionTTL, ct_By = [], ct_ByName = cl_name c, ct_TTLSeconds = seconds, ct_Reason = []\<rparr>) c)"

definition RequestInvite :: "Client \<Rightarrow> Client" where
  "RequestInvite c = enqueue OpInviteRequest (JObj []) c"

definition AckTag :: "World \<Rightarrow> go_time \<Rightarrow> string \<Rightarrow> Client \<Rightarrow> client_error option \<times> Client" where
  "AckTag w now label c =
    (let label = trim_space label
     in if label = [] then (Some (SessionErr AckNeedsTag), c)
        else let (err, c) = sendBody w OpAck (json_AckBody \<lparr>ak_Tag = label\<rparr>) c
        in case err of
             Some e \<Rightarrow> (Some e, c)
           | None \<Rightarrow> (let (q, c) = recordAck label (SelfFpr w c) c
                      in (None, emit (Coord (EvAck label (cl_name c) (SelfFpr w c) q True now None None None)) c)))"

definition Handoff :: "World \<Rightarrow> (string \<Rightarrow> string \<Rightarrow> bool) \<Rightarrow> go_time \<Rightarrow> string \<Rightarrow> Client \<Rightarrow> client_error option \<times> Client" where
  "Handoff w equalFold now handle c =
    (let handle = trim_prefix ''@'' (trim_space handle)
     in case LookupMember w equalFold handle c of
          None \<Rightarrow> (Some (SessionErr (NoSuchMember handle)), c)
        | Some (toID, toFpr) \<Rightarrow>
           (let (err, c) = sendBody w OpHandoff (json_HandoffBody \<lparr>ho_ToID = toID, ho_ToName = handle\<rparr>) c
            in case err of
                 Some e \<Rightarrow> (Some e, c)
               | None \<Rightarrow> (None, emit (Coord (EvHandoff (cl_name c) (SelfFpr w c) handle toFpr True now)) (setIC toID handle toFpr c))))"

definition RequestExec :: "World \<Rightarrow> go_time \<Rightarrow> string \<Rightarrow> Client \<Rightarrow> (client_error + string) \<times> Client" where
  "RequestExec w now cmd c =
    (let (i, c) = newRequestID w c;
         (err, c) = sendBody w OpExecRequest (json_ExecRequestBody \<lparr>xr_ID = i, xr_Cmd = cmd\<rparr>) c
     in case err of
          Some e \<Rightarrow> (Inl e, c)
        | None \<Rightarrow> (Inr i, emit (Coord (EvExecRequest i cmd (cl_selfID c) (cl_name c) (SelfFpr w c) True True now)) c))"

definition PostExecResult :: "World \<Rightarrow> string \<Rightarrow> string \<Rightarrow> bool \<Rightarrow> int \<Rightarrow> string \<Rightarrow> Client \<Rightarrow> client_error option \<times> Client" where
  "PostExecResult w i cmd allowed exitCode output c =
    sendBody w OpExecResult (json_ExecResultBody \<lparr>xs_ID = i, xs_Cmd = cmd, xs_Allowed = allowed, xs_ExitCode = exitCode, xs_Output = output\<rparr>) c"

section \<open>Encrypted frames\<close>

definition body_of :: "World \<Rightarrow> (json \<Rightarrow> 'a option) \<Rightarrow> bytes \<Rightarrow> 'a option" where
  "body_of w d pt = Option.bind (pr_json (w_pr w) pt) d"

definition frameBytes :: "Client \<Rightarrow> Message \<Rightarrow> bytes" where
  "frameBytes c m = SigningBytes (cl_room c) (ms_FromID m) (ms_Epoch m) (go_bytes (ms_Nonce m)) (go_bytes (ms_Ciphertext m))"

definition deliver_chat :: "World \<Rightarrow> go_time \<Rightarrow> string \<Rightarrow> Message \<Rightarrow> memberInfo \<Rightarrow> bytes \<Rightarrow> bool \<Rightarrow> Client \<Rightarrow> Client" where
  "deliver_chat w now op m sender pt authentic c =
    (let fpr = Fingerprint (w_pr w) (mi_signPub sender); name = mi_name sender
     in if op = OpMessage then
          (let (clock, c) = recognizeClock name fpr pt now c
           in if clock then c else emit (Session (EvMessage (ms_FromID m) name pt False authentic now)) (rememberMessage name pt c))
        else if op = OpExecRequest then
          (case body_of w decode_ExecRequestBody pt of
             None \<Rightarrow> c | Some b \<Rightarrow> emit (Coord (EvExecRequest (xr_ID b) (xr_Cmd b) (ms_FromID m) name fpr False authentic now)) c)
        else if op = OpExecResult then
          (case body_of w decode_ExecResultBody pt of
             None \<Rightarrow> c
           | Some b \<Rightarrow> emit (Coord (EvExecResult (xs_ID b) (xs_Cmd b) (xs_Allowed b) (xs_ExitCode b) (xs_Output b) name fpr now)) c)
        else if op = OpAck then
          (case body_of w decode_AckBody pt of
             None \<Rightarrow> c
           | Some b \<Rightarrow>
              (if ak_Tag b = [] then c
               else let (q, c) = recordAck (ak_Tag b) fpr c
               in emit (Coord (EvAck (ak_Tag b) name fpr q False now (ms_Sig m) (Some (frameBytes c m)) (Some pt))) c))
        else
          (case body_of w decode_HandoffBody pt of
             None \<Rightarrow> c
           | Some b \<Rightarrow>
              (if ho_ToID b = [] then c
               else let (toName, toFpr) = resolveTarget w (ho_ToID b) (ho_ToName b) c
               in emit (Coord (EvHandoff name fpr toName toFpr False now)) (setIC (ho_ToID b) toName toFpr c))))"

definition deliver_round :: "World \<Rightarrow> go_time \<Rightarrow> string \<Rightarrow> Message \<Rightarrow> memberInfo \<Rightarrow> bytes \<Rightarrow> Client \<Rightarrow> Client" where
  "deliver_round w now op m sender pt c =
    (let name = mi_name sender; pub = mi_signPub sender
     in if op = OpRecordEntry then
          (case body_of w decode_Entry pt of None \<Rightarrow> c | Some e \<Rightarrow> onRecordEntry w e (ms_Sig m) (Some (frameBytes c m)) (Some pt) c)
        else if op = OpSealRequest then
          (case body_of w decode_SealRequestBody pt of None \<Rightarrow> c | Some b \<Rightarrow> onSealRequest w now name (go_bytes (sq_HeadHash b)) c)
        else if op = OpSealAck then
          (case body_of w decode_SealAckBody pt of
             None \<Rightarrow> c
           | Some b \<Rightarrow> onSealAck w now name pub (go_bytes (sa_HeadHash b)) (go_bytes (sa_Sig b)) (sa_Meaning b) (sa_SignerName b) (sa_SignedAt b) c)
        else if op = OpRosterRequest then
          (case body_of w decode_RosterRequestBody pt of None \<Rightarrow> c | Some b \<Rightarrow> onRosterRequest w name (go_bytes (rq_SetHash b)) (rq_Epoch b) c)
        else if op = OpRosterAck then
          (case body_of w decode_RosterAckBody pt of None \<Rightarrow> c | Some b \<Rightarrow> onRosterAck w now name pub (go_bytes (rk_SetHash b)) (go_bytes (rk_Sig b)) c)
        else if op = OpScuttleReceiptRequest then
          (case body_of w decode_ScuttleReceiptRequestBody pt of
             None \<Rightarrow> c | Some b \<Rightarrow> onScuttleReceiptRequest w name (qr_RoomID b) (go_bytes (qr_ReceiptHash b)) c)
        else
          (case body_of w decode_ScuttleReceiptAckBody pt of
             None \<Rightarrow> c | Some b \<Rightarrow> onScuttleReceiptAck w name pub (go_bytes (sk_ReceiptHash b)) (go_bytes (sk_Sig b)) c))"

definition deliver_gate :: "World \<Rightarrow> go_time \<Rightarrow> string \<Rightarrow> memberInfo \<Rightarrow> bytes \<Rightarrow> Client \<Rightarrow> Client" where
  "deliver_gate w now op sender pt c =
    (let fpr = Fingerprint (w_pr w) (mi_signPub sender); name = mi_name sender; pub = mi_signPub sender
     in if op = OpActionRequest then
          (case body_of w decode_ActionRequestBody pt of None \<Rightarrow> c | Some b \<Rightarrow> onActionRequest now name fpr b c)
        else if op = OpActionApproval then
          (case body_of w decode_ActionApprovalBody pt of None \<Rightarrow> c | Some b \<Rightarrow> onActionApproval w now name pub b c)
        else if op = OpActionVeto then
          (case body_of w decode_ActionVetoBody pt of None \<Rightarrow> c | Some b \<Rightarrow> onActionVeto now name fpr b c)
        else if op = OpArtifactProposal then
          (case body_of w decode_ArtifactProposalBody pt of None \<Rightarrow> c | Some b \<Rightarrow> onArtifactProposal now name fpr b c)
        else if op = OpArtifactApproval then
          (case body_of w decode_ArtifactApprovalBody pt of None \<Rightarrow> c | Some b \<Rightarrow> onArtifactApproval w now name pub b c)
        else if op = OpArtifactRejection then
          (case body_of w decode_ArtifactRejectionBody pt of None \<Rightarrow> c | Some b \<Rightarrow> onArtifactRejection now name fpr b c)
        else if op = OpStreamUpdate then
          (case body_of w decode_StreamUpdateBody pt of
             None \<Rightarrow> c
           | Some b \<Rightarrow> (if su_StreamID b = [] then c
               else emit (Str (EvStreamUpdate (su_StreamID b) (su_Name b) name fpr (case su_Lines b of None \<Rightarrow> [] | Some ls \<Rightarrow> ls) (su_Seq b) False now)) c))
        else
          (case body_of w decode_StreamEndBody pt of
             None \<Rightarrow> c
           | Some b \<Rightarrow> (if st_StreamID b = [] then c else emit (Str (EvStreamEnd (st_StreamID b) (st_Reason b) name False)) c)))"

definition chat_ops :: "string list" where "chat_ops = [OpMessage, OpExecRequest, OpExecResult, OpAck, OpHandoff]"
definition round_ops :: "string list" where
  "round_ops = [OpRecordEntry, OpSealRequest, OpSealAck, OpRosterRequest, OpRosterAck, OpScuttleReceiptRequest, OpScuttleReceiptAck]"
definition gate_ops :: "string list" where
  "gate_ops = [OpActionRequest, OpActionApproval, OpActionVeto, OpArtifactProposal, OpArtifactApproval, OpArtifactRejection, OpStreamUpdate, OpStreamEnd]"

definition openFrame :: "World \<Rightarrow> RoomKey \<Rightarrow> memberInfo \<Rightarrow> Message \<Rightarrow> Client \<Rightarrow> open_result" where
  "openFrame w rk sender m c = OpenMessage (w_ci w) (w_pr w) rk (mi_signPub sender) (cl_room c) (ms_FromID m) (ms_Epoch m)
     (go_bytes (ms_Nonce m)) (go_bytes (ms_Ciphertext m)) (go_bytes (ms_Sig m))"

definition handleEncrypted :: "World \<Rightarrow> go_time \<Rightarrow> string \<Rightarrow> Message \<Rightarrow> Client \<Rightarrow> Client" where
  "handleEncrypted w now op m c =
    (case cl_rk c of
       None \<Rightarrow> c\<lparr>cl_pending := cl_pending c @ [(op, m)]\<rparr>
     | Some rk \<Rightarrow>
        (case mget (cl_members c) (ms_FromID m) of
           None \<Rightarrow> emit (EvError (SessionErr (FromUnknown op (ms_FromID m)))) c
         | Some sender \<Rightarrow>
            (case openFrame w rk sender m c of
               OpenPanic \<Rightarrow> crash c
             | ErrBadSignature \<Rightarrow> emit (EvError (SessionErr (SignatureFailed (mi_name sender)))) c
             | Opened pt authentic \<Rightarrow>
                (if op \<in> set chat_ops then deliver_chat w now op m sender pt authentic c
                 else if op \<in> set round_ops then deliver_round w now op m sender pt c
                 else if op \<in> set gate_ops then deliver_gate w now op sender pt c
                 else c)
             | _ \<Rightarrow> emit (EvError (SessionErr (DecryptFrom (mi_name sender)))) c)))"

definition replayPending :: "World \<Rightarrow> go_time \<Rightarrow> Client \<Rightarrow> Client" where
  "replayPending w now c = fold (\<lambda>(op, m). handleEncrypted w now op m) (cl_pending c) (c\<lparr>cl_pending := []\<rparr>)"

section \<open>Frames from the server\<close>

definition onWelcome :: "World \<Rightarrow> go_time \<Rightarrow> Envelope \<Rightarrow> Client \<Rightarrow> Client" where
  "onWelcome w now env c =
    (case Decode decode_Welcome env of
       None \<Rightarrow> emit (EvError (SessionErr BadWelcome)) c
     | Some we \<Rightarrow>
        (let c = c\<lparr>cl_selfID := we_YourID we\<rparr>;
             c = (fold addMemberLocked (we_Members we) c)\<lparr>cl_order := map mb_ID (we_Members we) @ [we_YourID we]\<rparr>;
             c = c\<lparr>cl_ic := oldestHolderLocked w c\<rparr>;
             members = map (\<lambda>m. \<lparr>cm_ID = mb_ID m, cm_Name = mb_DisplayName m, cm_Fingerprint = fingerprintOf w (mb_IdentityKey m),
               cm_Attestation = mb_Attestation m\<rparr>) (we_Members we);
             connected = Session (EvConnected (we_YourID we) (we_YouAreFirst we) members (rp_InviteOnly (we_Policy we)) (rp_Webhook (we_Policy we))
               (rp_TTLSeconds (we_Policy we)))
         in if \<not> we_YouAreFirst we then emit connected c
            else let (rnd, c) = draw w 32 c
            in case NewRoomKey 0 rnd of
                 None \<Rightarrow> emit connected c
               | Some rk \<Rightarrow> replayPending w now (emit (Session (EvKeyReady (rk_Epoch rk))) (emit connected
                   (noteFirstEpochLocked (rk_Epoch rk) (c\<lparr>cl_rk := Some rk\<rparr>))))))"

definition onMemberJoined :: "World \<Rightarrow> Envelope \<Rightarrow> Client \<Rightarrow> Client" where
  "onMemberJoined w env c =
    (case Decode decode_MemberJoined env of
       None \<Rightarrow> c
     | Some m \<Rightarrow>
        (let c = addMemberLocked m c;
             c = c\<lparr>cl_order := cl_order c @ [mb_ID m]\<rparr>
         in emit (Session (EvMemberJoined (mb_ID m) (mb_DisplayName m) (fingerprintOf w (mb_IdentityKey m)) (mb_Attestation m))) c))"

definition onMemberLeft :: "Envelope \<Rightarrow> Client \<Rightarrow> Client" where
  "onMemberLeft env c =
    (case Decode decode_MemberLeft env of
       None \<Rightarrow> c
     | Some i \<Rightarrow>
        (let name = (case mget (cl_members c) i of None \<Rightarrow> [] | Some m \<Rightarrow> mi_name m);
             c = c\<lparr>cl_members := mdel i (cl_members c), cl_order := remove1 i (cl_order c)\<rparr>
         in emit (Session (EvMemberLeft i name)) c))"

definition onKeyRequest :: "World \<Rightarrow> Envelope \<Rightarrow> Client \<Rightarrow> Client" where
  "onKeyRequest w env c =
    (case Decode decode_KeyRequest env of
       None \<Rightarrow> c
     | Some m \<Rightarrow>
        (case cl_rk c of
           None \<Rightarrow> emit (EvError (SessionErr HoldsNoKey)) c
         | Some rk \<Rightarrow>
            (case ToKX (go_bytes (mb_KXKey m)) of
               None \<Rightarrow> emit (EvError (SessionErr BadRecipientKey)) c
             | Some recipientKX \<Rightarrow>
                (let (rnd, c) = draw w 24 c
                 in case WrapRoomKey (w_ci w) (cl_id c) rk recipientKX rnd of
                      None \<Rightarrow> emit (EvError (SessionErr WrapFailed)) c
                    | Some (nonce, wrapped) \<Rightarrow> enqueue OpKeyDeliver (json_KeyDeliver \<lparr>kd_ToID = mb_ID m, kd_FromID = [], kd_Epoch = rk_Epoch rk,
                        kd_Nonce = Some nonce, kd_WrappedKey = Some wrapped\<rparr>) c))))"

definition onKeyDeliver :: "World \<Rightarrow> go_time \<Rightarrow> Envelope \<Rightarrow> Client \<Rightarrow> Client" where
  "onKeyDeliver w now env c =
    (case Decode decode_KeyDeliver env of
       None \<Rightarrow> c
     | Some kd \<Rightarrow>
        (case mget (cl_members c) (kd_FromID kd) of
           None \<Rightarrow> emit (EvError (SessionErr (KeyFromUnknown (kd_FromID kd)))) c
         | Some sender \<Rightarrow>
            (case UnwrapRoomKey (w_ci w) (cl_id c) (kd_Epoch kd) (go_bytes (kd_Nonce kd)) (go_bytes (kd_WrappedKey kd)) (mi_kxPub sender) of
               Inl e \<Rightarrow> emit (EvError (SessionErr (UnwrapFailed e))) c
             | Inr rk \<Rightarrow> replayPending w now (emit (Session (EvKeyReady (rk_Epoch rk))) (noteFirstEpochLocked (rk_Epoch rk) (c\<lparr>cl_rk := Some rk\<rparr>))))))"

definition onServerMessage :: "go_time \<Rightarrow> Envelope \<Rightarrow> Client \<Rightarrow> Client" where
  "onServerMessage now env c =
    (case Decode decode_ServerMessage env of
       None \<Rightarrow> c
     | Some sm \<Rightarrow> emit (Session (EvServerMessage (sm_Kind sm) (sm_From sm) (sm_Text sm) (if sm_At sm > 0 then sm_At sm * second else now))) c)"

definition onControl :: "World \<Rightarrow> go_time \<Rightarrow> Envelope \<Rightarrow> Client \<Rightarrow> Client" where
  "onControl w now env c =
    (case Decode decode_Control env of
       None \<Rightarrow> c
     | Some ctrl \<Rightarrow>
        (let c = (if ct_Action ctrl = ActionScuttle then writeSelfReceiptIfNeeded w now (ct_Reason ctrl) c else c);
             c = (if ct_Action ctrl = ActionVanish \<or> ct_Action ctrl = ActionScuttle then resetCoordinationLocked w (ratchetForward w c) else c)
         in emit (Session (EvControl (ct_Action ctrl) (ct_ByName ctrl) False (ct_TTLSeconds ctrl) (ct_Reason ctrl))) c))"

definition onInviteResult :: "Envelope \<Rightarrow> Client \<Rightarrow> Client" where
  "onInviteResult env c =
    (case Decode decode_InviteResult env of
       None \<Rightarrow> c
     | Some r \<Rightarrow> emit (Session (EvInvite (iv_Room r) (iv_Token r) (if iv_Expires r > 0 then iv_Expires r * second else 0))) c)"

definition onBreakGlassResult :: "Envelope \<Rightarrow> Client \<Rightarrow> Client" where
  "onBreakGlassResult env c =
    (case Decode decode_BreakGlassResult env of
       None \<Rightarrow> c
     | Some r \<Rightarrow> emit (Session (EvBreakGlass (br_Room r) (br_TTLSeconds r) (if br_Expires r > 0 then br_Expires r * second else 0) (br_HostToken r)
         (map (\<lambda>i. (bi_Name i, bi_Token i)) (br_Invites r)))) c)"

definition onRouteFired :: "go_time \<Rightarrow> Envelope \<Rightarrow> Client \<Rightarrow> Client" where
  "onRouteFired now env c =
    (case Decode decode_RouteFired env of
       None \<Rightarrow> c
     | Some r \<Rightarrow> emit (Session (EvRouteFired (rf_Room r) (rf_TriggerRule r) (rf_Invitees r) (rf_TTLSeconds r)
         (if rf_At r > 0 then rf_At r * second else now))) c)"

definition handle :: "World \<Rightarrow> FileSystem \<Rightarrow> go_time \<Rightarrow> Envelope \<Rightarrow> Client \<Rightarrow> (string \<times> bytes) list \<times> Client" where
  "handle w fs now env c =
    (let op = ev_Type env
     in if op = OpWelcome then ([], onWelcome w now env c)
        else if op = OpMemberJoined then ([], onMemberJoined w env c)
        else if op = OpMemberLeft then ([], onMemberLeft env c)
        else if op = OpKeyRequest then ([], onKeyRequest w env c)
        else if op = OpKeyDeliver then ([], onKeyDeliver w now env c)
        else if op \<in> set (chat_ops @ round_ops @ gate_ops) then
          (case Decode decode_Message env of None \<Rightarrow> ([], c) | Some m \<Rightarrow> ([], handleEncrypted w now op m c))
        else if op = OpFileOffer then (case Decode decode_FileOffer env of None \<Rightarrow> ([], c) | Some fo \<Rightarrow> ([], onFileOffer w now fo c))
        else if op = OpFileChunk then (case Decode decode_FileChunk env of None \<Rightarrow> ([], c) | Some fc \<Rightarrow> onFileChunk w fs now fc c)
        else if op = OpFileAck then (case Decode decode_FileAck env of None \<Rightarrow> ([], c) | Some fa \<Rightarrow> ([], onFileAck fa c))
        else if op = OpFileAbort then (case Decode decode_FileAbort env of None \<Rightarrow> ([], c) | Some fa \<Rightarrow> ([], onFileAbort now fa c))
        else if op = OpRouteFired then ([], onRouteFired now env c)
        else if op = OpServerMessage then ([], onServerMessage now env c)
        else if op = OpControl then ([], onControl w now env c)
        else if op = OpInviteResult then ([], onInviteResult env c)
        else if op = OpBreakGlassResult then ([], onBreakGlassResult env c)
        else if op = OpError then
          (case Decode decode_Error env of None \<Rightarrow> ([], c) | Some (code, msg) \<Rightarrow> ([], emit (EvError (SessionErr (ServerError code msg))) c))
        else ([], c))"

text \<open>The read loop: frames that do not parse are dropped, a panic ends it, and the end of the
  connection is announced.\<close>

fun readLoop :: "World \<Rightarrow> FileSystem \<Rightarrow> (go_time \<times> Envelope option) list \<Rightarrow> string option \<Rightarrow> Client \<Rightarrow> (string \<times> bytes) list \<times> Client" where
  "readLoop w fs [] err c = ([], emit (Session (EvDisconnected err)) c)"
| "readLoop w fs ((now, frame) # fr) err c =
    (if cl_crashed c then ([], c)
     else case frame of
       None \<Rightarrow> readLoop w fs fr err c
     | Some env \<Rightarrow> (let (ws, c) = handle w fs now env c; (ws', c) = readLoop w fs fr err c in (ws @ ws', c)))"

section \<open>What a frame leaves alone\<close>

text \<open>The identity, the room, the members, the key, the frames put aside and the transfers: no encrypted
  frame touches them.\<close>

definition seat :: "Client \<Rightarrow> _" where
  "seat c = (cl_id c, cl_room c, cl_name c, cl_selfID c, cl_members c, cl_order c, cl_rk c, cl_pending c, cl_recvs c, cl_sends c, cl_maxFileBytes c)"

named_theorems seated "operations that leave the seat of a client alone"

lemma seat_out [simp, seated]: "seat (emit ev c) = seat c" "seat (enqueue op j c) = seat c" "seat (snd (sendBody w op j c)) = seat c"
    "seat (snd (sealAndSend w op pt c)) = seat c" "seat (rememberMessage a b c) = seat c" "seat (setIC i a b c) = seat c" "seat (snd (recordAck t f c)) = seat c"
    "seat (snd (newRequestID w c)) = seat c" "seat (snd (draw w n c)) = seat c"
  by (simp_all add: seat_def rememberMessage_def setIC_def recordAck_def newRequestID_def draw_def Let_def)

lemma seat_fields [simp, seated]: "seat (c\<lparr>cl_chain := x1\<rparr>) = seat c" "seat (c\<lparr>cl_seal := x2\<rparr>) = seat c" "seat (c\<lparr>cl_roster := x3\<rparr>) = seat c"
    "seat (c\<lparr>cl_rosterMeta := x4\<rparr>) = seat c" "seat (c\<lparr>cl_receipt := x5\<rparr>) = seat c" "seat (c\<lparr>cl_actions := x6\<rparr>) = seat c"
    "seat (c\<lparr>cl_fired := x7\<rparr>) = seat c" "seat (c\<lparr>cl_proposals := x8\<rparr>) = seat c" "seat (c\<lparr>cl_artifactProofs := x9\<rparr>) = seat c"
    "seat (c\<lparr>cl_clock := x10\<rparr>) = seat c" "seat (c\<lparr>cl_ic := x11\<rparr>) = seat c" "seat (c\<lparr>cl_acks := x12\<rparr>) = seat c" "seat (c\<lparr>cl_lastMsg := x13\<rparr>) = seat c"
  by (simp_all add: seat_def)

lemma seat_rounds [simp, seated]:
  "seat (finalizeRoster w now c) = seat c" "seat (maybeFinalizeRoster w now n c) = seat c" "seat (onRosterRequest w name h e c) = seat c"
  by (auto simp: finalizeRoster_def maybeFinalizeRoster_def onRosterRequest_def Let_def split_beta split: option.split)

lemma seat_onRosterAck [simp, seated]: "seat (onRosterAck w now name pub h sig c) = seat c"
  by (auto simp: onRosterAck_def Let_def split_beta split: option.split)

lemma seat_runOnDone [simp, seated]: "seat (runOnDone d c) = seat c"
  by (cases "(d, c)" rule: runOnDone.cases) (simp_all add: triggerBurn_def)

lemma seat_receipt [simp, seated]:
  "seat (finalizeReceipt w c) = seat c" "seat (maybeFinalizeReceipt w n c) = seat c" "seat (onScuttleReceiptRequest w name r h c) = seat c"
  by (auto simp: finalizeReceipt_def maybeFinalizeReceipt_def onScuttleReceiptRequest_def Let_def split_beta split: option.split)

lemma seat_onScuttleReceiptAck [simp, seated]: "seat (onScuttleReceiptAck w name pub h sig c) = seat c"
  by (auto simp: onScuttleReceiptAck_def Let_def split_beta split: option.split)

lemma seat_startReceiptRound [simp, seated]: "seat (snd (startReceiptRound w now r d c)) = seat c" "seat (scuttleBurn w now c) = seat c"
    "seat (writeSelfReceiptIfNeeded w now r c) = seat c"
  by (auto simp: startReceiptRound_def scuttleBurn_def writeSelfReceiptIfNeeded_def triggerBurn_def Let_def split_beta split: option.split)

lemma seat_actions [simp, seated]: "seat (runPerform w now p c) = seat c" "seat (onActionRequest now name fpr b c) = seat c" "seat (onActionVeto now name fpr v c) = seat c"
  by (cases p; auto simp: armCountdown_def breakGlassSend_def onActionRequest_def onActionVeto_def Let_def split_beta split: option.split)+

lemma seat_countApproval [simp, seated]: "seat (countApproval w now i a b d e c) = seat c"
  by (auto simp: countApproval_def Let_def split_beta split: option.split)

lemma seat_onActionApproval [simp, seated]: "seat (onActionApproval w now name pub b c) = seat c"
  by (auto simp: onActionApproval_def Let_def split_beta split: option.split)

lemma seat_minutes [simp, seated]:
  "seat (snd (recognizeClock name fpr t now c)) = seat c" "seat (emitRecordEntry e a s1 s2 s3 c) = seat c" "seat (onRecordEntry w e s1 s2 s3 c) = seat c"
  by (auto simp: recognizeClock_def emitRecordEntry_def onRecordEntry_def Let_def split_beta split: option.split sum.split)

lemma seat_seal [simp, seated]:
  "seat (snd (sendSealAck w now h m c)) = seat c" "seat (finalizeSeal w now c) = seat c" "seat (maybeFinalize w now c) = seat c" "seat (onSealRequest w now name h c) = seat c"
  by (auto simp: sendSealAck_def finalizeSeal_def maybeFinalize_def onSealRequest_def Let_def split_beta split: option.split sum.split)

lemma seat_onSealAck [simp, seated]: "seat (onSealAck w now name pub h sig a b d c) = seat c"
  by (auto simp: onSealAck_def recordCosignatureLocked_def Let_def split_beta split: option.split sum.split)

lemma seat_append [simp, seated]: "seat (snd (appendSpec w now spec c)) = seat c" "seat (snd (appendRecord w now k a b c)) = seat c" "seat (snd (AttestIdentity w now att c)) = seat c"
  by (auto simp: appendSpec_def appendRecord_def AttestIdentity_def Let_def split_beta split: option.split sum.split)

lemma seat_placeCredentials [simp, seated]: "seat (placeCredentials w now placed cas c) = seat c"
  by (induction cas arbitrary: placed c) (auto simp: Let_def split_beta split: option.split sum.split)

lemma seat_writeArtifactEntry [simp, seated]: "seat (writeApproverCredentials w now p c) = seat c" "seat (writeArtifactEntry w now b f c) = seat c"
  by (auto simp: writeApproverCredentials_def writeArtifactEntry_def Let_def split_beta split: option.split sum.split)

lemma seat_proposals [simp, seated]: "seat (countArtifactApproval w now i name ca self c) = seat c"
    "seat (onArtifactProposal now name fpr b c) = seat c" "seat (onArtifactRejection now name fpr r c) = seat c"
  by (auto simp: countArtifactApproval_def onArtifactProposal_def onArtifactRejection_def Let_def split_beta split: option.split sum.split)

lemma seat_onArtifactApproval [simp, seated]: "seat (onArtifactApproval w now name pub b c) = seat c"
  by (auto simp: onArtifactApproval_def Let_def split_beta split: option.split sum.split)

lemma seat_deliver [simp, seated]: "seat (deliver_round w now op m s pt c) = seat c" "seat (deliver_gate w now op s pt c) = seat c" "seat (deliver_chat w now op m s pt sg c) = seat c"
  by (auto simp: deliver_round_def deliver_gate_def deliver_chat_def Let_def split_beta split: option.split)

lemma seat_crash [simp]: "seat (crash c) = seat c"
  by (simp add: seat_def crash_def)

lemma seat_handleEncrypted: "cl_rk c \<noteq> None \<Longrightarrow> seat (handleEncrypted w now op m c) = seat c"
  by (auto simp: handleEncrypted_def split: option.split open_result.split)

lemma seat_rk: "seat c = seat d \<Longrightarrow> cl_rk c = cl_rk d"
  by (simp add: seat_def)

lemma seat_replayPending: "cl_rk c \<noteq> None \<Longrightarrow> seat (replayPending w now c) = seat (c\<lparr>cl_pending := []\<rparr>)"
proof -
  assume "cl_rk c \<noteq> None"
  then have "seat (fold (\<lambda>(op, m). handleEncrypted w now op m) ps d) = seat d" if "seat d = seat (c\<lparr>cl_pending := []\<rparr>)" for ps d
    using that
  proof (induction ps arbitrary: d)
    case (Cons p ps)
    have "seat (handleEncrypted w now (fst p) (snd p) d) = seat d"
      using seat_rk [OF Cons.prems(2)] Cons.prems(1) by (intro seat_handleEncrypted) simp
    then show ?case using Cons by (simp add: split_beta)
  qed simp
  then show ?thesis unfolding replayPending_def by blast
qed

section \<open>Well-formed sessions\<close>

definition member_ok :: "memberInfo \<Rightarrow> bool" where
  "member_ok m \<longleftrightarrow> length (mi_signPub m) = PublicKeySize \<and> length (mi_kxPub m) = 32"

definition recv_ok :: "int \<Rightarrow> recvState \<Rightarrow> bool" where
  "recv_ok cap rs \<longleftrightarrow> int (length (rv_chunks rs)) = fm_Chunks (rv_meta rs) \<and> length (rv_have rs) = length (rv_chunks rs) \<and>
     rv_received rs = length (filter id (rv_have rs)) \<and> rv_bytes rs = length (concat (rv_chunks rs)) \<and> int (rv_bytes rs) \<le> cap \<and>
     list_all2 (\<lambda>h ch. h \<or> ch = []) (rv_have rs) (rv_chunks rs) \<and> length (rk_Key (rv_rk rs)) = 32 \<and>
     (\<exists>changed. sanitizeFilename (fm_Filename (rv_meta rs)) = Inr (rv_cleanName rs, changed))"

definition send_ok :: "sendState \<Rightarrow> bool" where
  "send_ok ss \<longleftrightarrow> length (sd_acks ss) \<le> 128 \<and> length (sd_aborts ss) \<le> 1"

definition session_ok :: "Client \<Rightarrow> bool" where
  "session_ok c \<longleftrightarrow> is_map (cl_members c) \<and> is_map (cl_recvs c) \<and> is_map (cl_sends c) \<and> 0 < cl_maxFileBytes c \<and>
     (\<forall>i m. mget (cl_members c) i = Some m \<longrightarrow> member_ok m) \<and> (\<forall>t rs. mget (cl_recvs c) t = Some rs \<longrightarrow> recv_ok (cl_maxFileBytes c) rs) \<and>
     (\<forall>t ss. mget (cl_sends c) t = Some ss \<longrightarrow> send_ok ss) \<and> (\<forall>rk. cl_rk c = Some rk \<longrightarrow> length (rk_Key rk) = 32 \<and> cl_pending c = [])"

lemma session_ok_cong: "seat c = seat d \<Longrightarrow> session_ok c = session_ok d"
  by (simp add: session_ok_def seat_def)

lemma session_ok_out [simp]: "session_ok (emit ev c) = session_ok c" "session_ok (enqueue op j c) = session_ok c" "session_ok (crash c) = session_ok c"
    "session_ok (snd (draw w n c)) = session_ok c"
  by (rule session_ok_cong; simp)+

lemma addMember_ok: "session_ok c \<Longrightarrow> session_ok (addMemberLocked m c)"
  by (auto simp: session_ok_def addMemberLocked_def ToSignPub_def ToKX_def member_ok_def split: option.split if_splits)

lemma addMembers_ok: "session_ok c \<Longrightarrow> session_ok (fold addMemberLocked ms c)"
  by (induction ms arbitrary: c) (simp_all add: addMember_ok)

lemma addMembers_frame: "cl_rk (fold addMemberLocked ms c) = cl_rk c"
  by (induction ms arbitrary: c) (auto simp: addMemberLocked_def split: option.split)

lemma session_ok_key: "session_ok c \<Longrightarrow> length (rk_Key rk) = 32 \<Longrightarrow> session_ok (c\<lparr>cl_rk := Some rk, cl_pending := []\<rparr>)"
  by (simp add: session_ok_def)

lemma key_ready_ok:
  assumes "session_ok c" "length (rk_Key rk) = 32" "seat d = seat (c\<lparr>cl_rk := Some rk\<rparr>)"
  shows "session_ok (replayPending w now d)"
proof -
  have r: "cl_rk d \<noteq> None" using seat_rk [OF assms(3)] by simp
  have "seat (replayPending w now d) = seat (c\<lparr>cl_rk := Some rk, cl_pending := []\<rparr>)"
    using seat_replayPending [OF r] assms(3) by (simp add: seat_def)
  then show ?thesis using session_ok_cong session_ok_key [OF assms(1,2)] by blast
qed

lemma noteFirstEpoch_seat [simp, seated]: "seat (noteFirstEpochLocked e c) = seat c"
  by (simp add: noteFirstEpochLocked_def Let_def)

lemma clear_seat [simp, seated]: "seat (clearSealLocked c) = seat c" "seat (clearRosterLocked c) = seat c" "seat (clearReceiptLocked c) = seat c"
    "seat (clearActionsLocked c) = seat c" "seat (clearProposalsLocked c) = seat c" "seat (clearClockLocked c) = seat c" "seat (resetCoordinationLocked w c) = seat c"
  by (simp_all add: resetCoordinationLocked_def clearSealLocked_def clearRosterLocked_def clearReceiptLocked_def clearActionsLocked_def clearProposalsLocked_def
      clearClockLocked_def Let_def split: option.split)

text \<open>What the primitives must keep of lengths: a random read gives what was asked for, and so does a
  key derivation.\<close>

definition lengths_ok :: "World \<Rightarrow> bool" where
  "lengths_ok w \<longleftrightarrow> (\<forall>k n x. w_rand w k n = Some x \<longrightarrow> length x = n) \<and> (\<forall>k i n. length (ci_hkdf (w_ci w) k i n) = n)"

lemma ratchet_ok: "lengths_ok w \<Longrightarrow> session_ok c \<Longrightarrow> session_ok (ratchetForward w c)"
  by (auto simp: session_ok_def ratchetForward_def Ratchet_def lengths_ok_def split: option.split)

lemma onControl_ok: "lengths_ok w \<Longrightarrow> session_ok c \<Longrightarrow> session_ok (onControl w now env c)"
proof -
  assume l: "lengths_ok w" and c: "session_ok c"
  have w: "session_ok (writeSelfReceiptIfNeeded w now r c)" for r using c by (simp add: session_ok_cong [OF seat_startReceiptRound(3)])
  have "session_ok (resetCoordinationLocked w (ratchetForward w d))" if "session_ok d" for d
    using ratchet_ok [OF l that] by (simp add: session_ok_cong [OF clear_seat(7)])
  with c w show ?thesis by (auto simp: onControl_def Let_def split: option.split)
qed

lemma onKeyDeliver_ok: "session_ok c \<Longrightarrow> session_ok (onKeyDeliver w now env c)"
  unfolding onKeyDeliver_def
  by (auto split: option.split sum.split simp: UnwrapRoomKey_def split: if_splits intro!: key_ready_ok)

lemma onWelcome_ok:
  assumes "lengths_ok w" "session_ok c"
  shows "session_ok (onWelcome w now env c)"
proof (cases "Decode decode_Welcome env")
  case (Some we)
  let ?c = "(fold addMemberLocked (we_Members we) (c\<lparr>cl_selfID := we_YourID we\<rparr>))\<lparr>cl_order := map mb_ID (we_Members we) @ [we_YourID we]\<rparr>"
  let ?d = "?c\<lparr>cl_ic := oldestHolderLocked w ?c\<rparr>"
  have "session_ok (c\<lparr>cl_selfID := we_YourID we\<rparr>)" using assms(2) by (simp add: session_ok_def)
  then have d: "session_ok ?d" using addMembers_ok [of "c\<lparr>cl_selfID := we_YourID we\<rparr>" "we_Members we"] by (simp add: session_ok_def)
  have r: "session_ok (snd (draw w 32 ?d))" using d by simp
  show ?thesis
  proof (cases "we_YouAreFirst we \<and> fst (draw w 32 ?d) \<noteq> None")
    case True
    then obtain k where k: "fst (draw w 32 ?d) = Some k" "length k = 32" using assms(1) by (auto simp: draw_def lengths_ok_def)
    show ?thesis unfolding onWelcome_def Some option.case Let_def split_beta using True k
      by (auto simp: NewRoomKey_def intro!: key_ready_ok [OF r])
  next
    case False
    then show ?thesis unfolding onWelcome_def Some option.case Let_def split_beta using d r by (auto simp: NewRoomKey_def split: option.split)
  qed
qed (use assms in \<open>simp add: onWelcome_def\<close>)

lemma membership_ok: "session_ok c \<Longrightarrow> session_ok (onMemberJoined w env c)" "session_ok c \<Longrightarrow> session_ok (onMemberLeft env c)"
    "session_ok c \<Longrightarrow> session_ok (onKeyRequest w env c)"
proof -
  assume c: "session_ok c"
  show "session_ok (onMemberJoined w env c)" 
  proof (cases "Decode decode_MemberJoined env")
    case (Some m)
    then show ?thesis using addMember_ok [OF c, of m] by (simp add: onMemberJoined_def Let_def session_ok_def)
  qed (use c in \<open>simp add: onMemberJoined_def\<close>)
  show "session_ok (onMemberLeft env c)" using c by (auto simp: onMemberLeft_def Let_def session_ok_def split: option.split)
  have "session_ok (snd (draw w 24 c))" using c by simp
  then show "session_ok (onKeyRequest w env c)" using c by (auto simp: onKeyRequest_def Let_def split_beta split: option.split)
qed

text \<open>Transfers.\<close>

lemma count_update: "i < length h \<Longrightarrow> \<not> h ! i \<Longrightarrow> length (filter id (h[i := True])) = Suc (length (filter id h))"
  by (induction h arbitrary: i) (auto simp: nth_Cons split: nat.splits)

lemma concat_update: "i < length cs \<Longrightarrow> cs ! i = [] \<Longrightarrow> length (concat (cs[i := x])) = length (concat cs) + length x"
  by (induction cs arbitrary: i) (auto simp: nth_Cons split: nat.splits)

lemma recv_ok_store:
  assumes "recv_ok cap rs" "i < length (rv_chunks rs)" "int (rv_bytes (storeChunk i pt rs)) \<le> cap"
  shows "recv_ok cap (storeChunk i pt rs)"
proof (cases "rv_have rs ! i")
  case False
  then have "rv_chunks rs ! i = []" using assms(1,2) by (auto simp: recv_ok_def list_all2_conv_all_nth)
  with False show ?thesis using assms count_update [of i "rv_have rs"] concat_update [of i "rv_chunks rs" pt]
    by (auto simp: recv_ok_def storeChunk_def list_all2_conv_all_nth nth_list_update)
qed (use assms in \<open>simp add: storeChunk_def\<close>)

lemma recv_put_ok: "session_ok c \<Longrightarrow> recv_ok (cl_maxFileBytes c) rs \<Longrightarrow> session_ok (c\<lparr>cl_recvs := mput t rs (cl_recvs c)\<rparr>)"
  by (auto simp: session_ok_def)

lemma recv_del_ok: "session_ok c \<Longrightarrow> session_ok (c\<lparr>cl_recvs := mdel t (cl_recvs c)\<rparr>)"
  by (auto simp: session_ok_def)

lemma send_put_ok: "session_ok c \<Longrightarrow> send_ok ss \<Longrightarrow> session_ok (c\<lparr>cl_sends := mput t ss (cl_sends c)\<rparr>)"
  by (auto simp: session_ok_def)

lemma send_del_ok: "session_ok c \<Longrightarrow> session_ok (c\<lparr>cl_sends := mdel t (cl_sends c)\<rparr>)"
  by (auto simp: session_ok_def)

lemma session_ok_fail [simp]: "session_ok (emitRecvFailed now a b n t r c) = session_ok c" "session_ok (sendFileAbort t r c) = session_ok c"
  by (simp_all add: emitRecvFailed_def sendFileAbort_def)

lemma finalizeRecv_ok: "session_ok c \<Longrightarrow> session_ok (snd (finalizeRecv w fs now t c))"
  using recv_del_ok by (auto simp: finalizeRecv_def Let_def split: option.split write_result.split)

lemma abortRecv_ok: "session_ok c \<Longrightarrow> session_ok (abortRecv now t r c)"
  using recv_del_ok by (auto simp: abortRecv_def Let_def split: option.split)

lemma onFileOffer_ok: "session_ok c \<Longrightarrow> session_ok (onFileOffer w now fo c)"
proof -
  assume c: "session_ok c"
  have "session_ok (d\<lparr>cl_recvs := mput (fo_TransferID fo) \<lparr>rv_meta = meta, rv_cleanName = clean, rv_senderID = i, rv_senderName = name, rv_rk = rk,
      rv_chunks = replicate (nat (fm_Chunks meta)) [], rv_have = replicate (nat (fm_Chunks meta)) False, rv_received = 0, rv_bytes = 0\<rparr> (cl_recvs d)\<rparr>)"
    if "session_ok d" "makes (fm_Chunks meta)" "sanitizeFilename (fm_Filename meta) = Inr (clean, changed)" "length (rk_Key rk) = 32" for d meta clean changed i name rk
  proof (rule recv_put_ok [OF that(1)])
    have "0 \<le> cl_maxFileBytes d" using that(1) by (simp add: session_ok_def)
    then show "recv_ok (cl_maxFileBytes d) \<lparr>rv_meta = meta, rv_cleanName = clean, rv_senderID = i, rv_senderName = name, rv_rk = rk,
        rv_chunks = replicate (nat (fm_Chunks meta)) [], rv_have = replicate (nat (fm_Chunks meta)) False, rv_received = 0, rv_bytes = 0\<rparr>"
      using that(2-4) by (simp add: recv_ok_def makes_def list_all2_conv_all_nth)
  qed
  moreover have "length (rk_Key rk) = 32" if "cl_rk c = Some rk" for rk using c that by (simp add: session_ok_def)
  ultimately show ?thesis using c unfolding onFileOffer_def Let_def
    by (auto split: option.split open_result.split sum.split)
qed

lemma onFileChunk_ok: "session_ok c \<Longrightarrow> session_ok (snd (onFileChunk w fs now fc c))"
proof -
  assume c: "session_ok c"
  let ?t = "fc_TransferID fc" and ?i = "nat (fc_Index fc)"
  have "session_ok (abortRecv now ?t r (c\<lparr>cl_recvs := mput ?t rs (cl_recvs c)\<rparr>))" for rs r
    using recv_del_ok [OF c, of ?t] by (simp add: abortRecv_def Let_def delete_update_same)
  moreover have "session_ok (c\<lparr>cl_recvs := mput ?t (storeChunk ?i pt rs) (cl_recvs c)\<rparr>)"
    if "mget (cl_recvs c) ?t = Some rs" "0 \<le> fc_Index fc" "fc_Index fc < int (length (rv_chunks rs))" "int (rv_bytes (storeChunk ?i pt rs)) \<le> cl_maxFileBytes c" for rs pt
    using that c by (intro recv_put_ok recv_ok_store) (auto simp: session_ok_def)
  ultimately show ?thesis using c unfolding onFileChunk_def Let_def
    by (auto split: option.split aead_result.split intro!: abortRecv_ok finalizeRecv_ok)
qed

lemma onFileAck_ok: "session_ok c \<Longrightarrow> session_ok (onFileAck fa c)" "session_ok c \<Longrightarrow> session_ok (onFileAbort now fb c)"
proof -
  assume c: "session_ok c"
  then have s: "send_ok ss" if "mget (cl_sends c) t = Some ss" for t ss using that by (simp add: session_ok_def)
  show "session_ok (onFileAck fa c)" using c s by (auto simp: onFileAck_def send_ok_def intro!: send_put_ok split: option.split)
  show "session_ok (onFileAbort now fb c)" using c s recv_del_ok [OF c]
    by (auto simp: onFileAbort_def Let_def send_ok_def intro!: send_put_ok split: option.split)
qed

lemma handle_ok:
  assumes "lengths_ok w" "session_ok c"
  shows "session_ok (snd (handle w fs now env c))"
proof -
  have e: "session_ok (handleEncrypted w now op m c)" for op m
  proof (cases "cl_rk c")
    case None
    then show ?thesis using assms(2) by (simp add: handleEncrypted_def session_ok_def)
  next
    case (Some rk)
    then show ?thesis using session_ok_cong [OF seat_handleEncrypted] assms(2) by simp
  qed
  note ok = onWelcome_ok [OF assms] membership_ok [OF assms(2)] onKeyDeliver_ok [OF assms(2)] onFileOffer_ok [OF assms(2)] onFileChunk_ok [OF assms(2)]
    onFileAck_ok [OF assms(2)] onControl_ok [OF assms]
  have i: "session_ok (snd (if b then x else y))" if "session_ok (snd x)" "session_ok (snd y)" for b and x y :: "(string \<times> bytes) list \<times> Client"
    using that by simp
  show ?thesis unfolding handle_def Let_def
    by (intro i) (simp_all add: e ok assms(2) onRouteFired_def onServerMessage_def onInviteResult_def onBreakGlassResult_def split: option.split)
qed

lemma send_queued_ok: "session_ok c \<Longrightarrow> send_ok ss \<Longrightarrow> session_ok (enqueue op j c\<lparr>cl_sends := mput t ss (cl_sends c)\<rparr>)"
  using send_put_ok [of "enqueue op j c" ss t] by simp

lemma SendFile_ok: "session_ok c \<Longrightarrow> session_ok (snd (SendFile w path content c))"
proof -
  assume c: "session_ok c"
  have t: "session_ok (snd (newTransferID w c))" using c by (simp add: newTransferID_def split_beta Let_def)
  then have "session_ok (snd (draw w NonceSizeX (snd (newTransferID w c))))" by simp
  then show ?thesis using c unfolding SendFile_def Let_def split_beta
    by (auto split: option.split sum.split intro!: send_queued_ok simp: send_ok_def)
qed

lemma streamStep_ok: "session_ok c \<Longrightarrow> session_ok (snd (streamStep w percent ch s c))"
proof -
  assume c: "session_ok c"
  have st: "session_ok (snd (stopSending s' d))" if "session_ok d" for s' d using that by (simp add: stopSending_def send_del_ok)
  have f: "session_ok (snd (quietFail r s' d))" "session_ok (snd (broadcastFail r s' d))" if "session_ok d" for r s' d
    using st [of "emit _ _"] that by (simp_all add: quietFail_def broadcastFail_def)
  have t: "session_ok (snd p)" if tk: "takeFrom ch s c = Some p" for p
  proof -
    obtain ss where ss: "mget (cl_sends c) (cs_tid s) = Some ss" using tk by (cases "mget (cl_sends c) (cs_tid s)") (simp_all add: takeFrom_def)
    moreover from this have "send_ok ss" using c by (simp add: session_ok_def)
    ultimately show ?thesis using tk c f(1) by (auto simp: takeFrom_def send_ok_def intro!: send_put_ok split: choice.splits list.splits)
  qed
  have k: "session_ok (snd (sendChunk w percent s c))" using c f(2) by (simp add: sendChunk_def split_beta Let_def split: option.split)
  show ?thesis
  proof (cases "takeFrom ch s c")
    case None
    then show ?thesis using c st [OF c] f(2) [OF c] k st [of "emit _ c"] by (cases "cs_phase s") (simp_all add: streamStep_def)
  next
    case (Some p)
    then show ?thesis using c st [OF c] f(2) [OF c] k st [of "emit _ c"] t [OF Some]
      by (cases "cs_phase s"; cases p) (simp_all add: streamStep_def)
  qed
qed

lemma cap_ok: "session_ok c \<Longrightarrow> cl_recvs c = [] \<Longrightarrow> session_ok (SetMaxFileBytes n c)"
  by (auto simp: SetMaxFileBytes_def session_ok_def)

text \<open>What happens to a client: frames, the commands that touch its key, its transfers or its cap, a step of a
  streaming goroutine, and everything else, which leaves its seat alone (the lemmas \<open>seated\<close>).\<close>

inductive session :: "World \<Rightarrow> FileSystem \<Rightarrow> Client \<Rightarrow> Client \<Rightarrow> bool" for w fs c0 where
  start: "session w fs c0 c0"
| frame: "session w fs c0 c \<Longrightarrow> session w fs c0 (snd (handle w fs now env c))"
| vanish: "session w fs c0 c \<Longrightarrow> session w fs c0 (Vanish w c)"
| cap: "session w fs c0 c \<Longrightarrow> cl_recvs c = [] \<Longrightarrow> session w fs c0 (SetMaxFileBytes n c)"
| send: "session w fs c0 c \<Longrightarrow> session w fs c0 (snd (SendFile w path content c))"
| stream: "session w fs c0 c \<Longrightarrow> session w fs c0 (snd (streamStep w percent ch s c))"
| local: "session w fs c0 c \<Longrightarrow> seat d = seat c \<Longrightarrow> session w fs c0 d"

lemma session_keeps: "session w fs c0 c \<Longrightarrow> lengths_ok w \<Longrightarrow> session_ok c0 \<Longrightarrow> session_ok c"
proof (induction rule: session.induct)
  case (vanish c)
  then have "session_ok (resetCoordinationLocked w (ratchetForward w c))"
    using ratchet_ok session_ok_cong [OF clear_seat(7)] by blast
  then show ?case by (simp add: Vanish_def Let_def)
next
  case (cap c n)
  then show ?case using cap_ok by blast
next
  case (local c d)
  then show ?case using session_ok_cong by blast
qed (simp_all add: handle_ok SendFile_ok streamStep_ok)

section \<open>Properties\<close>

text \<open>Claim C4. A session stays well formed: whatever frames arrive from a relay that may send anything, and however
  they interleave with local commands, transfers and their goroutines, a client that starts
  in the state of a new one keeps maps that have one entry per key, members whose identity
  and exchange keys have 32 bytes, a room key of 32 bytes and no frame set aside once it has
  one, outgoing transfers within their channels, and incoming transfers whose slots, counts
  and bytes agree, that hold no more than the size cap and whose file names were sanitised.\<close>

theorem session_wf:
  assumes "session w fs (NewWithIdentity room name i) c" "lengths_ok w"
  shows "session_ok c"
proof (rule session_keeps [OF assms])
  show "session_ok (NewWithIdentity room name i)" by (simp add: NewWithIdentity_def session_ok_def DefaultMaxFileBytes_def)
qed

lemma toy_lengths: "lengths_ok toy_world" "lengths_ok (toy_speaking j)"
  by (simp_all add: lengths_ok_def toy_rand_length) (auto simp: toy_world_def toy_cipher_def min_def)

definition toy_welcome :: Envelope where
  "toy_welcome = Encode OpWelcome (json_Welcome \<lparr>we_ProtocolVersion = 1, we_YourID = ''a'', we_Room = ''ops'', we_Members = [], we_YouAreFirst = True,
     we_Policy = \<lparr>rp_InviteOnly = False, rp_Webhook = False, rp_TTLSeconds = 0\<rparr>\<rparr>)"

theorem session_wf_witness:
  "session_ok (Vanish toy_world (snd (handle toy_world toy_disk 5 toy_welcome (NewWithIdentity ''ops'' ''a'' (toy_id CHR ''a'')))))"
  by (rule session_wf [OF session.vanish [OF session.frame [OF session.start]] toy_lengths(1)])


definition toy_seated :: Client where
  "toy_seated = (toy_client CHR ''b'' [])\<lparr>cl_members := [(''a'', toy_member CHR ''a'')]\<rparr>"


lemma emit_noteFirst [simp]: "cl_rk (noteFirstEpochLocked e c) = cl_rk c" "cl_pending (noteFirstEpochLocked e c) = cl_pending c"
  by (simp_all add: noteFirstEpochLocked_def Let_def)

text \<open>Claim C17. The room key is handed over: a member that holds the key, asked to give it to a newcomer, queues exactly
  one delivery, addressed to the newcomer; stamped with the member's id and opened by the
  newcomer, who knows that member's exchange key, it gives exactly the same key and epoch,
  the key is announced, and the frames set aside until then are handled with it.\<close>

theorem key_handed_over:
  assumes "box_pair (w_ci w) (cl_id a) (cl_id b)" "cl_rk a = Some rk" "length (rk_Key rk) = 32" "length (ki_KXPub (cl_id b)) = 32"
    and "w_rand w (cl_draws a) 24 = Some n" "length n = 24" "mb_KXKey m = Some (ki_KXPub (cl_id b))" "mb_Attestation m \<noteq> Some []"
    and "mget (cl_members b) i = Some ma" "mi_kxPub ma = ki_KXPub (cl_id a)"
  shows "\<exists>kd. cl_sendCh (onKeyRequest w (Encode OpKeyRequest (json_KeyRequest m)) a) = cl_sendCh a @ [Encode OpKeyDeliver (json_KeyDeliver kd)] \<and>
    kd_ToID kd = mb_ID m \<and>
    (let b' = onKeyDeliver w now (Encode OpKeyDeliver (json_KeyDeliver (kd\<lparr>kd_FromID := i\<rparr>))) b in
      cl_rk b' = Some rk \<and> cl_pending b' = [] \<and> cl_members b' = cl_members b \<and>
      b' = replayPending w now (emit (Session (EvKeyReady (rk_Epoch rk))) (noteFirstEpochLocked (rk_Epoch rk) (b\<lparr>cl_rk := Some rk\<rparr>))))"
proof -
  let ?kd = "\<lparr>kd_ToID = mb_ID m, kd_FromID = [], kd_Epoch = rk_Epoch rk, kd_Nonce = Some n,
    kd_WrappedKey = Some (ci_box (w_ci w) (rk_Key rk) n (ki_KXPub (cl_id b)) (ki_KXPriv (cl_id a)))\<rparr>"
  let ?d = "emit (Session (EvKeyReady (rk_Epoch rk))) (noteFirstEpochLocked (rk_Epoch rk) (b\<lparr>cl_rk := Some rk\<rparr>))"
  have "onKeyRequest w (Encode OpKeyRequest (json_KeyRequest m)) a = enqueue OpKeyDeliver (json_KeyDeliver ?kd) (snd (draw w 24 a))"
    using assms(2,4,5,7) key_request.Decode_Encode [OF assms(8)] by (simp add: onKeyRequest_def ToKX_def go_bytes_def draw_def WrapRoomKey_def)
  then have q: "cl_sendCh (onKeyRequest w (Encode OpKeyRequest (json_KeyRequest m)) a) = cl_sendCh a @ [Encode OpKeyDeliver (json_KeyDeliver ?kd)]"
    by (simp add: draw_def)
  have "ci_unbox (w_ci w) (ci_box (w_ci w) (rk_Key rk) n (ki_KXPub (cl_id b)) (ki_KXPriv (cl_id a))) n (ki_KXPub (cl_id a)) (ki_KXPriv (cl_id b)) = Some (rk_Key rk)"
    using assms(1,6) by (simp add: box_pair_def)
  then have b: "onKeyDeliver w now (Encode OpKeyDeliver (json_KeyDeliver (?kd\<lparr>kd_FromID := i\<rparr>))) b = replayPending w now ?d"
    using assms(3,6,9,10) keydeliver.Decode_Encode [where x = "?kd\<lparr>kd_FromID := i\<rparr>" and op = OpKeyDeliver] by (cases rk) (simp add: onKeyDeliver_def UnwrapRoomKey_def go_bytes_def)
  have "seat (replayPending w now ?d) = seat (?d\<lparr>cl_pending := []\<rparr>)" by (rule seat_replayPending) simp
  then have "cl_rk (replayPending w now ?d) = Some rk" "cl_pending (replayPending w now ?d) = []" "cl_members (replayPending w now ?d) = cl_members b"
    by (simp_all add: seat_def noteFirstEpochLocked_def Let_def)
  then show ?thesis using q b by (intro exI [of _ ?kd]) simp
qed

definition toy_newcomer :: Member where
  "toy_newcomer = \<lparr>mb_ID = ''b'', mb_DisplayName = ''b'', mb_IdentityKey = Some (toy_key CHR ''b''), mb_KXKey = Some (toy_key CHR ''b''), mb_Attestation = None\<rparr>"

theorem key_handed_over_witness:
  "\<exists>kd. cl_rk (onKeyDeliver toy_world 5 (Encode OpKeyDeliver (json_KeyDeliver kd)) (toy_seated\<lparr>cl_rk := None\<rparr>)) = cl_rk (toy_client CHR ''a'' [])"
proof -
  have k: "length (toy_key x) = 32" for x by (simp add: toy_key_def)
  have "w_rand toy_world 0 24 = Some (replicate 24 (char_of (0 :: nat)))" by (simp add: toy_world_def)
  then show ?thesis
    using key_handed_over [of toy_world "toy_client CHR ''a'' []" "toy_seated\<lparr>cl_rk := None\<rparr>" "\<lparr>rk_Epoch = 0, rk_Key = toy_key CHR ''k''\<rparr>"
        "replicate 24 (char_of (0 :: nat))" toy_newcomer "''a''" "toy_member CHR ''a''" 5] k toy_cipher_ok(2)
    by (auto simp: toy_seated_def toy_newcomer_def toy_member_def toy_id_def toy_world_def Let_def)
qed

lemma stale_frame:
  assumes "cl_rk c = Some rk" "mget (cl_members c) (ms_FromID m) = Some sender" "rk_Epoch rk \<noteq> ms_Epoch m"
  shows "\<exists>e. handleEncrypted w t op m c = emit (EvError e) c"
proof -
  have "openFrame w rk sender m c = SenderKeyInvalid \<or> openFrame w rk sender m c = ErrBadSignature \<or> openFrame w rk sender m c = EpochMismatch (rk_Epoch rk) (ms_Epoch m)"
    using assms(3) by (simp add: openFrame_def OpenMessage_def Let_def)
  then show ?thesis using assms(1,2) by (auto simp: handleEncrypted_def)
qed



text \<open>Claim C40. An acknowledgement counts for whoever the relay says: take a signed acknowledgement that a member would
  accept from its author; with its signature removed and another member named as its
  sender, which takes no key, it is accepted too, is shown as that other member's and counts
  for that member's fingerprint.\<close>

theorem stripped_ack_misattributed:
  assumes "cl_rk b = Some rk" "openFrame w rk author m b = Opened pt True" "body_of w decode_AckBody pt = Some body" "ak_Tag body \<noteq> []"
    and "mget (cl_members b) i = Some other"
  shows "let m' = m\<lparr>ms_FromID := i, ms_Sig := None\<rparr>; d = handleEncrypted w now OpAck m' b; fpr = Fingerprint (w_pr w) (mi_signPub other) in
    (\<exists>q. cl_events d = cl_events b @ [Coord (EvAck (ak_Tag body) (mi_name other) fpr q False now None (Some (frameBytes b m')) (Some pt))]) \<and>
    (\<exists>s. mget (cl_acks d) (ak_Tag body) = Some s \<and> fpr \<in> set s)"
proof -
  let ?m = "m\<lparr>ms_FromID := i, ms_Sig := None\<rparr>" and ?fpr = "Fingerprint (w_pr w) (mi_signPub other)"
  have o: "openFrame w rk other ?m b = Opened pt False" using assms(2) unfolding openFrame_def OpenMessage_Opened by (auto simp: go_bytes_def)
  have n: "OpAck \<noteq> OpMessage" "OpAck \<noteq> OpExecRequest" "OpAck \<noteq> OpExecResult" by (simp_all add: opcodes)
  have "handleEncrypted w now OpAck ?m b = deliver_chat w now OpAck ?m other pt False b"
    using assms(1,5) o by (simp add: handleEncrypted_def chat_ops_def)
  also have "\<dots> = (let (q, c) = recordAck (ak_Tag body) ?fpr b in
      emit (Coord (EvAck (ak_Tag body) (mi_name other) ?fpr q False now None (Some (frameBytes c ?m)) (Some pt))) c)"
    using assms(3,4) n by (simp add: deliver_chat_def Let_def split_beta)
  finally have d: "handleEncrypted w now OpAck ?m b = (let (q, c) = recordAck (ak_Tag body) ?fpr b in
      emit (Coord (EvAck (ak_Tag body) (mi_name other) ?fpr q False now None (Some (frameBytes c ?m)) (Some pt))) c)" .
  have "frameBytes (snd (recordAck t f c)) ?m = frameBytes c ?m" for t f c by (simp add: frameBytes_def recordAck_def Let_def)
  then show ?thesis unfolding Let_def d by (auto simp: split_beta recordAck_def Let_def)
qed

theorem stripped_ack_misattributed_witness:
  "\<exists>m q x. last (cl_events (handleEncrypted (toy_speaking (json_AckBody \<lparr>ak_Tag = ''t''\<rparr>)) 5 OpAck m
      (toy_seated\<lparr>cl_members := [(''a'', toy_member CHR ''a''), (''z'', toy_member CHR ''z'')]\<rparr>))) =
    Coord (EvAck ''t'' ''z'' (Fingerprint toy (toy_key CHR ''z'')) q False 5 None x (Some ''x''))"
proof -
  let ?w = "toy_speaking (json_AckBody \<lparr>ak_Tag = ''t''\<rparr>)" and ?rk = "\<lparr>rk_Epoch = 0, rk_Key = toy_key CHR ''k''\<rparr>"
  let ?b = "toy_seated\<lparr>cl_members := [(''a'', toy_member CHR ''a''), (''z'', toy_member CHR ''z'')]\<rparr>"
  obtain ct sig where o: "OpenMessage toy_cipher (w_pr ?w) ?rk (ki_SignPub (toy_id CHR ''a'')) ''ops'' ''a'' 0 toy_nonce ct sig = Opened ''x'' True"
    using SealMessage_opens [of toy_cipher "w_pr ?w" "toy_id CHR ''a''" toy_nonce ?rk "''ops''" "''a''" "''x''", OF toy_cipher_ok(1) toy_speaking_signs length_toy_nonce]
    by auto
  let ?m = "\<lparr>ms_FromID = ''a'', ms_Epoch = 0, ms_Nonce = Some toy_nonce, ms_Ciphertext = Some ct, ms_Sig = Some sig\<rparr>"
  have f: "openFrame ?w ?rk (toy_member CHR ''a'') ?m ?b = Opened ''x'' True"
    using o by (simp add: openFrame_def toy_seated_def toy_member_def toy_id_def go_bytes_def)
  have b: "body_of ?w decode_AckBody ''x'' = Some \<lparr>ak_Tag = ''t''\<rparr>" using akb.dec_enc by (simp add: body_of_def)
  have "\<exists>q. cl_events (handleEncrypted ?w 5 OpAck (?m\<lparr>ms_FromID := ''z'', ms_Sig := None\<rparr>) ?b) = cl_events ?b @
      [Coord (EvAck ''t'' ''z'' (Fingerprint toy (toy_key CHR ''z'')) q False 5 None (Some (frameBytes ?b (?m\<lparr>ms_FromID := ''z'', ms_Sig := None\<rparr>))) (Some ''x''))]"
    using stripped_ack_misattributed [of ?b ?rk ?w "toy_member CHR ''a''" ?m "''x''" "\<lparr>ak_Tag = ''t''\<rparr>" "''z''" "toy_member CHR ''z''" 5] f b
    by (simp add: toy_seated_def toy_member_def Let_def)
  then show ?thesis by (metis last_snoc)
qed

end
