(* ===== verification/Sneakernet.thy ===== *)
theory Sneakernet
  imports Prelude Encoding Signing Wire Files Relay RoomKeys GoText "HOL-Library.Countable"
begin

text \<open>
  Rooms without a relay, \<^verbatim>\<open>src/tui/sneakernet\<close>: the frames of the direct transport (\<^verbatim>\<open>framing.go\<close>), the
  signed pairing blobs (\<^verbatim>\<open>blob.go\<close>), the handshake that authenticates a connection (\<^verbatim>\<open>auth.go\<close>) and
  the coordinator that plays the relay's part inside a peer (\<^verbatim>\<open>coordinator.go\<close>).

  A connection is the bytes that can still be read from it. The handshake reads two frames,
  \<open>None\<close> standing for a failed read; writing is assumed to succeed. A member of the
  coordinator is a member of the hub with both of its callbacks; what a handler sends is a
  list of effects, as for the relay.
\<close>

section \<open>Frames\<close>

definition maxFrameBytes :: nat where "maxFrameBytes = 2 ^ 20"

definition be32 :: "nat \<Rightarrow> bytes" where
  "be32 n = map (\<lambda>i. char_of (n div 256 ^ i)) [3, 2, 1, 0]"

definition of_be32 :: "bytes \<Rightarrow> nat" where
  "of_be32 bs = foldl (\<lambda>n ch. n * 256 + of_char ch) 0 bs"

datatype frame_error = ShortRead | FrameTooLarge nat

definition writeFrame :: "bytes \<Rightarrow> bytes option" where
  "writeFrame b = (if length b > maxFrameBytes then None else Some (be32 (length b) @ b))"

definition readFrame :: "bytes \<Rightarrow> frame_error + bytes \<times> bytes" where
  "readFrame s =
    (if length s < 4 then Inl ShortRead
     else let n = of_be32 (take 4 s); s = drop 4 s
          in if n > maxFrameBytes then Inl (FrameTooLarge n)
             else if length s < n then Inl ShortRead
             else Inr (take n s, drop n s))"

section \<open>Pairing blobs\<close>

definition blobVersion :: int where "blobVersion = 1"
definition BlobTTL :: duration where "BlobTTL = 300 * second"
definition offerBegin :: string where "offerBegin = ''----BEGIN NETHERCHAT OFFER----''"
definition offerEnd :: string where "offerEnd = ''----END NETHERCHAT OFFER----''"
definition answerBegin :: string where "answerBegin = ''----BEGIN NETHERCHAT ANSWER----''"
definition answerEnd :: string where "answerEnd = ''----END NETHERCHAT ANSWER----''"

record Blob =
  bl_V :: int
  bl_Pub :: string
  bl_Fpr :: string
  bl_KXPub :: string
  bl_Addrs :: "string list option"
  bl_Room :: string
  bl_Nonce :: string
  bl_Expires :: int
  bl_Sig :: string

fun json_addrs :: "string list option \<Rightarrow> json" where
  "json_addrs None = JNull"
| "json_addrs (Some xs) = JArr (map JStr xs)"

definition json_blob :: "Blob \<Rightarrow> json" where
  "json_blob b = JObj [(''v'', JInt (bl_V b)), (''pub'', JStr (bl_Pub b)), (''fpr'', JStr (bl_Fpr b)), (''kx_pub'', JStr (bl_KXPub b)),
     (''addrs'', json_addrs (bl_Addrs b)), (''room'', JStr (bl_Room b)), (''nonce'', JStr (bl_Nonce b)), (''expires'', JInt (bl_Expires b)),
     (''sig'', JStr (bl_Sig b))]"

definition json_blobCore :: "Blob \<Rightarrow> json" where
  "json_blobCore b = JObj [(''v'', JInt (bl_V b)), (''pub'', JStr (bl_Pub b)), (''kx_pub'', JStr (bl_KXPub b)),
     (''addrs'', json_addrs (bl_Addrs b)), (''room'', JStr (bl_Room b)), (''nonce'', JStr (bl_Nonce b)), (''expires'', JInt (bl_Expires b))]"

definition decode_blob :: "json \<Rightarrow> Blob option" where
  "decode_blob = strict_struct
     [(''v'', int_field (\<lambda>x s. s\<lparr>bl_V := x\<rparr>)), (''pub'', str_field (\<lambda>x s. s\<lparr>bl_Pub := x\<rparr>)), (''fpr'', str_field (\<lambda>x s. s\<lparr>bl_Fpr := x\<rparr>)),
      (''kx_pub'', str_field (\<lambda>x s. s\<lparr>bl_KXPub := x\<rparr>)), (''addrs'', strs_field (\<lambda>x s. s\<lparr>bl_Addrs := x\<rparr>)), (''room'', str_field (\<lambda>x s. s\<lparr>bl_Room := x\<rparr>)),
      (''nonce'', str_field (\<lambda>x s. s\<lparr>bl_Nonce := x\<rparr>)), (''expires'', int_field (\<lambda>x s. s\<lparr>bl_Expires := x\<rparr>)), (''sig'', str_field (\<lambda>x s. s\<lparr>bl_Sig := x\<rparr>))]
     \<lparr>bl_V = 0, bl_Pub = [], bl_Fpr = [], bl_KXPub = [], bl_Addrs = None, bl_Room = [], bl_Nonce = [], bl_Expires = 0, bl_Sig = []\<rparr>"

definition blob_signingBytes :: "Prims \<Rightarrow> Blob \<Rightarrow> bytes" where
  "blob_signingBytes c b = pr_marshal c (json_blobCore b)"

datatype blob_error =
    NoRandomness
  | SignFailed
  | BadArmor
  | BadBlobJSON
  | BlobVersion int
  | BadBlobKey
  | BlobFprMismatch
  | BadBlobSigEncoding
  | BlobSigFailed
  | BlobExpired int

text \<open>The random draw of the nonce is an argument, \<open>None\<close> when it fails.\<close>

definition NewBlob :: "Prims \<Rightarrow> KeyIdentity \<Rightarrow> bytes option \<Rightarrow> go_time \<Rightarrow> string \<Rightarrow> string list option \<Rightarrow> blob_error + Blob" where
  "NewBlob c i rnd now room addrs =
    (case rnd of
       None \<Rightarrow> Inl NoRandomness
     | Some nonce \<Rightarrow>
        (let b = \<lparr>bl_V = blobVersion, bl_Pub = std_encode (ki_SignPub i), bl_Fpr = IdFingerprint c i, bl_KXPub = std_encode (ki_KXPub i),
               bl_Addrs = addrs, bl_Room = room, bl_Nonce = hex_encode nonce, bl_Expires = unix (now + BlobTTL), bl_Sig = []\<rparr>
         in case IdSign i (blob_signingBytes c b) of
              None \<Rightarrow> Inl SignFailed
            | Some sig \<Rightarrow> Inr (b\<lparr>bl_Sig := std_encode sig\<rparr>)))"

definition blob_PublicKey :: "Blob \<Rightarrow> bytes option" where
  "blob_PublicKey b = (case std_decode (bl_Pub b) of
     None \<Rightarrow> None | Some pub \<Rightarrow> if length pub \<noteq> PublicKeySize then None else Some pub)"

definition blob_Verify :: "Prims \<Rightarrow> go_time \<Rightarrow> Blob \<Rightarrow> blob_error option" where
  "blob_Verify c now b =
    (if bl_V b \<noteq> blobVersion then Some (BlobVersion (bl_V b))
     else case blob_PublicKey b of
            None \<Rightarrow> Some BadBlobKey
          | Some pub \<Rightarrow>
             (if Fingerprint c pub \<noteq> bl_Fpr b then Some BlobFprMismatch
              else case std_decode (bl_Sig b) of
                     None \<Rightarrow> Some BadBlobSigEncoding
                   | Some sig \<Rightarrow>
                      (if \<not> pr_verify c pub (blob_signingBytes c b) sig then Some BlobSigFailed
                       else if unix now > bl_Expires b then Some (BlobExpired (bl_Expires b))
                       else None)))"

definition Compact :: "Prims \<Rightarrow> Blob \<Rightarrow> string" where
  "Compact c b = std_encode (pr_marshal c (json_blob b))"

fun lines_of :: "nat \<Rightarrow> string \<Rightarrow> string list" where
  "lines_of k s = (if s = [] \<or> k = 0 then [] else take k s # lines_of k (drop k s))"

declare lines_of.simps [simp del]

definition newline :: char where "newline = CHR 0x0A"

definition Armor :: "Prims \<Rightarrow> string \<Rightarrow> Blob \<Rightarrow> string" where
  "Armor c label b =
    (let (head, foot) = (if label = ''answer'' then (answerBegin, answerEnd) else (offerBegin, offerEnd))
     in head @ [newline] @ concat (map (\<lambda>l. l @ [newline]) (lines_of 64 (Compact c b))) @ foot)"

definition unarmor :: "string \<Rightarrow> string" where
  "unarmor armored = concat (filter (\<lambda>l. \<not> (l = [] \<or> has_prefix ''----'' l)) (map trim_space (split_at newline armored)))"

definition ParseBlob :: "Prims \<Rightarrow> go_time \<Rightarrow> string \<Rightarrow> blob_error + Blob" where
  "ParseBlob c now armored =
    (case std_decode (unarmor armored) of
       None \<Rightarrow> Inl BadArmor
     | Some raw \<Rightarrow>
        (case pr_scan c raw of
           None \<Rightarrow> Inl BadBlobJSON
         | Some (j, _) \<Rightarrow>
            (case decode_blob j of
               None \<Rightarrow> Inl BadBlobJSON
             | Some b \<Rightarrow> (case blob_Verify c now b of Some e \<Rightarrow> Inl e | None \<Rightarrow> Inr b))))"

section \<open>The handshake\<close>

record authHello =
  ah_V :: int
  ah_Pub :: "bytes option"
  ah_Nonce :: "bytes option"

definition json_authHello :: "authHello \<Rightarrow> json" where
  "json_authHello h = JObj [(''v'', JInt (ah_V h)), (''pub'', json_bytes (ah_Pub h)), (''nonce'', json_bytes (ah_Nonce h))]"

definition decode_authHello :: "json \<Rightarrow> authHello option" where
  "decode_authHello = decode_struct
     [(''v'', int_field (\<lambda>x s. s\<lparr>ah_V := x\<rparr>)), (''pub'', bytes_field (\<lambda>x s. s\<lparr>ah_Pub := x\<rparr>)), (''nonce'', bytes_field (\<lambda>x s. s\<lparr>ah_Nonce := x\<rparr>))]
     \<lparr>ah_V = 0, ah_Pub = None, ah_Nonce = None\<rparr>"

definition json_authProof :: "bytes option \<Rightarrow> json" where
  "json_authProof sig = JObj [(''sig'', json_bytes sig)]"

definition decode_authProof :: "json \<Rightarrow> bytes option option" where
  "decode_authProof = decode_struct [(''sig'', bytes_field (\<lambda>x _. x))] None"

datatype auth_error = AuthNonce | ReadHello | BadHello | SignProof | ReadProof | BadProof | NotAuthenticated | WrongPeer string string

definition authHelloFrame :: "Prims \<Rightarrow> KeyIdentity \<Rightarrow> bytes \<Rightarrow> bytes" where
  "authHelloFrame c i myNonce = pr_marshal c (json_authHello \<lparr>ah_V = 1, ah_Pub = Some (ki_SignPub i), ah_Nonce = Some myNonce\<rparr>)"

definition slice :: "bytes option \<Rightarrow> bytes" where
  "slice b = (case b of None \<Rightarrow> [] | Some x \<Rightarrow> x)"

text \<open>What is written, and the outcome; the two frames read are arguments.\<close>

definition performAuth :: "Prims \<Rightarrow> KeyIdentity \<Rightarrow> string \<Rightarrow> bytes option \<Rightarrow> bytes option \<Rightarrow> bytes option \<Rightarrow> bytes list \<times> (auth_error + bytes)" where
  "performAuth c i expectFpr rnd peerB peerProofB =
    (case rnd of
       None \<Rightarrow> ([], Inl AuthNonce)
     | Some myNonce \<Rightarrow>
        (let out = [authHelloFrame c i myNonce]
         in case peerB of
              None \<Rightarrow> (out, Inl ReadHello)
            | Some peerB \<Rightarrow>
               (case Option.bind (pr_json c peerB) decode_authHello of
                  None \<Rightarrow> (out, Inl BadHello)
                | Some ph \<Rightarrow>
                   (if length (slice (ah_Pub ph)) \<noteq> PublicKeySize \<or> slice (ah_Nonce ph) = [] then (out, Inl BadHello)
                    else let peerPub = slice (ah_Pub ph); peerNonce = slice (ah_Nonce ph)
                         in case IdSign i (DirectAuthBytes (ki_SignPub i) myNonce peerPub peerNonce) of
                              None \<Rightarrow> (out, Inl SignProof)
                            | Some sig \<Rightarrow>
                               (let out = out @ [pr_marshal c (json_authProof (Some sig))]
                                in case peerProofB of
                                     None \<Rightarrow> (out, Inl ReadProof)
                                   | Some pb \<Rightarrow>
                                      (case Option.bind (pr_json c pb) decode_authProof of
                                         None \<Rightarrow> (out, Inl BadProof)
                                       | Some psig \<Rightarrow>
                                          (if \<not> pr_verify c peerPub (DirectAuthBytes peerPub peerNonce (ki_SignPub i) myNonce) (slice psig)
                                             then (out, Inl NotAuthenticated)
                                           else if expectFpr \<noteq> [] \<and> Fingerprint c peerPub \<noteq> expectFpr
                                             then (out, Inl (WrongPeer (Fingerprint c peerPub) expectFpr))
                                           else (out, Inr peerPub))))))))"

section \<open>Finding a peer\<close>

text \<open>The lines a scanner delivers, and whether it stopped with an error.\<close>

fun read_lines :: "bool \<Rightarrow> string list \<Rightarrow> string \<Rightarrow> string" where
  "read_lines started [] sb = sb"
| "read_lines started (ln # lns) sb =
    (let sb = sb @ ln @ [newline]; t = trim_space ln; started = (started \<or> has_prefix ''----BEGIN'' t)
     in if started \<and> has_prefix ''----END'' t then sb
        else if \<not> started \<and> t = [] \<and> length sb > 1 then sb
        else read_lines started lns sb)"

definition readBlob :: "Prims \<Rightarrow> go_time \<Rightarrow> string list \<Rightarrow> bool \<Rightarrow> blob_error + Blob" where
  "readBlob c now lns failed = (if failed then Inl BadArmor else ParseBlob c now (read_lines False lns []))"

text \<open>Dialling an address authenticates the peer or fails.\<close>

fun dialAny :: "(string \<Rightarrow> 'e + 't) \<Rightarrow> 'e \<Rightarrow> string list \<Rightarrow> 'e + 't" where
  "dialAny dial lastErr [] = Inl lastErr"
| "dialAny dial lastErr (a # as) = (case dial a of Inr dt \<Rightarrow> Inr dt | Inl e \<Rightarrow> dialAny dial e as)"

record Peer =
  pe_Fpr :: string
  pe_Room :: string
  pe_Addr :: string

text \<open>An advertisement: its text records, its port, and its first address with the port, if it has one.\<close>

record ServiceEntry =
  en_Text :: "string list"
  en_Port :: int
  en_Host :: "string option"

text \<open>\<open>strings.Cut\<close> at the first \<open>=\<close>.\<close>

definition cut_eq :: "string \<Rightarrow> (string \<times> string) option" where
  "cut_eq s = (let k = takeWhile (\<lambda>ch. ch \<noteq> CHR ''='') s in if k = s then None else Some (k, drop (Suc (length k)) s))"

definition peer_text :: "string list \<Rightarrow> Peer \<Rightarrow> Peer" where
  "peer_text ts p = fold (\<lambda>kv p. case cut_eq kv of
       None \<Rightarrow> p
     | Some (k, v) \<Rightarrow> (if k = ''fpr'' then p\<lparr>pe_Fpr := v\<rparr> else if k = ''room'' then p\<lparr>pe_Room := v\<rparr> else p)) ts p"

definition peerFromEntry :: "ServiceEntry \<Rightarrow> Peer option" where
  "peerFromEntry e =
    (let p = peer_text (en_Text e) \<lparr>pe_Fpr = [], pe_Room = [], pe_Addr = []\<rparr>
     in if pe_Fpr p = [] \<or> en_Port e = 0 then None
        else case en_Host e of None \<Rightarrow> None | Some h \<Rightarrow> Some (p\<lparr>pe_Addr := h\<rparr>))"

fun browse :: "string \<Rightarrow> string list \<Rightarrow> ServiceEntry list \<Rightarrow> Peer list" where
  "browse room seen [] = []"
| "browse room seen (e # es) =
    (case peerFromEntry e of
       None \<Rightarrow> browse room seen es
     | Some p \<Rightarrow>
        (if room \<noteq> [] \<and> pe_Room p \<noteq> room then browse room seen es
         else if pe_Fpr p \<in> set seen then browse room seen es
         else p # browse room (pe_Fpr p # seen) es))"

definition contains :: "string \<Rightarrow> string \<Rightarrow> bool" where
  "contains t s = list_ex (\<lambda>k. has_prefix t (drop k s)) [0..<Suc (length s)]"

definition matchPeer :: "Peer list \<Rightarrow> string \<Rightarrow> Peer option" where
  "matchPeer peers target =
    (let target = trim_prefix ''SHA256:'' target
     in if target = [] then None
        else find (\<lambda>p. has_prefix target (trim_prefix ''SHA256:'' (pe_Fpr p)) \<or> contains target (pe_Fpr p)) peers)"

section \<open>The coordinator\<close>

definition coScuttleGrace :: duration where "coScuttleGrace = 300 * 1000000"

record Coordinator =
  co_room :: string
  co_id :: KeyIdentity
  co_members :: "(string, HubMember) gomap"
  co_order :: "string list"
  co_stopped :: bool

definition NewCoordinator :: "string \<Rightarrow> KeyIdentity \<Rightarrow> Coordinator" where
  "NewCoordinator room i = \<lparr>co_room = room, co_id = i, co_members = [], co_order = [], co_stopped = False\<rparr>"

definition co_join :: "HubMember \<Rightarrow> Coordinator \<Rightarrow> Coordinator \<times> JoinResult" where
  "co_join m co =
    (let res = existing (co_members co) (co_order co)
           \<lparr>jr_Existing = [], jr_YouAreFirst = (length (co_members co) = 0), jr_Distributor = None\<rparr>
     in (co\<lparr>co_members := mput (mb_ID (hm_Info m)) m (co_members co), co_order := co_order co @ [mb_ID (hm_Info m)]\<rparr>, res))"

definition co_leave :: "string \<Rightarrow> Coordinator \<Rightarrow> Coordinator \<times> bool" where
  "co_leave i co =
    (let co = co\<lparr>co_members := mdel i (co_members co), co_order := remove1 i (co_order co)\<rparr>
     in (co, length (co_members co) = 0))"

definition co_broadcast :: "string \<Rightarrow> Envelope \<Rightarrow> Coordinator \<Rightarrow> effect list" where
  "co_broadcast exceptID env co =
     send_all (map (hm_Send \<circ> snd) (filter (\<lambda>(i, m). i \<noteq> exceptID) (co_members co))) env"

definition co_sendTo :: "string \<Rightarrow> Envelope \<Rightarrow> Coordinator \<Rightarrow> effect list" where
  "co_sendTo i env co = (case mget (co_members co) i of None \<Rightarrow> [] | Some m \<Rightarrow> send_all [hm_Send m] env)"

text \<open>The notice to all; \<open>AfterExpire\<close> is the timer that closes the coordinator.\<close>

definition co_scuttle :: "Coordinator \<Rightarrow> effect list" where
  "co_scuttle co = co_broadcast [] (scuttle_notice ''manual'') co @ [AfterExpire coScuttleGrace (co_room co) []]"

definition co_Close :: "Coordinator \<Rightarrow> Coordinator \<times> effect list" where
  "co_Close co =
    (if co_stopped co then (co, [])
     else (co\<lparr>co_stopped := True\<rparr>, concat (map (\<lambda>(_, m). opt_close (hm_Close m)) (co_members co))))"

definition MemberCount :: "Coordinator \<Rightarrow> nat" where
  "MemberCount co = length (co_members co)"

definition fanout_ops :: "string list" where
  "fanout_ops = [OpMessage, OpExecRequest, OpExecResult, OpAck, OpHandoff, OpRecordEntry, OpSealRequest, OpSealAck,
     OpRosterRequest, OpRosterAck, OpScuttleReceiptRequest, OpScuttleReceiptAck, OpActionRequest, OpActionApproval, OpActionVeto,
     OpArtifactProposal, OpArtifactApproval, OpArtifactRejection]"

definition co_route :: "string \<Rightarrow> Envelope \<Rightarrow> Coordinator \<Rightarrow> effect list" where
  "co_route fromID env co =
    (if ev_Type env = OpKeyDeliver then
       (case Decode decode_KeyDeliver env of
          None \<Rightarrow> []
        | Some kd \<Rightarrow> (let kd = kd\<lparr>kd_FromID := fromID\<rparr> in co_sendTo (kd_ToID kd) (Encode OpKeyDeliver (json_KeyDeliver kd)) co))
     else if ev_Type env = OpControl then
       (case Decode decode_Control env of
          None \<Rightarrow> []
        | Some ctrl \<Rightarrow>
           (let ctrl = ctrl\<lparr>ct_By := fromID\<rparr>
            in if ct_Action ctrl = ''scuttle'' then co_scuttle co
               else co_broadcast fromID (Encode OpControl (json_Control ctrl)) co))
     else if ev_Type env \<in> set fanout_ops then
       (case Decode decode_Message env of
          None \<Rightarrow> []
        | Some m \<Rightarrow> co_broadcast fromID (Encode (ev_Type env) (json_Message (m\<lparr>ms_FromID := fromID\<rparr>))) co)
     else if ev_Type env \<in> {OpFileOffer, OpFileChunk, OpFileAck, OpFileAbort} then co_broadcast fromID env co
     else [])"

definition co_welcome :: "string \<Rightarrow> JoinResult \<Rightarrow> Coordinator \<Rightarrow> Envelope" where
  "co_welcome i res co = Encode OpWelcome (JObj [(''protocol_version'', JInt Version), (''your_id'', JStr i), (''room'', JStr (co_room co)),
     (''members'', if jr_Existing res = [] then JNull else JArr (map json_Member (jr_Existing res))),
     (''you_are_first'', JBool (jr_YouAreFirst res)),
     (''policy'', json_RoomPolicy \<lparr>rp_InviteOnly = False, rp_Webhook = False, rp_TTLSeconds = 0\<rparr>)])"

text \<open>The first frame of a connection whose peer has been authenticated: the member's id when
  it is admitted. A refusal closes the connection.\<close>

definition co_admit :: "bytes \<Rightarrow> bytes \<Rightarrow> conn \<Rightarrow> Envelope option \<Rightarrow> Coordinator \<Rightarrow> Coordinator \<times> effect list \<times> string option" where
  "co_admit peerPub rid c first co =
    (case first of
       None \<Rightarrow> (co, [Close c], None)
     | Some env \<Rightarrow>
        (if ev_Type env \<noteq> OpHello then (co, [Close c], None)
         else case Decode decode_Hello env of
                None \<Rightarrow> (co, [Close c], None)
              | Some hello \<Rightarrow>
                 (if slice (he_IdentityKey hello) \<noteq> peerPub
                    then (co, [Send c (Encode OpError (json_Error ''identity_mismatch'' ''hello key does not match the authenticated connection'')), Close c], None)
                  else if he_Room hello \<noteq> [] \<and> he_Room hello \<noteq> co_room co
                    then (co, [Send c (Encode OpError (json_Error ''wrong_room'' ''this peer hosts a different room'')), Close c], None)
                  else let i = newID rid; m = member_of i c hello; (co', res) = co_join m co
                       in (co',
                           [Send c (co_welcome i res co')]
                           @ co_broadcast i (Encode OpMemberJoined (json_MemberJoined (hm_Info m))) co'
                           @ (case jr_Distributor res of
                                Some d \<Rightarrow> send_all [hm_Send d] (Encode OpKeyRequest (json_KeyRequest (hm_Info m)))
                              | None \<Rightarrow> []),
                           Some i))))"

definition co_depart :: "string \<Rightarrow> conn \<Rightarrow> Coordinator \<Rightarrow> Coordinator \<times> effect list" where
  "co_depart i c co =
    (let co = fst (co_leave i co)
     in (co, co_broadcast i (Encode OpMemberLeft (json_MemberLeft i)) co @ [Close c]))"

definition acceptConn :: "Prims \<Rightarrow> bytes option \<Rightarrow> bytes option \<Rightarrow> bytes option \<Rightarrow> bytes \<Rightarrow> conn \<Rightarrow> Envelope option \<Rightarrow> Coordinator \<Rightarrow>
    Coordinator \<times> effect list \<times> string option" where
  "acceptConn c rnd peerB peerProofB rid cn first co =
    (case snd (performAuth c (co_id co) [] rnd peerB peerProofB) of
       Inl _ \<Rightarrow> (co, [Close cn], None)
     | Inr peerPub \<Rightarrow> co_admit peerPub rid cn first co)"

section \<open>Frames survive the wire\<close>

lemma of_be32_be32: "n < 2 ^ 32 \<Longrightarrow> of_be32 (be32 n) = n"
proof -
  assume n: "n < 2 ^ 32"
  define x where "x = n div 256"
  define y where "y = x div 256"
  have "n div 256 ^ 2 = y" "n div 256 ^ 3 = y div 256" by (simp_all add: x_def y_def div_mult2_eq [symmetric])
  moreover have "y div 256 < 256" using n by (simp add: x_def y_def div_mult2_eq [symmetric] less_mult_imp_div_less)
  ultimately have "of_be32 (be32 n) = ((y div 256 * 256 + y mod 256) * 256 + x mod 256) * 256 + n mod 256"
    by (simp add: of_be32_def be32_def x_def [symmetric])
  then show ?thesis by (simp add: x_def y_def)
qed

lemma length_be32 [simp]: "length (be32 n) = 4"
  by (simp add: be32_def)

lemma readFrame_writeFrame:
  assumes "writeFrame b = Some w"
  shows "readFrame (w @ rest) = Inr (b, rest)"
proof -
  have l: "length b \<le> maxFrameBytes" "w = be32 (length b) @ b" using assms by (auto simp: writeFrame_def split: if_splits)
  then have "of_be32 (be32 (length b)) = length b" by (intro of_be32_be32) (simp add: maxFrameBytes_def)
  then show ?thesis using l by (simp add: readFrame_def)
qed

section \<open>Blobs\<close>

lemma blob_names: "plain_name ''v''" "plain_name ''pub''" "plain_name ''kx_pub''" "plain_name ''addrs''"
  by code_simp+

lemma addrs_field_json [simp]: "strs_field upd s (json_addrs xs) = Some (upd xs s)"
proof -
  have "decode_all json_string (map JStr ys) = Some ys" for ys by (induction ys) auto
  then show ?thesis by (cases xs) simp_all
qed

interpretation blob: payload json_blob decode_blob "\<lambda>b. int64 (bl_V b) \<and> int64 (bl_Expires b)"
  by unfold_locales (simp add: json_blob_def decode_blob_def strict_struct_plain blob_names del: strict_struct.simps(2))

definition graphic :: "char \<Rightarrow> bool" where
  "graphic ch \<longleftrightarrow> (let n = of_char ch :: nat in 32 < n \<and> n < 127)"

lemma space_heads: "list_all (\<lambda>x. \<not> graphic (hd x)) spaces" "list_all (\<lambda>x. \<not> graphic (hd x)) (map rev spaces)"
  by code_simp+

lemma trim_left_graphic:
  assumes "list_all (\<lambda>x. \<not> graphic (hd x)) ws" "graphic (hd s)" "s \<noteq> []"
  shows "trim_left ws s = s"
proof -
  have "\<not> (x \<noteq> [] \<and> has_prefix x s)" if "x \<in> set ws" for x
    using assms that by (cases x; cases s) (auto simp: has_prefix_def list_all_iff)
  then have "find (\<lambda>x. x \<noteq> [] \<and> has_prefix x s) ws = None" by (simp add: find_None_iff)
  then show ?thesis by (simp add: trim_left.simps)
qed

lemma trim_space_graphic: "s \<noteq> [] \<Longrightarrow> graphic (hd s) \<Longrightarrow> graphic (last s) \<Longrightarrow> trim_space s = s"
  unfolding trim_space_def using trim_left_graphic [OF space_heads(1), of s] trim_left_graphic [OF space_heads(2), of "rev s"] by (simp add: hd_rev)

lemma split_at_line: "x \<notin> set l \<Longrightarrow> split_at x (l @ x # rest) = l # split_at x rest"
  by (induction l) auto

lemma split_at_last: "x \<notin> set l \<Longrightarrow> split_at x l = [l]"
  by (induction l) auto

lemma split_at_lines:
  "\<forall>l \<in> set ls. x \<notin> set l \<Longrightarrow> x \<notin> set e \<Longrightarrow> split_at x (concat (map (\<lambda>l. l @ [x]) ls) @ e) = ls @ [e]"
  by (induction ls) (simp_all add: split_at_line split_at_last)

lemma lines_of_spec:
  "0 < k \<Longrightarrow> concat (lines_of k s) = s \<and> (\<forall>l \<in> set (lines_of k s). l \<noteq> [] \<and> set l \<subseteq> set s)"
proof (induction k s rule: lines_of.induct)
  case (1 k s)
  show ?case
  proof (cases "s = []")
    case True
    then show ?thesis by (simp add: lines_of.simps)
  next
    case False
    then have "lines_of k s = take k s # lines_of k (drop k s)" using 1(2) by (subst lines_of.simps) simp
    then show ?thesis using 1 False set_take_subset [of k s] set_drop_subset [of k s] by auto
  qed
qed

text \<open>The alphabet of base 64.\<close>

definition b64_plain :: "char \<Rightarrow> bool" where
  "b64_plain ch \<longleftrightarrow> graphic ch \<and> (of_char ch :: nat) \<noteq> 45"

lemma b64_chr_plain64: "n < 64 \<Longrightarrow> b64_plain (b64_chr False n)"
  by (auto simp: b64_plain_def graphic_def b64_chr_def Let_def)

lemma sextets_plain:
  assumes "ch \<in> set (map (b64_chr False) (take k (sextets x y z)))" "x < 256" "y < 256" "z < 256"
  shows "b64_plain ch"
  using assms(1) sextets_small [OF assms(2-4)] b64_chr_plain64 by (auto simp: list_all_iff dest: in_set_takeD)

lemma std_encode_plain: "ch \<in> set (std_encode bs) \<Longrightarrow> b64_plain ch"
  unfolding std_encode_def
proof (induction False True bs rule: b64_encode.induct)
  case (2 a)
  have "b64_plain CHR ''=''" by code_simp
  then show ?case using 2 sextets_plain [of ch 2 "of_char a" 0 0] by auto
next
  case (3 a b)
  have "b64_plain CHR ''=''" by code_simp
  then show ?case using 3 sextets_plain [of ch 3 "of_char a" "of_char b" 0] by auto
next
  case (4 a b d cs)
  then show ?case using sextets_plain [of ch 4 "of_char a" "of_char b" "of_char d"] by (auto simp: sextets_def)
qed simp

lemma b64_line:
  assumes "l \<noteq> []" "\<forall>ch \<in> set l. b64_plain ch"
  shows "trim_space l = l" "\<not> has_prefix ''----'' l" "newline \<notin> set l"
proof -
  show "trim_space l = l" using assms by (intro trim_space_graphic) (auto simp: b64_plain_def)
  show "\<not> has_prefix ''----'' l" using assms by (cases l) (auto simp: has_prefix_def b64_plain_def)
  have "\<not> b64_plain newline" by code_simp
  then show "newline \<notin> set l" using assms by auto
qed

lemma armor_lines:
  "newline \<notin> set offerBegin \<and> newline \<notin> set offerEnd \<and> newline \<notin> set answerBegin \<and> newline \<notin> set answerEnd"
  "list_all (\<lambda>l. l \<noteq> [] \<and> graphic (hd l) \<and> graphic (last l) \<and> has_prefix ''----'' l) [offerBegin, offerEnd, answerBegin, answerEnd]"
  by code_simp+

lemma unarmor_Armor: "unarmor (Armor c label b) = Compact c b"
proof -
  obtain h f where hf: "(if label = ''answer'' then (answerBegin, answerEnd) else (offerBegin, offerEnd)) = (h, f)" by fastforce
  then have m: "newline \<notin> set h" "newline \<notin> set f" "trim_space h = h" "trim_space f = f" "has_prefix ''----'' h" "has_prefix ''----'' f"
    using armor_lines trim_space_graphic by (auto split: if_splits)
  let ?ls = "lines_of 64 (Compact c b)"
  have ls: "concat ?ls = Compact c b" "\<forall>l \<in> set ?ls. l \<noteq> [] \<and> (\<forall>ch \<in> set l. b64_plain ch)"
    using lines_of_spec [of 64 "Compact c b"] std_encode_plain by (auto simp: Compact_def)
  have "split_at newline (Armor c label b) = h # ?ls @ [f]"
    using m ls(2) b64_line(3) split_at_line [of newline h] split_at_lines [of ?ls newline f] by (simp add: Armor_def hf)
  moreover have "map trim_space ?ls = ?ls" using ls(2) b64_line(1) by (intro map_idI) blast
  moreover have "filter (\<lambda>l. \<not> (l = [] \<or> has_prefix ''----'' l)) ?ls = ?ls" using ls(2) b64_line(2) by (intro filter_True) blast
  ultimately show ?thesis using m ls(1) by (simp add: unarmor_def)
qed

lemma unarmor_Compact: "unarmor (Compact c b) = Compact c b"
proof (cases "Compact c b = []")
  case True
  have "trim_space [] = []" by code_simp
  then show ?thesis using True by (simp add: unarmor_def)
next
  case False
  have p: "\<forall>ch \<in> set (Compact c b). b64_plain ch" using std_encode_plain by (auto simp: Compact_def)
  show ?thesis using b64_line [OF False p] split_at_last [of newline "Compact c b"] False by (simp add: unarmor_def)
qed

text \<open>What a verified blob has passed.\<close>

definition blob_signed :: "Prims \<Rightarrow> Blob \<Rightarrow> bytes \<Rightarrow> bool" where
  "blob_signed c b pub \<longleftrightarrow> bl_V b = blobVersion \<and> std_decode (bl_Pub b) = Some pub \<and> length pub = PublicKeySize \<and> Fingerprint c pub = bl_Fpr b \<and>
     (\<exists>sig. std_decode (bl_Sig b) = Some sig \<and> pr_verify c pub (blob_signingBytes c b) sig)"

lemma blob_Verify_None: "blob_Verify c now b = None \<longleftrightarrow> unix now \<le> bl_Expires b \<and> (\<exists>pub. blob_signed c b pub)"
  by (auto simp: blob_Verify_def blob_signed_def blob_PublicKey_def split: option.splits)

lemma blob_Verify_expired: "blob_signed c b pub \<Longrightarrow> bl_Expires b < unix now \<Longrightarrow> blob_Verify c now b = Some (BlobExpired (bl_Expires b))"
  by (auto simp: blob_Verify_def blob_signed_def blob_PublicKey_def)

lemma NewBlob_signed:
  assumes "signs_ok c i"
  shows "\<exists>b. NewBlob c i (Some n) now room addrs = Inr b \<and> blob_signed c b (ki_SignPub i) \<and> bl_Room b = room \<and> bl_Addrs b = addrs \<and>
    bl_Expires b = unix (now + BlobTTL) \<and> bl_KXPub b = std_encode (ki_KXPub i)"
proof -
  let ?b = "\<lparr>bl_V = blobVersion, bl_Pub = std_encode (ki_SignPub i), bl_Fpr = IdFingerprint c i, bl_KXPub = std_encode (ki_KXPub i),
               bl_Addrs = addrs, bl_Room = room, bl_Nonce = hex_encode n, bl_Expires = unix (now + BlobTTL), bl_Sig = []\<rparr>"
  obtain sg where s: "IdSign i (blob_signingBytes c ?b) = Some sg" "pr_verify c (ki_SignPub i) (blob_signingBytes c ?b) sg"
    using assms unfolding signs_ok_def by blast
  then show ?thesis using assms
    by (intro exI [of _ "?b\<lparr>bl_Sig := std_encode sg\<rparr>"])
      (simp add: NewBlob_def blob_signed_def signs_ok_def IdFingerprint_def blob_signingBytes_def json_blobCore_def)
qed

text \<open>Claim C34. A pairing blob survives being passed on: what a peer mints parses back to the same signed
  blob, as an armoured block under either header and as one bare line, for 300 seconds; after
  that it is refused as expired. It names the minting peer's own key, room and addresses.\<close>

theorem pairing_blob_round_trip:
  assumes "signs_ok c i" "\<And>b. pr_scan c (pr_marshal c (json_blob b)) = Some (json_blob b, [])" "int64 (unix (now + BlobTTL))"
  shows "\<exists>b. NewBlob c i (Some n) now room addrs = Inr b \<and> bl_Room b = room \<and> bl_Addrs b = addrs \<and> blob_PublicKey b = Some (ki_SignPub i) \<and>
    (\<forall>t label. ParseBlob c t (Armor c label b) = (if unix t \<le> unix (now + BlobTTL) then Inr b else Inl (BlobExpired (bl_Expires b))) \<and>
      ParseBlob c t (Compact c b) = ParseBlob c t (Armor c label b))"
proof -
  obtain b where b: "NewBlob c i (Some n) now room addrs = Inr b" "blob_signed c b (ki_SignPub i)" "bl_Room b = room" "bl_Addrs b = addrs"
      "bl_Expires b = unix (now + BlobTTL)" using NewBlob_signed [OF assms(1)] by blast
  have "int64 (bl_V b)" using b(2) by (simp add: blob_signed_def blobVersion_def int64_def)
  then have d: "decode_blob (json_blob b) = Some b" using blob.dec_enc b(5) assms(3) by simp
  have p: "ParseBlob c t x = (if unix t \<le> unix (now + BlobTTL) then Inr b else Inl (BlobExpired (bl_Expires b)))" if "unarmor x = Compact c b" for t x
    using that d assms(2) [of b] b(2,5) blob_Verify_None [of c t b] blob_Verify_expired [OF b(2), of t]
    by (auto simp: ParseBlob_def Compact_def split: option.split)
  then show ?thesis using b p [OF unarmor_Armor] p [OF unarmor_Compact]
    by (intro exI [of _ b]) (auto simp: blob_signed_def blob_PublicKey_def)
qed

section \<open>Peers\<close>

lemma dialAny_Inr: "dialAny dial e as = Inr dt \<Longrightarrow> \<exists>a \<in> set as. dial a = Inr dt"
  by (induction dial e as rule: dialAny.induct) (auto split: sum.splits)

text \<open>Every fingerprint is offered once, and only for the room asked for.\<close>

lemma browse_spec:
  "distinct (map pe_Fpr (browse room seen es)) \<and> set seen \<inter> pe_Fpr ` set (browse room seen es) = {} \<and>
    (\<forall>p \<in> set (browse room seen es). pe_Fpr p \<noteq> [] \<and> (room = [] \<or> pe_Room p = room))"
proof (induction room seen es rule: browse.induct)
  case (2 room seen e es)
  have "peerFromEntry e = Some p \<Longrightarrow> pe_Fpr p \<noteq> []" for p
    by (auto simp: peerFromEntry_def Let_def split: if_splits option.splits)
  then show ?case
  proof (cases "peerFromEntry e")
    case None
    then show ?thesis using 2(1) by simp
  next
    case (Some p)
    then have p: "pe_Fpr p \<noteq> []" using \<open>\<And>p. peerFromEntry e = Some p \<Longrightarrow> pe_Fpr p \<noteq> []\<close> by blast
    show ?thesis
    proof (cases "room \<noteq> [] \<and> pe_Room p \<noteq> room \<or> pe_Fpr p \<in> set seen")
      case True
      then show ?thesis using 2(2,3) Some by auto
    next
      case False
      then have "browse room seen (e # es) = p # browse room (pe_Fpr p # seen) es" using Some by auto
      then show ?thesis using 2(4) [OF Some] False p by auto
    qed
  qed
qed simp

text \<open>A block pasted line by line is read to its last line, and what follows is left alone.\<close>

lemma read_lines_started:
  "\<forall>l \<in> set ls. \<not> has_prefix ''----END'' (trim_space l) \<Longrightarrow> has_prefix ''----END'' (trim_space e) \<Longrightarrow>
   read_lines True (ls @ e # rest) sb = sb @ concat (map (\<lambda>l. l @ [newline]) ls) @ e @ [newline]"
  by (induction ls arbitrary: sb) (simp_all add: Let_def)

section \<open>Authentication\<close>

interpretation auth_hello: payload json_authHello decode_authHello "\<lambda>h. int64 (ah_V h)"
  by unfold_locales (simp add: json_authHello_def decode_authHello_def names blob_names del: decode_struct.simps(2))

interpretation auth_proof: payload json_authProof decode_authProof "\<lambda>_. True"
  by unfold_locales (simp add: json_authProof_def decode_authProof_def names del: decode_struct.simps(2))

text \<open>The library reads back what it writes.\<close>

definition reads_back :: "Prims \<Rightarrow> bool" where
  "reads_back c \<longleftrightarrow> (\<forall>j. pr_json c (pr_marshal c j) = Some j)"

lemma hello_frame:
  "reads_back c \<Longrightarrow> Option.bind (pr_json c (authHelloFrame c i n)) decode_authHello = Some \<lparr>ah_V = 1, ah_Pub = Some (ki_SignPub i), ah_Nonce = Some n\<rparr>"
  by (simp add: authHelloFrame_def reads_back_def auth_hello.dec_enc int64_def)

lemma proof_frame: "reads_back c \<Longrightarrow> Option.bind (pr_json c (pr_marshal c (json_authProof x))) decode_authProof = Some x"
  by (simp add: reads_back_def auth_proof.dec_enc)

lemma performAuth_Inr:
  "snd (performAuth c i expect rnd hb pb) = Inr pub \<longleftrightarrow>
    (\<exists>n h p ph psig sig. rnd = Some n \<and> hb = Some h \<and> pb = Some p \<and> Option.bind (pr_json c h) decode_authHello = Some ph \<and>
      slice (ah_Pub ph) = pub \<and> length pub = PublicKeySize \<and> slice (ah_Nonce ph) \<noteq> [] \<and>
      IdSign i (DirectAuthBytes (ki_SignPub i) n pub (slice (ah_Nonce ph))) = Some sig \<and>
      Option.bind (pr_json c p) decode_authProof = Some psig \<and>
      pr_verify c pub (DirectAuthBytes pub (slice (ah_Nonce ph)) (ki_SignPub i) n) (slice psig) \<and> (expect = [] \<or> Fingerprint c pub = expect))"
  by (auto simp: performAuth_def Let_def split: option.splits)

text \<open>Two peers that follow the protocol, each reading what the other wrote.\<close>

lemma handshake_completes:
  assumes "signs_ok c a" "reads_back c" "length pub = PublicKeySize" "nb \<noteq> []"
    and "Option.bind (pr_json c h) decode_authHello = Some \<lparr>ah_V = 1, ah_Pub = Some pub, ah_Nonce = Some nb\<rparr>"
    and "pr_verify c pub (DirectAuthBytes pub nb (ki_SignPub a) na) sig" "expect = [] \<or> Fingerprint c pub = expect"
  shows "\<exists>mine. IdSign a (DirectAuthBytes (ki_SignPub a) na pub nb) = Some mine \<and>
    pr_verify c (ki_SignPub a) (DirectAuthBytes (ki_SignPub a) na pub nb) mine \<and>
    performAuth c a expect (Some na) (Some h) (Some (pr_marshal c (json_authProof (Some sig)))) =
      ([authHelloFrame c a na, pr_marshal c (json_authProof (Some mine))], Inr pub)"
proof -
  obtain mine where "IdSign a (DirectAuthBytes (ki_SignPub a) na pub nb) = Some mine"
      "pr_verify c (ki_SignPub a) (DirectAuthBytes (ki_SignPub a) na pub nb) mine"
    using assms(1) unfolding signs_ok_def by blast
  then show ?thesis using assms(3-7) proof_frame [OF assms(2), of "Some sig"] by (intro exI [of _ mine]) (auto simp: performAuth_def slice_def)
qed

text \<open>Claim C22. What the handshake of a direct connection proves: a peer is accepted only with a signature
  under the accepted key over this very session, both keys and both nonces in their roles, and
  with the expected fingerprint if one is expected; the signed bytes determine all four, so
  that no signature made in another session, or in the other direction, will do.\<close>

theorem handshake_binds:
  assumes "snd (performAuth c i expect rnd hb pb) = Inr pub" "fits (ki_SignPub i)" "\<And>n. rnd = Some n \<Longrightarrow> fits n"
    and "\<And>h ph. hb = Some h \<Longrightarrow> Option.bind (pr_json c h) decode_authHello = Some ph \<Longrightarrow> fits (slice (ah_Nonce ph))"
  shows "length pub = PublicKeySize \<and> (expect = [] \<or> Fingerprint c pub = expect) \<and>
    (\<exists>n pn sig. rnd = Some n \<and> pr_verify c pub (DirectAuthBytes pub pn (ki_SignPub i) n) sig \<and>
      (\<forall>s n' p pn'. list_all fits [s, n', p, pn'] \<and> DirectAuthBytes s n' p pn' = DirectAuthBytes pub pn (ki_SignPub i) n \<longrightarrow>
        s = pub \<and> n' = pn \<and> p = ki_SignPub i \<and> pn' = n))"
proof -
  obtain n h p ph psig sig where a: "rnd = Some n" "hb = Some h" "Option.bind (pr_json c h) decode_authHello = Some ph" "length pub = PublicKeySize"
      "pr_verify c pub (DirectAuthBytes pub (slice (ah_Nonce ph)) (ki_SignPub i) n) (slice psig)" "expect = [] \<or> Fingerprint c pub = expect"
    using assms(1) unfolding performAuth_Inr by blast
  have "fits pub" using a(4) by (simp add: fits_def PublicKeySize_def)
  then have "sized (Direct pub (slice (ah_Nonce ph)) (ki_SignPub i) n)" using assms(2-4) a(1-3) by simp
  then have "s = pub \<and> n' = slice (ah_Nonce ph) \<and> p = ki_SignPub i \<and> pn' = n"
    if "list_all fits [s, n', p, pn']" "DirectAuthBytes s n' p pn' = DirectAuthBytes pub (slice (ah_Nonce ph)) (ki_SignPub i) n" for s n' p pn'
    using that DirectAuthBytes_inj [of s n' p pn' pub "slice (ah_Nonce ph)" "ki_SignPub i" n] by simp
  then show ?thesis using a by blast
qed

text \<open>Claim C24. The handshake has no check against reflection: a peer without any key that sends a host's own
  two frames back to it is accepted as the holder of the host's key, and the coordinator then
  admits its hello under that key as a member of the room.\<close>

theorem reflection_authenticates:
  assumes "signs_ok c (co_id co)" "reads_back c" "n \<noteq> []" "ev_Type env = OpHello" "Decode decode_Hello env = Some hello"
    and "he_IdentityKey hello = Some (ki_SignPub (co_id co))" "he_Room hello = co_room co"
  shows "\<exists>echo. fst (performAuth c (co_id co) [] (Some n) (Some (authHelloFrame c (co_id co) n)) (Some echo)) = [authHelloFrame c (co_id co) n, echo] \<and>
    snd (snd (acceptConn c (Some n) (Some (authHelloFrame c (co_id co) n)) (Some echo) rid cn (Some env) co)) = Some (newID rid)"
proof -
  let ?i = "co_id co"
  have len: "length (ki_SignPub ?i) = PublicKeySize" using assms(1) by (simp add: signs_ok_def)
  obtain sg where sg: "IdSign ?i (DirectAuthBytes (ki_SignPub ?i) n (ki_SignPub ?i) n) = Some sg"
      "pr_verify c (ki_SignPub ?i) (DirectAuthBytes (ki_SignPub ?i) n (ki_SignPub ?i) n) sg"
    using assms(1) unfolding signs_ok_def by blast
  from handshake_completes [OF assms(1,2) len assms(3) hello_frame [OF assms(2)] sg(2), of "[]"] sg(1)
  have "performAuth c ?i [] (Some n) (Some (authHelloFrame c ?i n)) (Some (pr_marshal c (json_authProof (Some sg)))) =
      ([authHelloFrame c ?i n, pr_marshal c (json_authProof (Some sg))], Inr (ki_SignPub ?i))" by auto
  then show ?thesis using assms(4-7)
    by (intro exI [of _ "pr_marshal c (json_authProof (Some sg))"]) (simp add: acceptConn_def co_admit_def slice_def split_beta Let_def)
qed

section \<open>The coordinator is a relay of one room\<close>

definition co_view :: "go_time \<Rightarrow> Coordinator \<Rightarrow> room" where
  "co_view t co = \<lparr>rr_members = co_members co, rr_order = co_order co, rr_lastActivity = t\<rparr>"

text \<open>The hub holds the members of the coordinator as its room of that name.\<close>

definition mirrors :: "Hub \<Rightarrow> Coordinator \<Rightarrow> bool" where
  "mirrors h co \<longleftrightarrow> (if co_members co = [] then mget (hub_rooms h) (co_room co) = None
     else \<exists>t. mget (hub_rooms h) (co_room co) = Some (co_view t co))"

definition co_ok :: "Coordinator \<Rightarrow> bool" where
  "co_ok co \<longleftrightarrow> (if co_members co = [] then co_order co = [] else room_ok (co_view 0 co))"

inductive co_reach :: "Coordinator \<Rightarrow> bool" where
  new: "co_reach (NewCoordinator room i)"
| admit: "co_reach co \<Longrightarrow> newID rid \<notin> set (keys (co_members co)) \<Longrightarrow> co_reach (fst (co_admit pub rid c first co))"
| depart: "co_reach co \<Longrightarrow> co_reach (fst (co_depart i c co))"
| close: "co_reach co \<Longrightarrow> co_reach (fst (co_Close co))"

lemma room_ok_time: "room_ok (co_view t co) \<longleftrightarrow> room_ok (co_view 0 co)"
  by (simp add: co_view_def room_ok_def)

lemma co_ok_join:
  assumes "co_ok co" "member_id m \<notin> set (keys (co_members co))" "hm_Send m \<noteq> None"
  shows "co_ok (fst (co_join m co))"
proof -
  have "room_ok (co_view 0 co) \<or> co_view 0 co = \<lparr>rr_members = [], rr_order = [], rr_lastActivity = 0\<rparr>"
    using assms(1) by (auto simp: co_ok_def co_view_def split: if_splits)
  moreover have "mget (rr_members (co_view 0 co)) (member_id m) = None" using assms(2) by (simp add: co_view_def mget_None_iff del: set_map)
  ultimately show ?thesis using room_ok_put [of "co_view 0 co" 0 m 0] assms(3) by (simp add: co_ok_def co_join_def co_view_def Let_def)
qed

lemma co_ok_leave: "co_ok co \<Longrightarrow> co_ok (fst (co_leave i co))"
proof -
  assume ok: "co_ok co"
  show ?thesis
  proof (cases "mdel i (co_members co) = []")
    case True
    have "set (keys (co_members co)) \<subseteq> {i}" using set_keys_mdel [of i "co_members co"] True by auto
    then have "set (co_order co) \<subseteq> {i}" "distinct (co_order co)" using ok
      by (auto simp: co_ok_def room_ok_def co_view_def simp del: set_map split: if_splits)
    then have "remove1 i (co_order co) = []" by (cases "co_order co"; cases "tl (co_order co)") auto
    then show ?thesis using True by (simp add: co_ok_def co_leave_def Let_def)
  next
    case False
    then have "co_members co \<noteq> []" by auto
    then show ?thesis using ok False room_ok_del [of "co_view 0 co" i] by (simp add: co_ok_def co_leave_def Let_def co_view_def)
  qed
qed

lemma co_reach_ok: "co_reach co \<Longrightarrow> co_ok co"
proof (induction rule: co_reach.induct)
  case (admit co rid pub c first)
  then show ?case using co_ok_join [of co "member_of (newID rid) c _"]
    by (auto simp: co_admit_def member_of_def Let_def split_beta split: option.split)
next
  case (depart co i c)
  then show ?case using co_ok_leave by (simp add: co_depart_def Let_def)
next
  case (close co)
  then show ?case by (cases "co_members co = []") (simp_all add: co_Close_def co_ok_def co_view_def)
qed (simp add: NewCoordinator_def co_ok_def)

lemma mirror_broadcast: "mirrors h co \<Longrightarrow> Broadcast (co_room co) e env h = co_broadcast e env co"
  by (auto simp: mirrors_def Broadcast_def recipients_def co_broadcast_def co_view_def split: if_splits)

lemma mirror_sendTo:
  assumes "mirrors h co" "co_ok co"
  shows "fst (SendTo (co_room co) i env h) = co_sendTo i env co"
proof (cases "mget (co_members co) i")
  case None
  then show ?thesis using assms(1) by (auto simp: mirrors_def SendTo_def co_sendTo_def co_view_def split: if_splits)
next
  case (Some m)
  then have "co_members co \<noteq> []" by auto
  then have "hm_Send m \<noteq> None" using assms(2) Some by (auto simp: co_ok_def co_view_def room_ok_iff)
  then show ?thesis using assms(1) Some \<open>co_members co \<noteq> []\<close> by (auto simp: mirrors_def SendTo_def co_sendTo_def co_view_def)
qed

lemma mirror_Touch: "mirrors h co \<Longrightarrow> mirrors (Touch now room h) co"
  by (auto simp: mirrors_def Touch_def co_view_def split: option.split if_splits)

lemma mirror_Join: "mirrors h co \<Longrightarrow> co_ok co \<Longrightarrow> snd (Join now (co_room co) m h) = snd (co_join m co) \<and> mirrors (fst (Join now (co_room co) m h)) (fst (co_join m co))"
  by (auto simp: mirrors_def Join_def co_join_def co_ok_def co_view_def Let_def split: if_splits)

lemma mirror_Leave: "mirrors h co \<Longrightarrow> co_ok co \<Longrightarrow> snd (Leave (co_room co) i h) = snd (co_leave i co) \<and> mirrors (fst (Leave (co_room co) i h)) (fst (co_leave i co))"
  by (auto simp: mirrors_def Leave_def removeLocked_def co_leave_def co_ok_def co_view_def Let_def split: if_splits)

lemma fanout_relayed: "op \<in> set fanout_ops \<Longrightarrow> op \<in> set message_ops"
  by (auto simp: fanout_ops_def message_ops_def opaque_ops_def)

lemma fanout_others: "OpKeyDeliver \<notin> set fanout_ops" "OpControl \<notin> set fanout_ops" "OpStreamUpdate \<notin> set fanout_ops" "OpStreamEnd \<notin> set fanout_ops"
  by (simp_all add: fanout_ops_def opcodes)


section \<open>A sample pair\<close>

instance json :: countable
  by countable_datatype

text \<open>A printer and reader of JSON documents: a document is the length of a text.\<close>

definition unary :: Prims where
  "unary = toy\<lparr>pr_marshal := \<lambda>j. replicate (to_nat j) CHR ''x'', pr_json := \<lambda>s. Some (from_nat (length s)),
     pr_scan := \<lambda>s. Some (from_nat (length s), [])\<rparr>"

lemma unary_ok: "reads_back unary" "pr_scan unary (pr_marshal unary j) = Some (j, [])" "signs_ok unary (toy_id x)"
  using toy_id_ok [of x] by (simp_all add: reads_back_def unary_def signs_ok_def toy_def)

theorem pairing_blob_round_trip_witness:
  "\<exists>b. NewBlob unary (toy_id CHR ''a'') (Some ''nonce'') 0 ''ops'' (Some [''10.0.0.1:7000'']) = Inr b \<and>
    ParseBlob unary (300 * second) (Armor unary ''offer'' b) = Inr b \<and> ParseBlob unary (301 * second) (Compact unary b) = Inl (BlobExpired 300)"
proof -
  have u: "unix (0 + BlobTTL) = 300" "unix (300 * second) = 300" "unix (301 * second) = 301" by (simp_all add: unix_def BlobTTL_def second_def)
  obtain b where b: "NewBlob unary (toy_id CHR ''a'') (Some ''nonce'') 0 ''ops'' (Some [''10.0.0.1:7000'']) = Inr b"
      "\<And>t label. ParseBlob unary t (Armor unary label b) = (if unix t \<le> unix (0 + BlobTTL) then Inr b else Inl (BlobExpired (bl_Expires b))) \<and>
        ParseBlob unary t (Compact unary b) = ParseBlob unary t (Armor unary label b)"
    using pairing_blob_round_trip [OF unary_ok(3) unary_ok(2), of 0 "CHR ''a''" "''nonce''" "''ops''" "Some [''10.0.0.1:7000'']"] u(1) by (auto simp: int64_def)
  have "bl_Expires b = 300" using b(1) u(1) by (auto simp: NewBlob_def Let_def split: option.splits)
  then show ?thesis using b(1) b(2) [of "300 * second" "''offer''"] b(2) [of "301 * second" "''offer''"] u by simp
qed

definition eve_hello :: Envelope where
  "eve_hello = Encode OpHello (JObj [(''protocol_version'', JInt 3), (''room'', JStr ''ops''), (''name'', JStr ''eve''),
     (''identity_key'', json_bytes (Some (toy_key CHR ''h'')))])"

definition eve :: Hello where
  "eve = \<lparr>he_ProtocolVersion = 3, he_Room = ''ops'', he_DisplayName = ''eve'', he_IdentityKey = Some (toy_key CHR ''h''), he_KXKey = None,
     he_InviteToken = [], he_Attestation = None\<rparr>"

lemma eve_hello: "ev_Type eve_hello = OpHello" "Decode decode_Hello eve_hello = Some eve"
proof -
  have "int64 3" by (simp add: int64_def)
  then have "decode_Hello (JObj [(''protocol_version'', JInt 3), (''room'', JStr ''ops''), (''name'', JStr ''eve''), (''identity_key'', json_bytes (Some (toy_key CHR ''h'')))]) = Some eve"
    unfolding decode_Hello_def eve_def by (simp add: names del: decode_struct.simps(2) json_bytes.simps)
  then show "ev_Type eve_hello = OpHello" "Decode decode_Hello eve_hello = Some eve" by (simp_all add: eve_hello_def Decode_def Encode_def)
qed

theorem reflection_authenticates_witness:
  "\<exists>echo. snd (snd (acceptConn unary (Some ''n'') (Some (authHelloFrame unary (toy_id CHR ''h'') ''n'')) (Some echo) ''id'' 7
     (Some eve_hello) (NewCoordinator ''ops'' (toy_id CHR ''h'')))) = Some (newID ''id'')"
  using reflection_authenticates [of unary "NewCoordinator ''ops'' (toy_id CHR ''h'')" "''n''", OF _ _ _ eve_hello, of "''id''" 7] unary_ok(1) unary_ok(3) [of "CHR ''h''"]
  by (auto simp: NewCoordinator_def toy_id_def eve_def)

theorem handshake_binds_witness:
  "\<exists>h p. snd (performAuth unary (toy_id CHR ''a'') [] (Some ''na'') (Some h) (Some p)) = Inr (toy_key CHR ''b'') \<and>
    (\<exists>pn sig. pr_verify unary (toy_key CHR ''b'') (DirectAuthBytes (toy_key CHR ''b'') pn (toy_key CHR ''a'') ''na'') sig)"
proof -
  let ?a = "toy_id CHR ''a''" and ?b = "toy_id CHR ''b''" and ?h = "authHelloFrame unary (toy_id CHR ''b'') ''nb''"
  have k: "ki_SignPub ?a = toy_key CHR ''a''" "ki_SignPub ?b = toy_key CHR ''b''" by (simp_all add: toy_id_def)
  obtain sg where sg: "pr_verify unary (ki_SignPub ?b) (DirectAuthBytes (ki_SignPub ?b) ''nb'' (ki_SignPub ?a) ''na'') sg"
    using unary_ok(3) [of "CHR ''b''"] unfolding signs_ok_def by blast
  have "length (ki_SignPub ?b) = PublicKeySize" using unary_ok(3) [of "CHR ''b''"] by (simp add: signs_ok_def)
  from handshake_completes [OF unary_ok(3,1) this _ hello_frame [OF unary_ok(1)] sg, of "[]"]
  have e: "snd (performAuth unary ?a [] (Some ''na'') (Some ?h) (Some (pr_marshal unary (json_authProof (Some sg))))) = Inr (ki_SignPub ?b)" by auto
  have f: "fits (ki_SignPub ?a)" by (simp add: k toy_key_def fits_def)
  have "fits (slice (ah_Nonce ph))" if "Some ?h = Some h" "Option.bind (pr_json unary h) decode_authHello = Some ph" for h ph
    using that hello_frame [OF unary_ok(1), of ?b "''nb''"] by (auto simp: slice_def fits_def)
  then have "\<exists>n pn sig. Some ''na'' = Some n \<and> pr_verify unary (ki_SignPub ?b) (DirectAuthBytes (ki_SignPub ?b) pn (ki_SignPub ?a) n) sig"
    using handshake_binds [OF e f] by (fastforce simp: fits_def)
  then show ?thesis using e k by auto
qed


end
