(* ===== verification/Spec2Isabelle.thy ===== *)
theory Spec2Isabelle
  imports Prelude Encoding Signing Wire Config Invite Ephemeral Beacon Transfers Hub ScuttleManager Store Relay Alerts Api RecordChain Sealed Sealer Attest Identity Files RecordIdentity Bodies RoomKeys ClientCore Rounds GoText Actions Minutes Proposals Closing Courier Streams Session Sneakernet
begin

text \<open>
  \<^bold>\<open>Netherchat: the relay, the client and the signed evidence they leave behind.\<close>

  \<^bold>\<open>The program.\<close> Netherchat is an end-to-end encrypted chat. A relay server (\<^verbatim>\<open>src/server\<close>) routes
  sealed frames between the members of a room and never holds a key. Clients (\<^verbatim>\<open>src/tui\<close>) sign
  what matters with Ed25519 identity keys: chat messages, record entries, seals, approvals,
  rosters, receipts, identity statements. The byte strings that signatures cover, and the
  wire format, are in \<^verbatim>\<open>src/protocol\<close>. Signed artifacts are verified offline, years later, from a
  file alone; the relay must route without being able to misattribute, and must enforce
  invites, expiry and limits while connections come and go concurrently.

  \<^bold>\<open>Theories, in the order of the code.\<close>
  \<^item> \<open>Prelude\<close>: bytes, Go maps as association lists, 64-bit integers, the interface locales
    \<open>prefix_code\<close> (a value peels off the front of its encoding) and the sweep contract shared by the janitors.
  \<^item> \<open>Encoding\<close>: hexadecimal and base 64 of the Go library, with round trips.
  \<^item> \<open>Signing\<close> (\<^verbatim>\<open>protocol/*signing.go\<close>, \<^verbatim>\<open>direct.go\<close>): the sixteen byte layouts that signatures cover.
    Main result: they are injective and domain separated.
  \<^item> \<open>Wire\<close> (\<^verbatim>\<open>protocol/protocol.go\<close>, \<^verbatim>\<open>ext.go\<close>, \<^verbatim>\<open>file.go\<close>): opcodes, envelopes, the payloads the relay reads and
    writes, as JSON documents; locale \<open>payload\<close> is what every payload type promises.
  \<^item> \<open>Config\<close> (\<^verbatim>\<open>server/config/config.go\<close>): policies, normalisation, validation, bounds.
  \<^item> \<open>Invite\<close>, \<open>Ephemeral\<close>, \<open>Beacon\<close>, \<open>Transfers\<close>, \<open>Store\<close> (\<^verbatim>\<open>server/internal/...\<close>): one-time tokens, war rooms,
    status beacons, the transfer limit, and the replay buffer (locale \<open>message_store\<close>).
  \<^item> \<open>Hub\<close> (\<^verbatim>\<open>server/internal/hub/hub.go\<close>): rooms and membership. Each operation is one critical section;
    \<open>hub_reach\<close> is the set of hubs any interleaving reaches, and the hub refines a list of
    members per room.
  \<^item> \<open>ScuttleManager\<close> (\<^verbatim>\<open>server/internal/scuttle/scuttle.go\<close>): janitors and countdowns as interleaved
    critical sections over the hub's contract (locale \<open>scuttle_hub\<close>).
  \<^item> \<open>Relay\<close> (\<^verbatim>\<open>server/internal/ws/server.go\<close>): handshake, relaying of every frame type, break-glass, departure,
    outbound queues. It composes all server components; the state is the record \<open>Server\<close>, and what
    a handler sends is a list of effects.
  \<^item> \<open>Alerts\<close>, \<open>Api\<close> (\<^verbatim>\<open>server/internal/alert/alert.go\<close>, \<^verbatim>\<open>route/route.go\<close>, \<^verbatim>\<open>api/*.go\<close>): inbound alerts, routing rules and the
    HTTP interface on top of \<open>Server\<close>: webhook, alert socket, the war rooms both open, beacons.
    The token bucket, HMAC, regular expressions and number formatting are parameters.
  \<^item> \<open>RecordChain\<close>, \<open>Sealed\<close>, \<open>Sealer\<close> (\<^verbatim>\<open>tui/record/record.go\<close>, \<^verbatim>\<open>artifact.go\<close>, \<^verbatim>\<open>sealed.go\<close>, \<^verbatim>\<open>sealer.go\<close>): the hash chain of
    entries, sealed records and their offline verifier, and the sealer that assembles them.
  \<^item> \<open>Attest\<close>, \<open>Identity\<close>, \<open>Files\<close>, \<open>RecordIdentity\<close> (\<^verbatim>\<open>tui/attest/*.go\<close>, \<^verbatim>\<open>tui/record/identity.go\<close>): rosters, scuttle
    receipts, identity statements and revocations, reading all of them from disk, identities inside
    records, and which name may be drawn for a key.
  \<^item> \<open>Bodies\<close>, \<open>RoomKeys\<close> (\<^verbatim>\<open>protocol/ext.go\<close>, \<^verbatim>\<open>artifact.go\<close>, \<^verbatim>\<open>stream.go\<close>, \<^verbatim>\<open>tui/internal/crypto/*.go\<close>): the bodies inside sealed
    frames, and room keys, sealing, wrapping, beacons and authentication words over a cipher
    that is a parameter (the record \<open>Cipher\<close>); opening panics for a nonce of the wrong length, as the
    library does, and a panic is a value of the model.
  \<^item> \<open>ClientCore\<close> (\<^verbatim>\<open>tui/client/client.go\<close>, \<^verbatim>\<open>events.go\<close>): the client's state as the record \<open>Client\<close>, with what it emits and
    queues as lists, all events, the ways out, membership. \<open>GoText\<close> holds the Go text functions used.
  \<^item> \<open>Rounds\<close>, \<open>Actions\<close>, \<open>Minutes\<close>, \<open>Proposals\<close> (\<^verbatim>\<open>tui/client/cosign.go\<close>, \<^verbatim>\<open>roster.go\<close>, \<^verbatim>\<open>receipt.go\<close>, \<^verbatim>\<open>action.go\<close>, \<^verbatim>\<open>record.go\<close>,
    \<^verbatim>\<open>clock.go\<close>, \<^verbatim>\<open>identity.go\<close>, \<^verbatim>\<open>artifact.go\<close>): the features of the client, one handler or command per function,
    each with the step relation of its inputs and the invariant that holds along it.
  \<^item> \<open>Closing\<close>, \<open>Courier\<close>, \<open>Streams\<close> (\<^verbatim>\<open>client.go\<close>, \<^verbatim>\<open>file.go\<close>, \<^verbatim>\<open>stream.go\<close>): the write loop and what a close loses, file
    transfers, live log streams.
  \<^item> \<open>Session\<close> (\<^verbatim>\<open>client.go\<close>): commands, the key hand-over, and \<open>handle\<close>, which takes every frame to the
    feature it belongs to and so composes all client theories.

  \<^item> \<open>Sneakernet\<close> (\<^verbatim>\<open>tui/sneakernet/*.go\<close>): rooms without a relay: frames, pairing blobs, the mutual handshake,
    and the coordinator, which refines to one room of \<open>Hub\<close> and \<open>Relay\<close>.

  \<^bold>\<open>What the theorems show.\<close> Server: frames carry the sender's own id and reach exactly the
  members of the sender's room; admission is exact; the registry invariant holds under every
  interleaving; tokens are used once; burns, expiry and deadlines do what they say; limits
  hold; an alert can do no more than open a war room, which admits its invitees; a flood of
  rejected requests changes nothing for the others. Evidence: a verdict of every verifier is characterised exactly (records, rosters,
  receipts, identities); what the constructors assemble verifies; a chain head commits to
  every entry; only second persons count as approvers; identity verdicts do not depend on the
  order of pins and never change a record's validity. Client: a session stays well formed
  under every input; a frame has no effect unless it opens under the key held; the key a
  newcomer is handed is the room's; messages and files arrive as sent; a vanish leaves
  nothing that opens older frames; privileged actions and artifacts need second persons;
  every roster, receipt and sealed record a client announces passes its own verifier; a
  close names what it loses. Without a relay: pairing blobs expire and survive pasting; the
  handshake binds both keys and nonces; a coordinator routes as the relay does. Properties of kind error show where the code does not do this.

  \<^bold>\<open>Library code.\<close> SHA-256, Ed25519 verification, SSH fingerprints, the JSON lexer and printer and
  RFC 3339 times are parameters (the record \<open>Prims\<close>); a property that needs something of them
  says so as a hypothesis (digests have 32 bytes; a signature an author makes verifies; pinned
  keys have distinct fingerprints; the lexer returns the printed document) and its witness
  instantiates them. Nothing assumes that hashes are injective: tamper evidence is stated up to
  an exhibited collision. Clock readings, random draws and new ids are arguments.

  \<^bold>\<open>Loops and fuel.\<close> All loops are structural recursions, except the search for a fresh war-room
  name, which draws until a name is free: it takes the list of draws, and the termination
  properties say it returns as soon as one draw names a free room.

  \<^bold>\<open>Concurrency.\<close> A handler or command that the code runs under its lock is one step. The client
  releases its lock between reading the room key and using it; the steps here are whole
  handlers, so that a race between a vanish and a message being sealed is not a trace of the
  model. Timers are inputs that may fire at any time.

  \<^bold>\<open>Not modelled.\<close> The SQLite store, process start-up, HTTP, Tor, dialling and the sockets
  themselves, reading key files and the SSH agent (I/O); rendering of minutes and reports;
  the terminal UI and the browser client; the sockets, mDNS and the interactive
  session of direct pairing; event log and duress packages;
  command-line programs.
\<close>

section \<open>From client to client\<close>

lemma seal_queues:
  assumes "aead_ok (w_ci w)" "signs_ok (w_pr w) (cl_id a)" "cl_rk a = Some rk" "w_rand w (cl_draws a) NonceSizeX = Some n" "length n = NonceSizeX"
  shows "\<exists>m. fst (sealAndSend w op pt a) = None \<and> cl_sendCh (snd (sealAndSend w op pt a)) = cl_sendCh a @ [Encode op (json_Message m)] \<and>
    message_ok m \<and> ms_FromID m = cl_selfID a \<and> ms_Epoch m = rk_Epoch rk \<and> go_bytes (ms_Nonce m) = n \<and>
    OpenMessage (w_ci w) (w_pr w) rk (ki_SignPub (cl_id a)) (cl_room a) (cl_selfID a) (ms_Epoch m) n (go_bytes (ms_Ciphertext m)) (go_bytes (ms_Sig m)) = Opened pt True"
proof -
  obtain ct sig where s: "SealMessage (w_ci w) (cl_id a) rk (cl_room a) (cl_selfID a) pt (Some n) = Inr (n, ct, sig)" "sig \<noteq> []"
      "OpenMessage (w_ci w) (w_pr w) rk (ki_SignPub (cl_id a)) (cl_room a) (cl_selfID a) (rk_Epoch rk) n ct sig = Opened pt True"
    using SealMessage_opens [OF assms(1,2,5)] by blast
  then show ?thesis using assms(3,4)
    by (intro exI [of _ "\<lparr>ms_FromID = cl_selfID a, ms_Epoch = rk_Epoch rk, ms_Nonce = Some n, ms_Ciphertext = Some ct, ms_Sig = Some sig\<rparr>"])
      (simp add: sealAndSend_def draw_def message_ok_def go_bytes_def enqueue_def)
qed



end
